(* ===== verification/Prelude.thy ===== *)
theory Prelude
  imports Main "HOL-Library.Word" "HOL-Library.Sublist"
begin

section \<open>Prelude: machine types, C strings, formatting and error results\<close>

text \<open>
  Shared vocabulary of the development: the fixed-width integer types of the C++ code,
  \<open>char\<close> arrays and C strings, the big-endian 16-bit length fields that the wire format, the
  record layer and the socket framing share, decimal output (\<open>printf("%u")\<close>,
  \<open>std::to_string\<close>), and the result type of code that throws (\<open>'e + 'a\<close>, \<open>Inl\<close> for the
  exception).  Text is \<open>string\<close>, a list of 8-bit characters, as a \<open>std::string\<close> is;
  binary data is \<open>bytes\<close>, as a \<open>std::vector<uint8_t>\<close> is.
\<close>

unbundle bit_operations_syntax

type_synonym u8 = "8 word"
type_synonym u16 = "16 word"
type_synonym u32 = "32 word"
type_synonym u64 = "64 word"
type_synonym bytes = "8 word list"

named_theorems len_simps \<open>lengths of encoded data\<close>
named_theorems rt_simps \<open>round trips of encoders and decoders\<close>
named_theorems keep_inv \<open>operations that keep an invariant\<close>

subsection \<open>Results of code that throws\<close>

text \<open>Sequencing of two steps, the first of which may throw.\<close>

definition and_then :: "'e + 'a \<Rightarrow> ('a \<Rightarrow> 'e + 'b) \<Rightarrow> 'e + 'b" where
  "and_then r k = (case r of Inl e \<Rightarrow> Inl e | Inr x \<Rightarrow> k x)"

lemma and_then_simps [simp]:
  "and_then (Inl e) k = Inl e"
  "and_then (Inr x) k = k x"
  by (simp_all add: and_then_def)

lemma and_then_Inr_iff:
  "and_then r k = Inr y \<longleftrightarrow> (\<exists>x. r = Inr x \<and> k x = Inr y)"
  by (cases r) auto

lemma and_then_InrE:
  assumes "and_then r k = Inr y"
  obtains x where "r = Inr x" and "k x = Inr y"
  using assms by (auto simp: and_then_Inr_iff)

text \<open>A step with a value or none, where none is reported as the exception \<open>e\<close>.\<close>

definition or_throw :: "'a option \<Rightarrow> 'e \<Rightarrow> 'e + 'a" where
  "or_throw v e = (case v of None \<Rightarrow> Inl e | Some x \<Rightarrow> Inr x)"

lemma or_throw_simps [simp]:
  "or_throw None e = Inl e"
  "or_throw (Some x) e = Inr x"
  by (simp_all add: or_throw_def)

lemma or_throw_Inr [simp]: "or_throw v e = Inr x \<longleftrightarrow> v = Some x"
  by (cases v) auto

subsection \<open>Character arrays and C strings\<close>

definition nul :: char where
  "nul = CHR 0x00"

text \<open>
  The C string held by a character array: its characters before the first NUL.  A read of an
  array that holds no NUL runs past the array in C; here it stops at the array's end, and the
  predicate \<open>terminated\<close> says where the two agree.
\<close>

definition cstr :: "string \<Rightarrow> string" where
  "cstr a = takeWhile (\<lambda>c. c \<noteq> nul) a"

definition terminated :: "string \<Rightarrow> bool" where
  "terminated a \<longleftrightarrow> nul \<in> set a"

definition zeros :: "nat \<Rightarrow> string" where
  "zeros n = replicate n nul"

text \<open>\<open>strncpy(dst, src, n)\<close>: at most \<open>n\<close> characters of the C string, then NULs up to \<open>n\<close>.\<close>

definition strncpy_into :: "string \<Rightarrow> string \<Rightarrow> nat \<Rightarrow> string" where
  "strncpy_into dst src n = take n (cstr src @ zeros n) @ drop n dst"

text \<open>What \<open>snprintf\<close> leaves in a buffer of \<open>n\<close> bytes.\<close>

definition snprintf_buf :: "nat \<Rightarrow> string \<Rightarrow> string" where
  "snprintf_buf n s = take (n - 1) s"

lemma length_zeros [simp, len_simps]: "length (zeros n) = n"
  by (simp add: zeros_def)

lemma cstr_Nil [simp]: "cstr [] = []"
  by (simp add: cstr_def)

lemma cstr_zeros [simp]: "cstr (zeros n) = []"
  by (cases n) (simp_all add: cstr_def zeros_def)

lemma nul_notin_cstr [simp]: "nul \<notin> set (cstr a)"
  by (auto simp: cstr_def dest: set_takeWhileD)

lemma cstr_id: "nul \<notin> set a \<Longrightarrow> cstr a = a"
  by (auto simp: cstr_def takeWhile_eq_all_conv)

lemma cstr_idem [simp]: "cstr (cstr a) = cstr a"
  by (simp add: cstr_id)

lemma length_cstr_le: "length (cstr a) \<le> length a"
  by (simp add: cstr_def length_takeWhile_le)

lemma length_cstr_less: "terminated a \<Longrightarrow> length (cstr a) < length a"
  by (metis cstr_def length_cstr_le le_neq_implies_less nul_notin_cstr
      takeWhile_eq_take take_all_iff terminated_def le_refl)

lemma cstr_append_nul: "nul \<notin> set a \<Longrightarrow> cstr (a @ nul # b) = a"
  by (auto simp: cstr_def takeWhile_append2 takeWhile_tail)

lemma cstr_append_zeros: "nul \<notin> set a \<Longrightarrow> cstr (a @ zeros n) = a"
  by (cases n) (simp_all add: zeros_def cstr_append_nul cstr_id)

lemma length_strncpy [len_simps]:
  "n \<le> length dst \<Longrightarrow> length (strncpy_into dst src n) = length dst"
  by (simp add: strncpy_into_def)

text \<open>Copying into a zeroed array with one byte to spare always leaves a C string.\<close>

lemma strncpy_zeros:
  "strncpy_into (zeros (Suc n)) src n = take n (cstr src) @ zeros (Suc n - length (take n (cstr src)))"
proof -
  have "drop n (zeros (Suc n)) = zeros 1"
    by (simp only: zeros_def drop_replicate) simp
  moreover have "take n (zeros n) = zeros n" and "take k (zeros n) = zeros (min k n)" for k
    by (simp_all add: zeros_def)
  moreover have "zeros a @ zeros b = zeros (a + b)" for a b
    by (simp add: zeros_def replicate_add)
  ultimately show ?thesis
    by (simp add: strncpy_into_def min_def Suc_diff_le)
qed

lemma cstr_strncpy_zeros [rt_simps]:
  "cstr (strncpy_into (zeros (Suc n)) src n) = take n (cstr src)"
proof -
  have "nul \<notin> set (take n (cstr src))"
    by (meson in_set_takeD nul_notin_cstr)
  then show ?thesis
    by (simp add: strncpy_zeros cstr_append_zeros del: length_take)
qed

lemma terminated_strncpy_zeros: "terminated (strncpy_into (zeros (Suc n)) src n)"
proof -
  have "0 < Suc n - length (take n (cstr src))"
    by simp
  then have "nul \<in> set (zeros (Suc n - length (take n (cstr src))))"
    by (simp add: zeros_def)
  then show ?thesis
    by (simp add: strncpy_zeros terminated_def del: length_take)
qed

text \<open>An array of \<open>n\<close> characters whose last one is NUL; copying \<open>n - 1\<close> characters into it keeps that.\<close>

definition sealed :: "nat \<Rightarrow> string \<Rightarrow> bool" where
  "sealed n a \<longleftrightarrow> length a = n \<and> a \<noteq> [] \<and> last a = nul"

lemma sealed_terminated: "sealed n a \<Longrightarrow> terminated a"
  by (metis last_in_set sealed_def terminated_def)

lemma sealed_length: "sealed n a \<Longrightarrow> length a = n"
  by (simp add: sealed_def)

lemma sealed_zeros [simp, keep_inv]: "0 < n \<Longrightarrow> sealed n (zeros n)"
  by (simp add: sealed_def zeros_def)

lemma sealed_strncpy [keep_inv]: "sealed (Suc n) a \<Longrightarrow> sealed (Suc n) (strncpy_into a s n)"
  by (auto simp: sealed_def strncpy_into_def last_append last_drop)

lemma length_snprintf [len_simps]: "0 < n \<Longrightarrow> length (snprintf_buf n s) < n"
  by (simp add: snprintf_buf_def)

lemma snprintf_fits: "length s < n \<Longrightarrow> snprintf_buf n s = s"
  by (simp add: snprintf_buf_def)

text \<open>The question mark that stands for an empty name in summaries and recorded lines.\<close>

definition or_question :: "string \<Rightarrow> string" where
  "or_question s = (if s = [] then ''?'' else s)"

subsection \<open>Bytes and characters\<close>

definition byte_of_char :: "char \<Rightarrow> u8" where
  "byte_of_char c = word_of_nat (of_char c)"

definition char_of_byte :: "u8 \<Rightarrow> char" where
  "char_of_byte b = char_of (unat b)"

definition to_bytes :: "string \<Rightarrow> bytes" where
  "to_bytes s = map byte_of_char s"

definition of_bytes :: "bytes \<Rightarrow> string" where
  "of_bytes b = map char_of_byte b"

lemma char_of_byte_of_char [simp, rt_simps]: "char_of_byte (byte_of_char c) = c"
proof -
  have "(of_char c :: nat) < 256"
    by simp
  then show ?thesis
    by (simp add: char_of_byte_def byte_of_char_def unat_of_nat)
qed

lemma byte_of_char_of_byte [simp, rt_simps]: "byte_of_char (char_of_byte b) = b"
proof -
  have "unat b < 256"
    using unsigned_less [of b, where 'a = nat] by simp
  then show ?thesis
    by (simp add: char_of_byte_def byte_of_char_def)
qed

lemma of_bytes_to_bytes [simp, rt_simps]: "of_bytes (to_bytes s) = s"
  by (simp add: of_bytes_def to_bytes_def comp_def)

lemma to_bytes_of_bytes [simp, rt_simps]: "to_bytes (of_bytes b) = b"
  by (simp add: of_bytes_def to_bytes_def comp_def)

lemma length_to_bytes [simp, len_simps]: "length (to_bytes s) = length s"
  by (simp add: to_bytes_def)

lemma length_of_bytes [simp, len_simps]: "length (of_bytes b) = length b"
  by (simp add: of_bytes_def)

subsection \<open>Big-endian 16-bit fields\<close>

text \<open>
  \<open>v >> 8\<close>, \<open>v & 0xff\<close> on the writing side, \<open>b0 << 8 | b1\<close> on the reading side: the same
  two expressions occur in \<open>wire.cpp\<close>, \<open>record.cpp\<close> and \<open>socket.cpp\<close>.
\<close>

definition be16 :: "u16 \<Rightarrow> bytes" where
  "be16 v = [ucast (drop_bit 8 v), ucast (v AND 0xff)]"

definition from_be16 :: "u8 \<Rightarrow> u8 \<Rightarrow> u16" where
  "from_be16 b0 b1 = push_bit 8 (ucast b0) OR ucast b1"

lemma length_be16 [simp, len_simps]: "length (be16 v) = 2"
  by (simp add: be16_def)

lemma bit_255 [simp]: "bit (255 :: int) n \<longleftrightarrow> n < 8"
proof -
  have "bit (mask 8 :: int) n \<longleftrightarrow> n < 8"
    by (simp only: bit_mask_iff) simp
  moreover have "(mask 8 :: int) = 255"
    by (simp add: mask_eq_exp_minus_1)
  ultimately show ?thesis
    by (simp only:)
qed

lemma bit_u8_high [simp]: "\<not> bit (b :: u8) (8 + n)"
  using bit_imp_le_length [of b "8 + n"] by auto

lemma from_be16_be16 [simp, rt_simps]:
  "from_be16 (ucast (drop_bit 8 v)) (ucast (v AND 0xff)) = v"
  by (rule bit_word_eqI) (auto simp: from_be16_def bit_simps not_less)

lemma be16_from_be16 [simp, rt_simps]: "be16 (from_be16 b0 b1) = [b0, b1]"
  by (auto simp: be16_def from_be16_def bit_simps intro!: bit_word_eqI)

lemma be16_inject [simp]: "be16 v = be16 w \<longleftrightarrow> v = w"
  by (metis be16_def from_be16_be16 list.inject)

subsection \<open>Little-endian integers\<close>

text \<open>The in-memory image of the host's (little-endian) integers, least significant byte first.\<close>

fun le_bytes :: "nat \<Rightarrow> nat \<Rightarrow> bytes" where
  "le_bytes 0 n = []"
| "le_bytes (Suc k) n = word_of_nat (n mod 256) # le_bytes k (n div 256)"

fun le_value :: "bytes \<Rightarrow> nat" where
  "le_value [] = 0"
| "le_value (b # bs) = unat b + 256 * le_value bs"

lemma length_le_bytes [simp, len_simps]: "length (le_bytes k n) = k"
  by (induction k arbitrary: n) auto

lemma le_value_le_bytes [rt_simps]: "n < 256 ^ k \<Longrightarrow> le_value (le_bytes k n) = n"
proof (induction k arbitrary: n)
  case 0
  then show ?case by simp
next
  case (Suc k)
  then have "n div 256 < 256 ^ k"
    by (simp add: less_mult_imp_div_less mult.commute)
  then show ?case
    by (simp add: Suc.IH unat_of_nat)
qed

lemma le_bytes_le_value [rt_simps]: "le_bytes (length bs) (le_value bs) = bs"
proof (induction bs)
  case (Cons b bs)
  have "unat b < 256"
    using unsigned_less [of b, where 'a = nat] by simp
  then show ?case
    using Cons by simp
qed simp

end
