(* ===== verification/Event.thy ===== *)
theory Event
  imports Prelude
begin

section \<open>The event schema shared by agent and analyzer\<close>

text \<open>
  \<open>common/event.h\<close>: the fixed-size \<open>struct security_event\<close>, its constants, and its memory
  image, which is what travels through the channel (the agent sends the bytes of the struct,
  the analyzer reinterprets the received bytes).  Character arrays keep their length.  The
  union with its \<open>type\<close> tag is the datatype \<open>payload\<close>; a tag outside the enum keeps the raw
  bytes of the union.
\<close>

definition PQSEC_COMM_LEN :: nat where "PQSEC_COMM_LEN = 16"
definition PQSEC_FILENAME_LEN :: nat where "PQSEC_FILENAME_LEN = 128"
definition PQSEC_ANCESTORS :: nat where "PQSEC_ANCESTORS = 4"

definition PQSEC_EVT_EXECVE :: u32 where "PQSEC_EVT_EXECVE = 1"
definition PQSEC_EVT_TCP_CONNECT :: u32 where "PQSEC_EVT_TCP_CONNECT = 2"
definition PQSEC_EVT_AGENT_DROP :: u32 where "PQSEC_EVT_AGENT_DROP = 3"
definition PQSEC_EVT_FILE_OPEN :: u32 where "PQSEC_EVT_FILE_OPEN = 4"

definition PQSEC_FA_WRITE :: u32 where "PQSEC_FA_WRITE = 1"
definition PQSEC_FA_CREATE :: u32 where "PQSEC_FA_CREATE = 2"
definition PQSEC_FA_SENSITIVE :: u32 where "PQSEC_FA_SENSITIVE = 4"
definition PQSEC_FA_EXEC :: u32 where "PQSEC_FA_EXEC = 8"

lemmas event_consts = PQSEC_COMM_LEN_def PQSEC_FILENAME_LEN_def PQSEC_ANCESTORS_def
  PQSEC_EVT_EXECVE_def PQSEC_EVT_TCP_CONNECT_def PQSEC_EVT_AGENT_DROP_def PQSEC_EVT_FILE_OPEN_def

lemmas access_consts = PQSEC_FA_WRITE_def PQSEC_FA_CREATE_def PQSEC_FA_SENSITIVE_def
  PQSEC_FA_EXEC_def

text \<open>The C test \<open>access & FLAG\<close>.\<close>

definition has_flag :: "u32 \<Rightarrow> u32 \<Rightarrow> bool" where
  "has_flag a f \<longleftrightarrow> a AND f \<noteq> 0"

record pqsec_ancestor =
  anc_pid :: u32
  anc_comm :: string

record pqsec_tcp_event =
  daddr :: u32
  dport :: u16
  family :: u8

record pqsec_file_event =
  fpath :: string
  access :: u32
  ino :: u64
  dev :: u32

record pqsec_drop_event =
  dropped :: u64
  dropped_total :: u64
  sent_total :: u64

datatype payload =
    U_execve string
  | U_tcp pqsec_tcp_event
  | U_drop pqsec_drop_event
  | U_file pqsec_file_event
  | U_other u32 bytes

record security_event =
  ev_pid :: u32
  ev_ppid :: u32
  ev_ts_ns :: u64
  ev_comm :: string
  ev_anc :: "pqsec_ancestor list"
  ev_u :: payload

fun payload_type :: "payload \<Rightarrow> u32" where
  "payload_type (U_execve _) = PQSEC_EVT_EXECVE"
| "payload_type (U_tcp _) = PQSEC_EVT_TCP_CONNECT"
| "payload_type (U_drop _) = PQSEC_EVT_AGENT_DROP"
| "payload_type (U_file _) = PQSEC_EVT_FILE_OPEN"
| "payload_type (U_other t _) = t"

definition ev_type :: "security_event \<Rightarrow> u32" where
  "ev_type e = payload_type (ev_u e)"

subsection \<open>Well-formed events\<close>

definition wf_ancestor :: "pqsec_ancestor \<Rightarrow> bool" where
  "wf_ancestor a \<longleftrightarrow> length (anc_comm a) = PQSEC_COMM_LEN"

fun wf_payload :: "payload \<Rightarrow> bool" where
  "wf_payload (U_execve f) \<longleftrightarrow> length f = PQSEC_FILENAME_LEN"
| "wf_payload (U_tcp _) \<longleftrightarrow> True"
| "wf_payload (U_drop _) \<longleftrightarrow> True"
| "wf_payload (U_file f) \<longleftrightarrow> length (fpath f) = PQSEC_FILENAME_LEN"
| "wf_payload (U_other t raw) \<longleftrightarrow> t \<notin> {1, 2, 3, 4} \<and> length raw = 152"

text \<open>The arrays have their declared lengths: true of every object of the C type.\<close>

definition wf_event :: "security_event \<Rightarrow> bool" where
  "wf_event e \<longleftrightarrow> length (ev_comm e) = PQSEC_COMM_LEN \<and> length (ev_anc e) = PQSEC_ANCESTORS \<and>
     list_all wf_ancestor (ev_anc e) \<and> wf_payload (ev_u e)"

fun terminated_payload :: "payload \<Rightarrow> bool" where
  "terminated_payload (U_execve f) \<longleftrightarrow> terminated f"
| "terminated_payload (U_file f) \<longleftrightarrow> terminated (fpath f)"
| "terminated_payload _ \<longleftrightarrow> True"

text \<open>
  Every array holds a NUL, so that the code's unbounded C-string reads of \<open>comm\<close>, \<open>filename\<close>
  and \<open>path\<close> stay inside their arrays.  The producers establish it; the analyzer does not check it.
\<close>

definition terminated_event :: "security_event \<Rightarrow> bool" where
  "terminated_event e \<longleftrightarrow> terminated (ev_comm e) \<and>
     list_all (\<lambda>a. terminated (anc_comm a)) (ev_anc e) \<and> terminated_payload (ev_u e)"

text \<open>\<open>security_event e{}\<close>: every byte zero.\<close>

definition zero_ancestor :: pqsec_ancestor where
  "zero_ancestor = \<lparr>anc_pid = 0, anc_comm = zeros PQSEC_COMM_LEN\<rparr>"

definition zero_event :: security_event where
  "zero_event = \<lparr>ev_pid = 0, ev_ppid = 0, ev_ts_ns = 0, ev_comm = zeros PQSEC_COMM_LEN,
     ev_anc = replicate PQSEC_ANCESTORS zero_ancestor, ev_u = U_other 0 (replicate 152 0)\<rparr>"

lemma wf_zero_event [simp]: "wf_event zero_event"
  by (simp add: wf_event_def zero_event_def wf_ancestor_def zero_ancestor_def event_consts
      list_all_iff)

lemma terminated_zeros [simp]: "terminated (zeros n) \<longleftrightarrow> 0 < n"
  by (auto simp: terminated_def zeros_def)

lemma terminated_zero_event [simp]: "terminated_event zero_event"
  by (simp add: terminated_event_def zero_event_def zero_ancestor_def event_consts
      list_all_iff)

lemma wf_event_with:
  assumes "wf_event e"
  shows "wf_event (e\<lparr>ev_pid := a\<rparr>)" "wf_event (e\<lparr>ev_ppid := b\<rparr>)" "wf_event (e\<lparr>ev_ts_ns := t\<rparr>)"
    "length c = PQSEC_COMM_LEN \<Longrightarrow> wf_event (e\<lparr>ev_comm := c\<rparr>)"
    "wf_payload u \<Longrightarrow> wf_event (e\<lparr>ev_u := u\<rparr>)"
  using assms by (simp_all add: wf_event_def)

lemma terminated_event_with:
  assumes "terminated_event e"
  shows "terminated_event (e\<lparr>ev_pid := a\<rparr>)" "terminated_event (e\<lparr>ev_ppid := b\<rparr>)"
    "terminated_event (e\<lparr>ev_ts_ns := t\<rparr>)"
    "terminated c \<Longrightarrow> terminated_event (e\<lparr>ev_comm := c\<rparr>)"
    "terminated_payload u \<Longrightarrow> terminated_event (e\<lparr>ev_u := u\<rparr>)"
  using assms by (simp_all add: terminated_event_def)

text \<open>Every array ends in a NUL: what the producers keep while they fill an event.\<close>

fun sealed_payload :: "payload \<Rightarrow> bool" where
  "sealed_payload (U_execve f) \<longleftrightarrow> sealed PQSEC_FILENAME_LEN f"
| "sealed_payload (U_file f) \<longleftrightarrow> sealed PQSEC_FILENAME_LEN (fpath f)"
| "sealed_payload u \<longleftrightarrow> wf_payload u"

definition sealed_event :: "security_event \<Rightarrow> bool" where
  "sealed_event e \<longleftrightarrow> sealed PQSEC_COMM_LEN (ev_comm e) \<and> length (ev_anc e) = PQSEC_ANCESTORS \<and>
     (\<forall>a \<in> set (ev_anc e). sealed PQSEC_COMM_LEN (anc_comm a)) \<and> sealed_payload (ev_u e)"

lemma sealed_event_wf: "sealed_event e \<Longrightarrow> wf_event e \<and> terminated_event e"
  by (cases "ev_u e") (auto simp: sealed_event_def wf_event_def terminated_event_def wf_ancestor_def
      list_all_iff dest: sealed_length sealed_terminated)

lemma sealed_zero_event: "sealed_event zero_event"
  by (simp add: sealed_event_def zero_event_def zero_ancestor_def event_consts)

subsection \<open>The memory image\<close>

text \<open>
  Offsets of the x86-64 layout: \<open>type\<close> 0, \<open>pid\<close> 4, \<open>ppid\<close> 8, padding 12, \<open>ts_ns\<close> 16, \<open>comm\<close> 24,
  \<open>anc\<close> 40 (four times 20 bytes), the union 120; 272 bytes in all.
\<close>

definition le16 :: "u16 \<Rightarrow> bytes" where "le16 w = le_bytes 2 (unat w)"
definition le32 :: "u32 \<Rightarrow> bytes" where "le32 w = le_bytes 4 (unat w)"
definition le64 :: "u64 \<Rightarrow> bytes" where "le64 w = le_bytes 8 (unat w)"

definition sizeof_security_event :: nat where
  "sizeof_security_event =
     4 + 4 + 4 + 4 + 8 + PQSEC_COMM_LEN + PQSEC_ANCESTORS * (4 + PQSEC_COMM_LEN) +
     (PQSEC_FILENAME_LEN + 4 + 4 + 8 + 4 + 4)"

definition ancestor_image :: "pqsec_ancestor \<Rightarrow> bytes" where
  "ancestor_image a = le32 (anc_pid a) @ to_bytes (anc_comm a)"

fun payload_image :: "payload \<Rightarrow> bytes" where
  "payload_image (U_execve f) = to_bytes f @ replicate 24 0"
| "payload_image (U_tcp t) = le32 (daddr t) @ le16 (dport t) @ [family t, 0] @ replicate 144 0"
| "payload_image (U_drop d) =
     le64 (dropped d) @ le64 (dropped_total d) @ le64 (sent_total d) @ replicate 128 0"
| "payload_image (U_file f) =
     to_bytes (fpath f) @ le32 (access f) @ replicate 4 0 @ le64 (ino f) @ le32 (dev f) @
     replicate 4 0"
| "payload_image (U_other t raw) = raw"

definition event_image :: "security_event \<Rightarrow> bytes" where
  "event_image e =
     le32 (ev_type e) @ le32 (ev_pid e) @ le32 (ev_ppid e) @ le32 0 @ le64 (ev_ts_ns e) @
     to_bytes (ev_comm e) @ concat (map ancestor_image (ev_anc e)) @ payload_image (ev_u e)"

text \<open>Reading the fields at their offsets, as the cast \<open>reinterpret_cast<const security_event *>\<close> does.\<close>

definition slice :: "nat \<Rightarrow> nat \<Rightarrow> bytes \<Rightarrow> bytes" where
  "slice off n bs = take n (drop off bs)"

definition word_at :: "nat \<Rightarrow> nat \<Rightarrow> bytes \<Rightarrow> 'a::len word" where
  "word_at off n bs = word_of_nat (le_value (slice off n bs))"

definition ancestor_at :: "nat \<Rightarrow> bytes \<Rightarrow> pqsec_ancestor" where
  "ancestor_at off bs = \<lparr>anc_pid = word_at off 4 bs, anc_comm = of_bytes (slice (off + 4) 16 bs)\<rparr>"

definition payload_at :: "u32 \<Rightarrow> bytes \<Rightarrow> payload" where
  "payload_at t u =
     (if t = PQSEC_EVT_EXECVE then U_execve (of_bytes (slice 0 128 u))
      else if t = PQSEC_EVT_TCP_CONNECT then
        U_tcp \<lparr>daddr = word_at 0 4 u, dport = word_at 4 2 u, family = word_at 6 1 u\<rparr>
      else if t = PQSEC_EVT_AGENT_DROP then
        U_drop \<lparr>dropped = word_at 0 8 u, dropped_total = word_at 8 8 u, sent_total = word_at 16 8 u\<rparr>
      else if t = PQSEC_EVT_FILE_OPEN then
        U_file \<lparr>fpath = of_bytes (slice 0 128 u), access = word_at 128 4 u, ino = word_at 136 8 u,
          dev = word_at 144 4 u\<rparr>
      else U_other t (slice 0 152 u))"

definition event_of_image :: "bytes \<Rightarrow> security_event" where
  "event_of_image bs =
     \<lparr>ev_pid = word_at 4 4 bs, ev_ppid = word_at 8 4 bs, ev_ts_ns = word_at 16 8 bs,
      ev_comm = of_bytes (slice 24 16 bs),
      ev_anc = map (\<lambda>i. ancestor_at (40 + 20 * i) bs) [0..<PQSEC_ANCESTORS],
      ev_u = payload_at (word_at 0 4 bs) (drop 120 bs)\<rparr>"

lemma length_le_words [simp, len_simps]:
  "length (le16 a) = 2" "length (le32 b) = 4" "length (le64 c) = 8"
  by (simp_all add: le16_def le32_def le64_def)

lemma length_ancestor_image [len_simps]: "wf_ancestor a \<Longrightarrow> length (ancestor_image a) = 20"
  by (simp add: ancestor_image_def wf_ancestor_def event_consts)

lemma length_ancestor_images:
  "list_all wf_ancestor as \<Longrightarrow> length (concat (map ancestor_image as)) = 20 * length as"
  by (induction as) (simp_all add: length_ancestor_image)

lemma length_payload_image [len_simps]: "wf_payload u \<Longrightarrow> length (payload_image u) = 152"
  by (cases u) (simp_all add: event_consts)

lemma length_event_image [len_simps]: "wf_event e \<Longrightarrow> length (event_image e) = sizeof_security_event"
  by (simp add: event_image_def wf_event_def length_ancestor_images length_payload_image
      sizeof_security_event_def event_consts)

lemma sizeof_272: "sizeof_security_event = 272"
  by (simp add: sizeof_security_event_def event_consts)

lemma le_value_words [rt_simps]:
  "(word_of_nat (le_value (le16 a)) :: u16) = a"
  "(word_of_nat (le_value (le32 b)) :: u32) = b"
  "(word_of_nat (le_value (le64 c)) :: u64) = c"
  using unsigned_less [of a, where 'a = nat] unsigned_less [of b, where 'a = nat]
    unsigned_less [of c, where 'a = nat]
  by (simp_all add: le16_def le32_def le64_def le_value_le_bytes)

text \<open>Reading a field that stands behind a prefix of known length.\<close>

lemma slice_skip: "length a \<le> off \<Longrightarrow> slice off n (a @ b) = slice (off - length a) n b"
  by (simp add: slice_def)

lemma slice_here: "length a = n \<Longrightarrow> slice 0 n (a @ b) = a"
  by (simp add: slice_def)

lemma slice_exact: "length a = n \<Longrightarrow> slice 0 n a = a"
  by (simp add: slice_def)

lemma slice_Cons: "slice 0 (Suc n) (x # xs) = x # slice 0 n xs" "slice 0 0 xs = []"
  by (simp_all add: slice_def)

lemmas slice_simps = slice_Cons slice_skip slice_here slice_exact

lemma ancestor_at_image:
  assumes "wf_ancestor a" and "length pre = off"
  shows "ancestor_at off (pre @ ancestor_image a @ rest) = a"
  using assms
  by (simp add: ancestor_at_def word_at_def ancestor_image_def wf_ancestor_def event_consts
      slice_simps le_value_words del: append_assoc)
    (simp add: slice_simps le_value_words)

lemma payload_at_image:
  "wf_payload u \<Longrightarrow> payload_at (payload_type u) (payload_image u @ rest) = u"
  by (cases u) (auto simp: payload_at_def word_at_def event_consts slice_simps le_value_words)

lemma payload_type_cases: "wf_payload u \<Longrightarrow> payload_at (payload_type u) (payload_image u) = u"
  using payload_at_image [of u "[]"] by simp

text \<open>Whatever follows the struct in the buffer, the fields read back are those that were written.\<close>

lemma event_of_image_event_image:
  assumes wf: "wf_event e"
  shows "event_of_image (event_image e @ rest) = e"
proof -
  from wf have len: "length (ev_anc e) = 4" and wa: "\<forall>a \<in> set (ev_anc e). wf_ancestor a"
    and lc: "length (ev_comm e) = 16" and wu: "wf_payload (ev_u e)"
    by (auto simp: wf_event_def event_consts list_all_iff)
  from len obtain a0 a1 a2 a3 where anc: "ev_anc e = [a0, a1, a2, a3]"
    by (auto simp: numeral_eq_Suc length_Suc_conv)
  define h where "h = le32 (ev_type e) @ le32 (ev_pid e) @ le32 (ev_ppid e) @ le32 0 @
    le64 (ev_ts_ns e) @ to_bytes (ev_comm e)"
  have lh: "length h = 40"
    by (simp add: h_def lc)
  have img: "event_image e @ rest = h @ ancestor_image a0 @ ancestor_image a1 @
      ancestor_image a2 @ ancestor_image a3 @ payload_image (ev_u e) @ rest"
    by (simp add: event_image_def h_def anc)
  have la: "length (ancestor_image a) = 20" if "a \<in> {a0, a1, a2, a3}" for a
    using that wa anc by (auto intro: length_ancestor_image)
  have wfa: "wf_ancestor a0" "wf_ancestor a1" "wf_ancestor a2" "wf_ancestor a3"
    using wa anc by auto
  have "ancestor_at 40 (event_image e @ rest) = a0"
    unfolding img by (rule ancestor_at_image) (simp_all add: wfa lh)
  moreover have "ancestor_at 60 (event_image e @ rest) = a1"
    unfolding img using ancestor_at_image [of a1 "h @ ancestor_image a0" 60] wfa lh la by simp
  moreover have "ancestor_at 80 (event_image e @ rest) = a2"
    unfolding img using ancestor_at_image [of a2 "h @ ancestor_image a0 @ ancestor_image a1" 80]
      wfa lh la by simp
  moreover have "ancestor_at 100 (event_image e @ rest) = a3"
    unfolding img
    using ancestor_at_image [of a3 "h @ ancestor_image a0 @ ancestor_image a1 @ ancestor_image a2" 100]
      wfa lh la by simp
  moreover have "drop 120 (event_image e @ rest) = payload_image (ev_u e) @ rest"
    unfolding img by (simp add: lh la)
  moreover have "[0..<PQSEC_ANCESTORS] = [0, 1, 2, 3]"
    by (simp add: event_consts upt_rec)
  moreover have "word_at 0 4 (event_image e @ rest) = ev_type e"
    "word_at 4 4 (event_image e @ rest) = ev_pid e" "word_at 8 4 (event_image e @ rest) = ev_ppid e"
    "word_at 16 8 (event_image e @ rest) = ev_ts_ns e"
    "of_bytes (slice 24 16 (event_image e @ rest)) = ev_comm e"
    unfolding img h_def by (simp_all add: word_at_def slice_simps le_value_words lc)
  ultimately show ?thesis
    using anc wu by (simp add: event_of_image_def payload_at_image ev_type_def)
qed

text \<open>Any buffer of at least the struct's size reads as an object of the type.\<close>

lemma length_slice: "off + n \<le> length bs \<Longrightarrow> length (slice off n bs) = n"
  by (simp add: slice_def)

lemma wf_event_of_image [intro]:
  "sizeof_security_event \<le> length bs \<Longrightarrow> wf_event (event_of_image bs)"
  by (auto simp: wf_event_def event_of_image_def sizeof_272 event_consts length_slice list_all_iff
      wf_ancestor_def ancestor_at_def payload_at_def)

subsection \<open>Sample events\<close>

text \<open>A write to a staging path, the run of that path, and a public connection.\<close>

definition c_field :: "nat \<Rightarrow> string \<Rightarrow> string" where
  "c_field n s = s @ zeros (n - length s)"

lemma cstr_c_field: "nul \<notin> set s \<Longrightarrow> cstr (c_field n s) = s"
  by (simp add: c_field_def cstr_append_zeros)

definition sample_write :: security_event where
  "sample_write = zero_event\<lparr>ev_pid := 41, ev_ts_ns := 100, ev_comm := c_field PQSEC_COMM_LEN ''sh'',
     ev_u := U_file \<lparr>fpath = c_field PQSEC_FILENAME_LEN ''/tmp/x'', access = PQSEC_FA_WRITE, ino = 5, dev = 1\<rparr>\<rparr>"

definition sample_run :: security_event where
  "sample_run = zero_event\<lparr>ev_pid := 42, ev_ts_ns := 200, ev_comm := c_field PQSEC_COMM_LEN ''sh'',
     ev_u := U_execve (c_field PQSEC_FILENAME_LEN ''/tmp/x'')\<rparr>"

definition sample_connect :: security_event where
  "sample_connect = zero_event\<lparr>ev_pid := 43, ev_ts_ns := 300, ev_comm := c_field PQSEC_COMM_LEN ''sh'',
     ev_u := U_tcp \<lparr>daddr = 8, dport = 443, family = 2\<rparr>\<rparr>"

lemma cstr_sample_path: "cstr (c_field n ''/tmp/x'') = ''/tmp/x''"
  by (rule cstr_c_field) (simp add: nul_def)

lemma sample_times:
  "ev_ts_ns sample_write = 100" "ev_ts_ns sample_run = 200" "ev_ts_ns sample_connect = 300"
  by (simp_all add: sample_write_def sample_run_def sample_connect_def)

lemma sample_run_u: "ev_u sample_run = U_execve (c_field PQSEC_FILENAME_LEN ''/tmp/x'')"
  by (simp add: sample_run_def)

lemma length_c_field [len_simps]: "length s \<le> n \<Longrightarrow> length (c_field n s) = n"
  by (simp add: c_field_def)

lemma wf_samples: "wf_event sample_write" "wf_event sample_run" "wf_event sample_connect"
  using wf_zero_event
  by (simp_all add: wf_event_def sample_write_def sample_run_def sample_connect_def
      length_c_field event_consts)

text \<open>
  The memory image of an event is 272 bytes and gives the event back, whatever follows it.
\<close>

theorem event_image_round_trip:
  assumes "wf_event e"
  shows "length (event_image e) = 272 \<and> event_of_image (event_image e @ rest) = e"
  using length_event_image [OF assms] event_of_image_event_image [OF assms] by (simp add: sizeof_272)

lemma event_image_round_trip_witness: "event_of_image (event_image sample_connect @ [1, 2]) = sample_connect"
  using event_image_round_trip [OF wf_samples(3)] by blast

end
