(* ===== verification/Cstdlib.thy ===== *)
theory Cstdlib
  imports Prelude
begin

section \<open>The C and C++ standard library routines the program uses\<close>

text \<open>
  Decimal output (\<open>printf("%u")\<close>, \<open>std::to_string\<close>), formatted extraction from an
  \<open>std::istringstream\<close> (the C locale), \<open>strtol\<close>/\<open>strtoul\<close> and the \<open>std::stoi\<close> family,
  \<open>std::string::find\<close>, \<open>std::getline\<close>, and \<open>inet_ntop\<close>/\<open>inet_pton\<close> for IPv4.  An
  extraction that sets \<open>failbit\<close> is \<open>None\<close>; otherwise it returns the value and the characters
  left in the stream.
\<close>

subsection \<open>Characters and decimal numbers\<close>

definition is_space :: "char \<Rightarrow> bool" where
  "is_space c \<longleftrightarrow> c \<in> {CHR 0x20, CHR 0x09, CHR 0x0A, CHR 0x0B, CHR 0x0C, CHR 0x0D}"

definition is_digit :: "char \<Rightarrow> bool" where
  "is_digit c \<longleftrightarrow> 48 \<le> (of_char c :: nat) \<and> (of_char c :: nat) \<le> 57"

definition digit_val :: "char \<Rightarrow> nat" where
  "digit_val c = of_char c - 48"

definition digit_char :: "nat \<Rightarrow> char" where
  "digit_char n = char_of (48 + n)"

fun dec_nat :: "nat \<Rightarrow> string" where
  "dec_nat n = (if n < 10 then [digit_char n] else dec_nat (n div 10) @ [digit_char (n mod 10)])"

declare dec_nat.simps [simp del]

definition dec_value :: "string \<Rightarrow> nat" where
  "dec_value ds = foldl (\<lambda>v c. 10 * v + digit_val c) 0 ds"

lemma of_char_digit_char: "n < 10 \<Longrightarrow> (of_char (digit_char n) :: nat) = 48 + n"
  by (simp add: digit_char_def)

lemma digit_val_digit_char [simp]: "n < 10 \<Longrightarrow> digit_val (digit_char n) = n"
  by (simp add: digit_val_def of_char_digit_char)

lemma is_digit_digit_char [simp]: "n < 10 \<Longrightarrow> is_digit (digit_char n)"
  by (simp add: is_digit_def of_char_digit_char)

lemma digit_not_space: "is_digit c \<Longrightarrow> \<not> is_space c"
  by (auto simp: is_digit_def is_space_def)

lemma digit_neq [simp]:
  "is_digit c \<Longrightarrow> c \<noteq> CHR ''-''" "is_digit c \<Longrightarrow> c \<noteq> CHR ''+''"
  "is_digit c \<Longrightarrow> c \<noteq> CHR ''.''" "is_digit c \<Longrightarrow> c \<noteq> CHR '':''"
  "is_digit c \<Longrightarrow> c \<noteq> CHR ''|''" "is_digit c \<Longrightarrow> c \<noteq> CHR ''#''" "is_digit c \<Longrightarrow> c \<noteq> nul"
  by (auto simp: is_digit_def nul_def)

text \<open>The digits themselves, so that closed numbers print by simplification.\<close>

lemma digit_char_simps [simp]:
  "digit_char 0 = CHR ''0''" "digit_char (Suc 0) = CHR ''1''" "digit_char 2 = CHR ''2''"
  "digit_char 3 = CHR ''3''" "digit_char 4 = CHR ''4''" "digit_char 5 = CHR ''5''"
  "digit_char 6 = CHR ''6''" "digit_char 7 = CHR ''7''" "digit_char 8 = CHR ''8''"
  "digit_char 9 = CHR ''9''"
  by (simp_all add: digit_char_def char_of_def bit_Suc_0_iff)

lemma not_digit_nul [simp]: "\<not> is_digit nul"
  by (simp add: is_digit_def nul_def)

lemma dec_nat_digits: "c \<in> set (dec_nat n) \<Longrightarrow> is_digit c"
proof (induction n rule: dec_nat.induct)
  case (1 n)
  then show ?case
    by (subst (asm) (2) dec_nat.simps) (auto split: if_splits)
qed

lemma dec_nat_not_Nil [simp]: "dec_nat n \<noteq> []"
  by (subst dec_nat.simps) simp

lemma dec_value_dec_nat [simp, rt_simps]: "dec_value (dec_nat n) = n"
proof (induction n rule: dec_nat.induct)
  case (1 n)
  show ?case
  proof (cases "n < 10")
    case True
    then show ?thesis
      by (simp add: dec_nat.simps [of n] dec_value_def)
  next
    case False
    with 1 have "dec_value (dec_nat (n div 10)) = n div 10" by simp
    with False show ?thesis
      by (simp add: dec_nat.simps [of n] dec_value_def)
  qed
qed

text \<open>A number below \<open>10 ^ k\<close> takes at most \<open>k\<close> digits.\<close>

lemma length_dec_nat [len_simps]: "n < 10 ^ k \<Longrightarrow> 0 < k \<Longrightarrow> length (dec_nat n) \<le> k"
proof (induction n arbitrary: k rule: dec_nat.induct)
  case (1 n)
  show ?case
  proof (cases "n < 10")
    case True
    with 1 show ?thesis by (simp add: dec_nat.simps [of n])
  next
    case False
    with "1.prems" obtain j where j: "k = Suc j" "0 < j"
      by (metis gr0_conv_Suc neq0_conv one_add_one plus_1_eq_Suc power_0 power_one_right
          less_Suc0 power_Suc0_right)
    with "1.prems" have "n div 10 < 10 ^ j"
      by (simp add: less_mult_imp_div_less mult.commute)
    with "1.IH" False j have "length (dec_nat (n div 10)) \<le> j" by blast
    with False j show ?thesis by (simp add: dec_nat.simps [of n])
  qed
qed

lemma length_dec_u64: "length (dec_nat (unat (w :: u64))) \<le> 20"
  by (rule length_dec_nat) (use unsigned_less [of w, where 'a = nat] in simp_all)

lemma length_dec_u32: "length (dec_nat (unat (w :: u32))) \<le> 10"
  by (rule length_dec_nat) (use unsigned_less [of w, where 'a = nat] in simp_all)

lemma length_dec_u16: "length (dec_nat (unat (w :: u16))) \<le> 5"
  by (rule length_dec_nat) (use unsigned_less [of w, where 'a = nat] in simp_all)

lemma length_dec_u8: "length (dec_nat (unat (w :: u8))) \<le> 3"
  by (rule length_dec_nat) (use unsigned_less [of w, where 'a = nat] in simp_all)

subsection \<open>Formatted extraction\<close>

definition skip_ws :: "string \<Rightarrow> string" where
  "skip_ws s = dropWhile is_space s"

text \<open>\<open>is >> str\<close>\<close>

definition ext_word :: "string \<Rightarrow> (string \<times> string) option" where
  "ext_word s =
     (let w = skip_ws s
      in if w = [] then None
         else Some (takeWhile (\<lambda>c. \<not> is_space c) w, dropWhile (\<lambda>c. \<not> is_space c) w))"

text \<open>An optional sign in front of a number: (negative, the rest).\<close>

fun ext_sign :: "string \<Rightarrow> bool \<times> string" where
  "ext_sign [] = (False, [])"
| "ext_sign (c # s) =
     (if c = CHR ''-'' then (True, s) else if c = CHR ''+'' then (False, s) else (False, c # s))"

text \<open>\<open>is >> v\<close> for an unsigned type of \<open>w\<close> bits: a negative number wraps, a value out of range fails.\<close>

definition ext_unsigned :: "nat \<Rightarrow> string \<Rightarrow> (nat \<times> string) option" where
  "ext_unsigned w s =
     (let (neg, t) = ext_sign (skip_ws s);
          ds = takeWhile is_digit t; rest = dropWhile is_digit t; v = dec_value ds
      in if ds = [] \<or> 2 ^ w \<le> v then None
         else Some (if neg then (2 ^ w - v) mod 2 ^ w else v, rest))"

text \<open>\<open>is >> v\<close> for \<open>long\<close> (64 bits, signed).\<close>

definition ext_long :: "string \<Rightarrow> (int \<times> string) option" where
  "ext_long s =
     (let (neg, t) = ext_sign (skip_ws s);
          ds = takeWhile is_digit t; rest = dropWhile is_digit t;
          v = (if neg then - int (dec_value ds) else int (dec_value ds))
      in if ds = [] \<or> v < - (2 ^ 63) \<or> 2 ^ 63 \<le> v then None else Some (v, rest))"

lemma skip_ws_Nil [simp]: "skip_ws [] = []"
  by (simp add: skip_ws_def)

lemma skip_ws_space [simp]: "is_space c \<Longrightarrow> skip_ws (c # s) = skip_ws s"
  by (simp add: skip_ws_def)

lemma skip_ws_nonspace [simp]: "\<not> is_space c \<Longrightarrow> skip_ws (c # s) = c # s"
  by (simp add: skip_ws_def)

lemma is_space_blank [simp]: "is_space (CHR '' '')" "is_space (CHR 0x0A)"
  by (simp_all add: is_space_def)

definition word_chars :: "string \<Rightarrow> bool" where
  "word_chars w \<longleftrightarrow> w \<noteq> [] \<and> (\<forall>c \<in> set w. \<not> is_space c)"

lemma skip_ws_word: "word_chars w \<Longrightarrow> skip_ws (w @ s) = w @ s"
  by (cases w) (auto simp: word_chars_def)

lemma ext_word_end: "word_chars w \<Longrightarrow> ext_word w = Some (w, [])"
  using skip_ws_word [of w "[]"]
  by (auto simp: ext_word_def Let_def word_chars_def takeWhile_eq_all_conv dropWhile_eq_Nil_conv)

lemma ext_word_blank:
  assumes "word_chars w" and "is_space c"
  shows "ext_word (w @ c # s) = Some (w, c # s)"
  using assms skip_ws_word [OF assms(1), of "c # s"]
  by (auto simp: ext_word_def Let_def word_chars_def takeWhile_append2 dropWhile_append2)

lemma ext_word_skip: "is_space c \<Longrightarrow> ext_word (c # s) = ext_word s"
  by (simp add: ext_word_def)

lemma word_chars_dec [simp]: "word_chars (dec_nat n)"
  by (auto simp: word_chars_def dest: dec_nat_digits digit_not_space)

lemma ext_sign_digits: "ds \<noteq> [] \<Longrightarrow> \<forall>c \<in> set ds. is_digit c \<Longrightarrow> ext_sign (ds @ s) = (False, ds @ s)"
  by (cases ds) auto

text \<open>Reading back a number that was printed, followed by a blank or by the end.\<close>

lemma ext_unsigned_dec:
  assumes "n < 2 ^ w" and "s = [] \<or> \<not> is_digit (hd s)"
  shows "ext_unsigned w (dec_nat n @ s) = Some (n, s)"
proof -
  have dig: "\<forall>c \<in> set (dec_nat n). is_digit c"
    by (simp add: dec_nat_digits)
  have "takeWhile is_digit (dec_nat n @ s) = dec_nat n"
    using dig assms(2) by (cases s) (auto simp: takeWhile_append2 takeWhile_eq_all_conv)
  moreover have "dropWhile is_digit (dec_nat n @ s) = s"
    using dig assms(2) by (cases s) (auto simp: dropWhile_append2 dropWhile_eq_Nil_conv)
  ultimately show ?thesis
    using assms(1) dig
    by (simp add: ext_unsigned_def skip_ws_word ext_sign_digits not_le)
qed

lemma ext_unsigned_skip: "is_space c \<Longrightarrow> ext_unsigned w (c # s) = ext_unsigned w s"
  by (simp add: ext_unsigned_def)

lemma ext_long_dec:
  assumes "n < 2 ^ 63" and "s = [] \<or> \<not> is_digit (hd s)"
  shows "ext_long (dec_nat n @ s) = Some (int n, s)"
proof -
  have dig: "\<forall>c \<in> set (dec_nat n). is_digit c"
    by (simp add: dec_nat_digits)
  have "takeWhile is_digit (dec_nat n @ s) = dec_nat n"
    using dig assms(2) by (cases s) (auto simp: takeWhile_append2 takeWhile_eq_all_conv)
  moreover have "dropWhile is_digit (dec_nat n @ s) = s"
    using dig assms(2) by (cases s) (auto simp: dropWhile_append2 dropWhile_eq_Nil_conv)
  moreover have "int n < 2 ^ 63"
    using assms(1) by (metis of_nat_less_iff of_nat_numeral of_nat_power)
  ultimately show ?thesis
    using dig by (simp add: ext_long_def skip_ws_word ext_sign_digits)
qed

lemma ext_long_skip: "is_space c \<Longrightarrow> ext_long (c # s) = ext_long s"
  by (simp add: ext_long_def)

subsection \<open>Conversions of whole strings\<close>

datatype num_error = Invalid_argument | Out_of_range

text \<open>\<open>std::stoi\<close>, \<open>std::stoul\<close>: what follows the digits is ignored; \<open>stoul\<close> accepts a minus sign.\<close>

definition stoi :: "string \<Rightarrow> num_error + int" where
  "stoi s =
     (let (neg, t) = ext_sign (skip_ws (cstr s)); ds = takeWhile is_digit t;
          v = (if neg then - int (dec_value ds) else int (dec_value ds))
      in if ds = [] then Inl Invalid_argument
         else if v < - (2 ^ 31) \<or> 2 ^ 31 \<le> v then Inl Out_of_range else Inr v)"

definition stoul :: "string \<Rightarrow> num_error + nat" where
  "stoul s =
     (let (neg, t) = ext_sign (skip_ws (cstr s)); ds = takeWhile is_digit t; v = dec_value ds
      in if ds = [] then Inl Invalid_argument
         else if 2 ^ 64 \<le> v then Inl Out_of_range
         else Inr (if neg then (2 ^ 64 - v) mod 2 ^ 64 else v))"

text \<open>\<open>strtoul(s, nullptr, 10)\<close>: no digits give 0, an overflow saturates.\<close>

definition strtoul10 :: "string \<Rightarrow> nat" where
  "strtoul10 s =
     (let (neg, t) = ext_sign (skip_ws (cstr s)); v = dec_value (takeWhile is_digit t)
      in if 2 ^ 64 \<le> v then 2 ^ 64 - 1 else if neg then (2 ^ 64 - v) mod 2 ^ 64 else v)"

lemma strtoul10_dec:
  assumes "n < 2 ^ 64" and "s = [] \<or> \<not> is_digit (hd s)" and "nul \<notin> set s"
  shows "strtoul10 (dec_nat n @ s) = n"
proof -
  have dig: "\<forall>c \<in> set (dec_nat n). is_digit c"
    by (simp add: dec_nat_digits)
  have "takeWhile is_digit (dec_nat n @ s) = dec_nat n"
    using dig assms(2) by (cases s) (auto simp: takeWhile_append2 takeWhile_eq_all_conv)
  moreover have "cstr (dec_nat n @ s) = dec_nat n @ s"
    using assms(3) dig by (intro cstr_id) auto
  ultimately show ?thesis
    using assms(1) dig by (simp add: strtoul10_def skip_ws_word ext_sign_digits)
qed

definition hex_val :: "char \<Rightarrow> nat option" where
  "hex_val c =
     (let n = of_char c :: nat
      in if 48 \<le> n \<and> n \<le> 57 then Some (n - 48)
         else if 65 \<le> n \<and> n \<le> 70 then Some (n - 55)
         else if 97 \<le> n \<and> n \<le> 102 then Some (n - 87) else None)"

definition hex_char :: "nat \<Rightarrow> char" where
  "hex_char n = (if n < 10 then char_of (48 + n) else char_of (55 + n))"

text \<open>
  \<open>strtol(s, &end, 16)\<close> on a string of at most two characters (where the prefix \<open>0x\<close> never
  has a digit after it and no overflow is possible): the value and the text at \<open>end\<close>.
\<close>

definition strtol16 :: "string \<Rightarrow> int \<times> string" where
  "strtol16 s =
     (let z = cstr s; (neg, t) = ext_sign (skip_ws z);
          hs = takeWhile (\<lambda>c. hex_val c \<noteq> None) t;
          v = foldl (\<lambda>v c. 16 * v + int (the (hex_val c))) 0 hs
      in if hs = [] then (0, z) else (if neg then - v else v, drop (length hs) t))"

subsection \<open>Searching\<close>

definition starts_with :: "string \<Rightarrow> string \<Rightarrow> bool" where
  "starts_with p s \<longleftrightarrow> take (length p) s = p"

text \<open>\<open>s.find(p)\<close> for a string and for a character, \<open>npos\<close> being \<open>None\<close>.\<close>

fun find_sub :: "string \<Rightarrow> string \<Rightarrow> nat option" where
  "find_sub p [] = (if p = [] then Some 0 else None)"
| "find_sub p (c # s) = (if starts_with p (c # s) then Some 0 else map_option Suc (find_sub p s))"

fun find_char :: "char \<Rightarrow> string \<Rightarrow> nat option" where
  "find_char x [] = None"
| "find_char x (c # s) = (if c = x then Some 0 else map_option Suc (find_char x s))"

definition contains_sub :: "string \<Rightarrow> string \<Rightarrow> bool" where
  "contains_sub s p \<longleftrightarrow> find_sub p s \<noteq> None"

lemma find_char_None [simp]: "find_char x s = None \<longleftrightarrow> x \<notin> set s"
  by (induction s) auto

lemma find_char_append: "x \<notin> set a \<Longrightarrow> find_char x (a @ x # b) = Some (length a)"
  by (induction a) auto

lemma find_char_Some: "find_char x s = Some i \<Longrightarrow> i < length s \<and> s ! i = x \<and> x \<notin> set (take i s)"
  by (induction s arbitrary: i) (auto split: if_splits)

lemma starts_with_append [simp]: "starts_with p (p @ s)"
  by (simp add: starts_with_def)

lemma starts_with_iff: "starts_with p s \<longleftrightarrow> (\<exists>t. s = p @ t)"
  by (metis append_eq_conv_conj starts_with_def append_take_drop_id)

lemma contains_sub_iff: "contains_sub s p \<longleftrightarrow> (\<exists>a b. s = a @ p @ b)"
proof (induction s)
  case Nil
  then show ?case by (auto simp: contains_sub_def)
next
  case (Cons c s)
  have "(\<exists>a b. c # s = a @ p @ b) \<longleftrightarrow> starts_with p (c # s) \<or> (\<exists>a b. s = a @ p @ b)"
    by (auto simp: starts_with_iff Cons_eq_append_conv)
  with Cons show ?case
    by (auto simp: contains_sub_def)
qed

text \<open>The lines that \<open>std::getline\<close> delivers: a last line without a newline counts if it is not empty.\<close>

function getlines :: "string \<Rightarrow> string list" where
  "getlines s =
     (if s = [] then []
      else takeWhile (\<lambda>c. c \<noteq> CHR 0x0A) s # getlines (tl (dropWhile (\<lambda>c. c \<noteq> CHR 0x0A) s)))"
  by pat_completeness auto
termination
proof (relation "measure length", goal_cases)
  case (2 s)
  have "length (dropWhile (\<lambda>c. c \<noteq> CHR 0x0A) s) \<le> length s"
    by (rule length_dropWhile_le)
  with 2 show ?case
    by (cases s) (auto simp: less_Suc_eq_le intro: le_trans diff_le_self)
qed simp

declare getlines.simps [simp del]

lemma getlines_Nil [simp]: "getlines [] = []"
  by (simp add: getlines.simps)

lemma getlines_line [simp]:
  "CHR 0x0A \<notin> set l \<Longrightarrow> getlines (l @ CHR 0x0A # s) = l # getlines s"
proof -
  assume l: "CHR 0x0A \<notin> set l"
  then have "takeWhile (\<lambda>c. c \<noteq> CHR 0x0A) (l @ CHR 0x0A # s) = l"
    by (induction l) auto
  moreover from l have "dropWhile (\<lambda>c. c \<noteq> CHR 0x0A) (l @ CHR 0x0A # s) = CHR 0x0A # s"
    by (induction l) auto
  ultimately show ?thesis
    by (subst getlines.simps) simp
qed

subsection \<open>IPv4 addresses\<close>

text \<open>An address is kept in network byte order in a little-endian \<open>u32\<close>: its low byte is the first octet.\<close>

definition octet :: "u32 \<Rightarrow> nat \<Rightarrow> nat" where
  "octet a i = unat (drop_bit (8 * i) a AND 0xff)"

definition inet_ntop4 :: "u32 \<Rightarrow> string" where
  "inet_ntop4 a =
     dec_nat (octet a 0) @ ''.'' @ dec_nat (octet a 1) @ ''.'' @
     dec_nat (octet a 2) @ ''.'' @ dec_nat (octet a 3)"

text \<open>
  \<open>inet_pton(AF_INET, ...)\<close>: four decimal octets of at most 255 without leading zeros.  The loop
  keeps the finished octets and the octet being read, if a digit of it has been seen.
\<close>

fun pton_loop :: "string \<Rightarrow> nat list \<Rightarrow> nat option \<Rightarrow> nat list option" where
  "pton_loop [] os cur =
     (case cur of None \<Rightarrow> None | Some v \<Rightarrow> if length os = 3 then Some (os @ [v]) else None)"
| "pton_loop (c # s) os cur =
     (if is_digit c then
        (case cur of
           None \<Rightarrow> if 4 \<le> length os then None else pton_loop s os (Some (digit_val c))
         | Some v \<Rightarrow> if v = 0 \<or> 255 < 10 * v + digit_val c then None
                     else pton_loop s os (Some (10 * v + digit_val c)))
      else if c = CHR ''.'' then
        (case cur of
           None \<Rightarrow> None
         | Some v \<Rightarrow> if length os = 3 then None else pton_loop s (os @ [v]) None)
      else None)"

definition inet_pton4 :: "string \<Rightarrow> u32 option" where
  "inet_pton4 s = map_option (\<lambda>os. word_of_nat (le_value (map word_of_nat os))) (pton_loop (cstr s) [] None)"

lemma dec_nat_small:
  "n < 10 \<Longrightarrow> dec_nat n = [digit_char n]"
  "10 \<le> n \<Longrightarrow> n < 100 \<Longrightarrow> dec_nat n = [digit_char (n div 10), digit_char (n mod 10)]"
  "100 \<le> n \<Longrightarrow> n < 1000 \<Longrightarrow>
     dec_nat n = [digit_char (n div 100), digit_char (n div 10 mod 10), digit_char (n mod 10)]"
proof -
  show *: "dec_nat n = [digit_char n]" if "n < 10" for n
    using that by (simp add: dec_nat.simps)
  show **: "dec_nat n = [digit_char (n div 10), digit_char (n mod 10)]" if "10 \<le> n" "n < 100" for n
    using that by (simp add: dec_nat.simps [of n] *)
  show "dec_nat n = [digit_char (n div 100), digit_char (n div 10 mod 10), digit_char (n mod 10)]"
    if "100 \<le> n" "n < 1000"
  proof -
    have "n div 10 div 10 = n div 100"
      by (simp add: div_mult2_eq [symmetric])
    with that show ?thesis
      by (simp add: dec_nat.simps [of n] **)
  qed
qed

text \<open>The loop reads one printed octet and stops in front of what follows it.\<close>

lemma pton_loop_octet:
  assumes "n \<le> 255" and "length os < 4" and "s = [] \<or> \<not> is_digit (hd s)"
  shows "pton_loop (dec_nat n @ s) os None = pton_loop s os (Some n)"
proof -
  consider "n < 10" | "10 \<le> n" "n < 100" | "100 \<le> n" "n < 1000"
    using assms(1) by linarith
  then show ?thesis
  proof cases
    case 1
    with assms(2) show ?thesis
      by (simp add: dec_nat_small)
  next
    case 2
    moreover have "n div 10 < 10" "0 < n div 10" "10 * (n div 10) + n mod 10 = n"
      using 2 by auto
    ultimately show ?thesis
      using assms(1,2) by (simp add: dec_nat_small)
  next
    case 3
    have "n div 100 < 10" "0 < n div 100" using 3 by auto
    moreover have "10 * (n div 100) + n div 10 mod 10 = n div 10"
      by (simp add: div_mult2_eq [of n 10 10, simplified])
    moreover have "10 * (n div 10) + n mod 10 = n" "0 < n div 10" "n div 10 \<le> 255"
      using 3 assms(1) by auto
    ultimately show ?thesis
      using assms(1,2) 3 by (simp add: dec_nat_small)
  qed
qed

lemma octet_le: "octet a i \<le> 255"
proof -
  have "drop_bit (8 * i) a AND 0xff \<le> (0xff :: u32)"
    by (rule word_and_le1)
  then show ?thesis
    by (simp add: octet_def word_le_nat_alt)
qed

lemma octets_value: "octet a 0 + 256 * (octet a 1 + 256 * (octet a 2 + 256 * octet a 3)) = unat a"
proof -
  have mask: "octet a i = unat a div 2 ^ (8 * i) mod 256" for i
  proof -
    have "drop_bit (8 * i) a AND 0xff = take_bit 8 (drop_bit (8 * i) a)"
      by (simp add: take_bit_eq_mask mask_eq_exp_minus_1)
    moreover have "unat a mod 4294967296 = unat a"
      using unsigned_less [of a, where 'a = nat] by simp
    ultimately show ?thesis
      by (simp only: octet_def unsigned_take_bit_eq unsigned_drop_bit_eq)
        (simp add: take_bit_eq_mod drop_bit_eq_div min_def)
  qed
  define n where "n = unat a"
  have n: "n < 256 * 65536 * 256"
    using unsigned_less [of a, where 'a = nat] by (simp add: n_def)
  have d: "n div 65536 = n div 256 div 256" "n div 16777216 = n div 256 div 256 div 256"
    by (simp_all add: div_mult2_eq [symmetric])
  have "n div 256 div 256 div 256 < 256"
    using n by (simp add: less_mult_imp_div_less)
  then have "n div 256 div 256 div 256 mod 256 = n div 256 div 256 div 256"
    by simp
  then have "n mod 256 + 256 * (n div 256 mod 256 + 256 * (n div 256 div 256 mod 256 +
      256 * (n div 256 div 256 div 256 mod 256))) = n"
    by (simp only: mod_mult_div_eq)
  then show ?thesis
    by (simp add: mask d flip: n_def)
qed

theorem inet_pton4_ntop4 [rt_simps]: "inet_pton4 (inet_ntop4 a) = Some a"
proof -
  have nd: "\<not> is_digit (CHR ''.'')"
    by (simp add: is_digit_def)
  have cs: "cstr (inet_ntop4 a) = inet_ntop4 a"
    by (intro cstr_id) (auto simp: inet_ntop4_def nul_def is_digit_def dest: dec_nat_digits)
  have "pton_loop (inet_ntop4 a) [] None = Some [octet a 0, octet a 1, octet a 2, octet a 3]"
    using pton_loop_octet [OF octet_le [of a 3], of "[octet a 0, octet a 1, octet a 2]" "[]"]
    by (simp add: inet_ntop4_def pton_loop_octet octet_le nd)
  moreover have "unat (word_of_nat (octet a i) :: u8) = octet a i" for i
    using octet_le [of a i] by (simp add: unat_of_nat)
  ultimately show ?thesis
    using octets_value [of a] by (simp add: inet_pton4_def cs)
qed

end
