(* ===== verification/Alert.thy ===== *)
theory Alert
  imports Event Cstdlib
begin

section \<open>Verdicts, severities and alerts\<close>

text \<open>
  \<open>analyzer/src/alert.h\<close> and the parts of \<open>alert.cpp\<close> that compute: the two enums (severities
  ordered as the code's \<open>std::max\<close> and \<open>>=\<close> order them), their names, and the console line of
  \<open>emit_alert\<close>.  Its JSON line is in \<open>Alert_Output\<close>.
\<close>

datatype verdict = Normal | Suspicious | Malicious | Unknown

datatype severity = Info | Low | Medium | High | Critical

fun severity_rank :: "severity \<Rightarrow> nat" where
  "severity_rank Info = 0"
| "severity_rank Low = 1"
| "severity_rank Medium = 2"
| "severity_rank High = 3"
| "severity_rank Critical = 4"

lemma severity_rank_inject [simp]: "severity_rank a = severity_rank b \<longleftrightarrow> a = b"
  by (cases a; cases b) simp_all

instantiation severity :: linorder
begin
definition less_eq_severity :: "severity \<Rightarrow> severity \<Rightarrow> bool" where
  "less_eq_severity a b \<longleftrightarrow> severity_rank a \<le> severity_rank b"
definition less_severity :: "severity \<Rightarrow> severity \<Rightarrow> bool" where
  "less_severity a b \<longleftrightarrow> severity_rank a < severity_rank b"
instance
  by standard (auto simp: less_eq_severity_def less_severity_def)
end

lemmas severity_order = less_eq_severity_def less_severity_def

lemma severity_bounds [simp]: "Info \<le> s" "s \<le> Critical"
  by (cases s; simp add: severity_order)+

fun verdict_string :: "verdict \<Rightarrow> string" where
  "verdict_string Normal = ''normal''"
| "verdict_string Suspicious = ''suspicious''"
| "verdict_string Malicious = ''malicious''"
| "verdict_string Unknown = ''unknown''"

fun severity_string :: "severity \<Rightarrow> string" where
  "severity_string Info = ''info''"
| "severity_string Low = ''low''"
| "severity_string Medium = ''medium''"
| "severity_string High = ''high''"
| "severity_string Critical = ''critical''"

record alert =
  a_verdict :: verdict
  a_severity :: severity
  a_source :: string
  a_reason :: string
  a_event_summary :: string
  a_pid :: u32
  a_comm :: string

definition default_alert :: alert where
  "default_alert = \<lparr>a_verdict = Unknown, a_severity = Info, a_source = [], a_reason = [],
     a_event_summary = [], a_pid = 0, a_comm = []\<rparr>"

definition pad_right :: "nat \<Rightarrow> string \<Rightarrow> string" where
  "pad_right n s = s @ replicate (n - length s) (CHR '' '')"

text \<open>The line that \<open>emit_alert\<close> writes to \<open>stderr\<close> (its strings pass through \<open>c_str()\<close>).\<close>

definition alert_line :: "alert \<Rightarrow> string" where
  "alert_line a =
     ''  [ALERT] '' @ pad_right 10 (verdict_string (a_verdict a)) @
     '' sev='' @ pad_right 8 (severity_string (a_severity a)) @
     '' src='' @ pad_right 6 (cstr (a_source a)) @ '' | '' @ cstr (a_event_summary a) @
     '' | '' @ cstr (a_reason a) @ [CHR 0x0A]"

end
