(* ===== verification/Prefilter.thy ===== *)
theory Prefilter
  imports Alert Messages
begin

section \<open>The rule prefilter\<close>

text \<open>
  \<open>analyzer/src/prefilter.cpp\<close>: the decision on a single event (drop it, raise an alert, or
  escalate it to the language model), the event summary used in alerts and as model context,
  and the helpers that the correlator shares (\<open>basename_of\<close>, \<open>is_private_ipv4\<close>).
\<close>

datatype prefilter_decision = Drop | Escalate | Raise

text \<open>\<open>PrefilterDecision::Alert\<close> is the constructor \<open>Raise\<close>: \<open>Alert\<close> names the theory of alerts.\<close>

record prefilter_result =
  pr_decision :: prefilter_decision
  pr_severity :: severity
  pr_reason :: string

definition kBenignBins :: "string list" where
  "kBenignBins =
     [''ls'', ''cat'', ''grep'', ''ps'', ''id'', ''whoami'', ''which'', ''uname'', ''wc'',
      ''head'', ''tail'', ''sed'', ''awk'', ''dirname'', ''basename'', ''env'', ''date'', ''sleep'',
      ''git'', ''cmake'', ''make'', ''cc'', ''gcc'', ''g++'', ''clang'', ''ld'', ''node'',
      ''rm'', ''mkdir'', ''mktemp'', ''cp'', ''mv'', ''touch'', ''chmod'', ''getcap'',
      ''gmake'', ''ss'', ''ldconfig'', ''ctest'', ''dirname'']"

definition kMaliciousBins :: "string list" where
  "kMaliciousBins = [''nc'', ''ncat'', ''netcat'', ''socat'']"

subsection \<open>Shared helpers\<close>

text \<open>\<open>basename_of\<close>: what follows the last slash (\<open>strrchr\<close>), or the whole C string.\<close>

fun after_last_slash :: "string \<Rightarrow> string" where
  "after_last_slash [] = []"
| "after_last_slash (c # s) =
     (if CHR ''/'' \<in> set s then after_last_slash s else if c = CHR ''/'' then s else c # s)"

definition basename_of :: "string \<Rightarrow> string" where
  "basename_of path = after_last_slash (cstr path)"

definition is_private_ipv4 :: "u32 \<Rightarrow> bool" where
  "is_private_ipv4 daddr_net =
     (let o0 = daddr_net AND 0xff; o1 = drop_bit 8 daddr_net AND 0xff
      in o0 = 10 \<or> o0 = 127 \<or> (o0 = 192 \<and> o1 = 168) \<or> (o0 = 172 \<and> 16 \<le> o1 \<and> o1 \<le> 31))"

text \<open>Control characters of the kernel's byte strings become question marks.\<close>

definition printable_char :: "char \<Rightarrow> char" where
  "printable_char c =
     (let n = of_char c :: nat in if n < 0x20 \<or> n = 0x7f then CHR ''?'' else c)"

fun printable :: "string \<Rightarrow> nat \<Rightarrow> string" where
  "printable s 0 = []"
| "printable [] n = []"
| "printable (c # s) (Suc n) = (if c = nul then [] else printable_char c # printable s n)"

subsection \<open>The decision\<close>

definition pf :: "prefilter_decision \<Rightarrow> severity \<Rightarrow> string \<Rightarrow> prefilter_result" where
  "pf d s r = \<lparr>pr_decision = d, pr_severity = s, pr_reason = r\<rparr>"

definition prefilter_execve :: "string \<Rightarrow> prefilter_result" where
  "prefilter_execve filename =
     (let bin = basename_of filename; path = cstr filename
      in if starts_with ''/tmp/'' path \<or> starts_with ''/dev/shm/'' path
           then pf Raise High msg_temp_exec
         else if bin \<in> set kMaliciousBins then pf Raise High (msg_reverse_shell @ bin)
         else if bin \<in> set kBenignBins then pf Drop Info (msg_whitelisted @ bin)
         else pf Escalate Info (msg_unclassified @ bin))"

definition prefilter_tcp :: "pqsec_tcp_event \<Rightarrow> prefilter_result" where
  "prefilter_tcp t =
     (if is_private_ipv4 (daddr t) then pf Drop Info msg_private_range
      else if dport t = 443 \<or> dport t = 80 \<or> dport t = 53 then pf Escalate Info msg_std_port
      else pf Raise Medium msg_odd_port)"

definition prefilter_file :: "pqsec_file_event \<Rightarrow> prefilter_result" where
  "prefilter_file f =
     (if has_flag (access f) PQSEC_FA_SENSITIVE then
        (let what = (if fpath f ! 0 \<noteq> nul then cstr (fpath f)
                     else ''ino='' @ dec_nat (unat (ino f)))
         in pf Raise High (msg_sensitive @ what))
      else pf Drop Info msg_staging_write)"

definition prefilter :: "security_event \<Rightarrow> prefilter_result" where
  "prefilter ev =
     (case ev_u ev of
        U_execve f \<Rightarrow> prefilter_execve f
      | U_tcp t \<Rightarrow> prefilter_tcp t
      | U_file f \<Rightarrow> prefilter_file f
      | _ \<Rightarrow> pf Escalate Info msg_unknown_type)"

subsection \<open>Summaries\<close>

text \<open>The ancestors up to the first empty one; \<open>comm\<close> fields are cut with \<open>strnlen\<close>.\<close>

definition empty_ancestor :: "pqsec_ancestor \<Rightarrow> bool" where
  "empty_ancestor a \<longleftrightarrow> anc_pid a = 0 \<and> anc_comm a ! 0 = nul"

fun tree_tail :: "pqsec_ancestor list \<Rightarrow> string" where
  "tree_tail [] = []"
| "tree_tail (a # as) =
     (if empty_ancestor a then [] else ''<-'' @ or_question (cstr (anc_comm a)) @ tree_tail as)"

definition process_tree :: "security_event \<Rightarrow> string" where
  "process_tree ev = or_question (cstr (ev_comm ev)) @ tree_tail (ev_anc ev)"

text \<open>The text that \<open>snprintf\<close> formats, before it is cut to the 256-byte buffer.\<close>

definition summary_text :: "security_event \<Rightarrow> string" where
  "summary_text ev =
     (let comm = printable (ev_comm ev) PQSEC_COMM_LEN
      in case ev_u ev of
           U_execve f \<Rightarrow> ''execve comm='' @ comm @ '' file='' @ printable f PQSEC_FILENAME_LEN
         | U_tcp t \<Rightarrow> ''connect comm='' @ comm @ '' dst='' @ inet_ntop4 (daddr t) @ '':'' @
             dec_nat (unat (dport t))
         | U_file f \<Rightarrow>
             (let path = (if fpath f ! 0 \<noteq> nul then printable (fpath f) PQSEC_FILENAME_LEN
                          else ''ino='' @ dec_nat (unat (ino f)));
                  kind = (if has_flag (access f) PQSEC_FA_SENSITIVE then ''read-sensitive'' else ''write'')
              in ''fileopen comm='' @ comm @ '' '' @ kind @ '' '' @ path)
         | U_drop d \<Rightarrow> ''agent-drop dropped='' @ dec_nat (unat (dropped d)) @
             '' total='' @ dec_nat (unat (dropped_total d)) @ '' sent='' @ dec_nat (unat (sent_total d))
         | U_other ty _ \<Rightarrow> ''unknown type='' @ dec_nat (unat ty))"

definition event_summary :: "security_event \<Rightarrow> string" where
  "event_summary ev =
     (let out = snprintf_buf 256 (summary_text ev)
      in if anc_pid (ev_anc ev ! 0) \<noteq> 0 \<or> anc_comm (ev_anc ev ! 0) ! 0 \<noteq> nul
         then out @ '' tree=['' @ process_tree ev @ '']'' else out)"

end
