(* ===== verification/Doubles.thy ===== *)
theory Doubles
  imports Cstdlib
begin

section \<open>Doubles and their decimal output\<close>

text \<open>
  Finite IEEE doubles by their exact value: a sign and a fraction whose denominator is a power
  of two.  The program converts a \<open>uint64_t\<close> to \<open>double\<close>, divides by \<open>1e9\<close> and prints with
  \<open>%.0f\<close>, \<open>%.1f\<close> and \<open>%.2f\<close>; each of these rounds to nearest, ties to even.
\<close>

record double =
  dneg :: bool
  dnum :: nat
  dden :: nat

definition double_zero :: double where
  "double_zero = \<lparr>dneg = False, dnum = 0, dden = 1\<rparr>"

definition div_round_even :: "nat \<Rightarrow> nat \<Rightarrow> nat" where
  "div_round_even a b =
     (let q = a div b; r = a mod b
      in if 2 * r < b \<or> (2 * r = b \<and> even q) then q else q + 1)"

fun bit_length :: "nat \<Rightarrow> nat" where
  "bit_length n = (if n = 0 then 0 else Suc (bit_length (n div 2)))"

declare bit_length.simps [simp del]

text \<open>
  The double nearest to \<open>a / b\<close> (in the normal range): scale the quotient so that its integer
  part has 53 bits, round it, and undo the scaling.
\<close>

definition round_to_double :: "nat \<Rightarrow> nat \<Rightarrow> double" where
  "round_to_double a b =
     (if a = 0 then double_zero
      else let k0 = 53 + int (bit_length b) - int (bit_length a);
               num = (\<lambda>k. if 0 \<le> k then a * 2 ^ nat k else a);
               den = (\<lambda>k. if 0 \<le> k then b else b * 2 ^ nat (- k));
               k = (if num k0 div den k0 < 2 ^ 53 then k0 else k0 - 1);
               m = div_round_even (num k) (den k)
           in if 0 \<le> k then \<lparr>dneg = False, dnum = m, dden = 2 ^ nat k\<rparr>
              else \<lparr>dneg = False, dnum = m * 2 ^ nat (- k), dden = 1\<rparr>)"

definition double_of_u64 :: "u64 \<Rightarrow> double" where
  "double_of_u64 w = round_to_double (unat w) 1"

definition double_div :: "double \<Rightarrow> nat \<Rightarrow> double" where
  "double_div d n = (round_to_double (dnum d) (dden d * n))\<lparr>dneg := dneg d\<rparr>"

definition pad_left :: "nat \<Rightarrow> char \<Rightarrow> string \<Rightarrow> string" where
  "pad_left n c s = replicate (n - length s) c @ s"

text \<open>\<open>printf("%.<p>f", d)\<close>\<close>

definition fmt_fixed :: "nat \<Rightarrow> double \<Rightarrow> string" where
  "fmt_fixed p d =
     (let n = div_round_even (dnum d * 10 ^ p) (dden d)
      in (if dneg d then ''-'' else []) @ dec_nat (n div 10 ^ p) @
         (if p = 0 then [] else ''.'' @ pad_left p (CHR ''0'') (dec_nat (n mod 10 ^ p))))"

end
