(* ===== verification/Correlator.thy ===== *)
theory Correlator
  imports Prefilter Doubles "HOL-Library.AList"
begin

section \<open>The sequence correlator\<close>

text \<open>
  \<open>analyzer/src/correlator.cpp\<close>: the stateful detection of sequences.  Recent downloader runs
  are a deque, the staged writes a map from path to the last write, and the connections a map
  from (comm, address, port) to a deque of times.  Maps are association lists with distinct
  keys (\<open>AList.update\<close>, so that their size is a length), the set of ancestors is an ascending
  list without duplicates.  Times are 64-bit words and \<open>ts + window\<close> wraps as it does in C++.
\<close>

record correlation_hit =
  hit :: bool
  h_severity :: severity
  h_rule :: string
  h_reason :: string

definition no_hit :: correlation_hit where
  "no_hit = \<lparr>hit = False, h_severity = Info, h_rule = [], h_reason = []\<rparr>"

record lineage =
  l_ts :: u64
  l_anc :: "u32 list"
  l_comm :: string

record staged_write =
  sw_ts :: u64
  sw_writer :: string

type_synonym conn_key = "string \<times> u32 \<times> u16"

record correlator =
  window_ns :: u64
  beacon_threshold :: nat
  downloads :: "lineage list"
  staged :: "(string \<times> staged_write) list"
  conns :: "(conn_key \<times> u64 list) list"

definition kDownloaders :: "string list" where
  "kDownloaders = [''curl'', ''wget'']"

definition kMaxDownloads :: nat where "kMaxDownloads = 64"
definition kMaxStaged :: nat where "kMaxStaged = 512"
definition kMaxHistPerKey :: nat where "kMaxHistPerKey = 256"
definition kSweepKeys :: nat where "kSweepKeys = 4096"

lemmas corr_consts = kMaxDownloads_def kMaxStaged_def kMaxHistPerKey_def kSweepKeys_def

definition new_correlator :: "u64 \<Rightarrow> nat \<Rightarrow> correlator" where
  "new_correlator w n =
     \<lparr>window_ns = w, beacon_threshold = n, downloads = [], staged = [], conns = []\<rparr>"

text \<open>The constructor's default arguments: 60 seconds, three connections.\<close>

definition default_correlator :: correlator where
  "default_correlator = new_correlator (60 * 1000000000) 3"

subsection \<open>Helpers\<close>

definition is_temp_path :: "string \<Rightarrow> bool" where
  "is_temp_path path \<longleftrightarrow>
     starts_with ''/tmp/'' path \<or> starts_with ''/dev/shm/'' path \<or> starts_with ''/var/tmp/'' path"

definition to_sec :: "u64 \<Rightarrow> double" where
  "to_sec ns = double_div (double_of_u64 ns) 1000000000"

definition elapsed :: "u64 \<Rightarrow> u64 \<Rightarrow> u64" where
  "elapsed now t0 = (if t0 \<le> now then now - t0 else 0)"

text \<open>\<open>std::set::insert\<close> on the ascending list.\<close>

fun set_insert :: "u32 \<Rightarrow> u32 list \<Rightarrow> u32 list" where
  "set_insert x [] = [x]"
| "set_insert x (y # ys) =
     (if x < y then x # y # ys else if x = y then y # ys else y # set_insert x ys)"

fun insert_ancestors :: "pqsec_ancestor list \<Rightarrow> u32 list \<Rightarrow> u32 list" where
  "insert_ancestors [] s = s"
| "insert_ancestors (a # as) s =
     insert_ancestors as (if 1 < anc_pid a then set_insert (anc_pid a) s else s)"

definition ancestor_set :: "security_event \<Rightarrow> u32 list" where
  "ancestor_set ev =
     insert_ancestors (ev_anc ev) (if 1 < ev_ppid ev then set_insert (ev_ppid ev) [] else [])"

fun common_ancestor :: "u32 list \<Rightarrow> u32 list \<Rightarrow> u32" where
  "common_ancestor [] b = 0"
| "common_ancestor (p # a) b = (if p \<in> set b then p else common_ancestor a b)"

text \<open>The expiry test \<open>now > ts + window_ns_\<close>, in 64-bit arithmetic.\<close>

definition expired :: "u64 \<Rightarrow> u64 \<Rightarrow> u64 \<Rightarrow> bool" where
  "expired w now ts \<longleftrightarrow> ts + w < now"

subsection \<open>Observing a file event\<close>

definition sweep_staged :: "correlator \<Rightarrow> u64 \<Rightarrow> (string \<times> staged_write) list \<Rightarrow> (string \<times> staged_write) list" where
  "sweep_staged c now m = filter (\<lambda>(p, w). \<not> expired (window_ns c) now (sw_ts w)) m"

definition observe_file :: "correlator \<Rightarrow> security_event \<Rightarrow> pqsec_file_event \<Rightarrow> correlation_hit \<times> correlator" where
  "observe_file c ev f =
     (if \<not> has_flag (access f) PQSEC_FA_WRITE then (no_hit, c)
      else let p = cstr (fpath f)
        in if p = [] \<or> \<not> is_temp_path p then (no_hit, c)
           else let m = AList.update p \<lparr>sw_ts = ev_ts_ns ev, sw_writer = cstr (ev_comm ev)\<rparr> (staged c);
                    m' = (if kMaxStaged < length m then sweep_staged c (ev_ts_ns ev) m else m)
             in (no_hit, c\<lparr>staged := m'\<rparr>))"

subsection \<open>Observing an execution\<close>

text \<open>The loop that drops expired entries from the front of the deque.\<close>

definition drop_expired :: "correlator \<Rightarrow> u64 \<Rightarrow> lineage list \<Rightarrow> lineage list" where
  "drop_expired c now ds = dropWhile (\<lambda>d. expired (window_ns c) now (l_ts d)) ds"

text \<open>\<open>push_back\<close>, then \<open>pop_front\<close> if the deque has grown beyond its bound.\<close>

definition push_bounded :: "nat \<Rightarrow> 'a \<Rightarrow> 'a list \<Rightarrow> 'a list" where
  "push_bounded n x q = (let q' = q @ [x] in if n < length q' then tl q' else q')"

definition write_exec_hit :: "u64 \<Rightarrow> staged_write \<Rightarrow> string \<Rightarrow> correlation_hit" where
  "write_exec_hit now w path =
     \<lparr>hit = True, h_severity = Critical, h_rule = ''write-exec-chain'',
      h_reason = snprintf_buf 300
        (msg_wx_1 @ sw_writer w @ msg_wx_2 @ path @ msg_wx_3 @
         fmt_fixed 1 (to_sec (elapsed now (sw_ts w))) @ msg_wx_4)\<rparr>"

definition download_exec_hit :: "u64 \<Rightarrow> lineage \<Rightarrow> u32 \<Rightarrow> correlation_hit" where
  "download_exec_hit now d shared =
     \<lparr>hit = True, h_severity = Critical, h_rule = ''download-exec-chain'',
      h_reason = snprintf_buf 300
        (msg_dx_1 @ l_comm d @ msg_dx_2 @ dec_nat (unat shared) @ msg_dx_3 @
         fmt_fixed 1 (to_sec (elapsed now (l_ts d))) @ msg_dx_4)\<rparr>"

text \<open>The loop over the recent downloads: the first one that shares an ancestor.\<close>

fun find_shared :: "u64 \<Rightarrow> u32 list \<Rightarrow> lineage list \<Rightarrow> correlation_hit" where
  "find_shared now mine [] = no_hit"
| "find_shared now mine (d # ds) =
     (let shared = common_ancestor (l_anc d) mine
      in if shared = 0 then find_shared now mine ds else download_exec_hit now d shared)"

definition staged_hit :: "correlator \<Rightarrow> u64 \<Rightarrow> string \<Rightarrow> staged_write option" where
  "staged_hit c now path =
     (case map_of (staged c) path of
        None \<Rightarrow> None
      | Some w \<Rightarrow> if now \<le> sw_ts w + window_ns c then Some w else None)"

definition observe_execve :: "correlator \<Rightarrow> security_event \<Rightarrow> string \<Rightarrow> correlation_hit \<times> correlator" where
  "observe_execve c ev filename =
     (let now = ev_ts_ns ev;
          ds = drop_expired c now (downloads c);
          c' = c\<lparr>downloads := ds\<rparr>;
          bin = basename_of filename;
          path = cstr filename
      in if bin \<in> set kDownloaders then
           (no_hit, c'\<lparr>downloads := push_bounded kMaxDownloads
              \<lparr>l_ts = now, l_anc = ancestor_set ev, l_comm = bin\<rparr> ds\<rparr>)
         else if \<not> is_temp_path path then (no_hit, c')
         else case staged_hit c' now path of
             Some w \<Rightarrow> (write_exec_hit now w path, c')
           | None \<Rightarrow> (find_shared now (ancestor_set ev) ds, c'))"

subsection \<open>Observing a connection\<close>

definition hist_of :: "correlator \<Rightarrow> conn_key \<Rightarrow> u64 list" where
  "hist_of c k = (case map_of (conns c) k of None \<Rightarrow> [] | Some h \<Rightarrow> h)"

text \<open>The history of the key after this connection: expired times leave the front, \<open>now\<close> joins.\<close>

definition next_hist :: "correlator \<Rightarrow> conn_key \<Rightarrow> u64 \<Rightarrow> u64 list" where
  "next_hist c k now =
     push_bounded kMaxHistPerKey now (dropWhile (expired (window_ns c) now) (hist_of c k))"

definition sweep_conns :: "correlator \<Rightarrow> u64 \<Rightarrow> (conn_key \<times> u64 list) list \<Rightarrow> (conn_key \<times> u64 list) list" where
  "sweep_conns c now m =
     filter (\<lambda>(k, h). \<not> (h = [] \<or> expired (window_ns c) now (last h))) m"

definition beacon_hit :: "correlator \<Rightarrow> string \<Rightarrow> pqsec_tcp_event \<Rightarrow> nat \<Rightarrow> correlation_hit" where
  "beacon_hit c comm t n =
     \<lparr>hit = True, h_severity = High, h_rule = ''beacon'',
      h_reason = snprintf_buf 256
        (msg_beacon_1 @ comm @ msg_beacon_2 @ inet_ntop4 (daddr t) @ '':'' @
         dec_nat (unat (dport t)) @ msg_beacon_3 @ fmt_fixed 0 (to_sec (window_ns c)) @
         msg_beacon_4 @ dec_nat n @ msg_beacon_5)\<rparr>"

definition observe_connect :: "correlator \<Rightarrow> security_event \<Rightarrow> pqsec_tcp_event \<Rightarrow> correlation_hit \<times> correlator" where
  "observe_connect c ev t =
     (if is_private_ipv4 (daddr t) then (no_hit, c)
      else let now = ev_ts_ns ev;
               comm = cstr (ev_comm ev);
               k = (comm, daddr t, dport t);
               h = next_hist c k now;
               m = AList.update k h (conns c);
               m' = (if kSweepKeys < length m then sweep_conns c now m else m);
               c' = c\<lparr>conns := m'\<rparr>
        in if length h < beacon_threshold c then (no_hit, c') else (beacon_hit c comm t (length h), c'))"

definition observe :: "correlator \<Rightarrow> security_event \<Rightarrow> correlation_hit \<times> correlator" where
  "observe c ev =
     (case ev_u ev of
        U_execve f \<Rightarrow> observe_execve c ev f
      | U_tcp t \<Rightarrow> observe_connect c ev t
      | U_file f \<Rightarrow> observe_file c ev f
      | _ \<Rightarrow> (no_hit, c))"

text \<open>The state after a sequence of events, oldest first.\<close>

fun observe_all :: "correlator \<Rightarrow> security_event list \<Rightarrow> correlator" where
  "observe_all c [] = c"
| "observe_all c (e # es) = observe_all (snd (observe c e)) es"

lemma observe_all_append: "observe_all c (es @ fs) = observe_all (observe_all c es) fs"
  by (induction es arbitrary: c) simp_all

end
