(* ===== verification/Window_Deque.thy ===== *)
theory Window_Deque
  imports Correlator
begin

section \<open>Deques that forget what has left the time window\<close>

text \<open>
  The correlator keeps two kinds of bounded deque, the downloader runs and the connection times
  of one destination.  Both drop expired entries from the front and push at the back, up to a
  bound.  The locale states the two laws the reasoning needs; the invariant \<open>represents\<close>
  relates such a deque to the list of everything that was ever pushed.
\<close>

definition lastn :: "nat \<Rightarrow> 'a list \<Rightarrow> 'a list" where
  "lastn n xs = drop (length xs - n) xs"

definition live :: "u64 \<Rightarrow> u64 \<Rightarrow> u64 \<Rightarrow> bool" where
  "live w now t \<longleftrightarrow> \<not> expired w now t"

text \<open>Adding the window to this time does not wrap around.\<close>

definition no_wrap :: "u64 \<Rightarrow> u64 \<Rightarrow> bool" where
  "no_wrap w t \<longleftrightarrow> t \<le> t + w"

definition time_sorted :: "('a \<Rightarrow> u64) \<Rightarrow> u64 \<Rightarrow> 'a list \<Rightarrow> bool" where
  "time_sorted ts w q \<longleftrightarrow> sorted (map ts q) \<and> (\<forall>x \<in> set q. no_wrap w (ts x))"

definition represents :: "('a \<Rightarrow> u64) \<Rightarrow> nat \<Rightarrow> u64 \<Rightarrow> u64 \<Rightarrow> 'a list \<Rightarrow> 'a list \<Rightarrow> bool" where
  "represents ts cap w T q xs \<longleftrightarrow>
     time_sorted ts w q \<and> length q \<le> cap \<and> (\<forall>x \<in> set q. ts x \<le> T) \<and>
     (\<forall>now \<ge> T. filter (\<lambda>x. live w now (ts x)) q = filter (\<lambda>x. live w now (ts x)) (lastn cap xs))"

lemma length_lastn [simp]: "length (lastn n xs) = min n (length xs)"
  by (simp add: lastn_def min_def)

lemma lastn_all: "length xs \<le> n \<Longrightarrow> lastn n xs = xs"
  by (simp add: lastn_def)

lemma lastn_snoc: "0 < n \<Longrightarrow> lastn n (xs @ [x]) = lastn (n - 1) xs @ [x]"
  by (simp add: lastn_def Suc_diff_le drop_append)

lemma lastn_pred: "length xs < n \<Longrightarrow> lastn (n - 1) xs = xs"
  by (simp add: lastn_def)

lemma lastn_pred_tl:
  assumes "0 < n" and "n \<le> length xs"
  shows "lastn n xs \<noteq> [] \<and> lastn (n - 1) xs = tl (lastn n xs)"
proof -
  have "length xs - (n - 1) = Suc (length xs - n)"
    using assms by arith
  with assms show ?thesis
    by (simp add: lastn_def drop_Suc tl_drop)
qed

lemma set_lastn: "x \<in> set (lastn n xs) \<Longrightarrow> x \<in> set xs"
  by (simp add: lastn_def in_set_dropD)

lemma push_bounded_lastn: "length q \<le> n \<Longrightarrow> push_bounded n x q = lastn n (q @ [x])"
  by (cases q; cases "length q = n") (auto simp: push_bounded_def lastn_def drop_Suc)

lemma live_antimono: "live w now t \<Longrightarrow> now0 \<le> now \<Longrightarrow> live w now0 t"
  by (auto simp: live_def expired_def)

lemma expired_mono:
  assumes "expired w now t'" and "t \<le> t'" and "no_wrap w t'"
  shows "expired w now t"
proof -
  have "t + w \<le> t' + w"
    using assms(2,3) unfolding no_wrap_def by unat_arith
  with assms(1) show ?thesis
    by (simp add: expired_def)
qed

lemma time_sorted_ConsD:
  "time_sorted ts w (x # q) \<Longrightarrow> time_sorted ts w q"
  by (simp add: time_sorted_def)

lemma time_sorted_lastn: "time_sorted ts w q \<Longrightarrow> time_sorted ts w (lastn n q)"
  by (auto simp: time_sorted_def lastn_def drop_map [symmetric] sorted_wrt_drop dest: in_set_dropD)

text \<open>On a sorted deque, dropping the expired prefix drops every expired entry.\<close>

lemma dropWhile_expired:
  "time_sorted ts w q \<Longrightarrow>
    dropWhile (\<lambda>x. expired w now (ts x)) q = filter (\<lambda>x. live w now (ts x)) q"
proof (induction q)
  case (Cons x q)
  show ?case
  proof (cases "expired w now (ts x)")
    case True
    then show ?thesis
      using Cons.IH time_sorted_ConsD [OF Cons.prems] by (simp add: live_def)
  next
    case False
    have "\<not> expired w now (ts y)" if "y \<in> set q" for y
      using that Cons.prems False expired_mono [of w now "ts y" "ts x"]
      by (auto simp: time_sorted_def)
    then have "filter (\<lambda>x. live w now (ts x)) q = q"
      by (auto simp: live_def filter_id_conv)
    with False show ?thesis
      by (simp add: live_def)
  qed
qed simp

lemma filter_live_twice:
  assumes "now0 \<le> now"
  shows "filter (\<lambda>x. live w now (ts x)) (filter (\<lambda>x. live w now0 (ts x)) q) =
    filter (\<lambda>x. live w now (ts x)) q"
  using live_antimono [OF _ assms] by (auto intro: filter_cong)

text \<open>A live suffix: if it is shorter than the whole, the first entry is dead.\<close>

lemma filter_eq_self_or_hd:
  assumes "time_sorted ts w q" and "filter (\<lambda>x. live w now (ts x)) q \<noteq> q"
  shows "q \<noteq> [] \<and> \<not> live w now (ts (hd q))"
proof -
  have "dropWhile (\<lambda>x. expired w now (ts x)) q \<noteq> q"
    using assms dropWhile_expired [OF assms(1)] by simp
  then show ?thesis
    by (cases q) (auto simp: live_def split: if_splits)
qed

locale expiry_deque =
  fixes ts :: "'a \<Rightarrow> u64" and cap :: nat
    and push :: "'a \<Rightarrow> 'a list \<Rightarrow> 'a list"
    and expire :: "u64 \<Rightarrow> u64 \<Rightarrow> 'a list \<Rightarrow> 'a list"
  assumes cap_pos: "0 < cap"
    and push_law: "length q \<le> cap \<Longrightarrow> push x q = lastn cap (q @ [x])"
    and expire_law: "time_sorted ts w q \<Longrightarrow> expire w now q = filter (\<lambda>x. live w now (ts x)) q"
begin

lemma represents_Nil: "represents ts cap w T [] []"
  by (simp add: represents_def time_sorted_def lastn_def)

lemma represents_later: "represents ts cap w T q xs \<Longrightarrow> T \<le> T' \<Longrightarrow> represents ts cap w T' q xs"
  by (auto simp: represents_def)

lemma represents_expire:
  assumes "represents ts cap w T q xs" and "T \<le> now"
  shows "represents ts cap w now (expire w now q) xs"
proof -
  have s: "time_sorted ts w q"
    using assms(1) by (simp add: represents_def)
  then have e: "expire w now q = filter (\<lambda>x. live w now (ts x)) q"
    by (rule expire_law)
  have "\<forall>x \<in> set q. ts x \<le> T"
    using assms(1) by (simp add: represents_def)
  with assms(2) have "\<forall>x \<in> set (filter (\<lambda>x. live w now (ts x)) q). ts x \<le> now"
    by (auto intro: order_trans)
  moreover have "time_sorted ts w (filter (\<lambda>x. live w now (ts x)) q)"
    using s by (auto simp: time_sorted_def sorted_map sorted_wrt_filter)
  moreover have "length (filter (\<lambda>x. live w now (ts x)) q) \<le> cap"
    using assms(1) le_trans [OF length_filter_le] by (auto simp: represents_def)
  ultimately show ?thesis
    using assms unfolding e by (simp only: represents_def)
    (simp add: filter_live_twice del: filter_filter set_filter)
qed

lemma represents_push:
  assumes rep: "represents ts cap w now q xs" and live: "\<forall>x \<in> set q. live w now (ts x)"
    and x: "ts x = now" "no_wrap w now" and xs: "time_sorted ts w xs"
  shows "represents ts cap w now (push x q) (xs @ [x])"
proof -
  let ?L = "\<lambda>n. filter (\<lambda>x. live w n (ts x))"
  have len: "length q \<le> cap" and sq: "time_sorted ts w q" and le: "\<forall>y \<in> set q. ts y \<le> now"
    using rep by (simp_all add: represents_def)
  have q: "q = ?L now (lastn cap xs)"
    using rep live by (metis (mono_tags, lifting) filter_True represents_def order_refl)
  have sl: "time_sorted ts w (lastn cap xs)"
    using xs by (rule time_sorted_lastn)
  have p: "push x q = lastn (cap - 1) q @ [x]"
    using push_law [OF len] lastn_snoc [OF cap_pos] by simp
  have part: "y \<in> set (lastn (cap - 1) q) \<Longrightarrow> y \<in> set q" for y
    by (rule set_lastn)
  have "sorted (map ts (push x q))"
    using time_sorted_lastn [OF sq, of "cap - 1"] le part x(1)
    by (auto simp: p time_sorted_def sorted_append)
  then have "time_sorted ts w (push x q)"
    using sq part x by (auto simp: p time_sorted_def)
  moreover have "?L n (push x q) = ?L n (lastn cap (xs @ [x]))" if n: "now \<le> n" for n
  proof -
    have *: "?L n (lastn (cap - 1) q) = ?L n (lastn (cap - 1) xs)"
    proof (cases "length xs < cap")
      case True
      then have "length q < cap"
        using q by (metis lastn_all less_imp_le_nat length_filter_le order_le_less_trans)
      then show ?thesis
        using True q n by (simp add: lastn_pred lastn_all filter_live_twice del: filter_filter)
    next
      case False
      then have t: "lastn cap xs \<noteq> []" "lastn (cap - 1) xs = tl (lastn cap xs)"
        using lastn_pred_tl [OF cap_pos, of xs] by auto
      show ?thesis
      proof (cases "?L now (lastn cap xs) = lastn cap xs")
        case True
        then have "lastn (cap - 1) q = lastn (cap - 1) xs"
          using q False cap_pos t lastn_pred_tl [OF cap_pos, of q]
          by (auto simp: lastn_all)
        then show ?thesis by simp
      next
        case ne: False
        then have hd: "\<not> live w now (ts (hd (lastn cap xs)))"
          using filter_eq_self_or_hd [OF sl] by blast
        have tl: "?L m (tl (lastn cap xs)) = ?L m (lastn cap xs)" if "now \<le> m" for m
          using hd t(1) live_antimono [OF _ that] by (cases "lastn cap xs") auto
        have "length q < cap"
        proof -
          have "length q \<le> length (tl (lastn cap xs))"
            unfolding q using tl [of now] length_filter_le by (metis order_refl)
          then show ?thesis
            using t(1) False cap_pos by simp
        qed
        then have "?L n (lastn (cap - 1) q) = ?L n q"
          by (simp only: lastn_pred)
        also have "\<dots> = ?L n (lastn cap xs)"
          using filter_live_twice [OF n] q by metis
        finally show ?thesis
          using t(2) tl [OF n] by simp
      qed
    qed
    show ?thesis
      using * by (simp add: p lastn_snoc [OF cap_pos])
  qed
  moreover have "length (push x q) \<le> cap"
    using cap_pos by (simp add: p)
  ultimately show ?thesis
    using x(1) le part by (auto simp: represents_def p)
qed

text \<open>What a connection or a download does to its deque: expire, then push.\<close>

lemma represents_step:
  assumes rep: "represents ts cap w T q xs" and "T \<le> ts x" and "no_wrap w (ts x)"
    and "time_sorted ts w xs"
  shows "represents ts cap w (ts x) (push x (expire w (ts x) q)) (xs @ [x])"
proof (rule represents_push)
  have "expire w (ts x) q = filter (\<lambda>y. live w (ts x) (ts y)) q"
    using rep by (simp add: represents_def expire_law)
  then show "\<forall>y \<in> set (expire w (ts x) q). live w (ts x) (ts y)"
    by simp
qed (use assms represents_expire in auto)

end

interpretation dl: expiry_deque l_ts kMaxDownloads "push_bounded kMaxDownloads"
    "\<lambda>w now. dropWhile (\<lambda>d. expired w now (l_ts d))"
  by unfold_locales (simp_all add: corr_consts push_bounded_lastn dropWhile_expired)

interpretation ct: expiry_deque "\<lambda>t. t" kMaxHistPerKey "push_bounded kMaxHistPerKey"
    "\<lambda>w now. dropWhile (expired w now)"
  by unfold_locales
    (simp_all add: corr_consts push_bounded_lastn dropWhile_expired [where ts = "\<lambda>t. t", simplified])

end
