(* ===== verification/Correlator_Spec.thy ===== *)
theory Correlator_Spec
  imports Window_Deque
begin

section \<open>What the correlator detects: a specification over the whole trace\<close>

text \<open>
  The specification has no state: which rule fires for an event is read off the list of all
  events seen before it.  The correlator, which keeps only bounded and regularly swept state,
  is shown to compute the same answer when event times do not run backwards and the window
  does not wrap around the 64-bit clock.
\<close>

subsection \<open>Trace specification\<close>

definition write_entry :: "security_event \<Rightarrow> staged_write" where
  "write_entry e = \<lparr>sw_ts = ev_ts_ns e, sw_writer = cstr (ev_comm e)\<rparr>"

text \<open>The event writes to this staging path.\<close>

definition writes_path :: "string \<Rightarrow> security_event \<Rightarrow> bool" where
  "writes_path p e \<longleftrightarrow>
     (case ev_u e of
        U_file f \<Rightarrow> has_flag (access f) PQSEC_FA_WRITE \<and> cstr (fpath f) = p \<and> p \<noteq> [] \<and> is_temp_path p
      | _ \<Rightarrow> False)"

definition downloader_run :: "security_event \<Rightarrow> bool" where
  "downloader_run e \<longleftrightarrow>
     (case ev_u e of U_execve f \<Rightarrow> basename_of f \<in> set kDownloaders | _ \<Rightarrow> False)"

definition run_lineage :: "security_event \<Rightarrow> lineage" where
  "run_lineage e =
     \<lparr>l_ts = ev_ts_ns e, l_anc = ancestor_set e,
      l_comm = (case ev_u e of U_execve f \<Rightarrow> basename_of f | _ \<Rightarrow> [])\<rparr>"

definition download_runs :: "security_event list \<Rightarrow> lineage list" where
  "download_runs past = map run_lineage (filter downloader_run past)"

definition conn_key_of :: "security_event \<Rightarrow> pqsec_tcp_event \<Rightarrow> conn_key" where
  "conn_key_of e t = (cstr (ev_comm e), daddr t, dport t)"

definition connects :: "conn_key \<Rightarrow> security_event \<Rightarrow> bool" where
  "connects k e \<longleftrightarrow>
     (case ev_u e of U_tcp t \<Rightarrow> \<not> is_private_ipv4 (daddr t) \<and> conn_key_of e t = k | _ \<Rightarrow> False)"

definition conn_times :: "conn_key \<Rightarrow> security_event list \<Rightarrow> u64 list" where
  "conn_times k past = map ev_ts_ns (filter (connects k) past)"

definition last_such :: "('a \<Rightarrow> bool) \<Rightarrow> 'a list \<Rightarrow> 'a option" where
  "last_such P xs = (let ys = filter P xs in if ys = [] then None else Some (last ys))"

text \<open>The last write to the path, if it is still inside the window.\<close>

definition staged_spec :: "u64 \<Rightarrow> u64 \<Rightarrow> security_event list \<Rightarrow> string \<Rightarrow> staged_write option" where
  "staged_spec w now past p =
     (case last_such (writes_path p) past of
        None \<Rightarrow> None
      | Some e \<Rightarrow> if live w now (ev_ts_ns e) then Some (write_entry e) else None)"

definition spec_rule :: "u64 \<Rightarrow> nat \<Rightarrow> security_event list \<Rightarrow> security_event \<Rightarrow> string option" where
  "spec_rule w n past ev =
     (let now = ev_ts_ns ev
      in case ev_u ev of
           U_execve f \<Rightarrow>
             if basename_of f \<in> set kDownloaders \<or> \<not> is_temp_path (cstr f) then None
             else if staged_spec w now past (cstr f) \<noteq> None then Some ''write-exec-chain''
             else if list_ex (\<lambda>d. live w now (l_ts d) \<and> set (l_anc d) \<inter> set (ancestor_set ev) \<noteq> {})
                       (lastn kMaxDownloads (download_runs past))
               then Some ''download-exec-chain'' else None
         | U_tcp t \<Rightarrow>
             if is_private_ipv4 (daddr t) then None
             else if n \<le> length (filter (live w now)
                        (lastn kMaxHistPerKey (conn_times (conn_key_of ev t) past @ [now])))
               then Some ''beacon'' else None
         | _ \<Rightarrow> None)"

definition hit_rule :: "correlation_hit \<Rightarrow> string option" where
  "hit_rule h = (if hit h then Some (h_rule h) else None)"

lemma hit_rule_simps [simp]:
  "hit_rule no_hit = None"
  "hit_rule (write_exec_hit now w p) = Some ''write-exec-chain''"
  "hit_rule (download_exec_hit now d s) = Some ''download-exec-chain''"
  "hit_rule (beacon_hit c comm t m) = Some ''beacon''"
  by (simp_all add: hit_rule_def no_hit_def write_exec_hit_def download_exec_hit_def beacon_hit_def)

subsection \<open>Ancestor sets\<close>

lemma set_set_insert [simp]: "set (set_insert x s) = insert x (set s)"
  by (induction s) auto

lemma sorted_set_insert: "sorted s \<Longrightarrow> distinct s \<Longrightarrow> sorted (set_insert x s) \<and> distinct (set_insert x s)"
  by (induction s) (auto simp: not_less)

lemma set_insert_ancestors:
  "set (insert_ancestors as s) = set s \<union> {p. 1 < p \<and> p \<in> anc_pid ` set as}"
  by (induction as arbitrary: s) auto

lemma sorted_insert_ancestors:
  "sorted s \<Longrightarrow> distinct s \<Longrightarrow> sorted (insert_ancestors as s) \<and> distinct (insert_ancestors as s)"
  by (induction as arbitrary: s) (auto simp: sorted_set_insert)

lemma set_ancestor_set:
  "set (ancestor_set ev) = {p. 1 < p \<and> p \<in> insert (ev_ppid ev) (anc_pid ` set (ev_anc ev))}"
  by (auto simp: ancestor_set_def set_insert_ancestors)

lemma zero_notin_ancestor_set [simp]: "0 \<notin> set (ancestor_set ev)"
  by (simp add: set_ancestor_set)

lemma common_ancestor_0: "0 \<notin> set a \<Longrightarrow> common_ancestor a b = 0 \<longleftrightarrow> set a \<inter> set b = {}"
  by (induction a) auto

lemma common_ancestor_in: "common_ancestor a b \<noteq> 0 \<Longrightarrow> common_ancestor a b \<in> set a \<inter> set b"
  by (induction a) (auto split: if_splits)

lemma hit_rule_find_shared:
  "\<forall>d \<in> set ds. 0 \<notin> set (l_anc d) \<Longrightarrow>
    hit_rule (find_shared now mine ds) =
      (if list_ex (\<lambda>d. set (l_anc d) \<inter> set mine \<noteq> {}) ds then Some ''download-exec-chain'' else None)"
  by (induction ds) (auto simp: Let_def common_ancestor_0)

subsection \<open>Association lists\<close>

lemma map_of_filter_distinct:
  "distinct (map fst m) \<Longrightarrow>
    map_of (filter P m) k = (case map_of m k of None \<Rightarrow> None | Some v \<Rightarrow> if P (k, v) then Some v else None)"
  by (induction m) (auto split: option.splits dest: map_of_SomeD simp: map_of_eq_None_iff image_iff)

lemma distinct_fst_filter: "distinct (map fst m) \<Longrightarrow> distinct (map fst (filter P m))"
  by (induction m) auto

lemma map_of_update [simp]: "map_of (AList.update k v m) = (map_of m)(k \<mapsto> v)"
  by (simp add: AList.update_conv')

subsection \<open>The state relation\<close>

definition corr_rel :: "u64 \<Rightarrow> nat \<Rightarrow> security_event list \<Rightarrow> u64 \<Rightarrow> correlator \<Rightarrow> bool" where
  "corr_rel w n past T c \<longleftrightarrow>
     window_ns c = w \<and> beacon_threshold c = n \<and>
     represents l_ts kMaxDownloads w T (downloads c) (download_runs past) \<and>
     (\<forall>d \<in> set (downloads c). 0 \<notin> set (l_anc d)) \<and>
     (\<forall>k. represents (\<lambda>t. t) kMaxHistPerKey w T (hist_of c k) (conn_times k past)) \<and>
     (\<forall>p now. T \<le> now \<longrightarrow> staged_hit c now p = staged_spec w now past p) \<and>
     distinct (map fst (staged c)) \<and> distinct (map fst (conns c))"

lemma sorted_le_last: "sorted (xs :: 'a :: linorder list) \<Longrightarrow> x \<in> set xs \<Longrightarrow> x \<le> last xs"
  by (induction xs) auto

lemma time_sorted_le_last:
  assumes "time_sorted ts w q" and "x \<in> set q"
  shows "ts x \<le> ts (last q)"
proof -
  have "ts x \<le> last (map ts q)"
    using assms by (intro sorted_le_last) (auto simp: time_sorted_def)
  then show ?thesis
    using assms(2) by (cases q rule: rev_cases) auto
qed

lemma represents_dead:
  assumes "represents ts cap w T q xs" and "q = [] \<or> expired w T (ts (last q))"
  shows "represents ts cap w T [] xs"
proof -
  have q: "time_sorted ts w q"
    using assms(1) by (simp add: represents_def)
  have dead: "expired w T (ts x)" if "x \<in> set q" for x
  proof -
    have "last q \<in> set q" and "expired w T (ts (last q))"
      using that assms(2) by (cases q; auto)+
    moreover from this have "no_wrap w (ts (last q))"
      using q by (simp add: time_sorted_def)
    ultimately show ?thesis
      using expired_mono time_sorted_le_last [OF q that] by blast
  qed
  have "filter (\<lambda>x. live w now (ts x)) q = []" if "T \<le> now" for now
    using dead live_antimono [OF _ that] by (auto simp: filter_empty_conv live_def)
  moreover have "\<forall>now\<ge>T. filter (\<lambda>x. live w now (ts x)) q = filter (\<lambda>x. live w now (ts x)) (lastn cap xs)"
    using assms(1) by (simp add: represents_def)
  ultimately show ?thesis
    by (simp add: represents_def time_sorted_def)
qed

lemma corr_rel_init: "corr_rel w n [] T (new_correlator w n)"
  by (simp add: corr_rel_def new_correlator_def hist_of_def staged_hit_def staged_spec_def
      last_such_def download_runs_def conn_times_def dl.represents_Nil ct.represents_Nil)

lemma corr_relD:
  assumes "corr_rel w n past T c"
  shows "window_ns c = w" and "beacon_threshold c = n"
    and "represents l_ts kMaxDownloads w T (downloads c) (download_runs past)"
    and "d \<in> set (downloads c) \<Longrightarrow> 0 \<notin> set (l_anc d)"
    and "represents (\<lambda>t. t) kMaxHistPerKey w T (hist_of c k) (conn_times k past)"
    and "T \<le> now \<Longrightarrow> staged_hit c now p = staged_spec w now past p"
    and "distinct (map fst (staged c))" and "distinct (map fst (conns c))"
  using assms unfolding corr_rel_def by blast+

lemma corr_relI:
  assumes "window_ns c = w" and "beacon_threshold c = n"
    and "represents l_ts kMaxDownloads w T (downloads c) (download_runs past)"
    and "\<And>d. d \<in> set (downloads c) \<Longrightarrow> 0 \<notin> set (l_anc d)"
    and "\<And>k. represents (\<lambda>t. t) kMaxHistPerKey w T (hist_of c k) (conn_times k past)"
    and "\<And>p now. T \<le> now \<Longrightarrow> staged_hit c now p = staged_spec w now past p"
    and "distinct (map fst (staged c))" and "distinct (map fst (conns c))"
  shows "corr_rel w n past T c"
  using assms unfolding corr_rel_def by blast

lemma corr_rel_later:
  assumes "corr_rel w n past T c" and "T \<le> T'"
  shows "corr_rel w n past T' c"
proof (rule corr_relI)
  show "represents l_ts kMaxDownloads w T' (downloads c) (download_runs past)"
    using dl.represents_later assms corr_relD(3) by blast
  show "represents (\<lambda>t. t) kMaxHistPerKey w T' (hist_of c k) (conn_times k past)" for k
    using ct.represents_later assms corr_relD(5) by blast
  show "staged_hit c now p = staged_spec w now past p" if "T' \<le> now" for p now
    using that assms corr_relD(6) order_trans by blast
qed (use corr_relD [OF assms(1)] in simp_all)

text \<open>An event that is no write, no downloader run and no connection leaves the specification alone.\<close>

lemma download_runs_snoc:
  "download_runs (past @ [ev]) = download_runs past @ (if downloader_run ev then [run_lineage ev] else [])"
  by (simp add: download_runs_def)

lemma conn_times_snoc:
  "conn_times k (past @ [ev]) = conn_times k past @ (if connects k ev then [ev_ts_ns ev] else [])"
  by (simp add: conn_times_def)

lemma staged_spec_snoc:
  "staged_spec w now (past @ [ev]) p =
     (if writes_path p ev then (if live w now (ev_ts_ns ev) then Some (write_entry ev) else None)
      else staged_spec w now past p)"
  by (simp add: staged_spec_def last_such_def Let_def)

lemma time_sorted_download_runs:
  "time_sorted ev_ts_ns w past \<Longrightarrow> time_sorted l_ts w (download_runs past)"
  by (auto simp: time_sorted_def download_runs_def run_lineage_def comp_def sorted_map sorted_wrt_filter)

lemma time_sorted_conn_times:
  "time_sorted ev_ts_ns w past \<Longrightarrow> time_sorted (\<lambda>t. t) w (conn_times k past)"
  by (auto simp: time_sorted_def conn_times_def sorted_map sorted_wrt_filter)

subsection \<open>One event\<close>

lemma staged_hit_live:
  "staged_hit c now p =
     (case map_of (staged c) p of
        None \<Rightarrow> None | Some x \<Rightarrow> if live (window_ns c) now (sw_ts x) then Some x else None)"
  by (simp add: staged_hit_def live_def expired_def not_less split: option.split)

lemma hist_of_simps [simp]:
  "hist_of (c\<lparr>downloads := ds\<rparr>) k = hist_of c k"
  "hist_of (c\<lparr>staged := m\<rparr>) k = hist_of c k"
  by (simp_all add: hist_of_def)

lemma staged_hit_simps [simp]:
  "staged_hit (c\<lparr>downloads := ds\<rparr>) now p = staged_hit c now p"
  "staged_hit (c\<lparr>conns := cs\<rparr>) now p = staged_hit c now p"
  by (simp_all add: staged_hit_def split: option.split)

text \<open>What the sweep of the staged writes removes would no longer be found anyway.\<close>

lemma staged_hit_sweep:
  assumes "distinct (map fst m)" and "T \<le> now"
  shows "staged_hit (c\<lparr>staged := sweep_staged c T m\<rparr>) now p = staged_hit (c\<lparr>staged := m\<rparr>) now p"
  using live_antimono [OF _ assms(2)] map_of_filter_distinct [OF assms(1)]
  by (auto simp: staged_hit_live sweep_staged_def live_def split: option.splits)

text \<open>Neither does the sweep of the connections change what the histories represent.\<close>

lemma represents_sweep:
  assumes "distinct (map fst m)"
    and "represents (\<lambda>t. t) cap (window_ns c) T (hist_of (c\<lparr>conns := m\<rparr>) k) xs"
  shows "represents (\<lambda>t. t) cap (window_ns c) T (hist_of (c\<lparr>conns := sweep_conns c T m\<rparr>) k) xs"
proof (cases "map_of m k")
  case None
  then show ?thesis
    using assms by (simp add: hist_of_def sweep_conns_def map_of_filter_distinct)
next
  case (Some h)
  then show ?thesis
    using assms represents_dead [of "\<lambda>t. t" cap "window_ns c" T h xs]
    by (auto simp: hist_of_def sweep_conns_def map_of_filter_distinct)
qed

lemma corr_rel_other:
  assumes "corr_rel w n past T c" and "T \<le> T'"
    and "\<not> downloader_run ev" and "\<And>k. \<not> connects k ev" and "\<And>p. \<not> writes_path p ev"
  shows "corr_rel w n (past @ [ev]) T' c"
  using corr_rel_later [OF assms(1,2)] assms(3-)
  by (simp add: corr_rel_def download_runs_snoc conn_times_snoc staged_spec_snoc)

lemma corr_rel_file:
  assumes rel: "corr_rel w n past T c" and T: "T \<le> ev_ts_ns ev" and u: "ev_u ev = U_file f"
  shows "corr_rel w n (past @ [ev]) (ev_ts_ns ev) (snd (observe_file c ev f))"
proof -
  have dr: "\<not> downloader_run ev" and cn: "\<not> connects k ev" for k
    using u by (simp_all add: downloader_run_def connects_def)
  define p where "p = cstr (fpath f)"
  show ?thesis
  proof (cases "has_flag (access f) PQSEC_FA_WRITE \<and> p \<noteq> [] \<and> is_temp_path p")
    case False
    then have "\<not> writes_path q ev" for q
      using u by (auto simp: writes_path_def p_def)
    moreover have "snd (observe_file c ev f) = c"
      using False by (auto simp: observe_file_def p_def Let_def)
    ultimately show ?thesis
      using corr_rel_other [OF rel T dr cn] by simp
  next
    case True
    let ?m = "AList.update p (write_entry ev) (staged c)"
    let ?m' = "if kMaxStaged < length ?m then sweep_staged c (ev_ts_ns ev) ?m else ?m"
    have wr: "writes_path q ev \<longleftrightarrow> q = p" for q
      using True u by (auto simp: writes_path_def p_def)
    have c': "snd (observe_file c ev f) = c\<lparr>staged := ?m'\<rparr>"
      using True by (simp add: observe_file_def p_def Let_def write_entry_def)
    have rel': "corr_rel w n past (ev_ts_ns ev) c"
      by (rule corr_rel_later [OF rel T])
    have d: "distinct (map fst ?m)"
      using corr_relD(7) [OF rel] by (rule distinct_update)
    have "staged_hit (c\<lparr>staged := ?m\<rparr>) now q = staged_spec w now (past @ [ev]) q"
      if "ev_ts_ns ev \<le> now" for now q
      using corr_relD(1) [OF rel'] corr_relD(6) [OF rel' that, of q]
      by (auto simp: staged_spec_snoc wr staged_hit_live write_entry_def split: option.splits)
    then have "staged_hit (c\<lparr>staged := ?m'\<rparr>) now q = staged_spec w now (past @ [ev]) q"
      if "ev_ts_ns ev \<le> now" for now q
      using that staged_hit_sweep [OF d that] by simp
    moreover have "distinct (map fst ?m')"
      using d by (simp add: sweep_staged_def distinct_fst_filter)
    ultimately show ?thesis
      unfolding c' by (intro corr_relI)
        (use corr_relD [OF rel'] in \<open>simp_all add: download_runs_snoc conn_times_snoc dr cn\<close>)
  qed
qed

lemma set_push_bounded: "x \<in> set (push_bounded n y q) \<Longrightarrow> x = y \<or> x \<in> set q"
  by (cases q) (auto simp: push_bounded_def Let_def split: if_splits)

lemma corr_rel_execve:
  assumes rel: "corr_rel w n past T c" and T: "T \<le> ev_ts_ns ev" and u: "ev_u ev = U_execve f"
    and sorted: "time_sorted ev_ts_ns w (past @ [ev])"
  shows "corr_rel w n (past @ [ev]) (ev_ts_ns ev) (snd (observe_execve c ev f))"
proof -
  have wr: "\<not> writes_path p ev" and cn: "\<not> connects k ev" for p k
    using u by (simp_all add: writes_path_def connects_def)
  let ?ds = "drop_expired c (ev_ts_ns ev) (downloads c)"
  have rel': "corr_rel w n past (ev_ts_ns ev) c"
    by (rule corr_rel_later [OF rel T])
  have ds0: "0 \<notin> set (l_anc d)" if "d \<in> set ?ds" for d
    using that corr_relD(4) [OF rel] by (auto simp: drop_expired_def dest: set_dropWhileD)
  show ?thesis
  proof (cases "downloader_run ev")
    case False
    then have "basename_of f \<notin> set kDownloaders"
      using u by (simp add: downloader_run_def)
    then have c': "snd (observe_execve c ev f) = c\<lparr>downloads := ?ds\<rparr>"
      by (simp add: observe_execve_def Let_def split: option.split)
    have "represents l_ts kMaxDownloads w (ev_ts_ns ev) ?ds (download_runs past)"
      using dl.represents_expire [OF corr_relD(3) [OF rel] T] corr_relD(1) [OF rel]
      by (simp add: drop_expired_def)
    then show ?thesis
      unfolding c' using ds0 by (intro corr_relI)
        (use corr_relD [OF rel'] in
          \<open>simp_all add: download_runs_snoc conn_times_snoc staged_spec_snoc False cn wr\<close>)
  next
    case True
    let ?x = "run_lineage ev"
    have x: "?x = \<lparr>l_ts = ev_ts_ns ev, l_anc = ancestor_set ev, l_comm = basename_of f\<rparr>"
      using u by (simp add: run_lineage_def)
    have "basename_of f \<in> set kDownloaders"
      using u True by (simp add: downloader_run_def)
    then have c': "snd (observe_execve c ev f) =
        c\<lparr>downloads := push_bounded kMaxDownloads ?x ?ds\<rparr>"
      by (simp add: observe_execve_def Let_def x)
    have "time_sorted l_ts w (download_runs past)"
      using sorted by (intro time_sorted_download_runs) (auto simp: time_sorted_def sorted_append)
    moreover have "no_wrap w (l_ts ?x)"
      using sorted by (simp add: x time_sorted_def)
    ultimately have "represents l_ts kMaxDownloads w (ev_ts_ns ev)
        (push_bounded kMaxDownloads ?x ?ds) (download_runs past @ [?x])"
      using dl.represents_step [OF corr_relD(3) [OF rel], of ?x] T corr_relD(1) [OF rel]
      by (simp add: x drop_expired_def)
    moreover have "0 \<notin> set (l_anc d)" if "d \<in> set (push_bounded kMaxDownloads ?x ?ds)" for d
      using ds0 set_push_bounded [OF that] by (auto simp: x)
    ultimately show ?thesis
      unfolding c' by (intro corr_relI)
        (use corr_relD [OF rel'] in
          \<open>simp_all add: download_runs_snoc conn_times_snoc staged_spec_snoc True cn wr\<close>)
  qed
qed

lemma hist_of_update:
  "hist_of (c\<lparr>conns := AList.update k h (conns c)\<rparr>) k' = (if k' = k then h else hist_of c k')"
  by (simp add: hist_of_def)

lemma corr_rel_connect:
  assumes rel: "corr_rel w n past T c" and T: "T \<le> ev_ts_ns ev" and u: "ev_u ev = U_tcp t"
    and sorted: "time_sorted ev_ts_ns w (past @ [ev])"
  shows "corr_rel w n (past @ [ev]) (ev_ts_ns ev) (snd (observe_connect c ev t))"
proof -
  have dr: "\<not> downloader_run ev" and wr: "\<not> writes_path p ev" for p
    using u by (simp_all add: downloader_run_def writes_path_def)
  show ?thesis
  proof (cases "is_private_ipv4 (daddr t)")
    case True
    then have "\<not> connects k ev" for k
      using u by (simp add: connects_def)
    with corr_rel_other [OF rel T dr _ wr] show ?thesis
      using True by (simp add: observe_connect_def)
  next
    case False
    let ?k = "conn_key_of ev t"
    let ?h = "next_hist c ?k (ev_ts_ns ev)"
    let ?m = "AList.update ?k ?h (conns c)"
    let ?m' = "if kSweepKeys < length ?m then sweep_conns c (ev_ts_ns ev) ?m else ?m"
    have cn: "connects k ev \<longleftrightarrow> k = ?k" for k
      using u False by (auto simp: connects_def)
    have c': "snd (observe_connect c ev t) = c\<lparr>conns := ?m'\<rparr>"
      using False by (simp add: observe_connect_def conn_key_of_def Let_def)
    have rel': "corr_rel w n past (ev_ts_ns ev) c"
      by (rule corr_rel_later [OF rel T])
    have d: "distinct (map fst ?m)"
      using corr_relD(8) [OF rel] by (rule distinct_update)
    have w: "window_ns c = w"
      by (rule corr_relD(1) [OF rel])
    have "time_sorted (\<lambda>t. t) w (conn_times ?k past)"
      using sorted by (intro time_sorted_conn_times) (auto simp: time_sorted_def sorted_append)
    moreover have "no_wrap w (ev_ts_ns ev)"
      using sorted by (simp add: time_sorted_def)
    ultimately have "represents (\<lambda>t. t) kMaxHistPerKey w (ev_ts_ns ev) ?h
        (conn_times ?k past @ [ev_ts_ns ev])"
      using ct.represents_step [OF corr_relD(5) [OF rel], of "ev_ts_ns ev"] T w
      by (simp add: next_hist_def)
    then have "represents (\<lambda>t. t) kMaxHistPerKey w (ev_ts_ns ev)
        (hist_of (c\<lparr>conns := ?m\<rparr>) k) (conn_times k (past @ [ev]))" for k
      using corr_relD(5) [OF rel', of k] by (simp add: hist_of_update conn_times_snoc cn)
    then have "represents (\<lambda>t. t) kMaxHistPerKey w (ev_ts_ns ev)
        (hist_of (c\<lparr>conns := ?m'\<rparr>) k) (conn_times k (past @ [ev]))" for k
      using represents_sweep [OF d, of kMaxHistPerKey c "ev_ts_ns ev" k] w by simp
    moreover have "distinct (map fst ?m')"
      using d by (simp add: sweep_conns_def distinct_fst_filter)
    ultimately show ?thesis
      unfolding c' by (intro corr_relI)
        (use corr_relD [OF rel'] in \<open>simp_all add: download_runs_snoc staged_spec_snoc dr wr\<close>)
  qed
qed

lemma corr_rel_step:
  assumes "corr_rel w n past T c" and "T \<le> ev_ts_ns ev" and "time_sorted ev_ts_ns w (past @ [ev])"
  shows "corr_rel w n (past @ [ev]) (ev_ts_ns ev) (snd (observe c ev))"
  using assms corr_rel_execve corr_rel_connect corr_rel_file corr_rel_other [OF assms(1,2)]
  by (cases "ev_u ev")
    (simp_all add: observe_def downloader_run_def connects_def writes_path_def)

lemma corr_rel_all:
  "time_sorted ev_ts_ns w past \<Longrightarrow>
    corr_rel w n past (if past = [] then 0 else ev_ts_ns (last past))
      (observe_all (new_correlator w n) past)"
proof (induction past rule: rev_induct)
  case Nil
  then show ?case by (simp add: corr_rel_init)
next
  case (snoc ev past)
  have s: "time_sorted ev_ts_ns w past"
    using snoc.prems by (simp add: time_sorted_def sorted_append)
  have "(if past = [] then 0 else ev_ts_ns (last past)) \<le> ev_ts_ns ev"
    using snoc.prems by (cases past rule: rev_cases) (auto simp: time_sorted_def sorted_append)
  from corr_rel_step [OF snoc.IH [OF s] this snoc.prems] show ?case
    by (simp add: observe_all_append)
qed

subsection \<open>The answer\<close>

lemma all_live_filter: "\<forall>x \<in> set q. live w now (ts x) \<Longrightarrow> filter (\<lambda>x. live w now (ts x)) q = q"
  by simp

lemma live_now: "no_wrap w now \<Longrightarrow> live w now now"
  by (simp add: live_def expired_def no_wrap_def not_less)

lemma represents_at:
  "represents ts cap w T q xs \<Longrightarrow>
    filter (\<lambda>x. live w T (ts x)) q = filter (\<lambda>x. live w T (ts x)) (lastn cap xs)"
  by (simp add: represents_def)

lemma represents_next_hist:
  assumes rel: "corr_rel w n past T c" and T: "T \<le> now" and "no_wrap w now"
    and past: "time_sorted ev_ts_ns w past"
  shows "next_hist c k now = filter (live w now) (lastn kMaxHistPerKey (conn_times k past @ [now]))"
proof -
  have w: "window_ns c = w"
    by (rule corr_relD(1) [OF rel])
  have rep: "represents (\<lambda>t. t) kMaxHistPerKey w now (next_hist c k now) (conn_times k past @ [now])"
    using ct.represents_step [OF corr_relD(5) [OF rel], of now] T assms(3)
      time_sorted_conn_times [OF past] by (simp add: next_hist_def w)
  have "time_sorted (\<lambda>t. t) w (hist_of c k)"
    using corr_relD(5) [OF rel] by (simp add: represents_def)
  then have "\<forall>t \<in> set (next_hist c k now). live w now t"
    using live_now [OF assms(3)] dropWhile_expired [of "\<lambda>t. t" w "hist_of c k" now]
    by (auto simp: next_hist_def w dest!: set_push_bounded)
  then show ?thesis
    using represents_at [OF rep] by simp
qed

lemma observe_execve_rule:
  assumes rel: "corr_rel w n past T c" and T: "T \<le> ev_ts_ns ev" and u: "ev_u ev = U_execve f"
  shows "hit_rule (fst (observe_execve c ev f)) = spec_rule w n past ev"
proof -
  let ?now = "ev_ts_ns ev"
  let ?ds = "drop_expired c ?now (downloads c)"
  have "represents l_ts kMaxDownloads w T (downloads c) (download_runs past)"
    by (rule corr_relD(3) [OF rel])
  then have "?ds = filter (\<lambda>d. live w ?now (l_ts d)) (lastn kMaxDownloads (download_runs past))"
    using T corr_relD(1) [OF rel]
    by (simp add: drop_expired_def represents_def dropWhile_expired)
  moreover have "\<forall>d \<in> set ?ds. 0 \<notin> set (l_anc d)"
    using corr_relD(4) [OF rel] by (auto simp: drop_expired_def dest: set_dropWhileD)
  ultimately show ?thesis
    using corr_relD(6) [OF rel T]
    by (auto simp: observe_execve_def spec_rule_def u Let_def hit_rule_find_shared list_ex_iff
        split: option.splits)
qed

lemma observe_connect_rule:
  assumes rel: "corr_rel w n past T c" and T: "T \<le> ev_ts_ns ev" and u: "ev_u ev = U_tcp t"
    and sorted: "time_sorted ev_ts_ns w (past @ [ev])"
  shows "hit_rule (fst (observe_connect c ev t)) = spec_rule w n past ev"
proof -
  have "time_sorted ev_ts_ns w past" and "no_wrap w (ev_ts_ns ev)"
    using sorted by (auto simp: time_sorted_def sorted_append)
  from represents_next_hist [OF rel T this(2,1), of "conn_key_of ev t"] show ?thesis
    using corr_relD(2) [OF rel]
    by (simp add: observe_connect_def spec_rule_def u Let_def conn_key_of_def not_less)
qed

lemma observe_rule:
  assumes "corr_rel w n past T c" and "T \<le> ev_ts_ns ev" and "time_sorted ev_ts_ns w (past @ [ev])"
  shows "hit_rule (fst (observe c ev)) = spec_rule w n past ev"
proof (cases "ev_u ev")
  case (U_file f)
  then show ?thesis
    by (simp add: observe_def observe_file_def spec_rule_def Let_def)
qed (use assms observe_execve_rule observe_connect_rule in
    \<open>simp_all add: observe_def spec_rule_def\<close>)

lemma observe_trace:
  assumes "time_sorted ev_ts_ns w (past @ [ev])"
  shows "hit_rule (fst (observe (observe_all (new_correlator w n) past) ev)) = spec_rule w n past ev"
proof (rule observe_rule)
  have "time_sorted ev_ts_ns w past"
    using assms by (simp add: time_sorted_def sorted_append)
  then show "corr_rel w n past (if past = [] then 0 else ev_ts_ns (last past))
      (observe_all (new_correlator w n) past)"
    by (rule corr_rel_all)
  show "(if past = [] then 0 else ev_ts_ns (last past)) \<le> ev_ts_ns ev"
    using assms by (cases past rule: rev_cases) (auto simp: time_sorted_def sorted_append)
qed (rule assms)

text \<open>
  C1. The sequence correlator detects exactly what its trace specification says.  For every past
  and every next event, if times do not run backwards and adding the window to a time does not
  wrap, the rule the stateful correlator fires for the event (write-exec-chain,
  download-exec-chain, beacon or none) is the one the specification reads off the whole list of
  past events, although the correlator keeps only bounded deques that expire and maps that are
  swept.
\<close>

theorem observe_refines:
  assumes "time_sorted ev_ts_ns w (past @ [ev])"
  shows "hit_rule (fst (observe (observe_all (new_correlator w n) past) ev)) = spec_rule w n past ev"
  by (rule observe_trace [OF assms])

subsection \<open>A concrete instance\<close>

lemma sample_write_writes: "writes_path ''/tmp/x'' sample_write"
  by (simp add: writes_path_def sample_write_def cstr_sample_path has_flag_def access_consts
      is_temp_path_def starts_with_def)

lemma sample_sorted: "time_sorted ev_ts_ns 1000 ([sample_write] @ [sample_run])"
  by (simp add: time_sorted_def sample_times no_wrap_def)

lemma basename_sample_path: "basename_of (c_field n ''/tmp/x'') = ''x''"
  by (simp add: basename_of_def cstr_sample_path)

lemma sample_live: "live 1000 200 100"
  by (simp add: live_def expired_def)

lemma sample_spec: "spec_rule 1000 3 [sample_write] sample_run = Some ''write-exec-chain''"
  using sample_write_writes
  by (simp add: spec_rule_def sample_run_u basename_sample_path kDownloaders_def cstr_sample_path
      is_temp_path_def starts_with_def staged_spec_def last_such_def sample_times sample_live Let_def)

lemma observe_refines_witness:
  "hit_rule (fst (observe (observe_all (new_correlator 1000 3) [sample_write]) sample_run)) =
     Some ''write-exec-chain''"
  using observe_refines [OF sample_sorted, of 3] sample_spec by simp

end
