(* ===== verification/Events_File.thy ===== *)
theory Events_File
  imports Event Cstdlib Messages
begin

section \<open>The replay file format\<close>

text \<open>
  \<open>common/events_file.h\<close>: the text format that \<open>agent --record\<close> writes and \<open>agent --replay\<close> and
  \<open>analyzer_eval\<close> read.  A stream is its text, the callback's calls are the list of entries, and
  the exception that stops the parser is the error text next to the entries delivered before it.
\<close>

datatype entry_kind = K_Event | K_Delay | K_Directive

record entry =
  e_kind :: entry_kind
  e_ev :: security_event
  e_delay_ms :: int
  e_expect :: string
  e_directive :: string
  e_line :: nat

definition new_entry :: "nat \<Rightarrow> entry" where
  "new_entry n = \<lparr>e_kind = K_Event, e_ev = zero_event, e_delay_ms = 0, e_expect = [],
     e_directive = [], e_line = n\<rparr>"

subsection \<open>Fields\<close>

definition escaped :: "char \<Rightarrow> bool" where
  "escaped c \<longleftrightarrow> c \<in> {CHR '' '', CHR ''#'', CHR ''%'', CHR 0x09, CHR 0x0A, CHR 0x0D}"

fun encode_field :: "string \<Rightarrow> string" where
  "encode_field [] = []"
| "encode_field (c # s) =
     (if escaped c then
        [CHR ''%'', hex_char (of_char c div 16), hex_char (of_char c mod 16)] @ encode_field s
      else c # encode_field s)"

function decode_field :: "string \<Rightarrow> string" where
  "decode_field [] = []"
| "decode_field (c # s) =
     (if c = CHR ''%'' \<and> 2 \<le> length s then
        (let (v, rest) = strtol16 (take 2 s)
         in if rest = [] then char_of (v mod 256) # decode_field (drop 2 s) else c # decode_field s)
      else c # decode_field s)"
  by pat_completeness auto
termination
  by (relation "measure length") auto

text \<open>\<open>trim\<close>: blanks, tabs, carriage returns and newlines at both ends.\<close>

definition trim_char :: "char \<Rightarrow> bool" where
  "trim_char c \<longleftrightarrow> c \<in> {CHR '' '', CHR 0x09, CHR 0x0D, CHR 0x0A}"

definition trim :: "string \<Rightarrow> string" where
  "trim s = rev (dropWhile trim_char (rev (dropWhile trim_char s)))"

definition access_to_str :: "u32 \<Rightarrow> string" where
  "access_to_str a =
     (let s = (if has_flag a PQSEC_FA_WRITE then ''w'' else '''') @
              (if has_flag a PQSEC_FA_CREATE then ''c'' else '''') @
              (if has_flag a PQSEC_FA_SENSITIVE then ''s'' else '''') @
              (if has_flag a PQSEC_FA_EXEC then ''x'' else '''')
      in if s = [] then ''-'' else s)"

definition access_bit :: "char \<Rightarrow> u32" where
  "access_bit c =
     (if c = CHR ''w'' then PQSEC_FA_WRITE else if c = CHR ''c'' then PQSEC_FA_CREATE
      else if c = CHR ''s'' then PQSEC_FA_SENSITIVE else if c = CHR ''x'' then PQSEC_FA_EXEC else 0)"

definition access_from_str :: "string \<Rightarrow> u32" where
  "access_from_str s = foldl (\<lambda>a c. a OR access_bit c) 0 s"

subsection \<open>Ancestry\<close>

text \<open>One \<open>PID:COMM\<close> stored in generation \<open>gen\<close>; a piece without a colon is skipped.\<close>

definition set_ancestor :: "nat \<Rightarrow> u32 \<Rightarrow> string \<Rightarrow> security_event \<Rightarrow> security_event" where
  "set_ancestor gen p comm ev =
     ev\<lparr>ev_anc := (ev_anc ev)[gen := \<lparr>anc_pid = p,
        anc_comm = strncpy_into (anc_comm (ev_anc ev ! gen)) comm (PQSEC_COMM_LEN - 1)\<rparr>]\<rparr>"

function ancestry_loop :: "nat \<Rightarrow> string \<Rightarrow> security_event \<Rightarrow> security_event" where
  "ancestry_loop gen body ev =
     (if PQSEC_ANCESTORS \<le> gen \<or> body = [] then ev
      else let bar = find_char (CHR ''|'') body;
               one = (case bar of None \<Rightarrow> body | Some b \<Rightarrow> take b body);
               (gen', ev') =
                 (case find_char (CHR '':'') one of
                    None \<Rightarrow> (gen, ev)
                  | Some c \<Rightarrow> (Suc gen, set_ancestor gen (word_of_nat (strtoul10 (take c one)))
                                 (decode_field (drop (Suc c) one)) ev))
           in case bar of None \<Rightarrow> ev' | Some b \<Rightarrow> ancestry_loop gen' (drop (Suc b) body) ev')"
  by pat_completeness auto
termination
  by (relation "measure (\<lambda>(gen, body, ev). length body)") auto

declare ancestry_loop.simps [simp del]

definition parse_ancestry :: "string \<Rightarrow> security_event \<Rightarrow> security_event" where
  "parse_ancestry tok ev = ancestry_loop 0 (drop 4 tok) ev"

text \<open>The loop over the remaining tokens of a line.\<close>

function ancestry_tokens :: "string \<Rightarrow> security_event \<Rightarrow> security_event" where
  "ancestry_tokens s ev =
     (case ext_word s of
        None \<Rightarrow> ev
      | Some (tok, rest) \<Rightarrow>
          ancestry_tokens rest (if starts_with ''anc:'' tok then parse_ancestry tok ev else ev))"
  by pat_completeness auto
termination
proof (relation "measure (\<lambda>(s, ev). length s)", goal_cases)
  case (2 s ev x tok rest)
  then have "skip_ws s \<noteq> []" and rest: "rest = dropWhile (\<lambda>c. \<not> is_space c) (skip_ws s)"
    by (auto simp: ext_word_def Let_def split: if_splits)
  then obtain c t where ct: "skip_ws s = c # t"
    by (cases "skip_ws s") auto
  then have "\<not> is_space c"
    unfolding skip_ws_def by (metis hd_dropWhile list.distinct(1) list.sel(1))
  with rest ct have "length rest \<le> length t"
    by (simp add: length_dropWhile_le)
  also have "length t < length s"
    using ct length_dropWhile_le [of is_space s] by (simp add: skip_ws_def)
  finally show ?case by simp
qed simp

declare ancestry_tokens.simps [simp del]

subsection \<open>Parsing a line\<close>

text \<open>The text of the exception that \<open>bad\<close> throws.\<close>

definition bad_line :: "string \<Rightarrow> nat \<Rightarrow> string \<Rightarrow> string" where
  "bad_line name n why = name @ '':'' @ dec_nat n @ '' '' @ why"

definition ext_u32 :: "string \<Rightarrow> (u32 \<times> string) option" where
  "ext_u32 s = map_option (\<lambda>(v, r). (word_of_nat v, r)) (ext_unsigned 32 s)"

definition ext_u64 :: "string \<Rightarrow> (u64 \<times> string) option" where
  "ext_u64 s = map_option (\<lambda>(v, r). (word_of_nat v, r)) (ext_unsigned 64 s)"

text \<open>\<open>is >> pid >> ppid >> comm\<close>\<close>

definition ext_head :: "string \<Rightarrow> (u32 \<times> u32 \<times> string \<times> string) option" where
  "ext_head s =
     Option.bind (ext_u32 s) (\<lambda>(p, s1).
     Option.bind (ext_u32 s1) (\<lambda>(pp, s2).
     Option.bind (ext_word s2) (\<lambda>(c, s3). Some (p, pp, c, s3))))"

text \<open>The three kinds of event: the payload and what is left of the line, or the error text.\<close>

definition parse_execve :: "string \<Rightarrow> string + payload \<times> string" where
  "parse_execve s =
     (case ext_word s of
        None \<Rightarrow> Inl msg_bad_execve
      | Some (file, r) \<Rightarrow>
          Inr (U_execve (strncpy_into (zeros PQSEC_FILENAME_LEN) (decode_field file)
                 (PQSEC_FILENAME_LEN - 1)), r))"

definition parse_connect :: "string \<Rightarrow> string + payload \<times> string" where
  "parse_connect s =
     (case Option.bind (ext_word s) (\<lambda>(ip, s1).
           Option.bind (ext_u32 s1) (\<lambda>(port, s2). Some (ip, port, s2))) of
        None \<Rightarrow> Inl msg_bad_connect
      | Some (ip, port, r) \<Rightarrow>
          if 65535 < port then Inl msg_bad_connect
          else (case inet_pton4 ip of
                  None \<Rightarrow> Inl msg_bad_ipv4
                | Some a \<Rightarrow> Inr (U_tcp \<lparr>daddr = a, dport = ucast port, family = 2\<rparr>, r)))"

definition parse_fileopen :: "string \<Rightarrow> string + payload \<times> string" where
  "parse_fileopen s =
     (case Option.bind (ext_word s) (\<lambda>(acc, s1).
           Option.bind (ext_u64 s1) (\<lambda>(i, s2).
           Option.bind (ext_u64 s2) (\<lambda>(d, s3).
           Option.bind (ext_word s3) (\<lambda>(p, s4). Some (acc, i, d, p, s4))))) of
        None \<Rightarrow> Inl msg_bad_fileopen
      | Some (acc, i, d, p, r) \<Rightarrow>
          let dpath = decode_field p
          in Inr (U_file \<lparr>fpath = (if dpath = ''-'' then zeros PQSEC_FILENAME_LEN
                     else strncpy_into (zeros PQSEC_FILENAME_LEN) dpath (PQSEC_FILENAME_LEN - 1)),
                   access = access_from_str acc, ino = i, dev = ucast d\<rparr>, r))"

definition parse_payload :: "string \<Rightarrow> string \<Rightarrow> string + payload \<times> string" where
  "parse_payload kind s =
     (if kind = ''execve'' then parse_execve s
      else if kind = ''connect'' then parse_connect s
      else if kind = ''fileopen'' then parse_fileopen s
      else Inl msg_bad_kind)"

text \<open>The label after \<open>expect:\<close> in the comment.\<close>

definition expect_of :: "string \<Rightarrow> string" where
  "expect_of comment =
     (case find_sub ''expect:'' comment of
        None \<Rightarrow> []
      | Some ex \<Rightarrow> (case ext_word (drop (ex + 7) comment) of None \<Rightarrow> [] | Some (w, _) \<Rightarrow> w))"

definition parse_delay :: "string \<Rightarrow> entry \<Rightarrow> string + entry" where
  "parse_delay s e =
     (case ext_long s of
        None \<Rightarrow> Inl msg_bad_delay
      | Some (ms, _) \<Rightarrow>
          if ms < 0 then Inl msg_bad_delay else Inr (e\<lparr>e_kind := K_Delay, e_delay_ms := ms\<rparr>))"

definition parse_event :: "string \<Rightarrow> string \<Rightarrow> entry \<Rightarrow> string + entry" where
  "parse_event kind s e =
     (case ext_head s of
        None \<Rightarrow> Inl msg_bad_head
      | Some (p, pp, comm, r) \<Rightarrow>
          (let ev = (e_ev e)\<lparr>ev_pid := p, ev_ppid := pp,
                ev_comm := strncpy_into (ev_comm (e_ev e)) (decode_field comm) (PQSEC_COMM_LEN - 1)\<rparr>
          in (case parse_payload kind r of
               Inl why \<Rightarrow> Inl why
             | Inr (u, r') \<Rightarrow> Inr (e\<lparr>e_ev := ancestry_tokens r' (ev\<lparr>ev_u := u\<rparr>)\<rparr>))))"

text \<open>A line gives no entry, one entry, or the reason for which it is rejected.\<close>

definition parse_line :: "nat \<Rightarrow> string \<Rightarrow> string + entry option" where
  "parse_line n line =
     (let (body, comment) =
        (case find_char (CHR ''#'') line of
           None \<Rightarrow> (line, [])
         | Some h \<Rightarrow> (take h line, drop (Suc h) line))
      in case ext_word body of
           None \<Rightarrow>
             (let c = trim comment
              in if c \<noteq> [] \<and> hd c = CHR ''!''
                 then Inr (Some ((new_entry n)\<lparr>e_kind := K_Directive, e_directive := trim (tl c)\<rparr>))
                 else Inr None)
         | Some (kind, s) \<Rightarrow>
             (let e = (new_entry n)\<lparr>e_expect := expect_of comment\<rparr>;
                  r = (if kind = ''delay'' then parse_delay s e else parse_event kind s e)
              in case r of Inl why \<Rightarrow> Inl why | Inr e' \<Rightarrow> Inr (Some e')))"

fun parse_lines :: "string \<Rightarrow> nat \<Rightarrow> string list \<Rightarrow> entry list \<times> string option" where
  "parse_lines name n [] = ([], None)"
| "parse_lines name n (l # ls) =
     (case parse_line (Suc n) l of
        Inl why \<Rightarrow> ([], Some (bad_line name (Suc n) why))
      | Inr None \<Rightarrow> parse_lines name (Suc n) ls
      | Inr (Some e) \<Rightarrow> (let (es, err) = parse_lines name (Suc n) ls in (e # es, err)))"

definition parse :: "string \<Rightarrow> string \<Rightarrow> entry list \<times> string option" where
  "parse name text = parse_lines name 0 (getlines text)"

subsection \<open>Recording\<close>

fun ancestry_text :: "string \<Rightarrow> pqsec_ancestor list \<Rightarrow> string" where
  "ancestry_text out [] = out"
| "ancestry_text out (a # as) =
     (if anc_pid a = 0 \<and> cstr (anc_comm a) = [] then ancestry_text out as
      else ancestry_text
        (out @ (if out = [] then '' anc:'' else ''|'') @ dec_nat (unat (anc_pid a)) @ '':'' @
         encode_field (or_question (cstr (anc_comm a)))) as)"

definition encode_ancestry :: "security_event \<Rightarrow> string" where
  "encode_ancestry ev = ancestry_text [] (ev_anc ev)"

definition head_text :: "string \<Rightarrow> security_event \<Rightarrow> string" where
  "head_text kind ev =
     kind @ dec_nat (unat (ev_pid ev)) @ '' '' @ dec_nat (unat (ev_ppid ev)) @ '' '' @
     encode_field (or_question (cstr (ev_comm ev)))"

definition execve_text :: "security_event \<Rightarrow> string \<Rightarrow> string" where
  "execve_text ev f = head_text ''execve  '' ev @ '' '' @ encode_field (or_question (cstr f))"

definition connect_text :: "security_event \<Rightarrow> pqsec_tcp_event \<Rightarrow> string" where
  "connect_text ev t =
     head_text ''connect '' ev @ '' '' @ inet_ntop4 (daddr t) @ '' '' @ dec_nat (unat (dport t))"

definition fileopen_text :: "security_event \<Rightarrow> pqsec_file_event \<Rightarrow> string" where
  "fileopen_text ev f =
     head_text ''fileopen '' ev @ '' '' @ access_to_str (access f) @ '' '' @
     dec_nat (unat (ino f)) @ '' '' @ dec_nat (unat (dev f)) @ '' '' @
     (if cstr (fpath f) = [] then ''-'' else encode_field (cstr (fpath f)))"

definition format_line :: "security_event \<Rightarrow> string" where
  "format_line ev =
     (case ev_u ev of
        U_execve f \<Rightarrow> snprintf_buf 512 (execve_text ev f) @ encode_ancestry ev
      | U_tcp t \<Rightarrow> snprintf_buf 512 (connect_text ev t) @ encode_ancestry ev
      | U_file f \<Rightarrow> snprintf_buf 512 (fileopen_text ev f) @ encode_ancestry ev
      | _ \<Rightarrow> [])"

subsection \<open>Fields survive the round trip\<close>

lemma hex_val_hex_char [rt_simps]: "n < 16 \<Longrightarrow> hex_val (hex_char n) = Some n"
  by (simp add: hex_val_def hex_char_def Let_def)

lemma hex_char_plain:
  "n < 16 \<Longrightarrow> \<not> is_space (hex_char n)" "n < 16 \<Longrightarrow> hex_char n \<noteq> nul"
  "n < 16 \<Longrightarrow> hex_char n \<noteq> CHR ''-''" "n < 16 \<Longrightarrow> hex_char n \<noteq> CHR ''+''"
  "n < 16 \<Longrightarrow> hex_char n \<noteq> CHR ''#''" "n < 16 \<Longrightarrow> hex_char n \<noteq> CHR ''|''"
  by (auto dest!: hex_val_hex_char simp: is_space_def nul_def hex_val_def Let_def)

lemma char_div_mod:
  "(of_char c :: nat) div 16 < 16" "(of_char c :: nat) mod 16 < 16"
  "16 * (of_char c div 16) + of_char c mod 16 = (of_char c :: nat)"
proof -
  have "(of_char c :: nat) < 256" by simp
  then show "(of_char c :: nat) div 16 < 16" by linarith
qed simp_all

lemma strtol16_hex:
  assumes "m < 16" and "n < 16"
  shows "strtol16 [hex_char m, hex_char n] = (int (16 * m + n), [])"
proof -
  have "cstr [hex_char m, hex_char n] = [hex_char m, hex_char n]"
    using assms by (intro cstr_id) (auto dest: hex_char_plain(2))
  with assms show ?thesis
    by (simp add: strtol16_def hex_char_plain hex_val_hex_char)
qed

lemma char_of_int_of_char: "char_of (int (of_char c) mod 256) = c"
  by (simp only: char_of_mod_256 of_nat_of_char char_of_char)

lemma decode_encode_field [rt_simps]: "decode_field (encode_field s) = s"
proof (induction s)
  case (Cons c s)
  show ?case
  proof (cases "escaped c")
    case True
    have "strtol16 [hex_char (of_char c div 16), hex_char (of_char c mod 16)] = (int (of_char c), [])"
      using strtol16_hex [of "of_char c div 16" "of_char c mod 16"] char_div_mod [of c] by simp
    with True Cons show ?thesis
      by (simp add: char_of_int_of_char del: of_nat_of_char)
  next
    case False
    then have "c \<noteq> CHR ''%''"
      by (auto simp: escaped_def)
    with False Cons show ?thesis by simp
  qed
qed simp

text \<open>An encoded field is one token: only vertical tabs and form feeds could still split it.\<close>

definition field_char :: "char \<Rightarrow> bool" where
  "field_char c \<longleftrightarrow> c \<noteq> CHR 0x0B \<and> c \<noteq> CHR 0x0C"

lemma encode_field_set:
  "x \<in> set (encode_field s) \<Longrightarrow>
    (x \<in> set s \<and> \<not> escaped x) \<or> x = CHR ''%'' \<or> (\<exists>n < 16. x = hex_char n)"
proof (induction s)
  case (Cons c s)
  have "\<exists>n < 16. hex_char (of_char c div 16) = hex_char n"
    "\<exists>n < 16. hex_char (of_char c mod 16) = hex_char n"
    using char_div_mod(1,2) by blast+
  with Cons show ?case
    by (cases "escaped c") auto
qed simp

lemma percent_plain: "\<not> is_space (CHR ''%'')" "CHR ''%'' \<noteq> nul"
  by (simp_all add: is_space_def nul_def)

lemma space_cases: "is_space x \<Longrightarrow> escaped x \<or> \<not> field_char x"
  by (auto simp: is_space_def escaped_def field_char_def)

lemma encode_field_chars:
  assumes "x \<in> set (encode_field s)"
  shows "x \<noteq> CHR ''#''"
    and "list_all field_char s \<Longrightarrow> \<not> is_space x"
    and "CHR ''|'' \<notin> set s \<Longrightarrow> x \<noteq> CHR ''|''"
    and "nul \<notin> set s \<Longrightarrow> x \<noteq> nul"
    and "x \<noteq> CHR 0x0A"
proof -
  consider "x \<in> set s" "\<not> escaped x" | "x = CHR ''%''" | n where "n < 16" "x = hex_char n"
    using encode_field_set [OF assms] by blast
  then have "x \<noteq> CHR ''#'' \<and> x \<noteq> CHR 0x0A \<and> (list_all field_char s \<longrightarrow> \<not> is_space x) \<and>
      (CHR ''|'' \<notin> set s \<longrightarrow> x \<noteq> CHR ''|'') \<and> (nul \<notin> set s \<longrightarrow> x \<noteq> nul)"
  proof cases
    case 1
    then show ?thesis
      using space_cases [of x] by (auto simp: escaped_def list_all_iff)
  next
    case 2
    then show ?thesis
      by (simp add: percent_plain)
  next
    case 3
    then show ?thesis
      using hex_char_plain [of n] by (auto simp: is_space_def)
  qed
  then show "x \<noteq> CHR ''#''" "list_all field_char s \<Longrightarrow> \<not> is_space x"
    "CHR ''|'' \<notin> set s \<Longrightarrow> x \<noteq> CHR ''|''" "nul \<notin> set s \<Longrightarrow> x \<noteq> nul" "x \<noteq> CHR 0x0A"
    by simp_all
qed

lemma encode_field_Nil [simp]: "encode_field s = [] \<longleftrightarrow> s = []"
  by (cases s) auto

lemma word_chars_encode [simp]:
  "s \<noteq> [] \<Longrightarrow> list_all field_char s \<Longrightarrow> word_chars (encode_field s)"
  using encode_field_chars(2) by (auto simp: word_chars_def)

lemma length_encode_field [len_simps]: "length (encode_field s) \<le> 3 * length s"
  by (induction s) auto

subsection \<open>Reading back a printed token\<close>

definition blank_tail :: "string \<Rightarrow> bool" where
  "blank_tail t \<longleftrightarrow> t = [] \<or> is_space (hd t)"

lemma blank_tail_simps [simp]: "blank_tail []" "blank_tail (CHR '' '' # t)"
  by (simp_all add: blank_tail_def)

lemma blank_tail_digit: "blank_tail t \<Longrightarrow> t = [] \<or> \<not> is_digit (hd t)"
  using digit_not_space by (auto simp: blank_tail_def)

lemma ext_word_tail [rt_simps]: "word_chars w \<Longrightarrow> blank_tail t \<Longrightarrow> ext_word (w @ t) = Some (w, t)"
  by (cases t) (auto simp: blank_tail_def ext_word_end ext_word_blank)

lemma ext_word_blank_char [simp]: "ext_word (CHR '' '' # s) = ext_word s"
  by (simp add: ext_word_skip)

lemma ext_words_skip [simp]: "ext_u32 (CHR '' '' # s) = ext_u32 s" "ext_u64 (CHR '' '' # s) = ext_u64 s"
  by (simp_all add: ext_u32_def ext_u64_def ext_unsigned_skip)

lemma ext_u32_dec [rt_simps]: "blank_tail t \<Longrightarrow> ext_u32 (dec_nat (unat p) @ t) = Some (p, t)"
  using unsigned_less [of p, where 'a = nat] blank_tail_digit [of t]
  by (simp add: ext_u32_def ext_unsigned_dec)

lemma ext_u64_dec [rt_simps]: "blank_tail t \<Longrightarrow> ext_u64 (dec_nat (unat p) @ t) = Some (p, t)"
  using unsigned_less [of p, where 'a = nat] blank_tail_digit [of t]
  by (simp add: ext_u64_def ext_unsigned_dec)

lemma ext_unsigned_less:
  fixes v :: "'a :: len word"
  assumes "LENGTH('a) \<le> w" and "blank_tail t"
  shows "ext_unsigned w (dec_nat (unat v) @ t) = Some (unat v, t)"
proof -
  have "unat v < 2 ^ LENGTH('a)"
    by (rule unsigned_less)
  also have "\<dots> \<le> (2 :: nat) ^ w"
    using assms(1) by (rule power_increasing) simp
  finally show ?thesis
    using assms(2) blank_tail_digit by (simp add: ext_unsigned_dec)
qed

subsection \<open>Events that the format can carry\<close>

text \<open>A character array in the form \<open>strncpy\<close> leaves it, without a byte the tokens cannot hold.\<close>

definition clean_field :: "nat \<Rightarrow> string \<Rightarrow> bool" where
  "clean_field n a \<longleftrightarrow> length (cstr a) < n \<and> a = cstr a @ zeros (n - length (cstr a)) \<and>
     list_all field_char (cstr a)"

lemma strncpy_clean: "clean_field (Suc n) a \<Longrightarrow> strncpy_into (zeros (Suc n)) (cstr a) n = a"
  by (simp add: clean_field_def strncpy_zeros)

fun recordable_anc :: "pqsec_ancestor list \<Rightarrow> bool" where
  "recordable_anc [] \<longleftrightarrow> True"
| "recordable_anc (a # as) \<longleftrightarrow>
     (if a = zero_ancestor then list_all (\<lambda>b. b = zero_ancestor) as
      else clean_field PQSEC_COMM_LEN (anc_comm a) \<and> cstr (anc_comm a) \<noteq> [] \<and>
        CHR ''|'' \<notin> set (cstr (anc_comm a)) \<and> recordable_anc as)"

fun recordable_payload :: "payload \<Rightarrow> bool" where
  "recordable_payload (U_execve f) \<longleftrightarrow> clean_field PQSEC_FILENAME_LEN f \<and> cstr f \<noteq> []"
| "recordable_payload (U_tcp t) \<longleftrightarrow> family t = 2"
| "recordable_payload (U_file f) \<longleftrightarrow>
     clean_field PQSEC_FILENAME_LEN (fpath f) \<and> cstr (fpath f) \<noteq> ''-'' \<and> access f < 16"
| "recordable_payload _ \<longleftrightarrow> False"

definition recordable :: "security_event \<Rightarrow> bool" where
  "recordable ev \<longleftrightarrow> length (ev_anc ev) = PQSEC_ANCESTORS \<and>
     clean_field PQSEC_COMM_LEN (ev_comm ev) \<and> cstr (ev_comm ev) \<noteq> [] \<and>
     recordable_anc (ev_anc ev) \<and> recordable_payload (ev_u ev)"

subsection \<open>The ancestry token\<close>

definition anc_piece :: "pqsec_ancestor \<Rightarrow> string" where
  "anc_piece a = dec_nat (unat (anc_pid a)) @ '':'' @ encode_field (cstr (anc_comm a))"

definition good_anc :: "pqsec_ancestor \<Rightarrow> bool" where
  "good_anc a \<longleftrightarrow> clean_field PQSEC_COMM_LEN (anc_comm a) \<and> cstr (anc_comm a) \<noteq> [] \<and>
     CHR ''|'' \<notin> set (cstr (anc_comm a))"

lemma recordable_anc_split:
  "recordable_anc as \<Longrightarrow>
    \<exists>xs k. as = xs @ replicate k zero_ancestor \<and> list_all good_anc xs"
proof (induction as)
  case (Cons a as)
  show ?case
  proof (cases "a = zero_ancestor")
    case True
    with Cons.prems have "a # as = replicate (Suc (length as)) zero_ancestor"
      by (simp add: list_all_iff replicate_eqI)
    then show ?thesis
      by (intro exI [of _ "[]"] exI [of _ "Suc (length as)"]) simp
  next
    case False
    with Cons obtain xs k where "as = xs @ replicate k zero_ancestor" "list_all good_anc xs"
      by auto
    with False Cons.prems have "a # as = (a # xs) @ replicate k zero_ancestor" "list_all good_anc (a # xs)"
      by (simp_all add: good_anc_def)
    then show ?thesis by blast
  qed
qed simp

lemma ancestry_text_zeros [simp]: "ancestry_text out (replicate k zero_ancestor) = out"
  by (induction k) (simp_all add: zero_ancestor_def)

lemma ancestry_text_more:
  "list_all good_anc xs \<Longrightarrow> out \<noteq> [] \<Longrightarrow>
    ancestry_text out (xs @ replicate k zero_ancestor) =
      out @ concat (map (\<lambda>a. CHR ''|'' # anc_piece a) xs)"
  by (induction xs arbitrary: out) (simp_all add: good_anc_def anc_piece_def or_question_def)

lemma ancestry_text_first:
  "list_all good_anc (a # xs) \<Longrightarrow>
    ancestry_text [] ((a # xs) @ replicate k zero_ancestor) =
      '' anc:'' @ anc_piece a @ concat (map (\<lambda>a. CHR ''|'' # anc_piece a) xs)"
proof -
  assume "list_all good_anc (a # xs)"
  then have "cstr (anc_comm a) \<noteq> []" and "list_all good_anc xs"
    by (auto simp: good_anc_def)
  then show ?thesis
    by (simp add: ancestry_text_more anc_piece_def or_question_def)
qed

lemma anc_piece_chars:
  assumes "good_anc a" and "x \<in> set (anc_piece a)"
  shows "x \<noteq> CHR ''|'' \<and> \<not> is_space x \<and> x \<noteq> CHR ''#'' \<and> x \<noteq> CHR 0x0A"
proof -
  consider "is_digit x" | "x = CHR '':''" | "x \<in> set (encode_field (cstr (anc_comm a)))"
    using assms(2) dec_nat_digits by (auto simp: anc_piece_def)
  then show ?thesis
  proof cases
    case 1
    then show ?thesis
      by (auto simp: is_digit_def is_space_def)
  next
    case 3
    then show ?thesis
      using assms(1) encode_field_chars [OF 3] by (simp add: good_anc_def clean_field_def)
  qed (simp add: is_space_def)
qed

lemma set_ancestor_zero:
  assumes "good_anc a" and "ev_anc ev ! g = zero_ancestor"
  shows "set_ancestor g (anc_pid a) (cstr (anc_comm a)) ev = ev\<lparr>ev_anc := (ev_anc ev)[g := a]\<rparr>"
  using assms strncpy_clean [of 15 "anc_comm a"]
  by (cases a) (simp add: set_ancestor_def zero_ancestor_def good_anc_def event_consts)

lemma ancestry_loop_pieces:
  assumes "list_all good_anc (a # xs)" and "g + length (a # xs) \<le> PQSEC_ANCESTORS"
    and "length (ev_anc ev) = PQSEC_ANCESTORS"
    and "\<forall>i. g \<le> i \<and> i < PQSEC_ANCESTORS \<longrightarrow> ev_anc ev ! i = zero_ancestor"
  shows "ancestry_loop g (anc_piece a @ concat (map (\<lambda>a. CHR ''|'' # anc_piece a) xs)) ev =
    ev\<lparr>ev_anc := take g (ev_anc ev) @ (a # xs) @ drop (g + length (a # xs)) (ev_anc ev)\<rparr>"
  using assms
proof (induction xs arbitrary: a g ev)
  have colon: "find_char (CHR '':'') (anc_piece a) = Some (length (dec_nat (unat (anc_pid a))))" for a
    using dec_nat_digits [of "CHR '':''"]
    by (auto simp: anc_piece_def is_digit_def intro!: find_char_append)
  have pid: "word_of_nat (strtoul10 (dec_nat (unat p))) = p" for p :: u32
    using strtoul10_dec [of "unat p" "[]"] unsigned_less [of p, where 'a = nat] by simp
  have one: "(case find_char (CHR '':'') (anc_piece a) of
        None \<Rightarrow> (g, ev)
      | Some c \<Rightarrow> (Suc g, set_ancestor g (word_of_nat (strtoul10 (take c (anc_piece a))))
          (decode_field (drop (Suc c) (anc_piece a))) ev)) =
      (Suc g, ev\<lparr>ev_anc := (ev_anc ev)[g := a]\<rparr>)"
    if "good_anc a" "ev_anc ev ! g = zero_ancestor" for a g ev
    unfolding colon using set_ancestor_zero [OF that]
    by (simp add: anc_piece_def pid decode_encode_field)
  have ne: "anc_piece a \<noteq> []" for a
    by (simp add: anc_piece_def)
  {
    case Nil
    then have "CHR ''|'' \<notin> set (anc_piece a)"
      using anc_piece_chars by auto
    with Nil show ?case
      by (subst ancestry_loop.simps)
        (simp add: ne one find_char_None [THEN iffD2] upd_conv_take_nth_drop)
  next
    case (Cons b xs)
    let ?rest = "anc_piece b @ concat (map (\<lambda>a. CHR ''|'' # anc_piece a) xs)"
    let ?ev = "ev\<lparr>ev_anc := (ev_anc ev)[g := a]\<rparr>"
    have bar: "find_char (CHR ''|'') (anc_piece a @ CHR ''|'' # ?rest) = Some (length (anc_piece a))"
      using Cons.prems(1) anc_piece_chars by (intro find_char_append) auto
    have "ancestry_loop g (anc_piece a @ CHR ''|'' # ?rest) ev = ancestry_loop (Suc g) ?rest ?ev"
      using Cons.prems by (subst ancestry_loop.simps) (simp add: ne bar one)
    also have "\<dots> = ?ev\<lparr>ev_anc := take (Suc g) (ev_anc ?ev) @ (b # xs) @
        drop (Suc g + length (b # xs)) (ev_anc ?ev)\<rparr>"
      using Cons.prems by (intro Cons.IH) (auto simp: nth_list_update)
    also have "take (Suc g) (ev_anc ?ev) = take g (ev_anc ev) @ [a]"
      using Cons.prems by (simp add: take_Suc_conv_app_nth)
    finally show ?case
      by simp
  }
qed

lemma ancestry_tokens_Nil [simp]: "ancestry_tokens [] ev = ev"
  by (subst ancestry_tokens.simps) (simp add: ext_word_def)

lemma ancestry_tokens_encode:
  assumes "recordable_anc (ev_anc ev)" and "length (ev_anc ev) = PQSEC_ANCESTORS"
    and "ev_anc e0 = replicate PQSEC_ANCESTORS zero_ancestor"
  shows "ancestry_tokens (encode_ancestry ev) e0 = e0\<lparr>ev_anc := ev_anc ev\<rparr>"
proof -
  from assms(1) obtain xs k where x: "ev_anc ev = xs @ replicate k zero_ancestor" "list_all good_anc xs"
    using recordable_anc_split by blast
  show ?thesis
  proof (cases xs)
    case Nil
    then have "ev_anc e0 = ev_anc ev"
      using assms(2,3) x by simp
    then show ?thesis
      using x Nil by (simp add: encode_ancestry_def)
  next
    case (Cons a as)
    let ?b = "anc_piece a @ concat (map (\<lambda>a. CHR ''|'' # anc_piece a) as)"
    have "\<not> is_space c" if "c \<in> set ?b" for c
    proof -
      have "c = CHR ''|'' \<or> (\<exists>a \<in> set xs. c \<in> set (anc_piece a))"
        using that Cons by (auto split: if_splits)
      then show ?thesis
        using x(2) anc_piece_chars by (auto simp: list_all_iff is_space_def)
    qed
    then have w: "word_chars (''anc:'' @ ?b)"
      by (auto simp: word_chars_def is_space_def)
    have "encode_ancestry ev = CHR '' '' # ''anc:'' @ ?b"
      using x Cons ancestry_text_first [of a as k] by (simp add: encode_ancestry_def)
    then have "ext_word (encode_ancestry ev) = Some (''anc:'' @ ?b, [])"
      using ext_word_end [OF w] by simp
    then have "ancestry_tokens (encode_ancestry ev) e0 = parse_ancestry (''anc:'' @ ?b) e0"
      by (subst ancestry_tokens.simps) (simp add: starts_with_def)
    also have "\<dots> = ancestry_loop 0 ?b e0"
      by (simp add: parse_ancestry_def)
    also have "\<dots> = e0\<lparr>ev_anc := take 0 (ev_anc e0) @ (a # as) @ drop (0 + length (a # as)) (ev_anc e0)\<rparr>"
      using x Cons assms(2,3) by (intro ancestry_loop_pieces) auto
    also have "take 0 (ev_anc e0) @ (a # as) @ drop (0 + length (a # as)) (ev_anc e0) = ev_anc ev"
      using x Cons assms(2,3) by auto
    finally show ?thesis .
  qed
qed

subsection \<open>The 512-byte line buffer is never too small\<close>

lemma length_encode_or_question:
  "length (cstr a) \<le> n \<Longrightarrow> 0 < n \<Longrightarrow> length (encode_field (or_question (cstr a))) \<le> 3 * n"
  using length_encode_field [of "or_question (cstr a)"] by (auto simp: or_question_def)

lemma length_head_text: "wf_event ev \<Longrightarrow> length (head_text kind ev) \<le> length kind + 70"
  using length_encode_or_question [of "ev_comm ev" 16] length_cstr_le [of "ev_comm ev"]
    length_dec_u32 [of "ev_pid ev"] length_dec_u32 [of "ev_ppid ev"]
  by (simp add: head_text_def wf_event_def event_consts)

lemma length_inet_ntop4: "length (inet_ntop4 a) \<le> 15"
proof -
  have "length (dec_nat (octet a i)) \<le> 3" for i
    using octet_le [of a i] by (intro length_dec_nat) simp_all
  from this [of 0] this [of 1] this [of 2] this [of 3] show ?thesis
    by (simp add: inet_ntop4_def)
qed

lemma length_access_to_str: "length (access_to_str a) \<le> 4"
  by (simp add: access_to_str_def)

lemma execve_text_fits:
  assumes "wf_event ev" and "ev_u ev = U_execve f"
  shows "length (execve_text ev f) < 512"
  using assms length_head_text [OF assms(1), of "''execve  ''"]
    length_encode_or_question [of f 128] length_cstr_le [of f]
  by (simp add: execve_text_def wf_event_def event_consts)

lemma connect_text_fits:
  assumes "wf_event ev"
  shows "length (connect_text ev t) < 512"
  using length_head_text [OF assms, of "''connect ''"] length_inet_ntop4 [of "daddr t"]
    length_dec_u16 [of "dport t"]
  by (simp add: connect_text_def)

lemma fileopen_text_fits:
  assumes "wf_event ev" and "ev_u ev = U_file f"
  shows "length (fileopen_text ev f) < 512"
  using assms length_head_text [OF assms(1), of "''fileopen ''"] length_access_to_str [of "access f"]
    length_dec_u64 [of "ino f"] length_dec_u32 [of "dev f"]
    length_encode_field [of "cstr (fpath f)"] length_cstr_le [of "fpath f"]
  by (simp add: fileopen_text_def wf_event_def event_consts)

text \<open>The line without its buffer.\<close>

fun line_text :: "security_event \<Rightarrow> payload \<Rightarrow> string" where
  "line_text ev (U_execve f) = execve_text ev f"
| "line_text ev (U_tcp t) = connect_text ev t"
| "line_text ev (U_file f) = fileopen_text ev f"
| "line_text ev _ = []"

lemma format_line_whole:
  assumes "wf_event ev" and "ev_u ev = U_execve f \<or> ev_u ev = U_tcp t \<or> ev_u ev = U_file g"
  shows "format_line ev = line_text ev (ev_u ev) @ encode_ancestry ev"
  using assms execve_text_fits [OF assms(1)] connect_text_fits [OF assms(1)]
    fileopen_text_fits [OF assms(1)]
  by (auto simp: format_line_def snprintf_fits)

text \<open>
  Recording never cuts a line: whatever the event (its arrays of the declared lengths, even
  without a terminating NUL), the text that format_line prints into its 512-byte buffer fits, so
  the recorded line is the whole line.
\<close>

theorem format_line_complete:
  assumes "wf_event ev" and "ev_u ev = U_execve f \<or> ev_u ev = U_tcp t \<or> ev_u ev = U_file g"
  shows "format_line ev = line_text ev (ev_u ev) @ encode_ancestry ev"
  by (rule format_line_whole [OF assms])

subsection \<open>A recorded line reads back\<close>

lemma wf_clean_field: "clean_field n a \<Longrightarrow> length a = n"
  by (metis clean_field_def add_diff_inverse_nat length_append length_zeros not_less_iff_gr_or_eq)

lemma wf_recordable:
  assumes "recordable ev"
  shows "wf_event ev"
proof -
  obtain xs k where x: "ev_anc ev = xs @ replicate k zero_ancestor" "list_all good_anc xs"
    using assms recordable_anc_split unfolding recordable_def by blast
  have "wf_ancestor zero_ancestor"
    by (simp add: wf_ancestor_def zero_ancestor_def)
  moreover have "wf_ancestor a" if "good_anc a" for a
    using that wf_clean_field by (simp add: wf_ancestor_def good_anc_def)
  ultimately have "list_all wf_ancestor (ev_anc ev)"
    using x by (auto simp: list_all_iff)
  moreover have "wf_payload (ev_u ev)"
    using assms wf_clean_field by (cases "ev_u ev") (auto simp: recordable_def)
  ultimately show ?thesis
    using assms wf_clean_field by (simp add: wf_event_def recordable_def)
qed

lemma access_round_trip [rt_simps]: "a < 16 \<Longrightarrow> access_from_str (access_to_str a) = a"
proof -
  assume "a < 16"
  then have "unat a < 16"
    by unat_arith
  then have "unat a \<in> {0..<16}"
    by simp
  moreover have "\<forall>n \<in> {0..<16}. access_from_str (access_to_str (word_of_nat n)) = word_of_nat n"
    by (simp add: access_from_str_def access_to_str_def access_bit_def has_flag_def access_consts
        atLeastLessThan_upt upt_rec)
  ultimately have "access_from_str (access_to_str (word_of_nat (unat a))) = word_of_nat (unat a)"
    by blast
  then show ?thesis
    by simp
qed

lemma word_chars_inet [simp]: "word_chars (inet_ntop4 a)"
  by (auto simp: word_chars_def inet_ntop4_def is_space_def dest: dec_nat_digits
      simp: is_digit_def)

lemma word_chars_access [simp]: "word_chars (access_to_str a)"
  by (auto simp: word_chars_def access_to_str_def is_space_def)

lemma ext_head_text:
  assumes "recordable ev" and "blank_tail t"
  shows "ext_head (dec_nat (unat (ev_pid ev)) @ '' '' @ dec_nat (unat (ev_ppid ev)) @ '' '' @
      encode_field (or_question (cstr (ev_comm ev))) @ t) =
    Some (ev_pid ev, ev_ppid ev, encode_field (cstr (ev_comm ev)), t)"
  using assms
  by (simp add: ext_head_def ext_u32_dec ext_word_tail recordable_def clean_field_def or_question_def)

lemma parse_execve_text:
  assumes "recordable_payload (U_execve f)" and "blank_tail t"
  shows "parse_execve (CHR '' '' # encode_field (or_question (cstr f)) @ t) = Inr (U_execve f, t)"
  using assms strncpy_clean [of 127 f]
  by (simp add: parse_execve_def ext_word_tail or_question_def decode_encode_field event_consts
      clean_field_def)

lemma ucast_up_down [simp]:
  "(ucast (ucast (p :: u16) :: u32) :: u16) = p" "(ucast (ucast (d :: u32) :: u64) :: u32) = d"
  by (rule bit_word_eqI, simp add: bit_simps)+

lemma parse_connect_text:
  assumes "recordable_payload (U_tcp a)" and "blank_tail t"
  shows "parse_connect (CHR '' '' # inet_ntop4 (daddr a) @ '' '' @ dec_nat (unat (dport a)) @ t) =
    Inr (U_tcp a, t)"
proof -
  have u: "ext_unsigned 32 (dec_nat (unat (dport a)) @ t) = Some (unat (dport a), t)"
    using assms(2) by (intro ext_unsigned_less) simp_all
  have "\<not> 65535 < (word_of_nat (unat (dport a)) :: u32)"
    using unsigned_less [of "dport a", where 'a = nat]
    by (simp add: word_less_nat_alt not_less unsigned_ucast_eq take_bit_nat_eq_self)
  then show ?thesis
    using assms u by (cases a)
      (simp add: parse_connect_def ext_word_tail ext_u32_def inet_pton4_ntop4 ext_unsigned_skip)
qed

lemma parse_fileopen_words:
  assumes "word_chars p" and "blank_tail t" and "a < 16"
  shows "parse_fileopen (CHR '' '' # access_to_str a @ '' '' @ dec_nat (unat i) @ '' '' @
      dec_nat (unat (d :: u32)) @ '' '' @ p @ t) =
    Inr (U_file \<lparr>fpath = (if decode_field p = ''-'' then zeros PQSEC_FILENAME_LEN
             else strncpy_into (zeros PQSEC_FILENAME_LEN) (decode_field p) (PQSEC_FILENAME_LEN - 1)),
           access = a, ino = i, dev = d\<rparr>, t)"
proof -
  have "ext_u64 (dec_nat (unat d) @ u) = Some (word_of_nat (unat d), u)" if "blank_tail u" for u
    using ext_unsigned_less [of 64 u d] that by (simp add: ext_u64_def)
  then show ?thesis
    using assms by (simp add: parse_fileopen_def ext_word_tail ext_u64_dec access_round_trip Let_def)
qed

lemma parse_fileopen_text:
  assumes "recordable_payload (U_file f)" and "blank_tail t"
  shows "parse_fileopen (CHR '' '' # access_to_str (access f) @ '' '' @ dec_nat (unat (ino f)) @ '' '' @
      dec_nat (unat (dev f)) @ '' '' @
      (if cstr (fpath f) = [] then ''-'' else encode_field (cstr (fpath f))) @ t) =
    Inr (U_file f, t)"
proof (cases "cstr (fpath f) = []")
  case True
  then have "fpath f = zeros PQSEC_FILENAME_LEN"
    using assms(1) by (simp add: clean_field_def)
  with True assms show ?thesis
    using parse_fileopen_words [of "''-''" t "access f" "ino f" "dev f"]
    by (cases f) (simp add: word_chars_def is_space_def)
next
  case False
  with assms show ?thesis
    using parse_fileopen_words [of "encode_field (cstr (fpath f))" t "access f" "ino f" "dev f"]
      strncpy_clean [of 127 "fpath f"]
    by (cases f) (simp add: clean_field_def decode_encode_field event_consts)
qed

lemma ext_head_skip [simp]: "ext_head (CHR '' '' # s) = ext_head s"
  by (simp add: ext_head_def)

lemma line_text_kind:
  assumes "recordable ev" and "blank_tail t"
  shows "\<exists>kind s tail. ext_word (line_text ev (ev_u ev) @ t) = Some (kind, s) \<and> kind \<noteq> ''delay'' \<and>
    ext_head s = Some (ev_pid ev, ev_ppid ev, encode_field (cstr (ev_comm ev)), tail) \<and>
    parse_payload kind tail = Inr (ev_u ev, t)"
proof (cases "ev_u ev")
  case (U_execve f)
  have "ext_word (''execve'' @ CHR '' '' # s) = Some (''execve'', CHR '' '' # s)" for s
    by (rule ext_word_blank) (simp_all add: word_chars_def is_space_def)
  then show ?thesis
    using U_execve assms ext_head_text [OF assms(1), of "CHR '' '' # encode_field (or_question (cstr f)) @ t"]
      parse_execve_text [of f t]
    by (simp add: execve_text_def head_text_def parse_payload_def recordable_def)
next
  case (U_tcp a)
  have "ext_word (''connect'' @ CHR '' '' # s) = Some (''connect'', CHR '' '' # s)" for s
    by (rule ext_word_blank) (simp_all add: word_chars_def is_space_def)
  then show ?thesis
    using U_tcp assms parse_connect_text [of a t] ext_head_text [OF assms(1), of
        "CHR '' '' # inet_ntop4 (daddr a) @ '' '' @ dec_nat (unat (dport a)) @ t"]
    by (simp add: connect_text_def head_text_def parse_payload_def recordable_def)
next
  case (U_file f)
  have "ext_word (''fileopen'' @ CHR '' '' # s) = Some (''fileopen'', CHR '' '' # s)" for s
    by (rule ext_word_blank) (simp_all add: word_chars_def is_space_def)
  then show ?thesis
    using U_file assms parse_fileopen_text [of f t] ext_head_text [OF assms(1), of
        "CHR '' '' # access_to_str (access f) @ '' '' @ dec_nat (unat (ino f)) @ '' '' @
         dec_nat (unat (dev f)) @ '' '' @
         (if cstr (fpath f) = [] then ''-'' else encode_field (cstr (fpath f))) @ t"]
    by (simp add: fileopen_text_def head_text_def parse_payload_def recordable_def)
qed (use assms in \<open>simp_all add: recordable_def\<close>)

text \<open>A recorded line holds neither a comment sign nor a newline.\<close>

definition line_char :: "char \<Rightarrow> bool" where
  "line_char x \<longleftrightarrow> x \<noteq> CHR ''#'' \<and> x \<noteq> CHR 0x0A"

lemma line_chars_dec: "list_all line_char (dec_nat n)"
  using dec_nat_digits [of "CHR ''#''" n] dec_nat_digits [of "CHR 0x0A" n]
  by (auto simp: list_all_iff line_char_def is_digit_def)

lemma line_chars_encode: "list_all line_char (encode_field s)"
  using encode_field_chars(1,5) by (auto simp: list_all_iff line_char_def)

lemma line_chars_line: "list_all line_char (line_text ev u)"
  by (cases u) (simp_all add: execve_text_def connect_text_def fileopen_text_def head_text_def
      line_chars_dec line_chars_encode inet_ntop4_def access_to_str_def, simp_all add: line_char_def)

lemma line_chars_ancestry: "list_all line_char out \<Longrightarrow> list_all line_char (ancestry_text out as)"
  by (induction as arbitrary: out) (simp_all add: line_chars_dec line_chars_encode line_char_def)

lemma line_chars_format: "wf_event ev \<Longrightarrow> list_all line_char (format_line ev)"
  using line_chars_line [of ev "ev_u ev"] line_chars_ancestry [of "[]" "ev_anc ev"]
  by (auto simp: format_line_def encode_ancestry_def list_all_iff snprintf_buf_def
      split: payload.splits dest: in_set_takeD)

lemma blank_tail_ancestry:
  assumes "recordable_anc (ev_anc ev)"
  shows "blank_tail (encode_ancestry ev)"
proof -
  obtain xs k where "ev_anc ev = xs @ replicate k zero_ancestor" "list_all good_anc xs"
    using recordable_anc_split [OF assms] by blast
  then show ?thesis
    using ancestry_text_first [of "hd xs" "tl xs" k] by (cases xs) (simp_all add: encode_ancestry_def)
qed

lemma parse_line_format:
  assumes "recordable ev"
  shows "parse_line n (format_line ev) =
    Inr (Some ((new_entry n)\<lparr>e_ev := ev\<lparr>ev_ts_ns := 0\<rparr>\<rparr>))"
proof -
  have wf: "wf_event ev"
    using assms by (rule wf_recordable)
  have rec: "recordable_anc (ev_anc ev)" "length (ev_anc ev) = PQSEC_ANCESTORS"
    using assms by (simp_all add: recordable_def)
  have line: "format_line ev = line_text ev (ev_u ev) @ encode_ancestry ev"
    using assms format_line_whole [OF wf] by (cases "ev_u ev") (auto simp: recordable_def)
  have hash: "find_char (CHR ''#'') (format_line ev) = None"
    using line_chars_format [OF wf] by (auto simp: list_all_iff line_char_def)
  obtain kind s tail where k: "ext_word (format_line ev) = Some (kind, s)" "kind \<noteq> ''delay''"
    and h: "ext_head s = Some (ev_pid ev, ev_ppid ev, encode_field (cstr (ev_comm ev)), tail)"
    and p: "parse_payload kind tail = Inr (ev_u ev, encode_ancestry ev)"
    using line_text_kind [OF assms blank_tail_ancestry [OF rec(1)]] line by auto
  have comm: "strncpy_into (zeros PQSEC_COMM_LEN) (cstr (ev_comm ev)) (PQSEC_COMM_LEN - 1) = ev_comm ev"
    using assms strncpy_clean [of 15 "ev_comm ev"] by (simp add: recordable_def event_consts)
  have "parse_event kind s ((new_entry n)\<lparr>e_expect := []\<rparr>) =
      Inr ((new_entry n)\<lparr>e_ev := ev\<lparr>ev_ts_ns := 0\<rparr>\<rparr>)"
    using ancestry_tokens_encode [OF rec] comm
    by (simp add: parse_event_def h p new_entry_def zero_event_def decode_encode_field)
  then show ?thesis
    unfolding parse_line_def hash using k by (simp add: expect_of_def)
qed

text \<open>The text that \<open>RecordSink\<close> leaves in its file for a sequence of events.\<close>

definition recorded_file :: "security_event list \<Rightarrow> string" where
  "recorded_file evs = concat (map (\<lambda>ev. format_line ev @ [CHR 0x0A]) evs)"

definition replayed :: "nat \<Rightarrow> security_event \<Rightarrow> entry" where
  "replayed n ev = (new_entry n)\<lparr>e_ev := ev\<lparr>ev_ts_ns := 0\<rparr>\<rparr>"

lemma getlines_recorded: "list_all wf_event evs \<Longrightarrow> getlines (recorded_file evs) = map format_line evs"
proof (induction evs)
  case (Cons ev evs)
  then have "CHR 0x0A \<notin> set (format_line ev)"
    using line_chars_format [of ev] by (auto simp: list_all_iff line_char_def)
  with Cons show ?case
    by (simp add: recorded_file_def)
qed (simp add: recorded_file_def)

lemma parse_lines_recorded:
  "list_all recordable evs \<Longrightarrow>
    parse_lines name n (map format_line evs) =
      (map2 replayed [Suc n..<Suc n + length evs] evs, None)"
proof (induction evs arbitrary: n)
  case (Cons ev evs)
  then have "parse_line (Suc n) (format_line ev) = Inr (Some (replayed (Suc n) ev))"
    by (simp add: parse_line_format replayed_def)
  with Cons show ?case
    by (simp add: upt_conv_Cons del: upt_Suc)
qed simp

lemma parse_recorded:
  assumes "list_all recordable evs"
  shows "parse name (recorded_file evs) = (map2 replayed [1..<Suc (length evs)] evs, None)"
proof -
  have "list_all wf_event evs"
    using assms wf_recordable by (auto simp: list_all_iff)
  then show ?thesis
    using parse_lines_recorded [OF assms, of name 0] by (simp add: parse_def getlines_recorded)
qed

text \<open>
  Record and replay agree.  A file recorded from any sequence of events that the format can
  carry (C strings in zero-padded arrays, names without vertical tabs, form feeds or, in ancestor
  names, bars, IPv4, the four access flags) parses without an error into exactly those events, in
  order and with their line numbers, each with its time set to 0 for the caller's clock.
\<close>

theorem parse_recorded_file:
  assumes "list_all recordable evs"
  shows "parse name (recorded_file evs) = (map2 replayed [1..<Suc (length evs)] evs, None)"
  by (rule parse_recorded [OF assms])

subsection \<open>Whatever is read is well formed\<close>

lemma sealed_set_ancestor [keep_inv]:
  assumes "sealed_event ev" and "g < PQSEC_ANCESTORS"
  shows "sealed_event (set_ancestor g p comm ev)"
proof -
  have "sealed PQSEC_COMM_LEN (anc_comm (ev_anc ev ! g))"
    using assms by (simp add: sealed_event_def)
  then have "sealed PQSEC_COMM_LEN (strncpy_into (anc_comm (ev_anc ev ! g)) comm (PQSEC_COMM_LEN - 1))"
    using sealed_strncpy [of 15] by (simp add: event_consts)
  with assms(1) show ?thesis
    by (auto simp: sealed_event_def set_ancestor_def dest!: set_update_subset_insert [THEN subsetD])
qed

text \<open>Whatever setting one generation keeps, the ancestry loops keep.\<close>

lemma ancestry_loop_keeps:
  assumes step: "\<And>g p comm ev. P ev \<Longrightarrow> g < PQSEC_ANCESTORS \<Longrightarrow> P (set_ancestor g p comm ev)"
  shows "P ev \<Longrightarrow> P (ancestry_loop g body ev)"
proof (induction g body ev rule: ancestry_loop.induct)
  case (1 g body ev)
  show ?case
  proof (cases "PQSEC_ANCESTORS \<le> g \<or> body = []")
    case True
    with "1.prems" show ?thesis
      by (subst ancestry_loop.simps) simp
  next
    case False
    have "P (set_ancestor g p comm ev)" for p comm
      using "1.prems" False by (intro step) auto
    with False 1 show ?thesis
      by (subst ancestry_loop.simps) (auto simp: Let_def simp del: find_char_None split: option.splits)
  qed
qed

lemma ancestry_tokens_keeps:
  assumes "\<And>g p comm ev. P ev \<Longrightarrow> g < PQSEC_ANCESTORS \<Longrightarrow> P (set_ancestor g p comm ev)"
  shows "P ev \<Longrightarrow> P (ancestry_tokens s ev)"
proof (induction s ev rule: ancestry_tokens.induct)
  case (1 s ev)
  then show ?case
    using ancestry_loop_keeps [of P, OF assms]
    by (subst ancestry_tokens.simps) (auto simp: parse_ancestry_def split: option.splits)
qed

lemma sealed_ancestry_tokens: "sealed_event ev \<Longrightarrow> sealed_event (ancestry_tokens s ev)"
  by (rule ancestry_tokens_keeps [of sealed_event]) (auto intro: sealed_set_ancestor)

lemma ancestry_tokens_u [simp]: "ev_u (ancestry_tokens s ev) = ev_u ev"
  by (rule ancestry_tokens_keeps [of "\<lambda>e. ev_u e = ev_u ev"]) (simp_all add: set_ancestor_def)

lemma sealed_parse_payload: "parse_payload kind s = Inr (u, r) \<Longrightarrow> sealed_payload u"
  using sealed_strncpy [of 127 "zeros 128"]
  by (auto simp: parse_payload_def parse_execve_def parse_connect_def parse_fileopen_def event_consts
      Let_def split: if_splits option.splits prod.splits bind_splits)

definition sound_entry :: "entry \<Rightarrow> bool" where
  "sound_entry e \<longleftrightarrow> wf_event (e_ev e) \<and> terminated_event (e_ev e) \<and> 0 \<le> e_delay_ms e \<and>
     (e_kind e = K_Event \<longrightarrow> ev_type (e_ev e) \<in> {PQSEC_EVT_EXECVE, PQSEC_EVT_TCP_CONNECT, PQSEC_EVT_FILE_OPEN})"

lemma parse_payload_type:
  "parse_payload kind s = Inr (u, r) \<Longrightarrow>
    payload_type u \<in> {PQSEC_EVT_EXECVE, PQSEC_EVT_TCP_CONNECT, PQSEC_EVT_FILE_OPEN}"
  by (auto simp: parse_payload_def parse_execve_def parse_connect_def parse_fileopen_def
      Let_def split: if_splits option.splits prod.splits)

lemma sound_parse_event:
  assumes "parse_event kind s ((new_entry n)\<lparr>e_expect := x\<rparr>) = Inr e"
  shows "sound_entry e"
proof -
  obtain p pp comm r u r' where u: "parse_payload kind r = Inr (u, r')"
    and e: "e = (new_entry n)\<lparr>e_expect := x, e_ev := ancestry_tokens r' (zero_event\<lparr>ev_pid := p,
      ev_ppid := pp, ev_comm := strncpy_into (ev_comm zero_event) (decode_field comm)
        (PQSEC_COMM_LEN - 1), ev_u := u\<rparr>)\<rparr>"
    using assms by (auto simp: parse_event_def new_entry_def Let_def split: option.splits sum.splits)
  have "sealed_event (zero_event\<lparr>ev_pid := p, ev_ppid := pp,
      ev_comm := strncpy_into (ev_comm zero_event) (decode_field comm) (PQSEC_COMM_LEN - 1), ev_u := u\<rparr>)"
    using sealed_zero_event sealed_strncpy [of 15 "zeros 16"] sealed_parse_payload [OF u]
    by (simp add: sealed_event_def zero_event_def event_consts)
  then have "sealed_event (e_ev e)"
    by (simp add: e new_entry_def sealed_ancestry_tokens)
  then show ?thesis
    using sealed_event_wf parse_payload_type [OF u]
    by (simp add: sound_entry_def e new_entry_def ev_type_def)
qed

lemma sound_new_entry: "k \<noteq> K_Event \<Longrightarrow> sound_entry ((new_entry n)\<lparr>e_kind := k, e_directive := d\<rparr>)"
  by (simp add: sound_entry_def new_entry_def)

lemma sound_parse_delay: "parse_delay s ((new_entry n)\<lparr>e_expect := x\<rparr>) = Inr e \<Longrightarrow> sound_entry e"
  by (auto simp: parse_delay_def sound_entry_def new_entry_def split: option.splits if_splits)

lemma sound_parse_line: "parse_line n l = Inr (Some e) \<Longrightarrow> sound_entry e"
  by (auto simp: parse_line_def Let_def sound_new_entry
      dest: sound_parse_event sound_parse_delay
      split: option.splits if_splits sum.splits prod.splits)

lemma parse_sound_entries: "list_all sound_entry (fst (parse name text))"
proof -
  have "list_all sound_entry (fst (parse_lines name n ls))" for n ls
  proof (induction ls arbitrary: n)
    case (Cons l ls)
    then have "list_all sound_entry (fst (parse_lines name (Suc n) ls))"
      by blast
    then show ?case
      using sound_parse_line [of "Suc n" l]
      by (auto simp: Let_def split: sum.split option.split prod.split)
  qed simp
  then show ?thesis
    by (simp add: parse_def)
qed

text \<open>
  C23. Whatever text is read, every entry the parser delivers, also those before a rejected line,
  holds an event whose arrays have their lengths and hold a terminating NUL (so the C-string reads
  downstream stay in bounds), is of a type the format has, and has no negative delay.
\<close>

theorem parse_sound: "list_all sound_entry (fst (parse name text))"
  by (rule parse_sound_entries)

subsection \<open>Concrete instances\<close>

lemma format_line_complete_witness: "format_line sample_run = line_text sample_run (ev_u sample_run) @ encode_ancestry sample_run"
  by (rule format_line_complete [OF wf_samples(2)]) (use sample_run_u in auto)

lemma clean_c_field:
  "length s < n \<Longrightarrow> nul \<notin> set s \<Longrightarrow> list_all field_char s \<Longrightarrow> clean_field n (c_field n s)"
  by (simp add: clean_field_def cstr_c_field) (simp add: c_field_def)

lemma recordable_anc_zero: "recordable_anc (replicate n zero_ancestor)"
  by (cases n) (simp_all add: list_all_iff)

lemma recordable_sample_run: "recordable sample_run"
  unfolding recordable_def sample_run_def zero_event_def
  by (simp add: recordable_anc_zero clean_c_field cstr_c_field nul_def event_consts field_char_def)

lemma parse_recorded_file_witness:
  "parse ''f'' (recorded_file [sample_run]) = ([replayed 1 sample_run], None)"
  using parse_recorded_file [of "[sample_run]" "''f''"] recordable_sample_run by simp

end
