(* ===== verification/Wire.thy ===== *)
theory Wire
  imports Prelude
begin

section \<open>Handshake messages on the wire\<close>

text \<open>
  \<open>crypto/src/wire.cpp\<close>: a frame is \<open>[type][version][length, big-endian][payload]\<close>.  \<open>Writer\<close>
  appends, so it is list append here; \<open>Reader\<close> is a buffer with a position whose every read is
  bounds-checked.  A \<open>WireError\<close> is a constructor of \<open>wire_error\<close>, one for each \<open>throw\<close>.
\<close>

datatype wire_error =
    Frame_truncated | Payload_too_long | Unexpected_type | Unsupported_version | Length_mismatch
  | Shorter_than_header | Hello_field_length | Missing_kem_part | Missing_signature

type_synonym msg_type = u8

definition CLIENT_HELLO :: msg_type where "CLIENT_HELLO = 1"
definition SERVER_HELLO :: msg_type where "SERVER_HELLO = 2"
definition SERVER_AUTH :: msg_type where "SERVER_AUTH = 3"
definition CLIENT_AUTH :: msg_type where "CLIENT_AUTH = 4"

lemmas msg_type_defs = CLIENT_HELLO_def SERVER_HELLO_def SERVER_AUTH_def CLIENT_AUTH_def

definition kVersion :: u8 where "kVersion = 1"
definition kRandomLen :: nat where "kRandomLen = 32"
definition kX25519Len :: nat where "kX25519Len = 32"
definition kHeaderLen :: nat where "kHeaderLen = 4"

lemmas wire_consts = kVersion_def kRandomLen_def kX25519Len_def kHeaderLen_def

record client_hello =
  ch_random :: bytes
  ch_x25519 :: bytes
  ch_mlkem :: bytes

record server_hello =
  sh_random :: bytes
  sh_x25519 :: bytes
  sh_mlkem_ct :: bytes

datatype server_auth = Server_Auth (sa_signature: bytes)
datatype client_auth = Client_Auth (ca_signature: bytes)

subsection \<open>The writer\<close>

text \<open>The methods of \<open>Writer\<close> on its buffer; \<open>take\<close> returns the buffer.\<close>

definition write_u8 :: "u8 \<Rightarrow> bytes \<Rightarrow> bytes" where
  "write_u8 v buf = buf @ [v]"

definition write_u16 :: "u16 \<Rightarrow> bytes \<Rightarrow> bytes" where
  "write_u16 v buf = buf @ be16 v"

definition write_bytes :: "bytes \<Rightarrow> bytes \<Rightarrow> bytes" where
  "write_bytes b buf = buf @ b"

lemmas writer_defs [simp] = write_u8_def write_u16_def write_bytes_def

subsection \<open>The bounds-checked reader\<close>

record reader =
  rd_buf :: bytes
  rd_pos :: nat

definition need :: "nat \<Rightarrow> reader \<Rightarrow> wire_error + unit" where
  "need n r = (if length (rd_buf r) < rd_pos r + n then Inl Frame_truncated else Inr ())"

definition read_u8 :: "reader \<Rightarrow> wire_error + u8 \<times> reader" where
  "read_u8 r = and_then (need 1 r) (\<lambda>_.
     Inr (rd_buf r ! rd_pos r, r\<lparr>rd_pos := rd_pos r + 1\<rparr>))"

definition read_u16 :: "reader \<Rightarrow> wire_error + u16 \<times> reader" where
  "read_u16 r = and_then (need 2 r) (\<lambda>_.
     Inr (from_be16 (rd_buf r ! rd_pos r) (rd_buf r ! (rd_pos r + 1)), r\<lparr>rd_pos := rd_pos r + 2\<rparr>))"

definition read_bytes :: "nat \<Rightarrow> reader \<Rightarrow> wire_error + bytes \<times> reader" where
  "read_bytes n r = and_then (need n r) (\<lambda>_.
     Inr (take n (drop (rd_pos r) (rd_buf r)), r\<lparr>rd_pos := rd_pos r + n\<rparr>))"

definition remaining :: "reader \<Rightarrow> nat" where
  "remaining r = length (rd_buf r) - rd_pos r"

subsection \<open>Frames\<close>

definition frame :: "msg_type \<Rightarrow> bytes \<Rightarrow> wire_error + bytes" where
  "frame ty p =
     (if 0xffff < length p then Inl Payload_too_long
      else Inr (write_bytes p (write_u16 (word_of_nat (length p)) (write_u8 kVersion (write_u8 ty [])))))"

definition open_frame :: "bytes \<Rightarrow> msg_type \<Rightarrow> wire_error + reader" where
  "open_frame f expected =
     and_then (read_u8 \<lparr>rd_buf = f, rd_pos = 0\<rparr>) (\<lambda>(ty, r1).
     and_then (read_u8 r1) (\<lambda>(version, r2).
     and_then (read_u16 r2) (\<lambda>(len, r3).
       if ty \<noteq> expected then Inl Unexpected_type
       else if version \<noteq> kVersion then Inl Unsupported_version
       else if remaining r3 \<noteq> unat len then Inl Length_mismatch
       else Inr r3)))"

definition peek_type :: "bytes \<Rightarrow> wire_error + msg_type" where
  "peek_type f = (if length f < kHeaderLen then Inl Shorter_than_header else Inr (f ! 0))"

subsection \<open>The four messages\<close>

definition serialize_client_hello :: "client_hello \<Rightarrow> wire_error + bytes" where
  "serialize_client_hello m =
     (if length (ch_random m) \<noteq> kRandomLen \<or> length (ch_x25519 m) \<noteq> kX25519Len
      then Inl Hello_field_length
      else frame CLIENT_HELLO (write_bytes (ch_mlkem m) (write_bytes (ch_x25519 m) (write_bytes (ch_random m) []))))"

definition parse_client_hello :: "bytes \<Rightarrow> wire_error + client_hello" where
  "parse_client_hello f =
     and_then (open_frame f CLIENT_HELLO) (\<lambda>r.
     and_then (read_bytes kRandomLen r) (\<lambda>(rnd, r1).
     and_then (read_bytes kX25519Len r1) (\<lambda>(x, r2).
     and_then (read_bytes (remaining r2) r2) (\<lambda>(pk, r3).
       if pk = [] then Inl Missing_kem_part
       else Inr \<lparr>ch_random = rnd, ch_x25519 = x, ch_mlkem = pk\<rparr>))))"

definition serialize_server_hello :: "server_hello \<Rightarrow> wire_error + bytes" where
  "serialize_server_hello m =
     (if length (sh_random m) \<noteq> kRandomLen \<or> length (sh_x25519 m) \<noteq> kX25519Len
      then Inl Hello_field_length
      else frame SERVER_HELLO (write_bytes (sh_mlkem_ct m) (write_bytes (sh_x25519 m) (write_bytes (sh_random m) []))))"

definition parse_server_hello :: "bytes \<Rightarrow> wire_error + server_hello" where
  "parse_server_hello f =
     and_then (open_frame f SERVER_HELLO) (\<lambda>r.
     and_then (read_bytes kRandomLen r) (\<lambda>(rnd, r1).
     and_then (read_bytes kX25519Len r1) (\<lambda>(x, r2).
     and_then (read_bytes (remaining r2) r2) (\<lambda>(ct, r3).
       if ct = [] then Inl Missing_kem_part
       else Inr \<lparr>sh_random = rnd, sh_x25519 = x, sh_mlkem_ct = ct\<rparr>))))"

definition serialize_server_auth :: "server_auth \<Rightarrow> wire_error + bytes" where
  "serialize_server_auth m = frame SERVER_AUTH (sa_signature m)"

definition serialize_client_auth :: "client_auth \<Rightarrow> wire_error + bytes" where
  "serialize_client_auth m = frame CLIENT_AUTH (ca_signature m)"

definition parse_server_auth :: "bytes \<Rightarrow> wire_error + server_auth" where
  "parse_server_auth f =
     and_then (open_frame f SERVER_AUTH) (\<lambda>r.
     and_then (read_bytes (remaining r) r) (\<lambda>(sig, r1).
       if sig = [] then Inl Missing_signature else Inr (Server_Auth sig)))"

definition parse_client_auth :: "bytes \<Rightarrow> wire_error + client_auth" where
  "parse_client_auth f =
     and_then (open_frame f CLIENT_AUTH) (\<lambda>r.
     and_then (read_bytes (remaining r) r) (\<lambda>(sig, r1).
       if sig = [] then Inl Missing_signature else Inr (Client_Auth sig)))"

subsection \<open>What a frame looks like\<close>

definition framed :: "msg_type \<Rightarrow> bytes \<Rightarrow> bytes \<Rightarrow> bool" where
  "framed ty p f \<longleftrightarrow> length p \<le> 0xffff \<and> f = [ty, kVersion] @ be16 (word_of_nat (length p)) @ p"

text \<open>The length in the header of a buffer is the number of bytes that follow it.\<close>

definition header_length :: "bytes \<Rightarrow> nat" where
  "header_length f = unat (from_be16 (f ! 2) (f ! 3))"

definition delimited_frame :: "bytes \<Rightarrow> bool" where
  "delimited_frame f \<longleftrightarrow> kHeaderLen \<le> length f \<and> length f = kHeaderLen + header_length f"

lemma frame_Inr: "frame ty p = Inr f \<longleftrightarrow> framed ty p f"
  by (auto simp: frame_def framed_def)

lemma unat_be16_length:
  assumes "n \<le> 0xffff"
  shows "unat (word_of_nat n :: u16) = n"
  using assms by (simp add: unat_of_nat)

lemma from_be16_of_length:
  "from_be16 (be16 v ! 0) (be16 v ! 1) = v"
  by (simp add: be16_def)

lemma be16_cases: obtains b0 b1 where "be16 v = [b0, b1]" and "from_be16 b0 b1 = v"
  using that [OF be16_def from_be16_be16] .

lemma open_frame_framed:
  assumes "framed ty p f"
  shows "open_frame f ty = Inr \<lparr>rd_buf = f, rd_pos = 4\<rparr>"
proof -
  obtain b0 b1 where b: "be16 (word_of_nat (length p)) = [b0, b1]"
      "from_be16 b0 b1 = word_of_nat (length p)"
    by (rule be16_cases)
  have "f = [ty, kVersion, b0, b1] @ p" and len: "length p \<le> 0xffff"
    using assms b by (simp_all add: framed_def)
  then show ?thesis
    using b(2) unat_be16_length [OF len]
    by (simp add: open_frame_def read_u8_def read_u16_def need_def remaining_def)
qed

lemma four_bytes: "4 \<le> length f \<Longrightarrow> \<exists>a b c d p. f = [a, b, c, d] @ p"
  by (auto simp: numeral_eq_Suc Suc_le_length_iff)

lemma open_frame_short: "length f < 4 \<Longrightarrow> open_frame f ty = Inl Frame_truncated"
  by (auto simp: open_frame_def read_u8_def read_u16_def need_def split: if_splits)

lemma open_frame_long:
  "open_frame ([a, b, c, d] @ p) ty =
     (if a \<noteq> ty then Inl Unexpected_type else if b \<noteq> kVersion then Inl Unsupported_version
      else if length p \<noteq> unat (from_be16 c d) then Inl Length_mismatch
      else Inr \<lparr>rd_buf = [a, b, c, d] @ p, rd_pos = 4\<rparr>)"
  by (simp add: open_frame_def read_u8_def read_u16_def need_def remaining_def)

lemma open_frame_Inr:
  assumes "open_frame f ty = Inr r"
  shows "framed ty (drop 4 f) f" and "r = \<lparr>rd_buf = f, rd_pos = 4\<rparr>"
proof -
  have "4 \<le> length f"
    using assms open_frame_short [of f ty] by (cases "length f < 4") auto
  then obtain a b c d p where f: "f = [a, b, c, d] @ p"
    using four_bytes by blast
  have e: "a = ty" "b = kVersion" "length p = unat (from_be16 c d)"
    and r: "r = \<lparr>rd_buf = f, rd_pos = 4\<rparr>"
    using assms unfolding f open_frame_long by (auto split: if_splits)
  have "length p \<le> 0xffff"
    using unsigned_less [of "from_be16 c d", where 'a = nat] e(3) by simp
  then show "framed ty (drop 4 f) f"
    using e f by (simp add: framed_def)
  show "r = \<lparr>rd_buf = f, rd_pos = 4\<rparr>"
    by (rule r)
qed

lemma framed_delimited:
  assumes "framed ty p f"
  shows "delimited_frame f" and "f ! 0 = ty" and "p = drop 4 f"
proof -
  obtain b0 b1 where b: "be16 (word_of_nat (length p)) = [b0, b1]"
      "from_be16 b0 b1 = word_of_nat (length p)"
    by (rule be16_cases)
  have f: "f = [ty, kVersion, b0, b1] @ p" and len: "length p \<le> 0xffff"
    using assms b by (simp_all add: framed_def)
  then show "delimited_frame f" "f ! 0 = ty" "p = drop 4 f"
    using b(2) unat_be16_length [OF len]
    by (simp_all add: delimited_frame_def header_length_def kHeaderLen_def)
qed

lemma read_bytes_Inr:
  "read_bytes n r = Inr (b, r') \<longleftrightarrow>
     rd_pos r + n \<le> length (rd_buf r) \<and> b = take n (drop (rd_pos r) (rd_buf r)) \<and>
     r' = r\<lparr>rd_pos := rd_pos r + n\<rparr>"
  by (auto simp: read_bytes_def need_def)

text \<open>A frame as the reader sees it after the header, and the two hello fields in front of the rest.\<close>

lemma framed_split:
  assumes "framed ty p f"
  obtains h where "f = h @ p" and "length h = 4"
proof
  show "f = ([ty, kVersion] @ be16 (word_of_nat (length p))) @ p"
    using assms by (simp add: framed_def)
qed simp

definition hello_fields :: "bytes \<Rightarrow> (bytes \<times> bytes \<times> bytes) option" where
  "hello_fields p =
     (if length p < 64 then None else Some (take 32 p, take 32 (drop 32 p), drop 64 p))"

lemma read_hello:
  assumes "framed ty p f" and "open_frame f ty = Inr r"
  shows "and_then (read_bytes kRandomLen r) (\<lambda>(rnd, r1).
     and_then (read_bytes kX25519Len r1) (\<lambda>(x, r2).
     and_then (read_bytes (remaining r2) r2) (\<lambda>(z, r3). k rnd x z))) =
     (case hello_fields p of None \<Rightarrow> Inl Frame_truncated | Some (rnd, x, z) \<Rightarrow> k rnd x z)"
proof -
  obtain h where h: "f = h @ p" "length h = 4"
    using assms(1) by (rule framed_split)
  have r: "r = \<lparr>rd_buf = h @ p, rd_pos = 4\<rparr>"
    using assms(2) open_frame_framed [OF assms(1)] h by simp
  show ?thesis
    using h(2) by (simp add: r read_bytes_def need_def remaining_def wire_consts hello_fields_def)
qed

lemma hello_fields_append:
  "length a = 32 \<Longrightarrow> length b = 32 \<Longrightarrow> hello_fields (a @ b @ c) = Some (a, b, c)"
  by (simp add: hello_fields_def)

lemma hello_fields_Some:
  "hello_fields p = Some (a, b, c) \<Longrightarrow> p = a @ b @ c \<and> length a = 32 \<and> length b = 32"
  by (auto simp: hello_fields_def split: if_splits)
    (metis append_take_drop_id drop_drop numeral_Bit0_eq_double mult_2 drop_drop)

lemma parse_client_hello_framed:
  "framed CLIENT_HELLO p f \<Longrightarrow> parse_client_hello f =
     (case hello_fields p of None \<Rightarrow> Inl Frame_truncated
      | Some (rnd, x, z) \<Rightarrow> if z = [] then Inl Missing_kem_part
          else Inr \<lparr>ch_random = rnd, ch_x25519 = x, ch_mlkem = z\<rparr>)"
  using open_frame_framed [of CLIENT_HELLO p f]
  by (simp add: parse_client_hello_def read_hello)

lemma parse_server_hello_framed:
  "framed SERVER_HELLO p f \<Longrightarrow> parse_server_hello f =
     (case hello_fields p of None \<Rightarrow> Inl Frame_truncated
      | Some (rnd, x, z) \<Rightarrow> if z = [] then Inl Missing_kem_part
          else Inr \<lparr>sh_random = rnd, sh_x25519 = x, sh_mlkem_ct = z\<rparr>)"
  using open_frame_framed [of SERVER_HELLO p f]
  by (simp add: parse_server_hello_def read_hello)

lemma read_signature:
  assumes "framed ty p f" and "open_frame f ty = Inr r"
  shows "and_then (read_bytes (remaining r) r) k = k (p, r\<lparr>rd_pos := length f\<rparr>)"
proof -
  obtain h where h: "f = h @ p" "length h = 4"
    using assms(1) by (rule framed_split)
  have r: "r = \<lparr>rd_buf = h @ p, rd_pos = 4\<rparr>"
    using assms(2) open_frame_framed [OF assms(1)] h by simp
  show ?thesis
    using h by (simp add: r read_bytes_def need_def remaining_def)
qed

lemma parse_auth_framed:
  "framed SERVER_AUTH p f \<Longrightarrow>
     parse_server_auth f = (if p = [] then Inl Missing_signature else Inr (Server_Auth p))"
  "framed CLIENT_AUTH p f \<Longrightarrow>
     parse_client_auth f = (if p = [] then Inl Missing_signature else Inr (Client_Auth p))"
  using open_frame_framed [of SERVER_AUTH p f] open_frame_framed [of CLIENT_AUTH p f]
  by (simp_all add: parse_server_auth_def parse_client_auth_def read_signature)

text \<open>What parses is a frame of the type.\<close>

lemma parse_framed:
  "parse_client_hello f = Inr m1 \<Longrightarrow> framed CLIENT_HELLO (drop 4 f) f"
  "parse_server_hello f = Inr m2 \<Longrightarrow> framed SERVER_HELLO (drop 4 f) f"
  "parse_server_auth f = Inr m3 \<Longrightarrow> framed SERVER_AUTH (drop 4 f) f"
  "parse_client_auth f = Inr m4 \<Longrightarrow> framed CLIENT_AUTH (drop 4 f) f"
  by (auto simp: parse_client_hello_def parse_server_hello_def parse_server_auth_def
      parse_client_auth_def intro: open_frame_Inr(1) elim!: and_then_InrE)

definition valid_client_hello :: "client_hello \<Rightarrow> bool" where
  "valid_client_hello m \<longleftrightarrow> length (ch_random m) = kRandomLen \<and> length (ch_x25519 m) = kX25519Len \<and>
     ch_mlkem m \<noteq> [] \<and> length (ch_mlkem m) \<le> 0xffff - 64"

definition valid_server_hello :: "server_hello \<Rightarrow> bool" where
  "valid_server_hello m \<longleftrightarrow> length (sh_random m) = kRandomLen \<and> length (sh_x25519 m) = kX25519Len \<and>
     sh_mlkem_ct m \<noteq> [] \<and> length (sh_mlkem_ct m) \<le> 0xffff - 64"

definition valid_signature :: "bytes \<Rightarrow> bool" where
  "valid_signature s \<longleftrightarrow> s \<noteq> [] \<and> length s \<le> 0xffff"

text \<open>
  The contract of a message codec: valid messages serialize, only frames of the message's type
  parse, and the two are inverse.  The handshake and the transport rely on nothing else.
\<close>

locale frame_codec =
  fixes tag :: msg_type and valid :: "'m \<Rightarrow> bool"
    and ser :: "'m \<Rightarrow> wire_error + bytes" and par :: "bytes \<Rightarrow> wire_error + 'm"
  assumes ser_valid: "valid m \<Longrightarrow> \<exists>f. ser m = Inr f"
    and par_ser: "valid m \<Longrightarrow> ser m = Inr f \<Longrightarrow> par f = Inr m"
    and ser_par: "par f = Inr m \<Longrightarrow> valid m \<and> ser m = Inr f"
    and ser_framed: "ser m = Inr f \<Longrightarrow> \<exists>p. framed tag p f"
    and ser_inject: "ser m = Inr f \<Longrightarrow> ser m' = Inr f \<Longrightarrow> m' = m"
begin

lemma par_of_ser: "ser m = Inr f \<Longrightarrow> par f = Inr m' \<Longrightarrow> m' = m"
  using ser_par ser_inject by blast

lemma round_trip: "valid m \<Longrightarrow> and_then (ser m) par = Inr m"
  using ser_valid par_ser by fastforce

lemma par_framed: "par f = Inr m \<Longrightarrow> \<exists>p. framed tag p f"
  using ser_par ser_framed by blast

lemma par_inject:
  assumes "par f = Inr m" and "par g = Inr m"
  shows "f = g"
  using ser_par [OF assms(1)] ser_par [OF assms(2)] by simp

lemma ser_delimited: "ser m = Inr f \<Longrightarrow> delimited_frame f \<and> f ! 0 = tag"
  using ser_framed framed_delimited by blast

lemma par_delimited: "par f = Inr m \<Longrightarrow> delimited_frame f \<and> f ! 0 = tag"
  using ser_par ser_delimited by blast

end

lemma framed_unique: "framed ty p f \<Longrightarrow> framed ty q f \<Longrightarrow> p = q"
  using framed_delimited(3) by metis

lemma length_framed: "framed ty p f \<Longrightarrow> length p \<le> 0xffff"
  by (simp add: framed_def)

interpretation ch: frame_codec CLIENT_HELLO valid_client_hello serialize_client_hello parse_client_hello
proof
  fix m m' f
  show "serialize_client_hello m = Inr f \<Longrightarrow> serialize_client_hello m' = Inr f \<Longrightarrow> m' = m"
    by (auto simp: serialize_client_hello_def frame_Inr dest: framed_unique split: if_splits
        intro: client_hello.equality)
  show "valid_client_hello m \<Longrightarrow> \<exists>f. serialize_client_hello m = Inr f"
    by (simp add: valid_client_hello_def serialize_client_hello_def frame_def wire_consts)
  show "serialize_client_hello m = Inr f \<Longrightarrow> \<exists>p. framed CLIENT_HELLO p f"
    by (auto simp: serialize_client_hello_def frame_Inr split: if_splits)
  show "valid_client_hello m \<Longrightarrow> serialize_client_hello m = Inr f \<Longrightarrow> parse_client_hello f = Inr m"
    by (auto simp: serialize_client_hello_def frame_Inr parse_client_hello_framed hello_fields_append
        valid_client_hello_def wire_consts)
  show "valid_client_hello m \<and> serialize_client_hello m = Inr f" if p: "parse_client_hello f = Inr m"
  proof -
    note fr = parse_framed(1) [OF p]
    show ?thesis
      using p length_framed [OF fr] fr unfolding parse_client_hello_framed [OF fr]
      by (auto simp: serialize_client_hello_def frame_Inr valid_client_hello_def wire_consts simp del: length_drop
        dest!: hello_fields_Some split: option.splits if_splits)
  qed
qed

interpretation sh: frame_codec SERVER_HELLO valid_server_hello serialize_server_hello parse_server_hello
proof
  fix m m' f
  show "serialize_server_hello m = Inr f \<Longrightarrow> serialize_server_hello m' = Inr f \<Longrightarrow> m' = m"
    by (auto simp: serialize_server_hello_def frame_Inr dest: framed_unique split: if_splits
        intro: server_hello.equality)
  show "valid_server_hello m \<Longrightarrow> \<exists>f. serialize_server_hello m = Inr f"
    by (simp add: valid_server_hello_def serialize_server_hello_def frame_def wire_consts)
  show "serialize_server_hello m = Inr f \<Longrightarrow> \<exists>p. framed SERVER_HELLO p f"
    by (auto simp: serialize_server_hello_def frame_Inr split: if_splits)
  show "valid_server_hello m \<Longrightarrow> serialize_server_hello m = Inr f \<Longrightarrow> parse_server_hello f = Inr m"
    by (auto simp: serialize_server_hello_def frame_Inr parse_server_hello_framed hello_fields_append
        valid_server_hello_def wire_consts)
  show "valid_server_hello m \<and> serialize_server_hello m = Inr f" if p: "parse_server_hello f = Inr m"
  proof -
    note fr = parse_framed(2) [OF p]
    show ?thesis
      using p length_framed [OF fr] fr unfolding parse_server_hello_framed [OF fr]
      by (auto simp: serialize_server_hello_def frame_Inr valid_server_hello_def wire_consts simp del: length_drop
        dest!: hello_fields_Some split: option.splits if_splits)
  qed
qed

interpretation sa: frame_codec SERVER_AUTH "\<lambda>m. valid_signature (sa_signature m)"
    serialize_server_auth parse_server_auth
proof
  fix m m' f
  show "serialize_server_auth m = Inr f \<Longrightarrow> serialize_server_auth m' = Inr f \<Longrightarrow> m' = m"
    by (auto simp: serialize_server_auth_def frame_Inr intro: server_auth.expand dest: framed_unique)
  show "valid_signature (sa_signature m) \<Longrightarrow> serialize_server_auth m = Inr f \<Longrightarrow> parse_server_auth f = Inr m"
    by (auto simp: serialize_server_auth_def frame_Inr parse_auth_framed valid_signature_def)
  show "valid_signature (sa_signature m) \<and> serialize_server_auth m = Inr f" if p: "parse_server_auth f = Inr m"
  proof -
    note fr = parse_framed(3) [OF p]
    show ?thesis
      using p length_framed [OF fr] fr unfolding parse_auth_framed(1) [OF fr]
      by (auto simp: serialize_server_auth_def frame_Inr valid_signature_def split: if_splits)
  qed
  show "serialize_server_auth m = Inr f \<Longrightarrow> \<exists>p. framed SERVER_AUTH p f"
    by (auto simp: serialize_server_auth_def frame_Inr)
qed (simp add: serialize_server_auth_def valid_signature_def frame_def)

interpretation ca: frame_codec CLIENT_AUTH "\<lambda>m. valid_signature (ca_signature m)"
    serialize_client_auth parse_client_auth
proof
  fix m m' f
  show "serialize_client_auth m = Inr f \<Longrightarrow> serialize_client_auth m' = Inr f \<Longrightarrow> m' = m"
    by (auto simp: serialize_client_auth_def frame_Inr intro: client_auth.expand dest: framed_unique)
  show "valid_signature (ca_signature m) \<Longrightarrow> serialize_client_auth m = Inr f \<Longrightarrow> parse_client_auth f = Inr m"
    by (auto simp: serialize_client_auth_def frame_Inr parse_auth_framed valid_signature_def)
  show "valid_signature (ca_signature m) \<and> serialize_client_auth m = Inr f" if p: "parse_client_auth f = Inr m"
  proof -
    note fr = parse_framed(4) [OF p]
    show ?thesis
      using p length_framed [OF fr] fr unfolding parse_auth_framed(2) [OF fr]
      by (auto simp: serialize_client_auth_def frame_Inr valid_signature_def split: if_splits)
  qed
  show "serialize_client_auth m = Inr f \<Longrightarrow> \<exists>p. framed CLIENT_AUTH p f"
    by (auto simp: serialize_client_auth_def frame_Inr)
qed (simp add: serialize_client_auth_def valid_signature_def frame_def)

subsection \<open>Properties of the format\<close>

text \<open>
  C21. Each of the four message formats is a bijection between valid messages and accepted frames:
  a parser accepts a buffer and returns a message exactly if the message is valid and the buffer
  is its serialization.  In particular parsing inverts serializing, and no message has two
  encodings.
\<close>

theorem wire_codecs:
  "(parse_client_hello f = Inr m1 \<longleftrightarrow> valid_client_hello m1 \<and> serialize_client_hello m1 = Inr f) \<and>
   (parse_server_hello f = Inr m2 \<longleftrightarrow> valid_server_hello m2 \<and> serialize_server_hello m2 = Inr f) \<and>
   (parse_server_auth f = Inr m3 \<longleftrightarrow> valid_signature (sa_signature m3) \<and> serialize_server_auth m3 = Inr f) \<and>
   (parse_client_auth f = Inr m4 \<longleftrightarrow> valid_signature (ca_signature m4) \<and> serialize_client_auth m4 = Inr f)"
  using ch.par_ser ch.ser_par sh.par_ser sh.ser_par sa.par_ser sa.ser_par ca.par_ser ca.ser_par
  by (intro conjI iffI) blast+

lemma open_frame_other:
  assumes "framed ty p f" and "ty' \<noteq> ty"
  shows "open_frame f ty' = Inl Unexpected_type"
proof -
  obtain b0 b1 where "be16 (word_of_nat (length p)) = [b0, b1]"
    by (rule be16_cases)
  then have f: "f = [ty, kVersion, b0, b1] @ p"
    using assms(1) by (simp add: framed_def)
  show ?thesis
    unfolding f open_frame_long using assms(2) by simp
qed

text \<open>
  No frame is taken for a message of another type: what the ClientHello parser accepts, the
  three other parsers reject because of its type byte, and a reflected ClientAuth is not a
  ServerAuth.
\<close>

theorem wire_no_type_confusion:
  assumes "parse_client_hello f = Inr m" and "parse_client_auth g = Inr n"
  shows "parse_server_hello f = Inl Unexpected_type \<and> parse_server_auth f = Inl Unexpected_type \<and>
    parse_client_auth f = Inl Unexpected_type \<and> parse_server_auth g = Inl Unexpected_type \<and>
    peek_type f = Inr CLIENT_HELLO"
proof -
  have "framed CLIENT_HELLO (drop 4 f) f" "framed CLIENT_AUTH (drop 4 g) g"
    using assms parse_framed by blast+
  note fr = this open_frame_other [OF this(1)] open_frame_other [OF this(2)]
  have "delimited_frame f" "f ! 0 = CLIENT_HELLO"
    using framed_delimited [OF fr(1)] by blast+
  then show ?thesis
    using fr(3,4)
    by (simp add: parse_server_hello_def parse_server_auth_def parse_client_auth_def msg_type_defs
        peek_type_def delimited_frame_def)
qed

text \<open>Frames delimit themselves, so that a concatenation of frames can be taken apart in one way only.\<close>

lemma header_length_append: "kHeaderLen \<le> length f \<Longrightarrow> header_length (f @ g) = header_length f"
  by (simp add: header_length_def kHeaderLen_def nth_append)

lemma delimited_append_inject:
  assumes "delimited_frame f" and "delimited_frame f'" and "f @ g = f' @ g'"
  shows "f = f' \<and> g = g'"
proof -
  have "header_length f = header_length f'"
    using assms header_length_append [of f g] header_length_append [of f' g']
    by (simp add: delimited_frame_def)
  then have "length f = length f'"
    using assms(1,2) unfolding delimited_frame_def by linarith
  with assms(3) show ?thesis
    by simp
qed

lemma wire_no_type_confusion_witness:
  "\<exists>f g m n. parse_client_hello f = Inr m \<and> parse_client_auth g = Inr n \<and> parse_server_hello f = Inl Unexpected_type"
proof -
  let ?m = "\<lparr>ch_random = replicate 32 1, ch_x25519 = replicate 32 2, ch_mlkem = [3]\<rparr>"
  have "valid_client_hello ?m" and "valid_signature (ca_signature (Client_Auth [1]))"
    by (simp_all add: valid_client_hello_def valid_signature_def wire_consts)
  from ch.ser_valid [OF this(1)] ch.par_ser [OF this(1)] ca.ser_valid [OF this(2)] ca.par_ser [OF this(2)]
  obtain f g where f: "parse_client_hello f = Inr ?m" and g: "parse_client_auth g = Inr (Client_Auth [1])"
    by blast
  show ?thesis
    using wire_no_type_confusion [OF f g] f g by blast
qed

end
