(* ===== verification/Crypto_Prims.thy ===== *)
theory Crypto_Prims
  imports Prelude
begin

section \<open>Cryptographic primitives and their wrappers\<close>

text \<open>
  OpenSSL and liboqs are not part of the repository: the record \<open>libs\<close> holds the library
  functions the code calls, each as the function from inputs (and, where the library draws random
  numbers, a seed) to outputs that the calls compute, \<open>None\<close> where a call reports failure.  The
  wrappers of \<open>crypto/src/kdf.cpp\<close>, \<open>x25519.cpp\<close>, \<open>pqc_kem.cpp\<close> and \<open>pqc_sig.cpp\<close> add the
  length checks and turn failures into exceptions, here constructors of \<open>crypto_error\<close>.
\<close>

datatype crypto_error =
    Kem_unsupported | Kem_keypair_failed | Kem_public_key_length | Kem_encaps_failed
  | Kem_ciphertext_length | Kem_secret_key_length | Kem_decaps_failed
  | Sig_unsupported | Sig_keypair_failed | Sig_secret_key_length | Sig_sign_failed
  | X25519_ctx_failed | X25519_peer_failed | X25519_derive_ctx_failed | X25519_length_failed
  | X25519_keygen_failed | X25519_public_failed | X25519_peer_length | X25519_derive_failed
  | Digest_failed | Kdf_failed

type_synonym seed = nat

record libs =
  kem_available :: bool
  kem_public_len :: nat
  kem_secret_len :: nat
  kem_ct_len :: nat
  kem_ss_len :: nat
  oqs_kem_keypair :: "seed \<Rightarrow> (bytes \<times> bytes) option"
  oqs_kem_encaps :: "seed \<Rightarrow> bytes \<Rightarrow> (bytes \<times> bytes) option"
  oqs_kem_decaps :: "bytes \<Rightarrow> bytes \<Rightarrow> bytes option"
  sig_available :: bool
  sig_public_len :: nat
  sig_secret_len :: nat
  sig_max_len :: nat
  oqs_sig_keypair :: "seed \<Rightarrow> (bytes \<times> bytes) option"
  oqs_sig_sign :: "seed \<Rightarrow> bytes \<Rightarrow> bytes \<Rightarrow> bytes option"
  oqs_sig_verify :: "bytes \<Rightarrow> bytes \<Rightarrow> bytes \<Rightarrow> bool"
  evp_x25519_keygen :: "seed \<Rightarrow> bytes option"
  evp_x25519_public :: "bytes \<Rightarrow> bytes option"
  evp_x25519_derive :: "bytes \<Rightarrow> bytes \<Rightarrow> bytes option"
  evp_sha256 :: "bytes \<Rightarrow> bytes option"
  evp_hkdf_extract :: "bytes \<Rightarrow> bytes \<Rightarrow> nat \<Rightarrow> bytes option"
  evp_hkdf_expand :: "bytes \<Rightarrow> bytes \<Rightarrow> nat \<Rightarrow> bytes option"
  rand_bytes :: "seed \<Rightarrow> nat \<Rightarrow> bytes option"
  evp_gcm_encrypt :: "bytes \<Rightarrow> bytes \<Rightarrow> bytes \<Rightarrow> bytes \<Rightarrow> (bytes \<times> bytes) option"
  evp_gcm_decrypt :: "bytes \<Rightarrow> bytes \<Rightarrow> bytes \<Rightarrow> bytes \<Rightarrow> bytes \<Rightarrow> bytes option"

record key_pair =
  public_key :: bytes
  secret_key :: bytes

record encaps_result =
  ciphertext :: bytes
  shared_secret :: bytes

subsection \<open>ML-KEM-768\<close>

definition mlkem_new :: "libs \<Rightarrow> crypto_error + unit" where
  "mlkem_new L = (if kem_available L then Inr () else Inl Kem_unsupported)"

definition mlkem_keypair :: "libs \<Rightarrow> seed \<Rightarrow> crypto_error + key_pair" where
  "mlkem_keypair L r =
     (case oqs_kem_keypair L r of
        None \<Rightarrow> Inl Kem_keypair_failed
      | Some (pk, sk) \<Rightarrow> Inr \<lparr>public_key = pk, secret_key = sk\<rparr>)"

definition mlkem_encaps :: "libs \<Rightarrow> seed \<Rightarrow> bytes \<Rightarrow> crypto_error + encaps_result" where
  "mlkem_encaps L r pk =
     (if length pk \<noteq> kem_public_len L then Inl Kem_public_key_length
      else case oqs_kem_encaps L r pk of
             None \<Rightarrow> Inl Kem_encaps_failed
           | Some (ct, ss) \<Rightarrow> Inr \<lparr>ciphertext = ct, shared_secret = ss\<rparr>)"

definition mlkem_decaps :: "libs \<Rightarrow> bytes \<Rightarrow> bytes \<Rightarrow> crypto_error + bytes" where
  "mlkem_decaps L ct sk =
     (if length ct \<noteq> kem_ct_len L then Inl Kem_ciphertext_length
      else if length sk \<noteq> kem_secret_len L then Inl Kem_secret_key_length
      else or_throw (oqs_kem_decaps L ct sk) Kem_decaps_failed)"

subsection \<open>ML-DSA-65\<close>

definition mldsa_new :: "libs \<Rightarrow> crypto_error + unit" where
  "mldsa_new L = (if sig_available L then Inr () else Inl Sig_unsupported)"

definition mldsa_keypair :: "libs \<Rightarrow> seed \<Rightarrow> crypto_error + key_pair" where
  "mldsa_keypair L r =
     (case oqs_sig_keypair L r of
        None \<Rightarrow> Inl Sig_keypair_failed
      | Some (pk, sk) \<Rightarrow> Inr \<lparr>public_key = pk, secret_key = sk\<rparr>)"

definition mldsa_sign :: "libs \<Rightarrow> seed \<Rightarrow> bytes \<Rightarrow> bytes \<Rightarrow> crypto_error + bytes" where
  "mldsa_sign L r m sk =
     (if length sk \<noteq> sig_secret_len L then Inl Sig_secret_key_length
      else or_throw (oqs_sig_sign L r m sk) Sig_sign_failed)"

text \<open>A public key of the wrong length is a failed verification, not an exception.\<close>

definition mldsa_verify :: "libs \<Rightarrow> bytes \<Rightarrow> bytes \<Rightarrow> bytes \<Rightarrow> bool" where
  "mldsa_verify L m sig pk \<longleftrightarrow> length pk = sig_public_len L \<and> oqs_sig_verify L m sig pk"

subsection \<open>X25519\<close>

definition X25519_kKeyLen :: nat where "X25519_kKeyLen = 32"

text \<open>The constructor: the ephemeral private key.\<close>

definition x25519_new :: "libs \<Rightarrow> seed \<Rightarrow> crypto_error + bytes" where
  "x25519_new L r = or_throw (evp_x25519_keygen L r) X25519_keygen_failed"

definition x25519_public_key :: "libs \<Rightarrow> bytes \<Rightarrow> crypto_error + bytes" where
  "x25519_public_key L x =
     (case evp_x25519_public L x of
        None \<Rightarrow> Inl X25519_public_failed
      | Some pk \<Rightarrow> if length pk \<noteq> X25519_kKeyLen then Inl X25519_public_failed else Inr pk)"

definition x25519_compute_shared :: "libs \<Rightarrow> bytes \<Rightarrow> bytes \<Rightarrow> crypto_error + bytes" where
  "x25519_compute_shared L x peer =
     (if length peer \<noteq> X25519_kKeyLen then Inl X25519_peer_length
      else or_throw (evp_x25519_derive L x peer) X25519_derive_failed)"

subsection \<open>SHA-256 and HKDF\<close>

definition sha256 :: "libs \<Rightarrow> bytes \<Rightarrow> crypto_error + bytes" where
  "sha256 L d = or_throw (evp_sha256 L d) Digest_failed"

definition hkdf_extract :: "libs \<Rightarrow> bytes \<Rightarrow> bytes \<Rightarrow> crypto_error + bytes" where
  "hkdf_extract L salt ikm = or_throw (evp_hkdf_extract L salt ikm 32) Kdf_failed"

definition hkdf_expand :: "libs \<Rightarrow> bytes \<Rightarrow> bytes \<Rightarrow> nat \<Rightarrow> crypto_error + bytes" where
  "hkdf_expand L prk info n = or_throw (evp_hkdf_expand L prk info n) Kdf_failed"

subsection \<open>The hybrid key schedule\<close>

text \<open>\<open>crypto/src/session.cpp\<close>.\<close>

record session_keys =
  c2s_key :: bytes
  s2c_key :: bytes
  c2s_iv :: bytes
  s2c_iv :: bytes

definition label_info :: "string \<Rightarrow> bytes \<Rightarrow> bytes" where
  "label_info label th = to_bytes label @ th"

definition derive_session_keys ::
  "libs \<Rightarrow> bytes \<Rightarrow> bytes \<Rightarrow> bytes \<Rightarrow> bytes \<Rightarrow> bytes \<Rightarrow> crypto_error + session_keys" where
  "derive_session_keys L ss_classical ss_pq client_random server_random th =
     and_then (hkdf_extract L (client_random @ server_random) (ss_classical @ ss_pq)) (\<lambda>prk.
     and_then (hkdf_expand L prk (label_info ''pqsec c2s key'' th) 32) (\<lambda>k1.
     and_then (hkdf_expand L prk (label_info ''pqsec s2c key'' th) 32) (\<lambda>k2.
     and_then (hkdf_expand L prk (label_info ''pqsec c2s iv'' th) 12) (\<lambda>v1.
     and_then (hkdf_expand L prk (label_info ''pqsec s2c iv'' th) 12) (\<lambda>v2.
       Inr \<lparr>c2s_key = k1, s2c_key = k2, c2s_iv = v1, s2c_iv = v2\<rparr>)))))"

text \<open>
  What the libraries document: the outputs have the lengths of the algorithms (\<open>resize\<close> in the
  wrappers relies on them), decapsulation inverts encapsulation, Diffie-Hellman commutes, a
  signature by a key pair verifies, and GCM decryption inverts encryption.
\<close>

definition libs_sized :: "libs \<Rightarrow> bool" where
  "libs_sized L \<longleftrightarrow>
     (\<forall>r pk sk. oqs_kem_keypair L r = Some (pk, sk) \<longrightarrow>
        length pk = kem_public_len L \<and> length sk = kem_secret_len L) \<and>
     (\<forall>r pk ct ss. oqs_kem_encaps L r pk = Some (ct, ss) \<longrightarrow>
        length ct = kem_ct_len L \<and> length ss = kem_ss_len L) \<and>
     (\<forall>r pk sk. oqs_sig_keypair L r = Some (pk, sk) \<longrightarrow>
        length pk = sig_public_len L \<and> length sk = sig_secret_len L) \<and>
     (\<forall>r n b. rand_bytes L r n = Some b \<longrightarrow> length b = n) \<and>
     (\<forall>r m sk s. oqs_sig_sign L r m sk = Some s \<longrightarrow> s \<noteq> [] \<and> length s \<le> sig_max_len L) \<and>
     (\<forall>p i n k. evp_hkdf_expand L p i n = Some k \<longrightarrow> length k = n) \<and>
     (\<forall>k n a p c t. evp_gcm_encrypt L k n a p = Some (c, t) \<longrightarrow> length c = length p \<and> length t = 16) \<and>
     0 < kem_public_len L \<and> kem_public_len L \<le> 0xffff - 64 \<and>
     0 < kem_ct_len L \<and> kem_ct_len L \<le> 0xffff - 64 \<and> sig_max_len L \<le> 0xffff"

definition gcm_correct :: "libs \<Rightarrow> bool" where
  "gcm_correct L \<longleftrightarrow>
     (\<forall>k n a p c t. evp_gcm_encrypt L k n a p = Some (c, t) \<longrightarrow> evp_gcm_decrypt L k n a c t = Some p)"

definition kem_correct :: "libs \<Rightarrow> bool" where
  "kem_correct L \<longleftrightarrow>
     (\<forall>r r' pk sk ct ss. oqs_kem_keypair L r = Some (pk, sk) \<and> oqs_kem_encaps L r' pk = Some (ct, ss)
        \<longrightarrow> oqs_kem_decaps L ct sk = Some ss)"

definition dh_correct :: "libs \<Rightarrow> bool" where
  "dh_correct L \<longleftrightarrow>
     (\<forall>x y px py. evp_x25519_public L x = Some px \<and> evp_x25519_public L y = Some py
        \<longrightarrow> evp_x25519_derive L x py = evp_x25519_derive L y px)"

definition sig_correct :: "libs \<Rightarrow> bool" where
  "sig_correct L \<longleftrightarrow>
     (\<forall>r r' pk sk m s. oqs_sig_keypair L r = Some (pk, sk) \<and> oqs_sig_sign L r' m sk = Some s
        \<longrightarrow> oqs_sig_verify L m s pk)"

text \<open>The calls that are not required to fail do not fail.\<close>

definition libs_available :: "libs \<Rightarrow> bool" where
  "libs_available L \<longleftrightarrow> kem_available L \<and> sig_available L \<and>
     (\<forall>r. oqs_kem_keypair L r \<noteq> None) \<and> (\<forall>r pk. oqs_kem_encaps L r pk \<noteq> None) \<and>
     (\<forall>r m sk. oqs_sig_sign L r m sk \<noteq> None) \<and> (\<forall>r. evp_x25519_keygen L r \<noteq> None) \<and>
     (\<forall>x. \<exists>p. evp_x25519_public L x = Some p \<and> length p = 32) \<and>
     (\<forall>x p. length p = 32 \<longrightarrow> evp_x25519_derive L x p \<noteq> None) \<and>
     (\<forall>d. evp_sha256 L d \<noteq> None) \<and> (\<forall>s i n. evp_hkdf_extract L s i n \<noteq> None) \<and>
     (\<forall>p i n. evp_hkdf_expand L p i n \<noteq> None) \<and> (\<forall>r n. rand_bytes L r n \<noteq> None) \<and>
     (\<forall>k n a p. evp_gcm_encrypt L k n a p \<noteq> None)"

lemma session_keys_sized:
  assumes "libs_sized L" and "derive_session_keys L a b c d th = Inr ks"
  shows "length (c2s_key ks) = 32" "length (s2c_key ks) = 32" "length (c2s_iv ks) = 12"
    "length (s2c_iv ks) = 12"
  using assms by (auto simp: derive_session_keys_def hkdf_extract_def hkdf_expand_def libs_sized_def
      elim!: and_then_InrE)

text \<open>The four labels are pairwise different inputs of the expansion, whatever the transcript.\<close>

lemma label_info_inject [simp]: "label_info l th = label_info l th' \<longleftrightarrow> th = th'"
  by (simp add: label_info_def)

subsection \<open>Small libraries that work as documented\<close>

definition pad32 :: "bytes \<Rightarrow> bytes" where
  "pad32 x = take 32 (x @ replicate 32 0)"

definition first_byte :: "bytes \<Rightarrow> u8" where
  "first_byte x = (case x of [] \<Rightarrow> 0 | b # _ \<Rightarrow> b)"

definition toy_tag :: "bytes \<Rightarrow> bytes \<Rightarrow> bytes \<Rightarrow> bytes" where
  "toy_tag n a p = take 15 (n @ replicate 15 0) @ [sum_list a + sum_list p]"

definition toy_libs :: libs where
  "toy_libs = \<lparr>
     kem_available = True, kem_public_len = 1, kem_secret_len = 1, kem_ct_len = 1, kem_ss_len = 2,
     oqs_kem_keypair = \<lambda>r. Some ([of_nat r], [of_nat r]),
     oqs_kem_encaps = \<lambda>r pk. Some ([of_nat r], [of_nat r, first_byte pk]),
     oqs_kem_decaps = \<lambda>ct sk. Some [first_byte ct, first_byte sk],
     sig_available = True, sig_public_len = 1, sig_secret_len = 1, sig_max_len = 2,
     oqs_sig_keypair = \<lambda>r. Some ([of_nat r], [of_nat r]),
     oqs_sig_sign = \<lambda>r m sk. Some [first_byte sk, sum_list m],
     oqs_sig_verify = \<lambda>m s pk. s = [first_byte pk, sum_list m],
     evp_x25519_keygen = \<lambda>r. Some [of_nat r],
     evp_x25519_public = \<lambda>x. Some (pad32 x),
     evp_x25519_derive = \<lambda>x p. Some (map2 (\<lambda>a b. a + b) (pad32 x) p),
     evp_sha256 = \<lambda>d. Some d,
     evp_hkdf_extract = \<lambda>s i n. Some (take n (s @ i)),
     evp_hkdf_expand = \<lambda>p i n. Some (take n (p @ i @ replicate n 0)),
     rand_bytes = \<lambda>r n. Some (replicate n (of_nat r)),
     evp_gcm_encrypt = \<lambda>k n a p. Some (map (\<lambda>b. b + first_byte k) p, toy_tag n a p),
     evp_gcm_decrypt = \<lambda>k n a c t.
       (let p = map (\<lambda>b. b - first_byte k) c in if t = toy_tag n a p then Some p else None)\<rparr>"

lemma map2_add_commute: "map2 (\<lambda>a b. a + b) xs ys = map2 (\<lambda>a b. a + b) ys (xs :: bytes)"
  by (induction xs ys rule: list_induct2') (simp_all add: add.commute)

lemma toy_libs_ok:
  "libs_available toy_libs" "libs_sized toy_libs" "kem_correct toy_libs" "dh_correct toy_libs"
  "sig_correct toy_libs" "gcm_correct toy_libs"
proof -
  show "dh_correct toy_libs"
    using map2_add_commute by (simp add: dh_correct_def toy_libs_def)
qed (simp_all add: libs_available_def libs_sized_def kem_correct_def sig_correct_def gcm_correct_def
    toy_libs_def pad32_def toy_tag_def first_byte_def comp_def min_def)

end
