(* ===== verification/Record_Layer.thy ===== *)
theory Record_Layer
  imports Crypto_Prims
begin

section \<open>The encrypted record layer\<close>

text \<open>
  \<open>crypto/src/record.cpp\<close>: a sender and a receiver count records in 64 bits, derive the nonce of
  each from the count, and authenticate the length header as associated data.  AES-256-GCM is the
  pair \<open>evp_gcm_encrypt\<close>, \<open>evp_gcm_decrypt\<close> of \<open>libs\<close>.  An operation that throws leaves its
  object unchanged.
\<close>

datatype record_error =
    Cipher_ctx_failed | Bad_key_or_iv | Sequence_exhausted | Plaintext_too_long | Encrypt_failed
  | Record_too_short | Record_length_mismatch | Payload_shorter_than_tag | Tag_mismatch

definition kGcmTagLen :: nat where "kGcmTagLen = 16"
definition kIvLen :: nat where "kIvLen = 12"
definition kAesKeyLen :: nat where "kAesKeyLen = 32"

lemmas record_consts = kGcmTagLen_def kIvLen_def kAesKeyLen_def

text \<open>\<open>UINT64_MAX\<close>\<close>

definition seq_max :: u64 where "seq_max = - 1"

subsection \<open>Nonces\<close>

definition seq_byte :: "u64 \<Rightarrow> nat \<Rightarrow> u8" where
  "seq_byte seq i = ucast (drop_bit (8 * (7 - i)) seq)"

definition make_nonce :: "bytes \<Rightarrow> u64 \<Rightarrow> bytes" where
  "make_nonce iv seq =
     foldl (\<lambda>nonce i. nonce[kIvLen - 8 + i := nonce ! (kIvLen - 8 + i) XOR seq_byte seq i]) iv [0..<8]"

lemma length_nonce_loop:
  "length (foldl (\<lambda>l i. l[off + i := l ! (off + i) XOR g i]) iv [0..<k]) = length iv"
  by (induction k) simp_all

lemma nonce_loop_nth:
  fixes iv :: bytes
  shows "j < length iv \<Longrightarrow> off + k \<le> length iv \<Longrightarrow>
    foldl (\<lambda>l i. l[off + i := l ! (off + i) XOR g i]) iv [0..<k] ! j =
      (if off \<le> j \<and> j < off + k then iv ! j XOR g (j - off) else iv ! j)"
  by (induction k) (auto simp: nth_list_update length_nonce_loop)

lemma length_make_nonce [len_simps]: "length (make_nonce iv seq) = length iv"
  unfolding make_nonce_def by (rule length_nonce_loop)

lemma make_nonce_nth:
  "length iv = 12 \<Longrightarrow> j < 12 \<Longrightarrow>
    make_nonce iv seq ! j = (if 4 \<le> j then iv ! j XOR seq_byte seq (j - 4) else iv ! j)"
  using nonce_loop_nth [of j iv 4 8 "seq_byte seq"] by (simp add: make_nonce_def record_consts)

lemma seq_bytes_inject:
  assumes "\<forall>i < 8. seq_byte a i = seq_byte b i"
  shows "a = b"
proof (rule bit_word_eqI)
  fix n
  assume n: "n < LENGTH(64)"
  let ?i = "7 - n div 8"
  have e: "8 * (7 - ?i) + n mod 8 = n"
    using n by simp
  have "bit (seq_byte x ?i) (n mod 8) = bit x (8 * (7 - ?i) + n mod 8)" for x
    unfolding seq_byte_def by (simp add: bit_simps)
  moreover have "seq_byte a ?i = seq_byte b ?i"
    using assms by simp
  ultimately show "bit a n = bit b n"
    unfolding e by metis
qed

lemma make_nonce_inject:
  assumes "length iv = 12" and "make_nonce iv a = make_nonce iv b"
  shows "a = b"
proof (rule seq_bytes_inject)
  have "iv ! (4 + i) XOR seq_byte a i = iv ! (4 + i) XOR seq_byte b i" if "i < 8" for i
    using assms that make_nonce_nth [of iv "4 + i" a] make_nonce_nth [of iv "4 + i" b] by simp
  moreover have "x XOR (x XOR y) = y" for x y :: u8
    by (simp flip: xor.assoc)
  ultimately show "\<forall>i < 8. seq_byte a i = seq_byte b i"
    by metis
qed

subsection \<open>The two ends\<close>

record record_sender =
  snd_key :: bytes
  snd_iv :: bytes
  snd_seq :: u64

record record_receiver =
  rcv_key :: bytes
  rcv_iv :: bytes
  rcv_seq :: u64

definition new_sender :: "bytes \<Rightarrow> bytes \<Rightarrow> record_error + record_sender" where
  "new_sender key iv =
     (if length key \<noteq> kAesKeyLen \<or> length iv \<noteq> kIvLen then Inl Bad_key_or_iv
      else Inr \<lparr>snd_key = key, snd_iv = iv, snd_seq = 0\<rparr>)"

definition new_receiver :: "bytes \<Rightarrow> bytes \<Rightarrow> record_error + record_receiver" where
  "new_receiver key iv =
     (if length key \<noteq> kAesKeyLen \<or> length iv \<noteq> kIvLen then Inl Bad_key_or_iv
      else Inr \<lparr>rcv_key = key, rcv_iv = iv, rcv_seq = 0\<rparr>)"

definition aes_gcm_seal :: "libs \<Rightarrow> bytes \<Rightarrow> bytes \<Rightarrow> bytes \<Rightarrow> bytes \<Rightarrow> record_error + bytes" where
  "aes_gcm_seal L key nonce aad pt =
     (case evp_gcm_encrypt L key nonce aad pt of
        None \<Rightarrow> Inl Encrypt_failed
      | Some (ct, tag) \<Rightarrow> Inr (ct @ tag))"

definition aes_gcm_open ::
  "libs \<Rightarrow> bytes \<Rightarrow> bytes \<Rightarrow> bytes \<Rightarrow> bytes \<Rightarrow> bytes \<Rightarrow> record_error + bytes" where
  "aes_gcm_open L key nonce aad ct tag = or_throw (evp_gcm_decrypt L key nonce aad ct tag) Tag_mismatch"

text \<open>\<open>put_u16\<close> of the payload length.\<close>

definition record_header :: "nat \<Rightarrow> bytes" where
  "record_header n = be16 (word_of_nat n)"

definition seal :: "libs \<Rightarrow> record_sender \<Rightarrow> bytes \<Rightarrow> (record_error + bytes) \<times> record_sender" where
  "seal L s pt =
     (if snd_seq s = seq_max then (Inl Sequence_exhausted, s)
      else if 0xffff - kGcmTagLen < length pt then (Inl Plaintext_too_long, s)
      else let header = record_header (length pt + kGcmTagLen)
           in case aes_gcm_seal L (snd_key s) (make_nonce (snd_iv s) (snd_seq s)) header pt of
                Inl e \<Rightarrow> (Inl e, s)
              | Inr ct_tag \<Rightarrow> (Inr (header @ ct_tag), s\<lparr>snd_seq := snd_seq s + 1\<rparr>))"

definition open_record :: "libs \<Rightarrow> record_receiver \<Rightarrow> bytes \<Rightarrow> (record_error + bytes) \<times> record_receiver" where
  "open_record L r rec =
     (if rcv_seq r = seq_max then (Inl Sequence_exhausted, r)
      else if length rec < 2 + kGcmTagLen then (Inl Record_too_short, r)
      else let payload_len = unat (from_be16 (rec ! 0) (rec ! 1))
           in if length rec \<noteq> 2 + payload_len then (Inl Record_length_mismatch, r)
              else if payload_len < kGcmTagLen then (Inl Payload_shorter_than_tag, r)
              else let header = [rec ! 0, rec ! 1];
                       ct_len = payload_len - kGcmTagLen;
                       ct = take ct_len (drop 2 rec);
                       tag = take kGcmTagLen (drop (2 + ct_len) rec)
                   in case aes_gcm_open L (rcv_key r) (make_nonce (rcv_iv r) (rcv_seq r)) header ct tag of
                        Inl e \<Rightarrow> (Inl e, r)
                      | Inr pt \<Rightarrow> (Inr pt, r\<lparr>rcv_seq := rcv_seq r + 1\<rparr>))"

text \<open>The layout of an accepted or produced record.\<close>

definition record_of :: "bytes \<Rightarrow> bytes \<Rightarrow> bytes" where
  "record_of ct tag = record_header (length ct + kGcmTagLen) @ ct @ tag"

definition delimited_record :: "bytes \<Rightarrow> bool" where
  "delimited_record rec \<longleftrightarrow> 2 \<le> length rec \<and> length rec = 2 + unat (from_be16 (rec ! 0) (rec ! 1))"

lemma record_header_props:
  "length (record_header n) = 2"
  "[record_header n ! 0, record_header n ! 1] = record_header n"
  "n \<le> 0xffff \<Longrightarrow> unat (from_be16 (record_header n ! 0) (record_header n ! 1)) = n"
  by (simp_all add: record_header_def be16_def unat_of_nat)

lemma record_of_nth:
  "record_of ct tag ! 0 = record_header (length ct + 16) ! 0"
  "record_of ct tag ! 1 = record_header (length ct + 16) ! 1"
  by (simp_all add: record_of_def record_consts nth_append record_header_props)

lemma length_record_of: "length (record_of ct tag) = 2 + (length ct + length tag)"
  by (simp add: record_of_def record_header_props)

lemma delimited_record_of:
  "length ct \<le> 0xffff - 16 \<Longrightarrow> length tag = 16 \<Longrightarrow> delimited_record (record_of ct tag)"
  by (simp only: delimited_record_def record_of_nth length_record_of record_header_props(3)) simp

lemma seal_Inr:
  assumes "libs_sized L" and "seal L s pt = (Inr rec, s')"
  obtains ct tag where "rec = record_of ct tag" and "length ct = length pt" and "length tag = 16"
    and "length pt \<le> 0xffff - 16" and "snd_seq s \<noteq> seq_max"
    and "evp_gcm_encrypt L (snd_key s) (make_nonce (snd_iv s) (snd_seq s))
          (record_header (length pt + 16)) pt = Some (ct, tag)"
    and "s' = s\<lparr>snd_seq := snd_seq s + 1\<rparr>"
proof -
  from assms(2) obtain ct tag where e: "evp_gcm_encrypt L (snd_key s) (make_nonce (snd_iv s) (snd_seq s))
      (record_header (length pt + 16)) pt = Some (ct, tag)"
    and r: "rec = record_header (length pt + 16) @ ct @ tag"
    and rest: "length pt \<le> 0xffff - 16" "snd_seq s \<noteq> seq_max" "s' = s\<lparr>snd_seq := snd_seq s + 1\<rparr>"
    by (auto simp: seal_def aes_gcm_seal_def record_consts Let_def split: if_splits option.splits)
  have "length ct = length pt \<and> length tag = 16"
    using assms(1) e unfolding libs_sized_def by blast
  then show ?thesis
    using e r rest by (intro that [of ct tag]) (simp_all add: record_of_def record_consts)
qed

lemma open_record_of:
  assumes "length ct \<le> 0xffff - 16" and "length tag = 16" and "rcv_seq r \<noteq> seq_max"
  shows "open_record L r (record_of ct tag) =
    (case evp_gcm_decrypt L (rcv_key r) (make_nonce (rcv_iv r) (rcv_seq r))
        (record_header (length ct + 16)) ct tag of
       None \<Rightarrow> (Inl Tag_mismatch, r)
     | Some pt \<Rightarrow> (Inr pt, r\<lparr>rcv_seq := rcv_seq r + 1\<rparr>))"
proof -
  have parts: "take (length ct) (drop 2 (record_of ct tag)) = ct"
    "take 16 (drop (2 + length ct) (record_of ct tag)) = tag"
    using assms(2) by (simp_all add: record_of_def record_header_props)
  have len: "unat (from_be16 (record_of ct tag ! 0) (record_of ct tag ! 1)) = length ct + 16"
    using assms(1) unfolding record_of_nth by (intro record_header_props(3)) simp
  have hd: "[record_of ct tag ! 0, record_of ct tag ! 1] = record_header (length ct + 16)"
    unfolding record_of_nth by (rule record_header_props(2))
  show ?thesis
    using assms(2,3) parts
    unfolding open_record_def aes_gcm_open_def record_consts Let_def len hd length_record_of
    by (simp split: option.split)
qed

text \<open>Conversely, an accepted record has that layout.\<close>

lemma open_record_Inr:
  assumes "open_record L r rec = (Inr pt, r')"
  obtains ct tag where "rec = record_of ct tag" and "length tag = 16" and "length ct \<le> 0xffff - 16"
    and "rcv_seq r \<noteq> seq_max"
    and "evp_gcm_decrypt L (rcv_key r) (make_nonce (rcv_iv r) (rcv_seq r))
          (record_header (length ct + 16)) ct tag = Some pt"
    and "r' = r\<lparr>rcv_seq := rcv_seq r + 1\<rparr>"
proof -
  define n where "n = unat (from_be16 (rec ! 0) (rec ! 1))"
  define ct where "ct = take (n - 16) (drop 2 rec)"
  define tag where "tag = take 16 (drop (2 + (n - 16)) rec)"
  have len: "length rec = 2 + n" "16 \<le> n" and seq: "rcv_seq r \<noteq> seq_max"
    and dec: "evp_gcm_decrypt L (rcv_key r) (make_nonce (rcv_iv r) (rcv_seq r))
        [rec ! 0, rec ! 1] ct tag = Some pt"
    and r': "r' = r\<lparr>rcv_seq := rcv_seq r + 1\<rparr>"
    using assms unfolding n_def ct_def tag_def
    by (auto simp: open_record_def aes_gcm_open_def record_consts Let_def split: if_splits sum.splits)
  have lct: "length ct = n - 16" and ltag: "length tag = 16"
    using len by (simp_all add: ct_def tag_def)
  have n: "n \<le> 0xffff"
    using unsigned_less [of "from_be16 (rec ! 0) (rec ! 1)", where 'a = nat] by (simp add: n_def)
  have hd: "[rec ! 0, rec ! 1] = record_header (length ct + 16)"
    using len by (simp add: lct record_header_def n_def)
  obtain a b z where abz: "rec = a # b # z"
    using len by (cases rec; cases "tl rec") auto
  have "rec = [rec ! 0, rec ! 1] @ ct @ tag"
    using len by (simp add: abz ct_def tag_def)
  then have "rec = record_header (length ct + 16) @ ct @ tag"
    unfolding hd .
  then have "rec = record_of ct tag"
    by (simp add: record_of_def record_consts)
  moreover have "length ct \<le> 0xffff - 16"
    using lct n len by simp
  ultimately show ?thesis
    using dec ltag seq r' unfolding hd by (intro that)
qed

subsection \<open>Sequences of records\<close>

text \<open>
  What a sequence of sends, some of which may throw, puts on the wire; which messages got through;
  and what a receiver makes of a sequence of received units, up to the first exception.
\<close>

fun run_sends :: "('s \<Rightarrow> 'm \<Rightarrow> ('e + 'w) \<times> 's) \<Rightarrow> 's \<Rightarrow> 'm list \<Rightarrow> ('m \<times> 'w) list" where
  "run_sends step s [] = []"
| "run_sends step s (m # ms) =
     (case step s m of
        (Inl e, s') \<Rightarrow> run_sends step s' ms
      | (Inr w, s') \<Rightarrow> (m, w) # run_sends step s' ms)"

fun run_receives :: "('r \<Rightarrow> 'w \<Rightarrow> ('e + 'm) \<times> 'r) \<Rightarrow> 'r \<Rightarrow> 'w list \<Rightarrow> 'e + 'm list" where
  "run_receives step r [] = Inr []"
| "run_receives step r (w # ws) =
     (case step r w of
        (Inl e, _) \<Rightarrow> Inl e
      | (Inr m, r') \<Rightarrow> and_then (run_receives step r' ws) (\<lambda>ms. Inr (m # ms)))"

definition seal_all :: "libs \<Rightarrow> record_sender \<Rightarrow> bytes list \<Rightarrow> (bytes \<times> bytes) list" where
  "seal_all L s pts = run_sends (seal L) s pts"

definition open_all :: "libs \<Rightarrow> record_receiver \<Rightarrow> bytes list \<Rightarrow> record_error + bytes list" where
  "open_all L r recs = run_receives (open_record L) r recs"

text \<open>
  A channel whose two ends move in lock step: what is sent in a state of the relation is received
  unchanged, and the relation holds again.
\<close>

locale in_order_channel =
  fixes send_step :: "'l \<Rightarrow> 's \<Rightarrow> 'm \<Rightarrow> ('e + 'w) \<times> 's"
    and recv_step :: "'l \<Rightarrow> 'r \<Rightarrow> 'w \<Rightarrow> ('e + 'm) \<times> 'r"
    and in_step :: "'l \<Rightarrow> 's \<Rightarrow> 'r \<Rightarrow> bool"
  assumes step_law: "in_step l s r \<Longrightarrow> send_step l s m = (Inr w, s') \<Longrightarrow>
    \<exists>r'. recv_step l r w = (Inr m, r') \<and> in_step l s' r'"
    and fail_law: "send_step l s m = (Inl e, s') \<Longrightarrow> s' = s"
begin

lemma delivery:
  "in_step l s r \<Longrightarrow>
    run_receives (recv_step l) r (map snd (run_sends (send_step l) s ms)) =
      Inr (map fst (run_sends (send_step l) s ms))"
proof (induction ms arbitrary: s r)
  case (Cons m ms)
  show ?case
  proof (cases "send_step l s m")
    case (Pair res s')
    show ?thesis
    proof (cases res)
      case (Inl e)
      then show ?thesis
        using Pair Cons fail_law by fastforce
    next
      case (Inr w)
      obtain r' where "recv_step l r w = (Inr m, r')" and "in_step l s' r'"
        using step_law Cons.prems Pair Inr by blast
      then show ?thesis
        using Pair Inr Cons.IH by simp
    qed
  qed
qed simp

end

definition records_in_step :: "libs \<Rightarrow> record_sender \<Rightarrow> record_receiver \<Rightarrow> bool" where
  "records_in_step L s r \<longleftrightarrow> libs_sized L \<and> gcm_correct L \<and>
     rcv_key r = snd_key s \<and> rcv_iv r = snd_iv s \<and> rcv_seq r = snd_seq s"

interpretation rl: in_order_channel seal open_record records_in_step
proof
  fix L s r pt rec s' e
  show "\<exists>r'. open_record L r rec = (Inr pt, r') \<and> records_in_step L s' r'"
    if rel: "records_in_step L s r" and sealed: "seal L s pt = (Inr rec, s')"
  proof -
    have L: "libs_sized L" "gcm_correct L"
      using rel by (simp_all add: records_in_step_def)
    obtain ct tag where rec: "rec = record_of ct tag" "length ct = length pt" "length tag = 16"
      and len: "length pt \<le> 0xffff - 16" and seq: "snd_seq s \<noteq> seq_max"
      and enc: "evp_gcm_encrypt L (snd_key s) (make_nonce (snd_iv s) (snd_seq s))
          (record_header (length pt + 16)) pt = Some (ct, tag)"
      and s': "s' = s\<lparr>snd_seq := snd_seq s + 1\<rparr>"
      using seal_Inr [OF L(1) sealed] by blast
    have "evp_gcm_decrypt L (snd_key s) (make_nonce (snd_iv s) (snd_seq s))
        (record_header (length pt + 16)) ct tag = Some pt"
      using L(2) enc unfolding gcm_correct_def by blast
    then show ?thesis
      using rel rec len seq open_record_of [of ct tag r L]
      by (simp add: records_in_step_def s')
  qed
  show "seal L s pt = (Inl e, s') \<Longrightarrow> s' = s"
    by (auto simp: seal_def Let_def split: if_splits sum.splits)
qed

text \<open>
  Records arrive as they were sealed.  If both ends hold the same key, IV and count, opening
  the records that a sender produced for any list of plaintexts returns, in order, exactly the
  plaintexts that it did not refuse (too long, or the count exhausted), given that GCM decryption
  inverts encryption.
\<close>

theorem seal_open_round_trip:
  assumes "libs_sized L" and "gcm_correct L"
    and "rcv_key r = snd_key s" and "rcv_iv r = snd_iv s" and "rcv_seq r = snd_seq s"
  shows "open_all L r (map snd (seal_all L s pts)) = Inr (map fst (seal_all L s pts))"
  unfolding open_all_def seal_all_def
  by (rule rl.delivery) (simp add: records_in_step_def assms)

subsection \<open>Nonces are never reused\<close>

text \<open>The calls of \<open>evp_gcm_encrypt\<close> that a run of the sender makes and that succeed.\<close>

type_synonym gcm_record = "bytes \<times> bytes \<times> bytes \<times> bytes"

definition gcm_record_of :: "record_sender \<Rightarrow> bytes \<Rightarrow> gcm_record" where
  "gcm_record_of s rec =
     (make_nonce (snd_iv s) (snd_seq s), take 2 rec, take (length rec - 18) (drop 2 rec),
      drop (length rec - 16) rec)"

fun gcm_log :: "libs \<Rightarrow> record_sender \<Rightarrow> bytes list \<Rightarrow> gcm_record list" where
  "gcm_log L s [] = []"
| "gcm_log L s (p # ps) =
     (case seal L s p of
        (Inl e, s') \<Rightarrow> gcm_log L s' ps
      | (Inr rec, s') \<Rightarrow> gcm_record_of s rec # gcm_log L s' ps)"

lemma seal_outcomes:
  "(\<exists>e. seal L s p = (Inl e, s)) \<or>
   (\<exists>rec. seal L s p = (Inr rec, s\<lparr>snd_seq := snd_seq s + 1\<rparr>) \<and> snd_seq s \<noteq> seq_max)"
  by (simp add: seal_def Let_def split: sum.split)

lemma seal_cases:
  obtains e where "seal L s p = (Inl e, s)"
  | rec where "seal L s p = (Inr rec, s\<lparr>snd_seq := snd_seq s + 1\<rparr>)" and "snd_seq s \<noteq> seq_max"
  using seal_outcomes by blast

lemma seq_less_Suc:
  assumes "q \<noteq> seq_max"
  shows "q < q + (1 :: u64)"
proof -
  have "1 + q \<noteq> 0"
    using assms unfolding seq_max_def by (metis add.commute eq_neg_iff_add_eq_0)
  then have "unat (1 + q) = Suc (unat q)"
    by (rule unatSuc)
  then show ?thesis
    by (simp add: word_less_nat_alt add.commute)
qed

lemma gcm_log_nonces:
  "(n, a, c, t) \<in> set (gcm_log L s ps) \<Longrightarrow> \<exists>q \<ge> snd_seq s. n = make_nonce (snd_iv s) q"
proof (induction ps arbitrary: s)
  case (Cons p ps)
  show ?case
  proof (cases rule: seal_cases [of L s p])
    case (1 e)
    then show ?thesis using Cons by simp
  next
    case (2 rec)
    then show ?thesis
      using Cons.prems Cons.IH [of "s\<lparr>snd_seq := snd_seq s + 1\<rparr>"] seq_less_Suc [of "snd_seq s"]
      by (auto simp: gcm_record_of_def intro: order_less_imp_le order_trans)
  qed
qed simp

text \<open>
  C17. A sender never uses a GCM nonce twice: whatever it is asked to seal, and whichever of the
  calls fail, the nonces of all its successful encryptions are pairwise different, because the
  64-bit count stops one short of wrapping around.
\<close>

theorem nonces_distinct:
  assumes "length (snd_iv s) = kIvLen"
  shows "distinct (map fst (gcm_log L s ps))"
  using assms
proof (induction ps arbitrary: s)
  case (Cons p ps)
  show ?case
  proof (cases rule: seal_cases [of L s p])
    case (1 e)
    then show ?thesis using Cons by simp
  next
    case (2 rec)
    let ?s = "s\<lparr>snd_seq := snd_seq s + 1\<rparr>"
    have "make_nonce (snd_iv s) (snd_seq s) \<notin> fst ` set (gcm_log L ?s ps)"
    proof
      assume "make_nonce (snd_iv s) (snd_seq s) \<in> fst ` set (gcm_log L ?s ps)"
      then obtain q where "snd_seq s + 1 \<le> q" "make_nonce (snd_iv s) (snd_seq s) = make_nonce (snd_iv s) q"
        using gcm_log_nonces [of _ _ _ _ L ?s ps] by fastforce
      then have "snd_seq s + 1 \<le> snd_seq s"
        using make_nonce_inject Cons.prems by (metis kIvLen_def)
      then show False
        using seq_less_Suc [OF 2(2)] by simp
    qed
    then show ?thesis
      using 2 Cons by (simp add: gcm_record_of_def)
  qed
qed simp

subsection \<open>Only what was sent is received, in the order it was sent\<close>

text \<open>
  Ciphertext integrity of AES-GCM under a key that only this sender uses, in its ideal form: a
  tuple that decrypts is one that the sender's encryptions produced.
\<close>

definition only_sent_decrypts :: "libs \<Rightarrow> record_sender \<Rightarrow> bytes list \<Rightarrow> bool" where
  "only_sent_decrypts L s pts \<longleftrightarrow>
     (\<forall>n a c t p. evp_gcm_decrypt L (snd_key s) n a c t = Some p \<longrightarrow> (n, a, c, t) \<in> set (gcm_log L s pts))"

lemma gcm_record_of_record:
  "length ct \<le> 0xffff - 16 \<Longrightarrow> length tag = 16 \<Longrightarrow>
    gcm_record_of s (record_of ct tag) =
      (make_nonce (snd_iv s) (snd_seq s), record_header (length ct + 16), ct, tag)"
  by (simp add: gcm_record_of_def record_of_def record_consts record_header_props)

lemma seal_step_log:
  assumes "libs_sized L" and "seal L s p = (Inr rec, s')"
  obtains ct tag where "rec = record_of ct tag" and "length tag = 16" and "length ct \<le> 0xffff - 16"
    and "length ct = length p"
    and "gcm_record_of s rec = (make_nonce (snd_iv s) (snd_seq s), record_header (length ct + 16), ct, tag)"
  using seal_Inr [OF assms] gcm_record_of_record by (metis (no_types, lifting))

text \<open>
  The induction: the log of the run so far, with smaller counts, does not help to open anything,
  so the next record opened is the next record sealed.
\<close>

lemma open_all_prefix:
  assumes "libs_sized L" and "length (snd_iv s) = kIvLen"
    and "rcv_key r = snd_key s" and "rcv_iv r = snd_iv s" and "rcv_seq r = snd_seq s"
    and auth: "\<And>n a c t p. evp_gcm_decrypt L (snd_key s) n a c t = Some p \<Longrightarrow>
      (n, a, c, t) \<in> set old \<union> set (gcm_log L s pts)"
    and old: "\<And>n a c t. (n, a, c, t) \<in> set old \<Longrightarrow> \<exists>q < snd_seq s. n = make_nonce (snd_iv s) q"
    and "open_all L r recs = Inr out"
  shows "recs = take (length recs) (map snd (seal_all L s pts))"
  using assms
proof (induction pts arbitrary: s r recs out old)
  case Nil
  have "recs = []"
  proof (cases recs)
    case (Cons rec recs')
    then obtain pt r' where "open_record L r rec = (Inr pt, r')"
      using Nil.prems(8) by (auto simp: open_all_def split: prod.splits sum.splits)
    then obtain ct tag where "evp_gcm_decrypt L (snd_key s) (make_nonce (snd_iv s) (snd_seq s))
        (record_header (length ct + 16)) ct tag = Some pt"
      using open_record_Inr Nil.prems(3-5) by metis
    from Nil.prems(6) [OF this]
    have "(make_nonce (snd_iv s) (snd_seq s), record_header (length ct + 16), ct, tag) \<in> set old"
      by simp
    from Nil.prems(7) [OF this] obtain q
      where q: "q < snd_seq s" "make_nonce (snd_iv s) (snd_seq s) = make_nonce (snd_iv s) q"
      by blast
    have "length (snd_iv s) = 12"
      using Nil.prems(2) by (simp add: kIvLen_def)
    from make_nonce_inject [OF this q(2)] q(1) show ?thesis
      by simp
  qed
  then show ?case by simp
next
  case (Cons p pts)
  have iv: "length (snd_iv s) = 12"
    using Cons.prems(2) by (simp add: kIvLen_def)
  show ?case
  proof (cases rule: seal_cases [of L s p])
    case (1 e)
    have "recs = take (length recs) (map snd (seal_all L s pts))"
      by (rule Cons.IH [where old = old]) (use Cons.prems 1 in auto)
    with 1 show ?thesis by (simp add: seal_all_def)
  next
    case (2 rec)
    let ?s = "s\<lparr>snd_seq := snd_seq s + 1\<rparr>"
    let ?x = "gcm_record_of s rec"
    obtain ct tag where rec: "rec = record_of ct tag"
      and x: "?x = (make_nonce (snd_iv s) (snd_seq s), record_header (length ct + 16), ct, tag)"
      using seal_step_log [OF Cons.prems(1) 2(1)] by metis
    show ?thesis
    proof (cases recs)
      case (Cons rec' recs')
      obtain pt r' out' where op: "open_record L r rec' = (Inr pt, r')" and out': "open_all L r' recs' = Inr out'"
        using Cons.prems(8) Cons by (auto simp: open_all_def and_then_Inr_iff split: prod.splits sum.splits)
      obtain ct' tag' where rec': "rec' = record_of ct' tag'"
        and dec: "evp_gcm_decrypt L (snd_key s) (make_nonce (snd_iv s) (snd_seq s))
            (record_header (length ct' + 16)) ct' tag' = Some pt"
        and r': "r' = r\<lparr>rcv_seq := rcv_seq r + 1\<rparr>"
        using open_record_Inr [OF op] Cons.prems(3-5) by metis
      let ?y = "(make_nonce (snd_iv s) (snd_seq s), record_header (length ct' + 16), ct', tag')"
      have "?y \<in> set old \<union> set (gcm_log L s (p # pts))"
        using Cons.prems(6) dec by blast
      moreover have "?y \<notin> set old"
      proof
        assume "?y \<in> set old"
        then obtain q where q: "q < snd_seq s" "make_nonce (snd_iv s) (snd_seq s) = make_nonce (snd_iv s) q"
          using Cons.prems(7) by blast
        show False
          using make_nonce_inject [OF iv q(2)] q(1) by simp
      qed
      moreover have "?y \<notin> set (gcm_log L ?s pts)"
      proof
        assume "?y \<in> set (gcm_log L ?s pts)"
        from gcm_log_nonces [OF this] obtain q
          where q: "snd_seq s + 1 \<le> q" "make_nonce (snd_iv s) (snd_seq s) = make_nonce (snd_iv s) q"
          by auto
        show False
          using make_nonce_inject [OF iv q(2)] q(1) seq_less_Suc [OF 2(2)] by simp
      qed
      ultimately have "?y = ?x"
        using 2 by simp
      then have same: "rec' = rec"
        using x rec rec' by simp
      have "recs' = take (length recs') (map snd (seal_all L ?s pts))"
      proof (rule Cons.IH [where old = "?x # old"])
        show "\<exists>q < snd_seq ?s. n = make_nonce (snd_iv ?s) q" if "(n, a, c, t) \<in> set (?x # old)" for n a c t
        proof (cases "(n, a, c, t) \<in> set old")
          case True
          then obtain q where "q < snd_seq s" "n = make_nonce (snd_iv s) q"
            using Cons.prems(7) by blast
          then show ?thesis
            using seq_less_Suc [OF 2(2)] by (auto intro: order.strict_trans)
        next
          case False
          then show ?thesis
            using that x seq_less_Suc [OF 2(2)] by auto
        qed
        show "(n, a, c, t) \<in> set (?x # old) \<union> set (gcm_log L ?s pts)"
          if "evp_gcm_decrypt L (snd_key ?s) n a c t = Some p" for n a c t p
          using that Cons.prems(6) 2 by auto
      qed (use Cons.prems out' r' in auto)
      then show ?thesis
        using Cons same 2 by (simp add: seal_all_def)
    qed simp
  qed
qed

text \<open>
  C16. The receiver accepts no replayed, reordered, dropped, altered or injected record.  If
  decryption under the sender's key accepts only what the sender encrypted, then any list of
  records that a receiver in step with the sender opens without an error is an initial part of the
  records that the sender produced.
\<close>

theorem record_integrity:
  assumes "libs_sized L" and "length (snd_iv s) = kIvLen"
    and "rcv_key r = snd_key s" and "rcv_iv r = snd_iv s" and "rcv_seq r = snd_seq s"
    and "only_sent_decrypts L s pts" and "open_all L r recs = Inr out"
  shows "recs = take (length recs) (map snd (seal_all L s pts))"
  by (rule open_all_prefix [where old = "[]"])
    (use assms in \<open>auto simp: only_sent_decrypts_def\<close>)

subsection \<open>Concrete instances over the small libraries\<close>

definition toy_sender :: record_sender where
  "toy_sender = \<lparr>snd_key = replicate 32 7, snd_iv = replicate 12 9, snd_seq = 0\<rparr>"

definition toy_receiver :: record_receiver where
  "toy_receiver = \<lparr>rcv_key = replicate 32 7, rcv_iv = replicate 12 9, rcv_seq = 0\<rparr>"

lemma toy_ends:
  "rcv_key toy_receiver = snd_key toy_sender" "rcv_iv toy_receiver = snd_iv toy_sender"
  "rcv_seq toy_receiver = snd_seq toy_sender" "length (snd_iv toy_sender) = kIvLen"
  by (simp_all add: toy_sender_def toy_receiver_def record_consts)

lemma seal_open_round_trip_witness:
  "open_all toy_libs toy_receiver (map snd (seal_all toy_libs toy_sender [[1, 2], [3]])) =
     Inr (map fst (seal_all toy_libs toy_sender [[1, 2], [3]]))"
  by (rule seal_open_round_trip [OF toy_libs_ok(2,6) toy_ends(1-3)])

lemma nonces_distinct_witness: "distinct (map fst (gcm_log toy_libs toy_sender [[1, 2], [1, 2]]))"
  by (rule nonces_distinct [OF toy_ends(4)])

text \<open>The small libraries with a decryption that accepts the sent records only.\<close>

definition strict_libs :: "bytes list \<Rightarrow> libs" where
  "strict_libs pts = toy_libs\<lparr>evp_gcm_decrypt := \<lambda>k n a c t.
     if (n, a, c, t) \<in> set (gcm_log toy_libs toy_sender pts)
     then evp_gcm_decrypt toy_libs k n a c t else None\<rparr>"

lemma strict_libs_seal: "seal (strict_libs pts) s p = seal toy_libs s p"
  by (simp add: seal_def aes_gcm_seal_def strict_libs_def)

lemma strict_libs_log: "gcm_log (strict_libs pts) s ps = gcm_log toy_libs s ps"
  by (induction ps arbitrary: s) (simp_all add: strict_libs_seal split: sum.split prod.split)

lemma toy_seals_any:
  "length p \<le> 0xffff - 16 \<Longrightarrow> snd_seq s \<noteq> seq_max \<Longrightarrow> \<exists>rec s'. seal toy_libs s p = (Inr rec, s')"
  by (simp add: seal_def aes_gcm_seal_def toy_libs_def record_consts Let_def)

lemma toy_sender_seq: "snd_seq toy_sender \<noteq> seq_max"
  by (simp add: toy_sender_def seq_max_def)

lemma toy_seals: "\<exists>rec s'. seal toy_libs toy_sender [1] = (Inr rec, s')"
  by (rule toy_seals_any [OF _ toy_sender_seq]) simp

lemma strict_libs_opens_any:
  assumes "length p \<le> 0xffff - 16"
  shows "open_all (strict_libs [p]) toy_receiver (map snd (seal_all toy_libs toy_sender [p])) = Inr [p]"
proof -
  obtain rec s' where rec: "seal toy_libs toy_sender p = (Inr rec, s')"
    using toy_seals_any [OF assms toy_sender_seq] by blast
  obtain ct tag where parts: "rec = record_of ct tag" "length ct = length p" "length tag = 16"
    and enc: "evp_gcm_encrypt toy_libs (snd_key toy_sender) (make_nonce (snd_iv toy_sender) (snd_seq toy_sender))
        (record_header (length p + 16)) p = Some (ct, tag)"
    and seq: "snd_seq toy_sender \<noteq> seq_max"
    using seal_Inr [OF toy_libs_ok(2) rec] by metis
  have small: "length ct \<le> 0xffff - 16"
    using parts(2) assms by simp
  have "evp_gcm_decrypt toy_libs (snd_key toy_sender) (make_nonce (snd_iv toy_sender) (snd_seq toy_sender))
      (record_header (length ct + 16)) ct tag = Some p"
    using enc parts(2) toy_libs_ok(6) unfolding gcm_correct_def by simp
  moreover have "(make_nonce (snd_iv toy_sender) (snd_seq toy_sender), record_header (length ct + 16), ct, tag)
      \<in> set (gcm_log toy_libs toy_sender [p])"
    using rec gcm_record_of_record [OF small parts(3), of toy_sender] by (simp add: parts(1))
  ultimately have "open_record (strict_libs [p]) toy_receiver rec =
      (Inr p, toy_receiver\<lparr>rcv_seq := rcv_seq toy_receiver + 1\<rparr>)"
    using open_record_of [OF small parts(3), of toy_receiver "strict_libs [p]"] seq
    by (simp add: toy_ends parts(1) strict_libs_def del: gcm_log.simps)
  then show ?thesis
    by (simp add: open_all_def seal_all_def rec)
qed

lemma strict_libs_opens:
  "open_all (strict_libs [[1]]) toy_receiver (map snd (seal_all toy_libs toy_sender [[1]])) = Inr [[1]]"
  by (rule strict_libs_opens_any) simp

lemma strict_libs_only_sent: "only_sent_decrypts (strict_libs pts) toy_sender pts"
  unfolding only_sent_decrypts_def strict_libs_log by (auto simp: strict_libs_def split: if_splits)

lemma strict_libs_sized: "libs_sized (strict_libs pts)"
  using toy_libs_ok(2) by (simp add: libs_sized_def strict_libs_def)

lemma record_integrity_witness:
  "map snd (seal_all toy_libs toy_sender [[1]]) =
     take (length (map snd (seal_all toy_libs toy_sender [[1]])))
       (map snd (seal_all (strict_libs [[1]]) toy_sender [[1]]))"
  by (rule record_integrity [OF strict_libs_sized toy_ends(4,1,2,3) strict_libs_only_sent strict_libs_opens])

end
