(* ===== verification/Socket.thy ===== *)
theory Socket
  imports Wire Record_Layer
begin

section \<open>Messages over a stream socket\<close>

text \<open>
  \<open>crypto/src/socket.cpp\<close>: exact reads and writes on a stream socket, and the framing of handshake
  messages (4-byte header) and records (2-byte header).  The kernel is a script: what the next
  calls of \<open>recv\<close> will find (bytes that have arrived, an interruption, an error, and the end of the
  stream after the last item), and what the next calls of \<open>send\<close> will accept.  How the stream was
  cut into pieces on its way is up to the script.
\<close>

datatype socket_error =
    Send_failed | Recv_failed | Cut_in_message | Closed_in_handshake | Closed_in_payload
  | Closed_in_record

subsection \<open>The kernel's side\<close>

datatype rx = Rx_data bytes | Rx_eintr | Rx_error

datatype recv_result = Got bytes | Interrupted | Failed

text \<open>\<open>recv(fd, p, n, 0)\<close>: at most \<open>n\<close> of the bytes that are there; no bytes mean end of stream.\<close>

fun sys_recv :: "nat \<Rightarrow> rx list \<Rightarrow> recv_result \<times> rx list" where
  "sys_recv n [] = (Got [], [])"
| "sys_recv n (Rx_data d # s) =
     (Got (take n d), if length d \<le> n then s else Rx_data (drop n d) # s)"
| "sys_recv n (Rx_eintr # s) = (Interrupted, s)"
| "sys_recv n (Rx_error # s) = (Failed, s)"

datatype tx = Tx_accept nat | Tx_eintr | Tx_error

subsection \<open>Exact writes and reads\<close>

text \<open>
  \<open>write_all\<close> against the script of what \<open>send\<close> accepts (with the script used up, everything):
  the exception or success, the bytes that went out, and the rest of the script.
\<close>

fun write_all :: "bytes \<Rightarrow> tx list \<Rightarrow> (socket_error + unit) \<times> bytes \<times> tx list" where
  "write_all p [] = (Inr (), p, [])"
| "write_all p (x # s) =
     (if p = [] then (Inr (), [], x # s)
      else case x of
             Tx_eintr \<Rightarrow> write_all p s
           | Tx_error \<Rightarrow> (Inl Send_failed, [], s)
           | Tx_accept k \<Rightarrow>
               (let (res, out, s') = write_all (drop k p) s in (res, take k p @ out, s')))"

text \<open>
  \<open>read_all\<close>: \<open>None\<close> is its \<open>false\<close>, the end of the stream before the first byte.  The loop
  carries what it has got.
\<close>

lemma sys_recv_shrinks:
  "sys_recv n s = (r, s') \<Longrightarrow> length s' \<le> length s \<and> (r = Interrupted \<longrightarrow> length s' < length s)"
  by (cases "(n, s)" rule: sys_recv.cases) (auto split: if_splits)

function read_loop :: "nat \<Rightarrow> bytes \<Rightarrow> rx list \<Rightarrow> (socket_error + bytes option) \<times> rx list" where
  "read_loop n got s =
     (if n \<le> length got then (Inr (Some got), s)
      else case sys_recv (n - length got) s of
             (Interrupted, s') \<Rightarrow> read_loop n got s'
           | (Failed, s') \<Rightarrow> (Inl Recv_failed, s')
           | (Got d, s') \<Rightarrow>
               (if d = [] then (if got = [] then Inr None else Inl Cut_in_message, s')
                else read_loop n (got @ d) s'))"
  by pat_completeness auto
termination
proof (relation "measure (\<lambda>(n, got, s). (n - length got) + length s)", goal_cases)
  case (2 n got s x s' d)
  then have "length s' \<le> length s" and "0 < length d"
    using sys_recv_shrinks [of "n - length got" s "Got d" s'] by auto
  with 2(1) show ?case by (cases d) auto
next
  case (3 n got s x s')
  then have "length s' < length s" and "length got < n"
    using sys_recv_shrinks [of "n - length got" s Interrupted s'] by simp_all
  then have "n - length got + length s' < n - length got + length s"
    by linarith
  then show ?case
    by (simp only: in_measure prod.case)
qed simp

declare read_loop.simps [simp del]

definition read_all :: "nat \<Rightarrow> rx list \<Rightarrow> (socket_error + bytes option) \<times> rx list" where
  "read_all n s = read_loop n [] s"

subsection \<open>Handshake frames and records\<close>

definition send_frame :: "bytes \<Rightarrow> tx list \<Rightarrow> (socket_error + unit) \<times> bytes \<times> tx list" where
  "send_frame f s = write_all f s"

definition recv_frame :: "rx list \<Rightarrow> (socket_error + bytes) \<times> rx list" where
  "recv_frame s =
     (case read_all kHeaderLen s of
        (Inl e, s1) \<Rightarrow> (Inl e, s1)
      | (Inr None, s1) \<Rightarrow> (Inl Closed_in_handshake, s1)
      | (Inr (Some header), s1) \<Rightarrow>
          let len = unat (from_be16 (header ! 2) (header ! 3))
          in if len = 0 then (Inr header, s1)
             else case read_all len s1 of
                    (Inl e, s2) \<Rightarrow> (Inl e, s2)
                  | (Inr None, s2) \<Rightarrow> (Inl Closed_in_payload, s2)
                  | (Inr (Some p), s2) \<Rightarrow> (Inr (header @ p), s2))"

definition send_record :: "bytes \<Rightarrow> tx list \<Rightarrow> (socket_error + unit) \<times> bytes \<times> tx list" where
  "send_record rec s = write_all rec s"

text \<open>An empty result is the end of the stream between two records.\<close>

definition recv_record :: "rx list \<Rightarrow> (socket_error + bytes) \<times> rx list" where
  "recv_record s =
     (case read_all 2 s of
        (Inl e, s1) \<Rightarrow> (Inl e, s1)
      | (Inr None, s1) \<Rightarrow> (Inr [], s1)
      | (Inr (Some header), s1) \<Rightarrow>
          let len = unat (from_be16 (header ! 0) (header ! 1))
          in if len = 0 then (Inr header, s1)
             else case read_all len s1 of
                    (Inl e, s2) \<Rightarrow> (Inl e, s2)
                  | (Inr None, s2) \<Rightarrow> (Inl Closed_in_record, s2)
                  | (Inr (Some p), s2) \<Rightarrow> (Inr (header @ p), s2))"

subsection \<open>Partial writes\<close>

lemma write_all_out:
  "(\<exists>rest. p = fst (snd (write_all p s)) @ rest) \<and>
   (fst (write_all p s) = Inl Send_failed \<or> fst (snd (write_all p s)) = p)"
proof (induction s arbitrary: p)
  case (Cons x s)
  show ?case
  proof (cases "p = [] \<or> (\<forall>k. x \<noteq> Tx_accept k)")
    case True
    then show ?thesis
      using Cons [of p] by (cases x) auto
  next
    case False
    then obtain k where k: "p \<noteq> []" "x = Tx_accept k"
      by blast
    obtain res out s' where w: "write_all (drop k p) s = (res, out, s')"
      by (cases "write_all (drop k p) s") auto
    have ih: "\<exists>rest. drop k p = out @ rest" "res = Inl Send_failed \<or> out = drop k p"
      using Cons [of "drop k p"] by (simp_all add: w)
    have r: "write_all p (x # s) = (res, take k p @ out, s')"
      using k w by (simp add: Let_def)
    obtain rest where "p = (take k p @ out) @ rest"
      using ih(1) append_take_drop_id [of k p] by (metis append.assoc)
    then show ?thesis
      using ih(2) unfolding r by auto
  qed
qed simp

text \<open>
  However the kernel splits a write, nothing is lost, repeated or reordered: if write_all
  succeeds, the bytes sent are exactly the message, and if it throws, they are an initial part of
  it.
\<close>

theorem write_all_exact:
  "fst (snd (write_all p s)) = take (length (fst (snd (write_all p s)))) p \<and>
   (fst (write_all p s) = Inl Send_failed \<or> fst (snd (write_all p s)) = p)"
proof -
  obtain rest where "p = fst (snd (write_all p s)) @ rest"
    using write_all_out [of p s] by blast
  then have "fst (snd (write_all p s)) = take (length (fst (snd (write_all p s)))) p"
    by (metis append_eq_conv_conj)
  then show ?thesis
    using write_all_out [of p s] by blast
qed

subsection \<open>The byte stream behind a script\<close>

text \<open>The bytes that arrive; a script without errors and without empty arrivals delivers them all.\<close>

fun stream :: "rx list \<Rightarrow> bytes" where
  "stream [] = []"
| "stream (Rx_data d # s) = d @ stream s"
| "stream (_ # s) = stream s"

fun clean_script :: "rx list \<Rightarrow> bool" where
  "clean_script [] \<longleftrightarrow> True"
| "clean_script (Rx_data d # s) \<longleftrightarrow> d \<noteq> [] \<and> clean_script s"
| "clean_script (Rx_eintr # s) \<longleftrightarrow> clean_script s"
| "clean_script (Rx_error # s) \<longleftrightarrow> False"

lemma sys_recv_clean:
  assumes "clean_script s" and "0 < n"
  shows "(\<exists>s'. sys_recv n s = (Interrupted, s') \<and> clean_script s' \<and> stream s' = stream s) \<or>
    (\<exists>d s'. sys_recv n s = (Got d, s') \<and> clean_script s' \<and> length d \<le> n \<and> stream s = d @ stream s' \<and>
       (d = [] \<longleftrightarrow> stream s = []))"
  using assms by (cases "(n, s)" rule: sys_recv.cases) auto

lemma read_loop_enough:
  "clean_script s \<Longrightarrow> length got \<le> n \<Longrightarrow> n - length got \<le> length (stream s) \<Longrightarrow>
    \<exists>s'. clean_script s' \<and> stream s' = drop (n - length got) (stream s) \<and>
      read_loop n got s = (Inr (Some (got @ take (n - length got) (stream s))), s')"
proof (induction n got s rule: read_loop.induct)
  case (1 n got s)
  show ?case
  proof (cases "n \<le> length got")
    case True
    with "1.prems" show ?thesis
      by (subst read_loop.simps) auto
  next
    case False
    then have pos: "0 < n - length got" by simp
    consider s' where "sys_recv (n - length got) s = (Interrupted, s')" "clean_script s'" "stream s' = stream s"
      | d s' where "sys_recv (n - length got) s = (Got d, s')" "clean_script s'"
          "length d \<le> n - length got" "stream s = d @ stream s'" "d = [] \<longleftrightarrow> stream s = []"
      using sys_recv_clean [OF "1.prems"(1) pos] by blast
    then show ?thesis
    proof cases
      case (1 s')
      with "1.IH"(2) [OF False 1(1) [symmetric] refl] "1.prems" show ?thesis
        using False by (subst read_loop.simps) auto
    next
      case (2 d s')
      then have "d \<noteq> []"
        using pos "1.prems"(3) by auto
      with 2 "1.IH"(1) [OF False 2(1) [symmetric] refl] "1.prems" show ?thesis
        using False by (subst read_loop.simps) auto
    qed
  qed
qed

lemma read_loop_short:
  "clean_script s \<Longrightarrow> length got \<le> n \<Longrightarrow> length (stream s) < n - length got \<Longrightarrow>
    \<exists>s'. read_loop n got s = (if got = [] \<and> stream s = [] then Inr None else Inl Cut_in_message, s')"
proof (induction n got s rule: read_loop.induct)
  case (1 n got s)
  then have more: "\<not> n \<le> length got" and pos: "0 < n - length got" by simp_all
  consider s' where "sys_recv (n - length got) s = (Interrupted, s')" "clean_script s'" "stream s' = stream s"
    | d s' where "sys_recv (n - length got) s = (Got d, s')" "clean_script s'"
        "length d \<le> n - length got" "stream s = d @ stream s'" "d = [] \<longleftrightarrow> stream s = []"
    using sys_recv_clean [OF "1.prems"(1) pos] by blast
  then show ?case
  proof cases
    case (1 s')
    with "1.IH"(2) [OF more 1(1) [symmetric] refl] "1.prems" show ?thesis
      using more by (subst read_loop.simps) auto
  next
    case (2 d s')
    show ?thesis
    proof (cases "d = []")
      case True
      with 2 more show ?thesis
        by (subst read_loop.simps) auto
    next
      case False
      with 2 "1.IH"(1) [OF more 2(1) [symmetric] refl] "1.prems" show ?thesis
        using more by (subst read_loop.simps) auto
    qed
  qed
qed

text \<open>Reading exactly: what was asked for, a clean end, or a cut message.\<close>

lemma read_all_enough:
  "clean_script s \<Longrightarrow> n \<le> length (stream s) \<Longrightarrow>
    \<exists>s'. clean_script s' \<and> stream s' = drop n (stream s) \<and> read_all n s = (Inr (Some (take n (stream s))), s')"
  using read_loop_enough [of s "[]" n] by (simp add: read_all_def)

lemma read_all_end: "clean_script s \<Longrightarrow> 0 < n \<Longrightarrow> stream s = [] \<Longrightarrow> \<exists>s'. read_all n s = (Inr None, s')"
  using read_loop_short [of s "[]" n] by (simp add: read_all_def)

subsection \<open>Messages are found again in the stream\<close>

fun recv_n :: "(rx list \<Rightarrow> (socket_error + bytes) \<times> rx list) \<Rightarrow> nat \<Rightarrow> rx list \<Rightarrow>
    (socket_error + bytes list) \<times> rx list" where
  "recv_n recv 0 s = (Inr [], s)"
| "recv_n recv (Suc n) s =
     (case recv s of
        (Inl e, s') \<Rightarrow> (Inl e, s')
      | (Inr m, s') \<Rightarrow> (case recv_n recv n s' of
            (Inl e, s'') \<Rightarrow> (Inl e, s'')
          | (Inr ms, s'') \<Rightarrow> (Inr (m # ms), s'')))"

text \<open>
  The contract of a framing: a message in front of the stream is received whole, however it
  arrives, and what follows it stays in the stream; a stream that has ended gives the end result.
\<close>

locale stream_framing =
  fixes recv :: "rx list \<Rightarrow> (socket_error + bytes) \<times> rx list"
    and message :: "bytes \<Rightarrow> bool" and at_end :: "socket_error + bytes"
  assumes recv_law: "clean_script s \<Longrightarrow> stream s = m @ rest \<Longrightarrow> message m \<Longrightarrow>
      \<exists>s'. recv s = (Inr m, s') \<and> clean_script s' \<and> stream s' = rest"
    and end_law: "clean_script s \<Longrightarrow> stream s = [] \<Longrightarrow> fst (recv s) = at_end"
begin

lemma recv_messages:
  "clean_script s \<Longrightarrow> stream s = concat ms @ rest \<Longrightarrow> list_all message ms \<Longrightarrow>
    \<exists>s'. recv_n recv (length ms) s = (Inr ms, s') \<and> clean_script s' \<and> stream s' = rest"
proof (induction ms arbitrary: s)
  case (Cons m ms)
  then obtain s1 where 1: "recv s = (Inr m, s1)" "clean_script s1" "stream s1 = concat ms @ rest"
    using recv_law [of s m "concat ms @ rest"] by auto
  obtain s2 where "recv_n recv (length ms) s1 = (Inr ms, s2)" "clean_script s2" "stream s2 = rest"
    using Cons.IH [OF 1(2,3)] Cons.prems by auto
  with 1 show ?case
    by auto
qed simp

lemma recv_messages_then_end:
  assumes "clean_script s" and "stream s = concat ms" and "list_all message ms"
  shows "\<exists>s'. recv_n recv (length ms) s = (Inr ms, s') \<and> fst (recv s') = at_end"
  using recv_messages [of s ms "[]"] assms end_law by auto

end

lemma read_all_prefix:
  "clean_script s \<Longrightarrow> stream s = a @ b \<Longrightarrow>
    \<exists>s'. read_all (length a) s = (Inr (Some a), s') \<and> clean_script s' \<and> stream s' = b"
  using read_all_enough [of s "length a"] by auto

text \<open>A header of \<open>k\<close> bytes and a payload of the announced length, for both framings at once.\<close>

lemma header_then_payload:
  assumes s: "clean_script s" "stream s = m @ rest" and m: "length m = k + n"
  obtains h p s1 s2 where "m = h @ p" "length h = k" "length p = n"
    and "read_all k s = (Inr (Some h), s1)" "clean_script s1" "stream s1 = p @ rest"
    and "read_all n s1 = (Inr (Some p), s2)" "clean_script s2" "stream s2 = rest"
proof -
  let ?h = "take k m" and ?p = "drop k m"
  have len: "length ?h = k" "length ?p = n" "m = ?h @ ?p"
    using m by simp_all
  obtain s1 where s1: "read_all k s = (Inr (Some ?h), s1)" "clean_script s1" "stream s1 = ?p @ rest"
    using read_all_prefix [of s ?h "?p @ rest"] s len by (metis append.assoc)
  obtain s2 where "read_all n s1 = (Inr (Some ?p), s2)" "clean_script s2" "stream s2 = rest"
    using read_all_prefix [OF s1(2,3)] len by metis
  then show ?thesis
    using that len s1 by blast
qed

interpretation hf: stream_framing recv_frame delimited_frame "Inl Closed_in_handshake"
proof
  fix s m rest
  show "\<exists>s'. recv_frame s = (Inr m, s') \<and> clean_script s' \<and> stream s' = rest"
    if cs: "clean_script s" "stream s = m @ rest" and "delimited_frame m"
  proof -
    have "length m = 4 + header_length m"
      using that(3) by (simp add: delimited_frame_def kHeaderLen_def)
    then obtain h p s1 s2 where m: "m = h @ p" "length h = 4" "length p = header_length m"
      and h: "read_all 4 s = (Inr (Some h), s1)" "clean_script s1" "stream s1 = p @ rest"
      and p: "read_all (header_length m) s1 = (Inr (Some p), s2)" "clean_script s2" "stream s2 = rest"
      using header_then_payload [OF cs] by metis
    have "header_length m = unat (from_be16 (h ! 2) (h ! 3))"
      using m(2) unfolding m(1) by (simp add: header_length_def nth_append)
    then show ?thesis
      using m h p by (auto simp: recv_frame_def kHeaderLen_def Let_def)
  qed
  show "clean_script s \<Longrightarrow> stream s = [] \<Longrightarrow> fst (recv_frame s) = Inl Closed_in_handshake"
    using read_all_end [of s kHeaderLen] by (auto simp: recv_frame_def kHeaderLen_def)
qed

interpretation rf: stream_framing recv_record delimited_record "Inr []"
proof
  fix s m rest
  show "\<exists>s'. recv_record s = (Inr m, s') \<and> clean_script s' \<and> stream s' = rest"
    if cs: "clean_script s" "stream s = m @ rest" and "delimited_record m"
  proof -
    let ?n = "unat (from_be16 (m ! 0) (m ! 1))"
    have "length m = 2 + ?n"
      using that(3) by (simp add: delimited_record_def)
    then obtain h p s1 s2 where m: "m = h @ p" "length h = 2" "length p = ?n"
      and h: "read_all 2 s = (Inr (Some h), s1)" "clean_script s1" "stream s1 = p @ rest"
      and p: "read_all ?n s1 = (Inr (Some p), s2)" "clean_script s2" "stream s2 = rest"
      using header_then_payload [OF cs] by metis
    have "?n = unat (from_be16 (h ! 0) (h ! 1))"
      using m(2) unfolding m(1) by (simp add: nth_append)
    then show ?thesis
      using m h p by (auto simp: recv_record_def Let_def)
  qed
  show "clean_script s \<Longrightarrow> stream s = [] \<Longrightarrow> fst (recv_record s) = Inr []"
    using read_all_end [of s 2] by (auto simp: recv_record_def)
qed

lemma seal_all_delimited:
  assumes "libs_sized L"
  shows "list_all delimited_record (map snd (seal_all L s pts))"
proof (induction pts arbitrary: s)
  case (Cons p pts)
  show ?case
  proof (cases rule: seal_cases [of L s p])
    case (1 e)
    then show ?thesis
      using Cons by (simp add: seal_all_def)
  next
    case (2 rec)
    have "delimited_record rec"
      using seal_step_log [OF assms 2(1)] delimited_record_of by metis
    then show ?thesis
      using 2 Cons by (simp add: seal_all_def)
  qed
qed (simp add: seal_all_def)

text \<open>
  Handshake frames survive the byte stream.  However a stream that consists of serialized
  frames is cut into arrivals and interrupted by signals, receiving as many frames as were sent
  returns exactly those frames, and a further receive reports the closed connection.
\<close>

theorem frames_survive_stream:
  assumes "clean_script s" and "stream s = concat frames" and "list_all delimited_frame frames"
  shows "\<exists>s'. recv_n recv_frame (length frames) s = (Inr frames, s') \<and>
    fst (recv_frame s') = Inl Closed_in_handshake"
  using assms by (rule hf.recv_messages_then_end)

text \<open>
  C18. End to end over the socket: whatever plaintexts a sender seals, and however the kernel cuts
  the bytes of the sealed records on their way, the receiver's socket yields the records one by
  one, a receiver in step with the sender opens them to exactly those plaintexts in order, and
  then the clean end of the stream is seen.
\<close>

theorem records_end_to_end:
  assumes "libs_sized L" and "gcm_correct L"
    and "rcv_key r = snd_key s" and "rcv_iv r = snd_iv s" and "rcv_seq r = snd_seq s"
    and "clean_script script" and "stream script = concat (map snd (seal_all L s pts))"
  shows "\<exists>recs script'. recv_n recv_record (length (seal_all L s pts)) script = (Inr recs, script') \<and>
    open_all L r recs = Inr (map fst (seal_all L s pts)) \<and> fst (recv_record script') = Inr []"
proof -
  obtain script' where
    "recv_n recv_record (length (map snd (seal_all L s pts))) script =
       (Inr (map snd (seal_all L s pts)), script')" and "fst (recv_record script') = Inr []"
    using rf.recv_messages_then_end [OF assms(6,7) seal_all_delimited [OF assms(1)]] by blast
  moreover have "open_all L r (map snd (seal_all L s pts)) = Inr (map fst (seal_all L s pts))"
    unfolding open_all_def seal_all_def
    by (rule rl.delivery) (simp add: records_in_step_def assms)
  ultimately show ?thesis
    by (metis length_map)
qed

subsection \<open>Concrete instances\<close>

lemma frames_survive_stream_witness:
  "\<exists>s'. recv_n recv_frame 1 [Rx_data [1, 1], Rx_eintr, Rx_data [0, 1, 7]] = (Inr [[1, 1, 0, 1, 7]], s')"
proof -
  have "delimited_frame [1, 1, 0, 1, 7]"
    by (simp add: delimited_frame_def header_length_def wire_consts from_be16_def)
  then show ?thesis
    using frames_survive_stream [of "[Rx_data [1, 1], Rx_eintr, Rx_data [0, 1, 7]]" "[[1, 1, 0, 1, 7]]"]
    by auto
qed

lemma records_end_to_end_witness:
  "\<exists>rec recs script'. seal_all toy_libs toy_sender [[1]] = [([1], rec)] \<and>
     recv_n recv_record 1 [Rx_eintr, Rx_data (take 3 rec), Rx_data (drop 3 rec)] = (Inr recs, script') \<and>
     open_all toy_libs toy_receiver recs = Inr [[1]]"
proof -
  obtain rec s' where "seal toy_libs toy_sender [1] = (Inr rec, s')"
    using toy_seals by blast
  moreover from this obtain ct tag where "rec = record_of ct tag" "length tag = 16"
    using seal_Inr [OF toy_libs_ok(2)] by metis
  ultimately have all: "seal_all toy_libs toy_sender [[1]] = [([1], rec)]" and len: "3 < length rec"
    by (simp_all add: seal_all_def record_of_def record_header_props)
  have "\<exists>recs script'. recv_n recv_record (length (seal_all toy_libs toy_sender [[1]]))
        [Rx_eintr, Rx_data (take 3 rec), Rx_data (drop 3 rec)] = (Inr recs, script') \<and>
      open_all toy_libs toy_receiver recs = Inr (map fst (seal_all toy_libs toy_sender [[1]])) \<and>
      fst (recv_record script') = Inr []"
    by (rule records_end_to_end [OF toy_libs_ok(2,6) toy_ends(1-3)])
      (use all len in auto)
  then show ?thesis
    using all by auto
qed

end
