(* ===== verification/Handshake.thy ===== *)
theory Handshake
  imports Socket
begin

section \<open>The mutually authenticated handshake\<close>

text \<open>
  \<open>crypto/src/handshake.cpp\<close>.  A \<open>Transport\<close> is its state: the frames (or exceptions) that
  \<open>recv_frame\<close> will deliver, the frames sent so far, and which call of \<open>send_frame\<close> throws.  A
  step takes the transport and returns the exception or a value and the transport after it.  Every
  random choice is a seed.  The server's function is split where it waits for the client's
  signature, the client's where it waits for the server's first frame, and composed as in the code.
\<close>

datatype hs_error =
    Hs_random_failed | Server_signature_invalid | Client_signature_invalid
  | Hs_wire wire_error | Hs_crypto crypto_error | Hs_record record_error | Hs_transport socket_error

record identity =
  sig_public :: bytes
  sig_secret :: bytes
  peer_sig_public :: bytes

record transport =
  t_in :: "(socket_error + bytes) list"
  t_out :: "bytes list"
  t_send_fails :: "nat \<Rightarrow> socket_error option"

record channel =
  chan_sender :: record_sender
  chan_receiver :: record_receiver

record hs_seeds =
  sd_x25519 :: seed
  sd_kem :: seed
  sd_random :: seed
  sd_sign :: seed

type_synonym 'a hs = "transport \<Rightarrow> (hs_error + 'a) \<times> transport"

subsection \<open>Steps\<close>

definition hs_bind :: "'a hs \<Rightarrow> ('a \<Rightarrow> 'b hs) \<Rightarrow> 'b hs" where
  "hs_bind f k t = (case f t of (Inl e, t') \<Rightarrow> (Inl e, t') | (Inr x, t') \<Rightarrow> k x t')"

definition hs_lift :: "('e \<Rightarrow> hs_error) \<Rightarrow> 'e + 'a \<Rightarrow> 'a hs" where
  "hs_lift err r t = (case r of Inl e \<Rightarrow> (Inl (err e), t) | Inr x \<Rightarrow> (Inr x, t))"

definition hs_check :: "bool \<Rightarrow> hs_error \<Rightarrow> unit hs" where
  "hs_check b e t = (if b then (Inr (), t) else (Inl e, t))"

definition hs_return :: "'a \<Rightarrow> 'a hs" where
  "hs_return x t = (Inr x, t)"

definition hs_send :: "bytes \<Rightarrow> unit hs" where
  "hs_send f t =
     (case t_send_fails t (length (t_out t)) of
        Some e \<Rightarrow> (Inl (Hs_transport e), t)
      | None \<Rightarrow> (Inr (), t\<lparr>t_out := t_out t @ [f]\<rparr>))"

text \<open>An inbox that is used up is a connection that has been closed.\<close>

definition hs_recv :: "bytes hs" where
  "hs_recv t =
     (case t_in t of
        [] \<Rightarrow> (Inl (Hs_transport Closed_in_handshake), t)
      | Inl e # rest \<Rightarrow> (Inl (Hs_transport e), t\<lparr>t_in := rest\<rparr>)
      | Inr f # rest \<Rightarrow> (Inr f, t\<lparr>t_in := rest\<rparr>))"

definition random_bytes :: "libs \<Rightarrow> seed \<Rightarrow> nat \<Rightarrow> bytes hs" where
  "random_bytes L r n = hs_lift (\<lambda>_. Hs_random_failed) (or_throw (rand_bytes L r n) ())"

definition transcript :: "libs \<Rightarrow> bytes \<Rightarrow> bytes hs" where
  "transcript L acc = hs_lift Hs_crypto (sha256 L acc)"

text \<open>\<open>MlKem kem; MlDsa dsa; X25519 x;\<close>: the private key of the ephemeral pair.\<close>

definition hs_objects :: "libs \<Rightarrow> hs_seeds \<Rightarrow> bytes hs" where
  "hs_objects L sd =
     hs_bind (hs_lift Hs_crypto (mlkem_new L)) (\<lambda>_.
     hs_bind (hs_lift Hs_crypto (mldsa_new L)) (\<lambda>_.
     hs_lift Hs_crypto (x25519_new L (sd_x25519 sd))))"

text \<open>\<open>Channel{RecordSender(..), RecordReceiver(..)}\<close>\<close>

definition make_channel :: "bytes \<Rightarrow> bytes \<Rightarrow> bytes \<Rightarrow> bytes \<Rightarrow> channel hs" where
  "make_channel skey siv rkey riv =
     hs_bind (hs_lift Hs_record (new_sender skey siv)) (\<lambda>s.
     hs_bind (hs_lift Hs_record (new_receiver rkey riv)) (\<lambda>r.
     hs_return \<lparr>chan_sender = s, chan_receiver = r\<rparr>))"

subsection \<open>The client\<close>

record client_state =
  cl_x :: bytes
  cl_kem :: key_pair
  cl_random :: bytes
  cl_frame :: bytes

definition client_start :: "libs \<Rightarrow> hs_seeds \<Rightarrow> client_state hs" where
  "client_start L sd =
     hs_bind (hs_objects L sd) (\<lambda>x.
     hs_bind (hs_lift Hs_crypto (mlkem_keypair L (sd_kem sd))) (\<lambda>kp.
     hs_bind (random_bytes L (sd_random sd) kRandomLen) (\<lambda>rnd.
     hs_bind (hs_lift Hs_crypto (x25519_public_key L x)) (\<lambda>px.
     hs_bind (hs_lift Hs_wire (serialize_client_hello
        \<lparr>ch_random = rnd, ch_x25519 = px, ch_mlkem = public_key kp\<rparr>)) (\<lambda>f.
     hs_bind (hs_send f) (\<lambda>_.
     hs_return \<lparr>cl_x = x, cl_kem = kp, cl_random = rnd, cl_frame = f\<rparr>))))))"

definition client_finish :: "libs \<Rightarrow> identity \<Rightarrow> hs_seeds \<Rightarrow> client_state \<Rightarrow> channel hs" where
  "client_finish L i sd c =
     hs_bind hs_recv (\<lambda>sh_frame.
     hs_bind (hs_lift Hs_wire (parse_server_hello sh_frame)) (\<lambda>m.
     hs_bind (hs_lift Hs_crypto (x25519_compute_shared L (cl_x c) (sh_x25519 m))) (\<lambda>ss_classical.
     hs_bind (hs_lift Hs_crypto (mlkem_decaps L (sh_mlkem_ct m) (secret_key (cl_kem c)))) (\<lambda>ss_pq.
     hs_bind (transcript L (cl_frame c @ sh_frame)) (\<lambda>th.
     hs_bind (hs_lift Hs_crypto
        (derive_session_keys L ss_classical ss_pq (cl_random c) (sh_random m) th)) (\<lambda>ks.
     hs_bind hs_recv (\<lambda>sa_frame.
     hs_bind (hs_lift Hs_wire (parse_server_auth sa_frame)) (\<lambda>a.
     hs_bind (hs_check (mldsa_verify L th (sa_signature a) (peer_sig_public i))
        Server_signature_invalid) (\<lambda>_.
     hs_bind (transcript L ((cl_frame c @ sh_frame) @ sa_frame)) (\<lambda>th2.
     hs_bind (hs_lift Hs_crypto (mldsa_sign L (sd_sign sd) th2 (sig_secret i))) (\<lambda>sig.
     hs_bind (hs_lift Hs_wire (serialize_client_auth (Client_Auth sig))) (\<lambda>f.
     hs_bind (hs_send f) (\<lambda>_.
     make_channel (c2s_key ks) (c2s_iv ks) (s2c_key ks) (s2c_iv ks))))))))))))))"

definition client_handshake :: "libs \<Rightarrow> identity \<Rightarrow> hs_seeds \<Rightarrow> channel hs" where
  "client_handshake L i sd = hs_bind (client_start L sd) (client_finish L i sd)"

subsection \<open>The server\<close>

record server_state =
  sv_keys :: session_keys
  sv_ch_frame :: bytes
  sv_sh_frame :: bytes
  sv_sa_frame :: bytes

definition server_start :: "libs \<Rightarrow> identity \<Rightarrow> hs_seeds \<Rightarrow> server_state hs" where
  "server_start L i sd =
     hs_bind (hs_objects L sd) (\<lambda>x.
     hs_bind hs_recv (\<lambda>ch_frame.
     hs_bind (hs_lift Hs_wire (parse_client_hello ch_frame)) (\<lambda>m.
     hs_bind (hs_lift Hs_crypto (mlkem_encaps L (sd_kem sd) (ch_mlkem m))) (\<lambda>enc.
     hs_bind (random_bytes L (sd_random sd) kRandomLen) (\<lambda>rnd.
     hs_bind (hs_lift Hs_crypto (x25519_public_key L x)) (\<lambda>px.
     hs_bind (hs_lift Hs_wire (serialize_server_hello
        \<lparr>sh_random = rnd, sh_x25519 = px, sh_mlkem_ct = ciphertext enc\<rparr>)) (\<lambda>sh_frame.
     hs_bind (hs_send sh_frame) (\<lambda>_.
     hs_bind (hs_lift Hs_crypto (x25519_compute_shared L x (ch_x25519 m))) (\<lambda>ss_classical.
     hs_bind (transcript L (ch_frame @ sh_frame)) (\<lambda>th.
     hs_bind (hs_lift Hs_crypto
        (derive_session_keys L ss_classical (shared_secret enc) (ch_random m) rnd th)) (\<lambda>ks.
     hs_bind (hs_lift Hs_crypto (mldsa_sign L (sd_sign sd) th (sig_secret i))) (\<lambda>sig.
     hs_bind (hs_lift Hs_wire (serialize_server_auth (Server_Auth sig))) (\<lambda>sa_frame.
     hs_bind (hs_send sa_frame) (\<lambda>_.
     hs_return \<lparr>sv_keys = ks, sv_ch_frame = ch_frame, sv_sh_frame = sh_frame,
       sv_sa_frame = sa_frame\<rparr>))))))))))))))"

definition server_finish :: "libs \<Rightarrow> identity \<Rightarrow> server_state \<Rightarrow> channel hs" where
  "server_finish L i s =
     hs_bind hs_recv (\<lambda>ca_frame.
     hs_bind (hs_lift Hs_wire (parse_client_auth ca_frame)) (\<lambda>a.
     hs_bind (transcript L ((sv_ch_frame s @ sv_sh_frame s) @ sv_sa_frame s)) (\<lambda>th2.
     hs_bind (hs_check (mldsa_verify L th2 (ca_signature a) (peer_sig_public i))
        Client_signature_invalid) (\<lambda>_.
     make_channel (s2c_key (sv_keys s)) (s2c_iv (sv_keys s)) (c2s_key (sv_keys s)) (c2s_iv (sv_keys s))))))"

definition server_handshake :: "libs \<Rightarrow> identity \<Rightarrow> hs_seeds \<Rightarrow> channel hs" where
  "server_handshake L i sd = hs_bind (server_start L i sd) (server_finish L i)"

subsection \<open>Rules for steps that succeed\<close>

lemma hs_bind_Inr:
  "hs_bind f k t = (Inr y, t') \<longleftrightarrow> (\<exists>x t1. f t = (Inr x, t1) \<and> k x t1 = (Inr y, t'))"
  by (cases "f t"; cases "fst (f t)") (auto simp: hs_bind_def)

lemma hs_lift_Inr: "hs_lift err r t = (Inr x, t') \<longleftrightarrow> r = Inr x \<and> t' = t"
  by (cases r) (auto simp: hs_lift_def)

lemma hs_check_Inr: "hs_check b e t = (Inr u, t') \<longleftrightarrow> b \<and> t' = t"
  by (auto simp: hs_check_def)

lemma hs_return_Inr: "hs_return x t = (Inr y, t') \<longleftrightarrow> y = x \<and> t' = t"
  by (auto simp: hs_return_def)

lemma hs_send_Inr:
  "hs_send f t = (Inr u, t') \<longleftrightarrow>
    t_send_fails t (length (t_out t)) = None \<and> t' = t\<lparr>t_out := t_out t @ [f]\<rparr>"
  by (auto simp: hs_send_def split: option.splits)

lemma hs_recv_Inr:
  "hs_recv t = (Inr f, t') \<longleftrightarrow> (\<exists>rest. t_in t = Inr f # rest \<and> t' = t\<lparr>t_in := rest\<rparr>)"
  by (auto simp: hs_recv_def split: list.splits sum.splits)

lemmas hs_Inr = hs_bind_Inr hs_lift_Inr hs_check_Inr hs_return_Inr hs_send_Inr hs_recv_Inr

lemma hs_objects_Inr:
  "hs_objects L sd t = (Inr x, t') \<longleftrightarrow>
    kem_available L \<and> sig_available L \<and> evp_x25519_keygen L (sd_x25519 sd) = Some x \<and> t' = t"
  by (auto simp: hs_objects_def hs_Inr mlkem_new_def mldsa_new_def x25519_new_def)

lemma random_bytes_Inr: "random_bytes L r n t = (Inr b, t') \<longleftrightarrow> rand_bytes L r n = Some b \<and> t' = t"
  by (auto simp: random_bytes_def hs_Inr)

lemma transcript_Inr: "transcript L acc t = (Inr h, t') \<longleftrightarrow> evp_sha256 L acc = Some h \<and> t' = t"
  by (auto simp: transcript_def hs_Inr sha256_def)

lemma new_ends_Inr:
  "new_sender k v = Inr s \<longleftrightarrow>
     length k = kAesKeyLen \<and> length v = kIvLen \<and> s = \<lparr>snd_key = k, snd_iv = v, snd_seq = 0\<rparr>"
  "new_receiver k v = Inr r \<longleftrightarrow>
     length k = kAesKeyLen \<and> length v = kIvLen \<and> r = \<lparr>rcv_key = k, rcv_iv = v, rcv_seq = 0\<rparr>"
  by (auto simp: new_sender_def new_receiver_def)

lemma make_channel_Inr:
  "make_channel sk sv rk rv t = (Inr c, t') \<longleftrightarrow>
    length sk = kAesKeyLen \<and> length sv = kIvLen \<and> length rk = kAesKeyLen \<and> length rv = kIvLen \<and>
    c = \<lparr>chan_sender = \<lparr>snd_key = sk, snd_iv = sv, snd_seq = 0\<rparr>,
         chan_receiver = \<lparr>rcv_key = rk, rcv_iv = rv, rcv_seq = 0\<rparr>\<rparr> \<and> t' = t"
  by (auto simp: make_channel_def hs_Inr new_ends_Inr)

subsection \<open>What a successful run has done\<close>

lemma x25519_public_Inr:
  "x25519_public_key L x = Inr p \<longleftrightarrow> evp_x25519_public L x = Some p \<and> length p = 32"
  by (auto simp: x25519_public_key_def X25519_kKeyLen_def split: option.splits)

lemma mlkem_keypair_Inr:
  "mlkem_keypair L r = Inr kp \<longleftrightarrow> oqs_kem_keypair L r = Some (public_key kp, secret_key kp)"
  by (cases kp) (auto simp: mlkem_keypair_def split: option.splits)

lemma mlkem_encaps_Inr:
  "mlkem_encaps L r pk = Inr e \<longleftrightarrow>
    length pk = kem_public_len L \<and> oqs_kem_encaps L r pk = Some (ciphertext e, shared_secret e)"
  by (cases e) (auto simp: mlkem_encaps_def split: option.splits)

lemma mlkem_decaps_Inr:
  "mlkem_decaps L ct sk = Inr ss \<longleftrightarrow>
    length ct = kem_ct_len L \<and> length sk = kem_secret_len L \<and> oqs_kem_decaps L ct sk = Some ss"
  by (auto simp: mlkem_decaps_def)

lemma compute_shared_Inr:
  "x25519_compute_shared L x p = Inr ss \<longleftrightarrow> length p = 32 \<and> evp_x25519_derive L x p = Some ss"
  by (auto simp: x25519_compute_shared_def X25519_kKeyLen_def)

lemma mldsa_sign_Inr:
  "mldsa_sign L r m sk = Inr s \<longleftrightarrow> length sk = sig_secret_len L \<and> oqs_sig_sign L r m sk = Some s"
  by (auto simp: mldsa_sign_def)

lemmas prim_Inr = x25519_public_Inr mlkem_keypair_Inr mlkem_encaps_Inr mlkem_decaps_Inr
  compute_shared_Inr mldsa_sign_Inr

lemmas step_Inr = hs_Inr hs_objects_Inr random_bytes_Inr transcript_Inr make_channel_Inr prim_Inr

text \<open>What the client holds after its first message, apart from the transport.\<close>

definition client_sent :: "libs \<Rightarrow> hs_seeds \<Rightarrow> client_state \<Rightarrow> bool" where
  "client_sent L sd c \<longleftrightarrow>
     kem_available L \<and> sig_available L \<and> evp_x25519_keygen L (sd_x25519 sd) = Some (cl_x c) \<and>
     oqs_kem_keypair L (sd_kem sd) = Some (public_key (cl_kem c), secret_key (cl_kem c)) \<and>
     rand_bytes L (sd_random sd) kRandomLen = Some (cl_random c) \<and>
     (\<exists>px. evp_x25519_public L (cl_x c) = Some px \<and> length px = 32 \<and>
        serialize_client_hello \<lparr>ch_random = cl_random c, ch_x25519 = px,
          ch_mlkem = public_key (cl_kem c)\<rparr> = Inr (cl_frame c))"

lemma client_start_Inr:
  "client_start L sd t = (Inr c, t') \<longleftrightarrow>
    client_sent L sd c \<and> t_send_fails t (length (t_out t)) = None \<and>
    t' = t\<lparr>t_out := t_out t @ [cl_frame c]\<rparr>"
  unfolding client_start_def client_sent_def step_Inr by (cases c) auto

text \<open>Both sides' key agreement, as a relation of the inputs that the schedule is fed with.\<close>

definition client_derives :: "libs \<Rightarrow> client_state \<Rightarrow> bytes \<Rightarrow> bytes \<Rightarrow> session_keys \<Rightarrow> bool" where
  "client_derives L c sh_frame th ks \<longleftrightarrow>
     (\<exists>m ss_classical ss_pq. parse_server_hello sh_frame = Inr m \<and>
        evp_x25519_derive L (cl_x c) (sh_x25519 m) = Some ss_classical \<and>
        oqs_kem_decaps L (sh_mlkem_ct m) (secret_key (cl_kem c)) = Some ss_pq \<and>
        length (sh_mlkem_ct m) = kem_ct_len L \<and> length (secret_key (cl_kem c)) = kem_secret_len L \<and>
        evp_sha256 L (cl_frame c @ sh_frame) = Some th \<and>
        derive_session_keys L ss_classical ss_pq (cl_random c) (sh_random m) th = Inr ks)"

definition keys_sized :: "session_keys \<Rightarrow> bool" where
  "keys_sized ks \<longleftrightarrow> length (c2s_key ks) = kAesKeyLen \<and> length (s2c_key ks) = kAesKeyLen \<and>
     length (c2s_iv ks) = kIvLen \<and> length (s2c_iv ks) = kIvLen"

definition client_channel :: "session_keys \<Rightarrow> channel" where
  "client_channel ks =
     \<lparr>chan_sender = \<lparr>snd_key = c2s_key ks, snd_iv = c2s_iv ks, snd_seq = 0\<rparr>,
      chan_receiver = \<lparr>rcv_key = s2c_key ks, rcv_iv = s2c_iv ks, rcv_seq = 0\<rparr>\<rparr>"

definition server_channel :: "session_keys \<Rightarrow> channel" where
  "server_channel ks =
     \<lparr>chan_sender = \<lparr>snd_key = s2c_key ks, snd_iv = s2c_iv ks, snd_seq = 0\<rparr>,
      chan_receiver = \<lparr>rcv_key = c2s_key ks, rcv_iv = c2s_iv ks, rcv_seq = 0\<rparr>\<rparr>"

text \<open>What the client has checked and sent when it returns its channel.\<close>

definition client_accepts ::
  "libs \<Rightarrow> identity \<Rightarrow> hs_seeds \<Rightarrow> client_state \<Rightarrow> bytes \<Rightarrow> bytes \<Rightarrow> bytes \<Rightarrow> session_keys \<Rightarrow> bool" where
  "client_accepts L i sd c sh_frame sa_frame ca_frame ks \<longleftrightarrow>
     (\<exists>th th2 sig csig. client_derives L c sh_frame th ks \<and> keys_sized ks \<and>
        parse_server_auth sa_frame = Inr (Server_Auth sig) \<and>
        mldsa_verify L th sig (peer_sig_public i) \<and>
        evp_sha256 L ((cl_frame c @ sh_frame) @ sa_frame) = Some th2 \<and>
        length (sig_secret i) = sig_secret_len L \<and> oqs_sig_sign L (sd_sign sd) th2 (sig_secret i) = Some csig \<and>
        serialize_client_auth (Client_Auth csig) = Inr ca_frame)"

lemma parse_hello_lengths:
  "parse_server_hello f = Inr m \<Longrightarrow> length (sh_x25519 m) = 32"
  "parse_client_hello f = Inr n \<Longrightarrow> length (ch_x25519 n) = 32"
  using sh.ser_par ch.ser_par by (auto simp: valid_server_hello_def valid_client_hello_def wire_consts)

lemma client_finish_Inr:
  "client_finish L i sd c t = (Inr chan, t') \<longleftrightarrow>
    (\<exists>sh_frame sa_frame ca_frame rest ks.
      t_in t = Inr sh_frame # Inr sa_frame # rest \<and>
      client_accepts L i sd c sh_frame sa_frame ca_frame ks \<and> chan = client_channel ks \<and>
      t_send_fails t (length (t_out t)) = None \<and>
      t' = t\<lparr>t_in := rest, t_out := t_out t @ [ca_frame]\<rparr>)"
proof
  assume "client_finish L i sd c t = (Inr chan, t')"
  then show "\<exists>sh_frame sa_frame ca_frame rest ks.
      t_in t = Inr sh_frame # Inr sa_frame # rest \<and>
      client_accepts L i sd c sh_frame sa_frame ca_frame ks \<and> chan = client_channel ks \<and>
      t_send_fails t (length (t_out t)) = None \<and>
      t' = t\<lparr>t_in := rest, t_out := t_out t @ [ca_frame]\<rparr>"
    unfolding client_finish_def step_Inr client_accepts_def client_derives_def keys_sized_def
      client_channel_def
    by (elim exE conjE) (rename_tac shf rest m ss1 ss2 th ks saf rest2 a th2 sig caf; case_tac a; force)
next
  assume "\<exists>sh_frame sa_frame ca_frame rest ks.
      t_in t = Inr sh_frame # Inr sa_frame # rest \<and>
      client_accepts L i sd c sh_frame sa_frame ca_frame ks \<and> chan = client_channel ks \<and>
      t_send_fails t (length (t_out t)) = None \<and>
      t' = t\<lparr>t_in := rest, t_out := t_out t @ [ca_frame]\<rparr>"
  then show "client_finish L i sd c t = (Inr chan, t')"
    unfolding client_finish_def step_Inr client_accepts_def client_derives_def keys_sized_def
      client_channel_def
    by (elim exE conjE) (simp add: parse_hello_lengths)
qed

text \<open>The server, likewise: up to its signature, and to the end.\<close>

definition server_answers ::
  "libs \<Rightarrow> identity \<Rightarrow> hs_seeds \<Rightarrow> server_state \<Rightarrow> bytes \<Rightarrow> bool" where
  "server_answers L i sd s th \<longleftrightarrow>
     kem_available L \<and> sig_available L \<and>
     (\<exists>x m ct ss rnd px ss_classical sig.
        evp_x25519_keygen L (sd_x25519 sd) = Some x \<and> parse_client_hello (sv_ch_frame s) = Inr m \<and>
        length (ch_mlkem m) = kem_public_len L \<and>
        oqs_kem_encaps L (sd_kem sd) (ch_mlkem m) = Some (ct, ss) \<and>
        rand_bytes L (sd_random sd) kRandomLen = Some rnd \<and>
        evp_x25519_public L x = Some px \<and> length px = 32 \<and>
        serialize_server_hello \<lparr>sh_random = rnd, sh_x25519 = px, sh_mlkem_ct = ct\<rparr> =
          Inr (sv_sh_frame s) \<and>
        evp_x25519_derive L x (ch_x25519 m) = Some ss_classical \<and>
        evp_sha256 L (sv_ch_frame s @ sv_sh_frame s) = Some th \<and>
        derive_session_keys L ss_classical ss (ch_random m) rnd th = Inr (sv_keys s) \<and>
        length (sig_secret i) = sig_secret_len L \<and> oqs_sig_sign L (sd_sign sd) th (sig_secret i) = Some sig \<and>
        serialize_server_auth (Server_Auth sig) = Inr (sv_sa_frame s))"

lemma server_start_Inr:
  "server_start L i sd t = (Inr s, t') \<longleftrightarrow>
    (\<exists>rest th. t_in t = Inr (sv_ch_frame s) # rest \<and> server_answers L i sd s th \<and>
      t_send_fails t (length (t_out t)) = None \<and> t_send_fails t (Suc (length (t_out t))) = None \<and>
      t' = t\<lparr>t_in := rest, t_out := t_out t @ [sv_sh_frame s, sv_sa_frame s]\<rparr>)"
proof
  assume "server_start L i sd t = (Inr s, t')"
  then show "\<exists>rest th. t_in t = Inr (sv_ch_frame s) # rest \<and> server_answers L i sd s th \<and>
      t_send_fails t (length (t_out t)) = None \<and> t_send_fails t (Suc (length (t_out t))) = None \<and>
      t' = t\<lparr>t_in := rest, t_out := t_out t @ [sv_sh_frame s, sv_sa_frame s]\<rparr>"
    unfolding server_start_def step_Inr server_answers_def by (elim exE conjE) force
next
  assume "\<exists>rest th. t_in t = Inr (sv_ch_frame s) # rest \<and> server_answers L i sd s th \<and>
      t_send_fails t (length (t_out t)) = None \<and> t_send_fails t (Suc (length (t_out t))) = None \<and>
      t' = t\<lparr>t_in := rest, t_out := t_out t @ [sv_sh_frame s, sv_sa_frame s]\<rparr>"
  then obtain rest th x m ct ss rnd px ssc sig where
    "t_in t = Inr (sv_ch_frame s) # rest" "t_send_fails t (length (t_out t)) = None"
    "t_send_fails t (Suc (length (t_out t))) = None"
    "t' = t\<lparr>t_in := rest, t_out := t_out t @ [sv_sh_frame s, sv_sa_frame s]\<rparr>"
    "kem_available L" "sig_available L"
    "evp_x25519_keygen L (sd_x25519 sd) = Some x" "parse_client_hello (sv_ch_frame s) = Inr m"
    "length (ch_mlkem m) = kem_public_len L"
    "oqs_kem_encaps L (sd_kem sd) (ch_mlkem m) = Some (ct, ss)"
    "rand_bytes L (sd_random sd) kRandomLen = Some rnd"
    "evp_x25519_public L x = Some px" "length px = 32"
    "serialize_server_hello \<lparr>sh_random = rnd, sh_x25519 = px, sh_mlkem_ct = ct\<rparr> =
      Inr (sv_sh_frame s)"
    "evp_x25519_derive L x (ch_x25519 m) = Some ssc"
    "evp_sha256 L (sv_ch_frame s @ sv_sh_frame s) = Some th"
    "derive_session_keys L ssc ss (ch_random m) rnd th = Inr (sv_keys s)"
    "length (sig_secret i) = sig_secret_len L" "oqs_sig_sign L (sd_sign sd) th (sig_secret i) = Some sig"
    "serialize_server_auth (Server_Auth sig) = Inr (sv_sa_frame s)"
    unfolding server_answers_def by blast
  then show "server_start L i sd t = (Inr s, t')"
    unfolding server_start_def step_Inr
    by (simp add: parse_hello_lengths) (rule exI [of _ "\<lparr>ciphertext = ct, shared_secret = ss\<rparr>"], simp)
qed

lemma server_finish_Inr:
  "server_finish L i s t = (Inr chan, t') \<longleftrightarrow>
    (\<exists>ca_frame rest th2 sig. t_in t = Inr ca_frame # rest \<and>
      parse_client_auth ca_frame = Inr (Client_Auth sig) \<and>
      evp_sha256 L ((sv_ch_frame s @ sv_sh_frame s) @ sv_sa_frame s) = Some th2 \<and>
      mldsa_verify L th2 sig (peer_sig_public i) \<and> keys_sized (sv_keys s) \<and>
      chan = server_channel (sv_keys s) \<and> t' = t\<lparr>t_in := rest\<rparr>)"
  unfolding server_finish_def step_Inr keys_sized_def server_channel_def
  by (auto; metis client_auth.collapse client_auth.sel)

subsection \<open>Both sides derive the same keys\<close>

lemma keys_agree:
  assumes "kem_correct L" and "dh_correct L"
    and c: "client_sent L sdc c" and s: "server_answers L i sds s th"
    and frame: "cl_frame c = sv_ch_frame s" and d: "client_derives L c (sv_sh_frame s) th' ks"
  shows "ks = sv_keys s \<and> th' = th"
proof -
  obtain pc where pc: "evp_x25519_public L (cl_x c) = Some pc"
    and kc: "oqs_kem_keypair L (sd_kem sdc) = Some (public_key (cl_kem c), secret_key (cl_kem c))"
    and ser_c: "serialize_client_hello \<lparr>ch_random = cl_random c, ch_x25519 = pc,
        ch_mlkem = public_key (cl_kem c)\<rparr> = Inr (cl_frame c)"
    using c by (auto simp: client_sent_def)
  obtain x m ct ss rnd px ssc where m: "parse_client_hello (sv_ch_frame s) = Inr m"
    and enc: "oqs_kem_encaps L (sd_kem sds) (ch_mlkem m) = Some (ct, ss)"
    and px: "evp_x25519_public L x = Some px"
    and ser_s: "serialize_server_hello \<lparr>sh_random = rnd, sh_x25519 = px, sh_mlkem_ct = ct\<rparr> =
        Inr (sv_sh_frame s)"
    and ssc: "evp_x25519_derive L x (ch_x25519 m) = Some ssc"
    and th: "evp_sha256 L (sv_ch_frame s @ sv_sh_frame s) = Some th"
    and ks: "derive_session_keys L ssc ss (ch_random m) rnd th = Inr (sv_keys s)"
    using s by (auto simp: server_answers_def)
  have m_eq: "m = \<lparr>ch_random = cl_random c, ch_x25519 = pc, ch_mlkem = public_key (cl_kem c)\<rparr>"
    using ch.par_of_ser [OF ser_c] m frame by simp
  obtain m2 ssc' ssq where m2: "parse_server_hello (sv_sh_frame s) = Inr m2"
    and d1: "evp_x25519_derive L (cl_x c) (sh_x25519 m2) = Some ssc'"
    and d2: "oqs_kem_decaps L (sh_mlkem_ct m2) (secret_key (cl_kem c)) = Some ssq"
    and th': "evp_sha256 L (cl_frame c @ sv_sh_frame s) = Some th'"
    and ks': "derive_session_keys L ssc' ssq (cl_random c) (sh_random m2) th' = Inr ks"
    using d by (auto simp: client_derives_def)
  have m2_eq: "m2 = \<lparr>sh_random = rnd, sh_x25519 = px, sh_mlkem_ct = ct\<rparr>"
    using sh.par_of_ser [OF ser_s m2] .
  have "evp_x25519_derive L (cl_x c) px = evp_x25519_derive L x pc"
    using \<open>dh_correct L\<close> pc px unfolding dh_correct_def by blast
  then have "ssc' = ssc"
    using d1 ssc by (simp add: m_eq m2_eq)
  moreover have "oqs_kem_decaps L ct (secret_key (cl_kem c)) = Some ss"
    using \<open>kem_correct L\<close> kc enc unfolding kem_correct_def m_eq by auto
  then have "ssq = ss"
    using d2 by (simp add: m2_eq)
  moreover have "th' = th"
    using th th' frame by simp
  ultimately show ?thesis
    using ks ks' by (simp add: m_eq m2_eq)
qed

lemma client_handshake_Inr:
  "client_handshake L i sd t = (Inr chan, t') \<longleftrightarrow>
    (\<exists>c sh_frame sa_frame ca_frame rest ks.
      client_sent L sd c \<and> t_in t = Inr sh_frame # Inr sa_frame # rest \<and>
      client_accepts L i sd c sh_frame sa_frame ca_frame ks \<and> chan = client_channel ks \<and>
      t_send_fails t (length (t_out t)) = None \<and> t_send_fails t (Suc (length (t_out t))) = None \<and>
      t' = t\<lparr>t_in := rest, t_out := t_out t @ [cl_frame c, ca_frame]\<rparr>)"
  unfolding client_handshake_def hs_bind_Inr client_start_Inr client_finish_Inr by (auto; blast)

lemma server_handshake_Inr:
  "server_handshake L i sd t = (Inr chan, t') \<longleftrightarrow>
    (\<exists>s t1. server_start L i sd t = (Inr s, t1) \<and> server_finish L i s t1 = (Inr chan, t'))"
  unfolding server_handshake_def hs_bind_Inr ..

lemma client_frames_delimited:
  "client_sent L sd c \<Longrightarrow> delimited_frame (cl_frame c)"
  using ch.ser_delimited by (auto simp: client_sent_def)

lemma server_frames_delimited:
  "server_answers L i sd s th \<Longrightarrow>
    delimited_frame (sv_ch_frame s) \<and> delimited_frame (sv_sh_frame s) \<and> delimited_frame (sv_sa_frame s)"
  using ch.par_delimited sh.ser_delimited sa.ser_delimited by (auto simp: server_answers_def)

text \<open>
  C12. The client authenticates the server.  Suppose no signature of this conversation's hash
  verifies under the pinned server key unless the server signed this hash in one of its sessions,
  and SHA-256 has no collision between the client's transcript and theirs.  Then a client handshake that succeeds,
  whatever frames the network delivered, has had its exact conversation with one of these
  sessions, and both derived the same session keys.
\<close>

theorem client_authenticates_server:
  assumes "kem_correct L" and "dh_correct L"
    and run: "client_handshake L idc sdc \<lparr>t_in = Inr shf # Inr saf # rest, t_out = [], t_send_fails = fails\<rparr> =
      (Inr chan, \<lparr>t_in = rest, t_out = [chf, caf], t_send_fails = fails\<rparr>)"
    and sessions: "\<forall>s \<in> set sessions. \<exists>ids sds t t'. server_start L ids sds t = (Inr s, t')"
    and unforgeable: "\<forall>th sig. evp_sha256 L (chf @ shf) = Some th \<and> oqs_sig_verify L th sig (peer_sig_public idc) \<longrightarrow>
      (\<exists>s \<in> set sessions. evp_sha256 L (sv_ch_frame s @ sv_sh_frame s) = Some th)"
    and no_collision: "\<forall>s \<in> set sessions.
      evp_sha256 L (chf @ shf) = evp_sha256 L (sv_ch_frame s @ sv_sh_frame s) \<longrightarrow>
      chf @ shf = sv_ch_frame s @ sv_sh_frame s"
  shows "\<exists>s \<in> set sessions. chf = sv_ch_frame s \<and> shf = sv_sh_frame s \<and>
    chan = client_channel (sv_keys s)"
proof -
  obtain c ks where c: "client_sent L sdc c" "chf = cl_frame c"
    and acc: "client_accepts L idc sdc c shf saf caf ks" and chan: "chan = client_channel ks"
    using run unfolding client_handshake_Inr by auto
  obtain th sig where d: "client_derives L c shf th ks"
    and ver: "oqs_sig_verify L th sig (peer_sig_public idc)"
    using acc by (auto simp: client_accepts_def mldsa_verify_def)
  have hash: "evp_sha256 L (chf @ shf) = Some th"
    using d c(2) by (auto simp: client_derives_def)
  obtain s where s: "s \<in> set sessions" and sth: "evp_sha256 L (sv_ch_frame s @ sv_sh_frame s) = Some th"
    using unforgeable hash ver by blast
  have eq: "chf @ shf = sv_ch_frame s @ sv_sh_frame s"
    using no_collision s sth hash by simp
  obtain ids sds sth' where sa: "server_answers L ids sds s sth'"
    using sessions s unfolding server_start_Inr by blast
  have same: "chf = sv_ch_frame s" "shf = sv_sh_frame s"
    using delimited_append_inject [OF _ _ eq] client_frames_delimited [OF c(1)] c(2)
      server_frames_delimited [OF sa] by simp_all
  have "ks = sv_keys s"
    using keys_agree [OF assms(1,2) c(1) sa] same c(2) d by simp
  then show ?thesis
    using s same chan by blast
qed

text \<open>A session of a client, as far as its signature: everything that it has signed over.\<close>

definition client_session ::
  "libs \<Rightarrow> client_state \<times> bytes \<times> bytes \<times> session_keys \<Rightarrow> bool" where
  "client_session L z =
     (case z of (c, sh_frame, sa_frame, ks) \<Rightarrow>
        \<exists>i sd t ca_frame. client_start L sd t = (Inr c, t\<lparr>t_out := t_out t @ [cl_frame c]\<rparr>) \<and>
          client_accepts L i sd c sh_frame sa_frame ca_frame ks)"

definition session_text :: "client_state \<times> bytes \<times> bytes \<times> session_keys \<Rightarrow> bytes" where
  "session_text z = (case z of (c, sh_frame, sa_frame, ks) \<Rightarrow> (cl_frame c @ sh_frame) @ sa_frame)"

lemma client_accepts_frames:
  assumes "client_accepts L i sd c shf saf caf ks"
  shows "delimited_frame shf" and "delimited_frame saf"
proof -
  obtain m a where "parse_server_hello shf = Inr m" "parse_server_auth saf = Inr a"
    using assms by (auto simp: client_accepts_def client_derives_def)
  then show "delimited_frame shf" "delimited_frame saf"
    using sh.par_delimited sa.par_delimited by blast+
qed

text \<open>
  C13. The server authenticates the client.  Suppose no signature of this conversation's
  hash, up to and including ServerAuth, verifies under the pinned client key unless the client
  signed this hash in one of its sessions, and SHA-256 has no collision between the server's transcript and theirs.
  Then a server handshake that succeeds has had its exact conversation, all three frames of it,
  with one of these sessions, and both derived the same session keys.
\<close>

theorem server_authenticates_client:
  assumes "kem_correct L" and "dh_correct L"
    and start: "server_start L ids sds t = (Inr s, t1)"
    and finish: "server_finish L ids s t1 = (Inr chan, t2)"
    and sessions: "\<forall>z \<in> set sessions. client_session L z"
    and unforgeable: "\<forall>th sig. evp_sha256 L ((sv_ch_frame s @ sv_sh_frame s) @ sv_sa_frame s) = Some th \<and>
      oqs_sig_verify L th sig (peer_sig_public ids) \<longrightarrow>
      (\<exists>z \<in> set sessions. evp_sha256 L (session_text z) = Some th)"
    and no_collision: "\<forall>z \<in> set sessions.
      evp_sha256 L ((sv_ch_frame s @ sv_sh_frame s) @ sv_sa_frame s) = evp_sha256 L (session_text z) \<longrightarrow>
      (sv_ch_frame s @ sv_sh_frame s) @ sv_sa_frame s = session_text z"
  shows "\<exists>(c, shf, saf, ks) \<in> set sessions. cl_frame c = sv_ch_frame s \<and> shf = sv_sh_frame s \<and>
    saf = sv_sa_frame s \<and> chan = server_channel ks"
proof -
  obtain th2 sig where th2: "evp_sha256 L ((sv_ch_frame s @ sv_sh_frame s) @ sv_sa_frame s) = Some th2"
    and ver: "oqs_sig_verify L th2 sig (peer_sig_public ids)" and chan: "chan = server_channel (sv_keys s)"
    using finish unfolding server_finish_Inr mldsa_verify_def by auto
  obtain c shf saf ks where z: "(c, shf, saf, ks) \<in> set sessions"
    and zth: "evp_sha256 L (session_text (c, shf, saf, ks)) = Some th2"
    using unforgeable th2 ver by (metis prod_cases4)
  have eq: "sv_ch_frame s @ sv_sh_frame s @ sv_sa_frame s = cl_frame c @ shf @ saf"
    using no_collision z th2 zth by (auto simp: session_text_def)
  obtain i sdc caf t0 where cs: "client_sent L sdc c" and acc: "client_accepts L i sdc c shf saf caf ks"
    using sessions z unfolding client_session_def client_start_Inr by auto
  obtain th where sv: "server_answers L ids sds s th"
    using start unfolding server_start_Inr by blast
  note fr = server_frames_delimited [OF sv] client_frames_delimited [OF cs] client_accepts_frames [OF acc]
  have 1: "sv_ch_frame s = cl_frame c" "sv_sh_frame s @ sv_sa_frame s = shf @ saf"
    using delimited_append_inject [OF _ _ eq] fr by blast+
  have 2: "sv_sh_frame s = shf" "sv_sa_frame s = saf"
    using delimited_append_inject [OF _ _ 1(2)] fr by blast+
  obtain th' where "client_derives L c shf th' ks"
    using acc by (auto simp: client_accepts_def)
  then have "ks = sv_keys s"
    using keys_agree [OF assms(1,2) cs sv] 1 2 by simp
  then show ?thesis
    using z 1 2 chan by (intro bexI [of _ "(c, shf, saf, ks)"]) simp_all
qed

subsection \<open>The honest run\<close>

definition honest_identities :: "libs \<Rightarrow> identity \<Rightarrow> identity \<Rightarrow> bool" where
  "honest_identities L idc ids \<longleftrightarrow>
     (\<exists>r r'. oqs_sig_keypair L r = Some (sig_public idc, sig_secret idc) \<and>
        oqs_sig_keypair L r' = Some (sig_public ids, sig_secret ids)) \<and>
     peer_sig_public idc = sig_public ids \<and> peer_sig_public ids = sig_public idc"

definition fresh_transport :: "bytes list \<Rightarrow> transport" where
  "fresh_transport frames = \<lparr>t_in = map Inr frames, t_out = [], t_send_fails = \<lambda>_. None\<rparr>"

definition finished_transport :: "bytes list \<Rightarrow> transport" where
  "finished_transport frames = \<lparr>t_in = [], t_out = frames, t_send_fails = \<lambda>_. None\<rparr>"

lemma avail:
  assumes "libs_available L"
  shows "kem_available L" "sig_available L"
    "\<exists>pk sk. oqs_kem_keypair L r = Some (pk, sk)" "\<exists>ct ss. oqs_kem_encaps L r pk = Some (ct, ss)"
    "\<exists>s. oqs_sig_sign L r m sk = Some s" "\<exists>x. evp_x25519_keygen L r = Some x"
    "\<exists>p. evp_x25519_public L x = Some p \<and> length p = 32"
    "length p = 32 \<Longrightarrow> \<exists>ss. evp_x25519_derive L x p = Some ss"
    "\<exists>h. evp_sha256 L d = Some h" "\<exists>b. rand_bytes L r n = Some b"
    "\<exists>k. evp_hkdf_extract L s i n = Some k" "\<exists>k. evp_hkdf_expand L s i n = Some k"
  using assms by (auto simp: libs_available_def not_None_eq split_paired_Ex)

lemma avail_keys:
  assumes "libs_available L"
  shows "\<exists>ks. derive_session_keys L a b c d e = Inr ks"
proof -
  obtain prk where p: "evp_hkdf_extract L (c @ d) (a @ b) 32 = Some prk"
    using avail(11) [OF assms] by blast
  have "\<exists>k. evp_hkdf_expand L prk i n = Some k" for i n
    using avail(12) [OF assms] .
  then obtain k1 k2 v1 v2 where "evp_hkdf_expand L prk (label_info ''pqsec c2s key'' e) 32 = Some k1"
    "evp_hkdf_expand L prk (label_info ''pqsec s2c key'' e) 32 = Some k2"
    "evp_hkdf_expand L prk (label_info ''pqsec c2s iv'' e) 12 = Some v1"
    "evp_hkdf_expand L prk (label_info ''pqsec s2c iv'' e) 12 = Some v2"
    by metis
  with p show ?thesis
    by (simp add: derive_session_keys_def hkdf_extract_def hkdf_expand_def)
qed

lemma sized:
  assumes "libs_sized L"
  shows "oqs_kem_keypair L r = Some (pk, sk) \<Longrightarrow> length pk = kem_public_len L \<and> length sk = kem_secret_len L"
    "oqs_kem_encaps L r pk = Some (ct, ss) \<Longrightarrow> length ct = kem_ct_len L"
    "oqs_sig_keypair L r = Some (pk, sk) \<Longrightarrow> length pk = sig_public_len L \<and> length sk = sig_secret_len L"
    "rand_bytes L r n = Some b \<Longrightarrow> length b = n"
    "0 < kem_public_len L" "kem_public_len L \<le> 0xffff - 64" "0 < kem_ct_len L" "kem_ct_len L \<le> 0xffff - 64"
  using assms unfolding libs_sized_def by simp_all

lemma sized_signature:
  assumes "libs_sized L" and "oqs_sig_sign L r m sk = Some s"
  shows "valid_signature s"
proof -
  have "s \<noteq> [] \<and> length s \<le> sig_max_len L" "sig_max_len L \<le> 0xffff"
    using assms unfolding libs_sized_def by blast+
  then show ?thesis
    by (simp add: valid_signature_def)
qed

lemma client_can_start:
  assumes "libs_available L" and "libs_sized L"
  obtains c where "client_sent L sd c"
proof -
  obtain x where x: "evp_x25519_keygen L (sd_x25519 sd) = Some x"
    using avail(6) [OF assms(1)] by blast
  obtain pk sk where k: "oqs_kem_keypair L (sd_kem sd) = Some (pk, sk)"
    using avail(3) [OF assms(1)] by blast
  obtain rnd where r: "rand_bytes L (sd_random sd) kRandomLen = Some rnd"
    using avail(10) [OF assms(1)] by blast
  obtain px where px: "evp_x25519_public L x = Some px" "length px = 32"
    using avail(7) [OF assms(1)] by blast
  have "valid_client_hello \<lparr>ch_random = rnd, ch_x25519 = px, ch_mlkem = pk\<rparr>"
    using px(2) sized(1) [OF assms(2) k] sized(4) [OF assms(2) r] sized(5,6) [OF assms(2)]
    by (auto simp: valid_client_hello_def wire_consts)
  from ch.ser_valid [OF this] obtain f
    where f: "serialize_client_hello \<lparr>ch_random = rnd, ch_x25519 = px, ch_mlkem = pk\<rparr> = Inr f" ..
  have "client_sent L sd \<lparr>cl_x = x, cl_kem = \<lparr>public_key = pk, secret_key = sk\<rparr>, cl_random = rnd, cl_frame = f\<rparr>"
    using x k r px f avail(1,2) [OF assms(1)] by (simp add: client_sent_def)
  then show ?thesis
    by (rule that)
qed

lemma client_frame_parses:
  assumes "libs_sized L" and "client_sent L sd c"
  obtains px where "evp_x25519_public L (cl_x c) = Some px" and "length px = 32"
    and "parse_client_hello (cl_frame c) =
      Inr \<lparr>ch_random = cl_random c, ch_x25519 = px, ch_mlkem = public_key (cl_kem c)\<rparr>"
proof -
  obtain px where px: "evp_x25519_public L (cl_x c) = Some px" "length px = 32"
    and k: "oqs_kem_keypair L (sd_kem sd) = Some (public_key (cl_kem c), secret_key (cl_kem c))"
    and r: "rand_bytes L (sd_random sd) kRandomLen = Some (cl_random c)"
    and ser: "serialize_client_hello \<lparr>ch_random = cl_random c, ch_x25519 = px,
        ch_mlkem = public_key (cl_kem c)\<rparr> = Inr (cl_frame c)"
    using assms(2) by (auto simp: client_sent_def)
  have "valid_client_hello \<lparr>ch_random = cl_random c, ch_x25519 = px, ch_mlkem = public_key (cl_kem c)\<rparr>"
    using px(2) sized(1) [OF assms(1) k] sized(4) [OF assms(1) r] sized(5,6) [OF assms(1)]
    by (auto simp: valid_client_hello_def wire_consts)
  from ch.par_ser [OF this ser] px show ?thesis
    by (intro that)
qed

lemma signature_frames:
  assumes "valid_signature s"
  shows "\<exists>f. serialize_server_auth (Server_Auth s) = Inr f \<and> parse_server_auth f = Inr (Server_Auth s)"
    and "\<exists>g. serialize_client_auth (Client_Auth s) = Inr g \<and> parse_client_auth g = Inr (Client_Auth s)"
  using assms sa.ser_valid [of "Server_Auth s"] sa.par_ser [of "Server_Auth s"]
    ca.ser_valid [of "Client_Auth s"] ca.par_ser [of "Client_Auth s"] by auto

lemma server_can_answer:
  assumes "libs_available L" and "libs_sized L" and c: "client_sent L sdc c"
    and key: "length (sig_secret i) = sig_secret_len L"
  obtains s th where "server_answers L i sd s th" and "sv_ch_frame s = cl_frame c"
proof -
  obtain pc where pc: "length pc = 32" and m: "parse_client_hello (cl_frame c) =
      Inr \<lparr>ch_random = cl_random c, ch_x25519 = pc, ch_mlkem = public_key (cl_kem c)\<rparr>"
    using client_frame_parses [OF assms(2) c] .
  have pk: "length (public_key (cl_kem c)) = kem_public_len L"
    using sized(1) [OF assms(2)] c unfolding client_sent_def by blast
  obtain x where x: "evp_x25519_keygen L (sd_x25519 sd) = Some x"
    using avail(6) [OF assms(1)] by blast
  obtain ct ss where e: "oqs_kem_encaps L (sd_kem sd) (public_key (cl_kem c)) = Some (ct, ss)"
    using avail(4) [OF assms(1)] by blast
  obtain rnd where r: "rand_bytes L (sd_random sd) kRandomLen = Some rnd"
    using avail(10) [OF assms(1)] by blast
  obtain px where p: "evp_x25519_public L x = Some px" "length px = 32"
    using avail(7) [OF assms(1)] by blast
  obtain ssc where d: "evp_x25519_derive L x pc = Some ssc"
    using avail(8) [OF assms(1) pc] by blast
  have "valid_server_hello \<lparr>sh_random = rnd, sh_x25519 = px, sh_mlkem_ct = ct\<rparr>"
    using p(2) sized(2) [OF assms(2) e] sized(4) [OF assms(2) r] sized(7,8) [OF assms(2)]
    by (auto simp: valid_server_hello_def wire_consts)
  from sh.ser_valid [OF this] obtain shf
    where shf: "serialize_server_hello \<lparr>sh_random = rnd, sh_x25519 = px, sh_mlkem_ct = ct\<rparr> = Inr shf" ..
  obtain th where th: "evp_sha256 L (cl_frame c @ shf) = Some th"
    using avail(9) [OF assms(1)] by blast
  obtain ks where ks: "derive_session_keys L ssc ss (cl_random c) rnd th = Inr ks"
    using avail_keys [OF assms(1)] by blast
  obtain sig where sig: "oqs_sig_sign L (sd_sign sd) th (sig_secret i) = Some sig"
    using avail(5) [OF assms(1)] by blast
  obtain saf where saf: "serialize_server_auth (Server_Auth sig) = Inr saf"
    using signature_frames(1) [OF sized_signature [OF assms(2) sig]] by blast
  have "server_answers L i sd \<lparr>sv_keys = ks, sv_ch_frame = cl_frame c, sv_sh_frame = shf, sv_sa_frame = saf\<rparr> th"
    using x e r p d shf th ks sig saf m pk key avail(1,2) [OF assms(1)]
    by (simp add: server_answers_def)
  then show ?thesis
    by (rule that) simp
qed

lemma client_can_accept:
  assumes "libs_available L" and "libs_sized L" and "kem_correct L" and "dh_correct L" and "sig_correct L"
    and c: "client_sent L sdc c" and s: "server_answers L ids sds s th" and "sv_ch_frame s = cl_frame c"
    and ids: "honest_identities L idc ids"
  obtains caf sig th2 where "client_accepts L idc sdc c (sv_sh_frame s) (sv_sa_frame s) caf (sv_keys s)"
    and "parse_client_auth caf = Inr (Client_Auth sig)" and "mldsa_verify L th2 sig (sig_public idc)"
    and "evp_sha256 L ((cl_frame c @ sv_sh_frame s) @ sv_sa_frame s) = Some th2"
proof -
  obtain rc rs where kpc: "oqs_sig_keypair L rc = Some (sig_public idc, sig_secret idc)"
    and kps: "oqs_sig_keypair L rs = Some (sig_public ids, sig_secret ids)"
    and pin: "peer_sig_public idc = sig_public ids"
    using ids by (auto simp: honest_identities_def)
  obtain x m ct ss rnd px sig where enc: "oqs_kem_encaps L (sd_kem sds) (ch_mlkem m) = Some (ct, ss)"
    and rnd: "rand_bytes L (sd_random sds) kRandomLen = Some rnd"
    and px: "length px = 32" and m: "parse_client_hello (cl_frame c) = Inr m"
    and shf: "serialize_server_hello \<lparr>sh_random = rnd, sh_x25519 = px, sh_mlkem_ct = ct\<rparr> = Inr (sv_sh_frame s)"
    and th: "evp_sha256 L (cl_frame c @ sv_sh_frame s) = Some th"
    and sig: "oqs_sig_sign L (sd_sign sds) th (sig_secret ids) = Some sig"
    and saf: "serialize_server_auth (Server_Auth sig) = Inr (sv_sa_frame s)"
    using s assms(8) by (auto simp: server_answers_def)
  have m_eq: "ch_mlkem m = public_key (cl_kem c)"
    using client_frame_parses [OF assms(2) c] m by (metis Inr_inject client_hello.select_convs(3))
  have kc: "oqs_kem_keypair L (sd_kem sdc) = Some (public_key (cl_kem c), secret_key (cl_kem c))"
    using c by (simp add: client_sent_def)
  have "valid_server_hello \<lparr>sh_random = rnd, sh_x25519 = px, sh_mlkem_ct = ct\<rparr>"
    using px sized(2) [OF assms(2) enc] sized(4) [OF assms(2) rnd] sized(7,8) [OF assms(2)]
    by (auto simp: valid_server_hello_def wire_consts)
  then have m2: "parse_server_hello (sv_sh_frame s) = Inr \<lparr>sh_random = rnd, sh_x25519 = px, sh_mlkem_ct = ct\<rparr>"
    using sh.par_ser shf by blast
  obtain ssc where d: "evp_x25519_derive L (cl_x c) px = Some ssc"
    using avail(8) [OF assms(1) px] by blast
  have dec: "oqs_kem_decaps L ct (secret_key (cl_kem c)) = Some ss"
    using assms(3) kc enc unfolding kem_correct_def m_eq by blast
  obtain ks where ks: "derive_session_keys L ssc ss (cl_random c) rnd th = Inr ks"
    using avail_keys [OF assms(1)] by blast
  have der: "client_derives L c (sv_sh_frame s) th ks"
    using m2 d dec th ks sized(2) [OF assms(2) enc] sized(1) [OF assms(2) kc]
    by (simp add: client_derives_def)
  have same: "ks = sv_keys s"
    using keys_agree [OF assms(3,4) c s _ der] assms(8) by simp
  have size: "keys_sized ks"
    using session_keys_sized [OF assms(2) ks] by (simp add: keys_sized_def record_consts)
  have ver: "mldsa_verify L th sig (peer_sig_public idc)"
    using assms(5) kps sig sized(3) [OF assms(2) kps] pin by (auto simp: mldsa_verify_def sig_correct_def)
  have sa: "parse_server_auth (sv_sa_frame s) = Inr (Server_Auth sig)"
    using signature_frames(1) [OF sized_signature [OF assms(2) sig]] saf by auto
  obtain th2 where th2: "evp_sha256 L ((cl_frame c @ sv_sh_frame s) @ sv_sa_frame s) = Some th2"
    using avail(9) [OF assms(1)] by blast
  obtain csig where csig: "oqs_sig_sign L (sd_sign sdc) th2 (sig_secret idc) = Some csig"
    using avail(5) [OF assms(1)] by blast
  obtain caf where caf: "serialize_client_auth (Client_Auth csig) = Inr caf"
    "parse_client_auth caf = Inr (Client_Auth csig)"
    using signature_frames(2) [OF sized_signature [OF assms(2) csig]] by blast
  have "client_accepts L idc sdc c (sv_sh_frame s) (sv_sa_frame s) caf (sv_keys s)"
    using der same size sa ver th2 csig caf sized(3) [OF assms(2) kpc]
    unfolding client_accepts_def by blast
  moreover have "mldsa_verify L th2 csig (sig_public idc)"
    using assms(5) kpc csig sized(3) [OF assms(2) kpc] by (auto simp: mldsa_verify_def sig_correct_def)
  ultimately show ?thesis
    using caf(2) th2 by (intro that)
qed

lemma honest_run:
  assumes "libs_available L" and "libs_sized L" and "kem_correct L" and "dh_correct L"
    and "sig_correct L" and "honest_identities L idc ids"
  obtains c s caf mid where "client_sent L sdc c" and "sv_ch_frame s = cl_frame c"
    and "client_accepts L idc sdc c (sv_sh_frame s) (sv_sa_frame s) caf (sv_keys s)"
    and "client_handshake L idc sdc (fresh_transport [sv_sh_frame s, sv_sa_frame s]) =
      (Inr (client_channel (sv_keys s)), finished_transport [cl_frame c, caf])"
    and "server_start L ids sds (fresh_transport [cl_frame c, caf]) = (Inr s, mid)"
    and "server_finish L ids s mid =
      (Inr (server_channel (sv_keys s)), finished_transport [sv_sh_frame s, sv_sa_frame s])"
proof -
  have key: "length (sig_secret ids) = sig_secret_len L" and pin: "peer_sig_public ids = sig_public idc"
    using assms(6) sized(3) [OF assms(2)] by (auto simp: honest_identities_def)
  obtain c where c: "client_sent L sdc c"
    using client_can_start [OF assms(1,2)] .
  obtain s th where s: "server_answers L ids sds s th" and cf: "sv_ch_frame s = cl_frame c"
    using server_can_answer [OF assms(1,2) c key] .
  obtain caf sig th2 where acc: "client_accepts L idc sdc c (sv_sh_frame s) (sv_sa_frame s) caf (sv_keys s)"
    and caf: "parse_client_auth caf = Inr (Client_Auth sig)" and ver: "mldsa_verify L th2 sig (sig_public idc)"
    and th2: "evp_sha256 L ((cl_frame c @ sv_sh_frame s) @ sv_sa_frame s) = Some th2"
    using client_can_accept [OF assms(1-5) c s cf assms(6)] .
  have "keys_sized (sv_keys s)"
    using acc by (auto simp: client_accepts_def)
  have client: "client_handshake L idc sdc (fresh_transport [sv_sh_frame s, sv_sa_frame s]) =
      (Inr (client_channel (sv_keys s)), finished_transport [cl_frame c, caf])"
    unfolding client_handshake_Inr fresh_transport_def finished_transport_def using c acc by auto
  have "server_start L ids sds (fresh_transport [cl_frame c, caf]) =
      (Inr s, \<lparr>t_in = [Inr caf], t_out = [sv_sh_frame s, sv_sa_frame s], t_send_fails = \<lambda>_. None\<rparr>)"
    unfolding server_start_Inr fresh_transport_def using s cf by auto
  moreover have "server_finish L ids s \<lparr>t_in = [Inr caf], t_out = [sv_sh_frame s, sv_sa_frame s],
      t_send_fails = \<lambda>_. None\<rparr> =
      (Inr (server_channel (sv_keys s)), finished_transport [sv_sh_frame s, sv_sa_frame s])"
    unfolding server_finish_Inr finished_transport_def
    using caf ver th2 cf pin \<open>keys_sized (sv_keys s)\<close> by auto
  ultimately show ?thesis
    using c cf acc client by (intro that)
qed

text \<open>
  C14. Two honest parties always complete.  If the libraries work as documented and each side has
  pinned the other's public key, then for all random choices there are four frames such that the
  client, given the server's two, sends its two, the server, given the client's two, sends its
  two, both functions return a channel, and each one's sender is in step with the other's receiver.
\<close>

theorem honest_handshake:
  assumes "libs_available L" and "libs_sized L" and "kem_correct L" and "dh_correct L"
    and "sig_correct L" and "gcm_correct L" and "honest_identities L idc ids"
  shows "\<exists>chf shf saf caf cc cs.
    client_handshake L idc sdc (fresh_transport [shf, saf]) = (Inr cc, finished_transport [chf, caf]) \<and>
    server_handshake L ids sds (fresh_transport [chf, caf]) = (Inr cs, finished_transport [shf, saf]) \<and>
    records_in_step L (chan_sender cc) (chan_receiver cs) \<and>
    records_in_step L (chan_sender cs) (chan_receiver cc)"
proof -
  obtain c s caf mid where "client_sent L sdc c" "sv_ch_frame s = cl_frame c"
    "client_accepts L idc sdc c (sv_sh_frame s) (sv_sa_frame s) caf (sv_keys s)"
    and client: "client_handshake L idc sdc (fresh_transport [sv_sh_frame s, sv_sa_frame s]) =
      (Inr (client_channel (sv_keys s)), finished_transport [cl_frame c, caf])"
    and start: "server_start L ids sds (fresh_transport [cl_frame c, caf]) = (Inr s, mid)"
    and finish: "server_finish L ids s mid =
      (Inr (server_channel (sv_keys s)), finished_transport [sv_sh_frame s, sv_sa_frame s])"
    by (rule honest_run [OF assms(1-5,7)])
  have "server_handshake L ids sds (fresh_transport [cl_frame c, caf]) =
      (Inr (server_channel (sv_keys s)), finished_transport [sv_sh_frame s, sv_sa_frame s])"
    unfolding server_handshake_Inr using start finish by blast
  with client show ?thesis
    using assms(2,6)
    by (intro exI conjI) (auto simp: records_in_step_def client_channel_def server_channel_def)
qed

subsection \<open>A conversation over the small libraries\<close>

definition toy_client :: identity where
  "toy_client = \<lparr>sig_public = [1], sig_secret = [1], peer_sig_public = [2]\<rparr>"

definition toy_server :: identity where
  "toy_server = \<lparr>sig_public = [2], sig_secret = [2], peer_sig_public = [1]\<rparr>"

definition toy_seeds :: "nat \<Rightarrow> hs_seeds" where
  "toy_seeds n = \<lparr>sd_x25519 = n, sd_kem = n, sd_random = n, sd_sign = n\<rparr>"

lemma toy_identities: "honest_identities toy_libs toy_client toy_server"
  unfolding honest_identities_def
  by (intro conjI exI [of _ 1] exI [of _ 2]) (simp_all add: toy_client_def toy_server_def toy_libs_def)

lemma honest_handshake_witness:
  "\<exists>shf saf chf caf cc. client_handshake toy_libs toy_client (toy_seeds 3) (fresh_transport [shf, saf]) =
     (Inr cc, finished_transport [chf, caf])"
  using honest_handshake [OF toy_libs_ok toy_identities, of "toy_seeds 3" "toy_seeds 4"] by blast

lemma client_authenticates_server_witness:
  "\<exists>(s :: server_state) chan t t'. client_handshake toy_libs toy_client (toy_seeds 3) t = (Inr chan, t') \<and>
     chan = client_channel (sv_keys s)"
proof -
  obtain c s caf mid where c: "client_sent toy_libs (toy_seeds 3) c" and cf: "sv_ch_frame s = cl_frame c"
    and acc: "client_accepts toy_libs toy_client (toy_seeds 3) c (sv_sh_frame s) (sv_sa_frame s) caf (sv_keys s)"
    and client: "client_handshake toy_libs toy_client (toy_seeds 3)
        (fresh_transport [sv_sh_frame s, sv_sa_frame s]) =
      (Inr (client_channel (sv_keys s)), finished_transport [cl_frame c, caf])"
    and start: "server_start toy_libs toy_server (toy_seeds 4) (fresh_transport [cl_frame c, caf]) = (Inr s, mid)"
    and finish: "server_finish toy_libs toy_server s mid =
      (Inr (server_channel (sv_keys s)), finished_transport [sv_sh_frame s, sv_sa_frame s])"
    by (rule honest_run [OF toy_libs_ok(1-5) toy_identities])
  have "\<exists>z \<in> set [s]. cl_frame c = sv_ch_frame z \<and> sv_sh_frame s = sv_sh_frame z \<and>
      client_channel (sv_keys s) = client_channel (sv_keys z)"
    by (rule client_authenticates_server [OF toy_libs_ok(3,4), where rest = "[]" and fails = "\<lambda>_. None"])
      (use client start cf in \<open>auto simp: fresh_transport_def finished_transport_def\<close>)
  then obtain z :: server_state where "client_channel (sv_keys s) = client_channel (sv_keys z)"
    by blast
  with client show ?thesis
    by metis
qed

lemma server_authenticates_client_witness:
  "\<exists>s t t1 chan t2 c shf saf ks. server_start toy_libs toy_server (toy_seeds 4) t = (Inr s, t1) \<and>
     server_finish toy_libs toy_server s t1 = (Inr chan, t2) \<and>
     client_session toy_libs (c, shf, saf, ks) \<and> chan = server_channel ks"
proof -
  obtain c s caf mid where c: "client_sent toy_libs (toy_seeds 3) c" and cf: "sv_ch_frame s = cl_frame c"
    and acc: "client_accepts toy_libs toy_client (toy_seeds 3) c (sv_sh_frame s) (sv_sa_frame s) caf (sv_keys s)"
    and client: "client_handshake toy_libs toy_client (toy_seeds 3)
        (fresh_transport [sv_sh_frame s, sv_sa_frame s]) =
      (Inr (client_channel (sv_keys s)), finished_transport [cl_frame c, caf])"
    and start: "server_start toy_libs toy_server (toy_seeds 4) (fresh_transport [cl_frame c, caf]) = (Inr s, mid)"
    and finish: "server_finish toy_libs toy_server s mid =
      (Inr (server_channel (sv_keys s)), finished_transport [sv_sh_frame s, sv_sa_frame s])"
    by (rule honest_run [OF toy_libs_ok(1-5) toy_identities])
  let ?z = "(c, sv_sh_frame s, sv_sa_frame s, sv_keys s)"
  have z: "client_session toy_libs ?z"
    unfolding client_session_def client_start_Inr using c acc
    by (auto simp: fresh_transport_def intro!: exI [of _ "toy_seeds 3"] exI [of _ toy_client] exI [of _ "fresh_transport []"])
  have "\<exists>(c', shf, saf, ks) \<in> set [?z]. cl_frame c' = sv_ch_frame s \<and> shf = sv_sh_frame s \<and>
      saf = sv_sa_frame s \<and> server_channel (sv_keys s) = server_channel ks"
    by (rule server_authenticates_client [OF toy_libs_ok(3,4) start finish])
      (use z cf in \<open>auto simp: session_text_def\<close>)
  then show ?thesis
    using start finish z by fastforce
qed

end
