(* ===== verification/Json.thy ===== *)
theory Json
  imports Doubles "HOL-Library.Char_ord" "HOL-Library.List_Lexorder"
begin

section \<open>The JSON serialiser\<close>

text \<open>
  The part of \<open>third_party/json/nlohmann/json.hpp\<close> that the program's output goes through: \<open>decode\<close>,
  \<open>dump_escaped\<close> and \<open>dump\<close> of the serialiser, for the kinds of values the program builds and with
  \<open>ensure_ascii\<close> false, as it is called.  \<open>None\<close> is the \<open>type_error\<close> that the strict handler throws.
  The digits of a floating-point number (\<open>dump_float\<close>) are a parameter.  The 512-byte buffer of
  \<open>dump_escaped\<close> is flushed at accepted positions only and does not show.
\<close>

subsection \<open>Decoding UTF-8\<close>

definition UTF8_ACCEPT :: nat where "UTF8_ACCEPT = 0"
definition UTF8_REJECT :: nat where "UTF8_REJECT = 1"

text \<open>The table: a type for every byte, then for every state a row of next states by type.\<close>

definition utf8_types :: "nat list" where
  "utf8_types =
     replicate 128 0 @ replicate 16 1 @ replicate 16 9 @ replicate 32 7 @ [8, 8] @ replicate 30 2 @
     [0xA] @ replicate 12 3 @ [4] @ replicate 2 3 @ [0xB, 6, 6, 6, 5] @ replicate 11 8"

definition utf8_rows :: "nat list list" where
  "utf8_rows =
    [[0, 1, 2, 3, 5, 8, 7, 1, 1, 1, 4, 6, 1, 1, 1, 1],
     [1, 1, 1, 1, 1, 1, 1, 1, 1, 1, 1, 1, 1, 1, 1, 1],
     [1, 0, 1, 1, 1, 1, 1, 0, 1, 0, 1, 1, 1, 1, 1, 1],
     [1, 2, 1, 1, 1, 1, 1, 2, 1, 2, 1, 1, 1, 1, 1, 1],
     [1, 1, 1, 1, 1, 1, 1, 2, 1, 1, 1, 1, 1, 1, 1, 1],
     [1, 2, 1, 1, 1, 1, 1, 1, 1, 2, 1, 1, 1, 1, 1, 1],
     [1, 1, 1, 1, 1, 1, 1, 3, 1, 3, 1, 1, 1, 1, 1, 1],
     [1, 3, 1, 1, 1, 1, 1, 3, 1, 3, 1, 1, 1, 1, 1, 1],
     [1, 3, 1, 1, 1, 1, 1, 1, 1, 1, 1, 1, 1, 1, 1, 1]]"

definition utf8d :: "nat list" where
  "utf8d = utf8_types @ concat utf8_rows"

text \<open>The new state and code point.\<close>

definition utf8_decode :: "nat \<Rightarrow> u32 \<Rightarrow> u8 \<Rightarrow> nat \<times> u32" where
  "utf8_decode state codep byte =
     (let ty = utf8d ! unat byte;
          codep' = (if state \<noteq> UTF8_ACCEPT then (ucast byte AND 0x3f) OR push_bit 6 codep
                    else drop_bit ty 0xff AND ucast byte)
      in (utf8d ! (256 + state * 16 + ty), codep'))"

subsection \<open>Escaping\<close>

definition hex_digit :: "nat \<Rightarrow> char" where
  "hex_digit n = ''0123456789abcdef'' ! n"

text \<open>\<open>\u%04x\<close>\<close>

definition hex4 :: "nat \<Rightarrow> string" where
  "hex4 n = [CHR 0x5C, CHR ''u'', hex_digit (n div 4096 mod 16), hex_digit (n div 256 mod 16),
     hex_digit (n div 16 mod 16), hex_digit (n mod 16)]"

definition escape_codepoint :: "u32 \<Rightarrow> char \<Rightarrow> string" where
  "escape_codepoint cp c =
     (if cp = 0x08 then [CHR 0x5C, CHR ''b'']
      else if cp = 0x09 then [CHR 0x5C, CHR ''t'']
      else if cp = 0x0A then [CHR 0x5C, CHR ''n'']
      else if cp = 0x0C then [CHR 0x5C, CHR ''f'']
      else if cp = 0x0D then [CHR 0x5C, CHR ''r'']
      else if cp = 0x22 then [CHR 0x5C, CHR 0x22]
      else if cp = 0x5C then [CHR 0x5C, CHR 0x5C]
      else if cp \<le> 0x1F then hex4 (unat cp)
      else [c])"

definition replacement :: string where
  "replacement = [CHR 0xEF, CHR 0xBF, CHR 0xBD]"

datatype error_handler = Strict | Replace

text \<open>
  The loop of \<open>dump_escaped\<close>: what was written up to the last accepted byte, and the bytes of an
  unfinished code point.  An invalid byte that ends an unfinished code point is read again.
\<close>

function escape_loop :: "error_handler \<Rightarrow> nat \<Rightarrow> u32 \<Rightarrow> string \<Rightarrow> string \<Rightarrow> string \<Rightarrow> string option" where
  "escape_loop h state cp out pending [] =
     (if state = UTF8_ACCEPT then Some (out @ pending)
      else case h of Strict \<Rightarrow> None | Replace \<Rightarrow> Some (out @ replacement))"
| "escape_loop h state cp out pending (c # s) =
     (let (state', cp') = utf8_decode state cp (of_char c)
      in if state' = UTF8_ACCEPT then escape_loop h state' cp' (out @ pending @ escape_codepoint cp' c) [] s
         else if state' = UTF8_REJECT
         then (case h of
                 Strict \<Rightarrow> None
               | Replace \<Rightarrow>
                   if pending \<noteq> [] then escape_loop h UTF8_ACCEPT cp' (out @ replacement) [] (c # s)
                   else escape_loop h UTF8_ACCEPT cp' (out @ replacement) [] s)
         else escape_loop h state' cp' out (pending @ [c]) s)"
  by pat_completeness auto
termination
  by (relation "measure (\<lambda>(h, state, cp, out, pending, s). 2 * length s + (if pending = [] then 0 else 1))") auto

definition dump_escaped :: "error_handler \<Rightarrow> string \<Rightarrow> string option" where
  "dump_escaped h s = escape_loop h UTF8_ACCEPT 0 [] [] s"

subsection \<open>Values\<close>

datatype json =
    J_null | J_bool bool | J_int int | J_float double | J_string string
  | J_array "json list" | J_object "(string \<times> json) list"

text \<open>An object is a map, so its members are ordered by key.\<close>

definition json_object :: "(string \<times> json) list \<Rightarrow> json" where
  "json_object ms = J_object (sort_key fst ms)"

definition dec_int :: "int \<Rightarrow> string" where
  "dec_int n = (if n < 0 then ''-'' @ dec_nat (nat (- n)) else dec_nat (nat n))"

record dump_config =
  dc_handler :: error_handler
  dc_indent :: "nat option"
  dc_float :: "double \<Rightarrow> string"

definition spaces :: "nat \<Rightarrow> string" where
  "spaces n = replicate n (CHR '' '')"

definition json_open :: "dump_config \<Rightarrow> char \<Rightarrow> string" where
  "json_open dc c = (case dc_indent dc of None \<Rightarrow> [c] | Some w \<Rightarrow> [c, CHR 0x0A])"

definition json_lead :: "dump_config \<Rightarrow> nat \<Rightarrow> string" where
  "json_lead dc cur = (case dc_indent dc of None \<Rightarrow> [] | Some w \<Rightarrow> spaces (cur + w))"

definition json_inner :: "dump_config \<Rightarrow> nat \<Rightarrow> nat" where
  "json_inner dc cur = (case dc_indent dc of None \<Rightarrow> cur | Some w \<Rightarrow> cur + w)"

definition json_separator :: "dump_config \<Rightarrow> string" where
  "json_separator dc = (case dc_indent dc of None \<Rightarrow> '','' | Some w \<Rightarrow> [CHR '','', CHR 0x0A])"

definition json_close :: "dump_config \<Rightarrow> nat \<Rightarrow> char \<Rightarrow> string" where
  "json_close dc cur c = (case dc_indent dc of None \<Rightarrow> [c] | Some w \<Rightarrow> [CHR 0x0A] @ spaces cur @ [c])"

definition json_colon :: "dump_config \<Rightarrow> string" where
  "json_colon dc = [CHR 0x22, CHR '':''] @ (if dc_indent dc = None then [] else '' '')"

text \<open>\<open>dump\<close> of a value at an indentation; members and elements with the separators between them.\<close>

fun dump_value :: "dump_config \<Rightarrow> nat \<Rightarrow> json \<Rightarrow> string option"
  and dump_members :: "dump_config \<Rightarrow> nat \<Rightarrow> (string \<times> json) list \<Rightarrow> string option"
  and dump_elements :: "dump_config \<Rightarrow> nat \<Rightarrow> json list \<Rightarrow> string option" where
  "dump_value dc cur J_null = Some ''null''"
| "dump_value dc cur (J_bool b) = Some (if b then ''true'' else ''false'')"
| "dump_value dc cur (J_int n) = Some (dec_int n)"
| "dump_value dc cur (J_float d) = Some (dc_float dc d)"
| "dump_value dc cur (J_string s) =
     map_option (\<lambda>t. [CHR 0x22] @ t @ [CHR 0x22]) (dump_escaped (dc_handler dc) s)"
| "dump_value dc cur (J_array js) =
     (if js = [] then Some ''[]''
      else map_option (\<lambda>t. json_open dc (CHR ''['') @ t @ json_close dc cur (CHR '']'')) (dump_elements dc cur js))"
| "dump_value dc cur (J_object ms) =
     (if ms = [] then Some ''{}''
      else map_option (\<lambda>t. json_open dc (CHR ''{'') @ t @ json_close dc cur (CHR ''}'')) (dump_members dc cur ms))"
| "dump_members dc cur [] = Some []"
| "dump_members dc cur ((k, v) # ms) =
     (case dump_escaped (dc_handler dc) k of
        None \<Rightarrow> None
      | Some k' \<Rightarrow>
          (case dump_value dc (json_inner dc cur) v of
             None \<Rightarrow> None
           | Some v' \<Rightarrow>
               (case dump_members dc cur ms of
                  None \<Rightarrow> None
                | Some r \<Rightarrow> Some (json_lead dc cur @ [CHR 0x22] @ k' @ json_colon dc @ v' @ (if ms = [] then [] else json_separator dc) @ r))))"
| "dump_elements dc cur [] = Some []"
| "dump_elements dc cur (j # js) =
     (case dump_value dc (json_inner dc cur) j of
        None \<Rightarrow> None
      | Some j' \<Rightarrow>
          (case dump_elements dc cur js of
             None \<Rightarrow> None
           | Some r \<Rightarrow> Some (json_lead dc cur @ j' @ (if js = [] then [] else json_separator dc) @ r)))"

definition dump_json :: "dump_config \<Rightarrow> json \<Rightarrow> string option" where
  "dump_json dc j = dump_value dc 0 j"

end
