(* ===== verification/Llm.thy ===== *)
theory Llm
  imports Alert Messages Json
begin

section \<open>The language-model clients\<close>

text \<open>
  \<open>analyzer/src/llm_client.h\<close>, \<open>llm_client.cpp\<close> (the deterministic mock) and
  \<open>llm_client_claude.cpp\<close> (the HTTPS client).  The abstract class \<open>LlmClient\<close> is the record
  \<open>llm_client\<close> of its two virtual functions on the object's state.  The request is written
  by the serialiser of \<open>Json\<close>.  libcurl and what reads replies are the parameters \<open>web\<close> and \<open>json_lib\<close>;
  every failure they can report is a branch.
\<close>

record classification =
  c_verdict :: verdict
  c_severity :: severity
  c_confidence :: double
  c_reason :: string
  c_model :: string
  c_input_tokens :: u64
  c_output_tokens :: u64

definition default_classification :: classification where
  "default_classification = \<lparr>c_verdict = Unknown, c_severity = Info, c_confidence = double_zero,
     c_reason = [], c_model = [], c_input_tokens = 0, c_output_tokens = 0\<rparr>"

record 's llm_client =
  llm_classify :: "'s \<Rightarrow> string \<Rightarrow> classification \<times> 's"
  llm_deep_analyze :: "'s \<Rightarrow> string \<Rightarrow> classification \<times> 's"

subsection \<open>The mock\<close>

definition mock_suspicious :: "string \<Rightarrow> bool" where
  "mock_suspicious context \<longleftrightarrow>
     contains_sub context ''curl'' \<or> contains_sub context ''wget'' \<or>
     contains_sub context ''python'' \<or> contains_sub context ''perl'' \<or>
     contains_sub context ''/tmp'' \<or> contains_sub context '':4444'' \<or>
     contains_sub context ''powershell''"

definition mock_classify :: "string \<Rightarrow> classification" where
  "mock_classify context =
     (let c = default_classification\<lparr>c_model := ''mock-haiku''\<rparr>
      in if mock_suspicious context
         then c\<lparr>c_verdict := Suspicious, c_confidence := round_to_double 7 10, c_reason := msg_mock_suspicious\<rparr>
         else c\<lparr>c_verdict := Normal, c_confidence := round_to_double 8 10, c_reason := msg_mock_normal\<rparr>)"

definition mock_deep_analyze :: "string \<Rightarrow> classification" where
  "mock_deep_analyze context =
     default_classification\<lparr>c_model := ''mock-sonnet'', c_verdict := Suspicious, c_severity := Medium,
       c_confidence := round_to_double 3 4, c_reason := msg_mock_deep @ context @ '']''\<rparr>"

definition mock_client :: "unit llm_client" where
  "mock_client = \<lparr>llm_classify = \<lambda>_ ctx. (mock_classify ctx, ()),
     llm_deep_analyze = \<lambda>_ ctx. (mock_deep_analyze ctx, ())\<rparr>"

subsection \<open>Untrusted context\<close>

definition kMaxContextBytes :: nat where "kMaxContextBytes = 600"

definition context_char :: "char \<Rightarrow> char" where
  "context_char c =
     (let n = of_char c :: nat in if n < 0x20 \<or> n = 0x7f then CHR '' '' else c)"

text \<open>\<open>(c & 0xC0) == 0x80\<close>: a UTF-8 continuation byte.\<close>

definition utf8_continuation :: "char \<Rightarrow> bool" where
  "utf8_continuation c \<longleftrightarrow> byte_of_char c AND 0xC0 = 0x80"

fun utf8_cut :: "string \<Rightarrow> nat \<Rightarrow> nat" where
  "utf8_cut out 0 = 0"
| "utf8_cut out (Suc n) = (if utf8_continuation (out ! Suc n) then utf8_cut out n else Suc n)"

definition sanitize_context :: "string \<Rightarrow> string" where
  "sanitize_context s =
     (let out = map context_char s
      in if kMaxContextBytes < length out
         then take (utf8_cut out kMaxContextBytes) out @ '' ...(truncated)'' else out)"

definition wrap_event :: "string \<Rightarrow> string" where
  "wrap_event context = event_preamble @ sanitize_context context @ ''</event>''"

subsection \<open>Replies\<close>

definition parse_verdict :: "string \<Rightarrow> verdict" where
  "parse_verdict s =
     (if s = ''normal'' then Normal else if s = ''suspicious'' then Suspicious
      else if s = ''malicious'' then Malicious else Unknown)"

definition parse_severity :: "string \<Rightarrow> severity" where
  "parse_severity s =
     (if s = ''low'' then Low else if s = ''medium'' then Medium else if s = ''high'' then High
      else if s = ''critical'' then Critical else Info)"

definition rfind_char :: "char \<Rightarrow> string \<Rightarrow> nat option" where
  "rfind_char x s = map_option (\<lambda>i. length s - 1 - i) (find_char x (rev s))"

text \<open>From the first opening to the last closing brace; empty if there is no such part.\<close>

definition extract_json :: "string \<Rightarrow> string" where
  "extract_json txt =
     (case (find_char (CHR ''{'') txt, rfind_char (CHR ''}'') txt) of
        (Some a, Some b) \<Rightarrow> if b \<le> a then [] else take (b - a + 1) (drop a txt)
      | _ \<Rightarrow> [])"

definition fail_safe :: "string \<Rightarrow> string \<Rightarrow> classification" where
  "fail_safe model why =
     default_classification\<lparr>c_model := model, c_verdict := Unknown, c_severity := Medium,
       c_reason := msg_fail_safe @ why\<rparr>"

subsection \<open>The HTTPS client\<close>

datatype post_result = Curl_init_failed | Curl_failed string | Http nat "string list"

text \<open>The request as libcurl is told to make it.\<close>

record http_request =
  rq_url :: string
  rq_headers :: "string list"
  rq_body :: string
  rq_timeout :: nat

text \<open>
  \<open>web_post\<close> performs a request; its state is whatever answers, and a completed request gives the status
  and the parts in which the body came.  The JSON library: the digits of a double, the text of the
  first content block of a reply, an object from a text, an object's members with a default (each may
  throw, with the exception's text), and the token counts of a reply if it has any.
\<close>

record 'e web =
  web_post :: "http_request \<Rightarrow> 'e \<Rightarrow> post_result \<times> 'e"

record 'j json_lib =
  js_float :: "double \<Rightarrow> string"
  js_reply_text :: "string \<Rightarrow> string + string"
  js_parse :: "string \<Rightarrow> string + 'j"
  js_string :: "'j \<Rightarrow> string \<Rightarrow> string \<Rightarrow> string + string"
  js_double :: "'j \<Rightarrow> string \<Rightarrow> double \<Rightarrow> string + double"
  js_usage :: "string \<Rightarrow> string + (u64 \<times> u64) option"

definition request_json :: "string \<Rightarrow> nat \<Rightarrow> string \<Rightarrow> string \<Rightarrow> json" where
  "request_json model max_tokens system user = json_object
     [(''model'', J_string model), (''max_tokens'', J_int (int max_tokens)), (''system'', J_string system),
      (''messages'', J_array [json_object [(''role'', J_string ''user''), (''content'', J_string user)]])]"

text \<open>The replacing handler never throws (\<open>Prompt\<close>), so \<open>dump\<close> returns a text.\<close>

definition request_body :: "'j json_lib \<Rightarrow> string \<Rightarrow> nat \<Rightarrow> string \<Rightarrow> string \<Rightarrow> string" where
  "request_body J model max_tokens system user =
     the (dump_json \<lparr>dc_handler = Replace, dc_indent = None, dc_float = js_float J\<rparr>
       (request_json model max_tokens system user))"

definition messages_request :: "string \<Rightarrow> string \<Rightarrow> http_request" where
  "messages_request key body =
     \<lparr>rq_url = ''https://api.anthropic.com/v1/messages'',
      rq_headers = [''content-type: application/json'', ''anthropic-version: 2023-06-01'', cstr (''x-api-key: '' @ key)],
      rq_body = body, rq_timeout = 30\<rparr>"

definition write_cb :: "string \<Rightarrow> string \<Rightarrow> string" where
  "write_cb resp part = resp @ part"

definition resp_text :: "string list \<Rightarrow> string" where
  "resp_text parts = foldl write_cb [] parts"

record claude =
  api_key :: string
  haiku_model :: string
  sonnet_model :: string

definition new_claude :: "string \<Rightarrow> claude" where
  "new_claude key = \<lparr>api_key = key, haiku_model = ''claude-haiku-4-5'', sonnet_model = ''claude-sonnet-5''\<rparr>"

text \<open>The body of the \<open>try\<close> block: the reply's text to a classification, or an exception's text.\<close>

definition read_reply :: "'j json_lib \<Rightarrow> string \<Rightarrow> bool \<Rightarrow> string \<Rightarrow> string + classification" where
  "read_reply J model deep resp =
     and_then (js_reply_text J resp) (\<lambda>txt.
       (let obj = extract_json txt
        in if obj = [] then Inr (fail_safe model msg_no_json)
           else and_then (js_parse J obj) (\<lambda>p.
                and_then (js_string J p ''verdict'' ''unknown'') (\<lambda>v.
                and_then (if deep then and_then (js_string J p ''severity'' ''medium'') (\<lambda>s. Inr (parse_severity s))
                          else Inr Info) (\<lambda>sev.
                and_then (js_double J p ''confidence'' double_zero) (\<lambda>conf.
                and_then (js_string J p ''reason'' []) (\<lambda>reason.
                and_then (js_usage J resp) (\<lambda>usage.
                  let tokens = (case usage of None \<Rightarrow> (0, 0) | Some u \<Rightarrow> u)
                  in Inr \<lparr>c_verdict = parse_verdict v, c_severity = sev, c_confidence = conf,
                       c_reason = reason, c_model = model, c_input_tokens = fst tokens,
                       c_output_tokens = snd tokens\<rparr>))))))))"

definition claude_call ::
  "'e web \<Rightarrow> 'j json_lib \<Rightarrow> string \<Rightarrow> string \<Rightarrow> string \<Rightarrow> string \<Rightarrow> nat \<Rightarrow> bool \<Rightarrow> 'e \<Rightarrow>
     classification \<times> 'e" where
  "claude_call W J key model system user max_tokens deep env =
     (if key = [] then (fail_safe model msg_no_key, env)
      else let body = request_body J model max_tokens system user;
               (res, env') = web_post W (messages_request key body) env
           in (case res of
                 Curl_init_failed \<Rightarrow> fail_safe model msg_curl_init
               | Curl_failed why \<Rightarrow> fail_safe model (msg_transport @ why)
               | Http code parts \<Rightarrow>
                   let resp = resp_text parts
                   in if code \<noteq> 200
                   then fail_safe model (''HTTP '' @ dec_nat code @ '': '' @ take 200 resp)
                   else (case read_reply J model deep resp of
                           Inl what \<Rightarrow> fail_safe model (msg_bad_reply @ what)
                         | Inr c \<Rightarrow> c),
               env'))"

definition claude_client :: "'e web \<Rightarrow> 'j json_lib \<Rightarrow> claude \<Rightarrow> 'e llm_client" where
  "claude_client W J c =
     \<lparr>llm_classify = \<lambda>env ctx.
        claude_call W J (api_key c) (haiku_model c) classify_system (wrap_event ctx) 256 False env,
      llm_deep_analyze = \<lambda>env ctx.
        claude_call W J (api_key c) (sonnet_model c) deep_system (wrap_event ctx) 512 True env\<rparr>"

subsection \<open>The context sent to the model is bounded and free of control characters\<close>

lemma utf8_cut_le: "utf8_cut out n \<le> n"
  by (induction n) (auto intro: le_SucI)

lemma utf8_cut_boundary: "utf8_cut out n = 0 \<or> \<not> utf8_continuation (out ! utf8_cut out n)"
  by (induction n) auto

definition control_char :: "char \<Rightarrow> bool" where
  "control_char c \<longleftrightarrow> (of_char c :: nat) < 0x20 \<or> (of_char c :: nat) = 0x7f"

lemma context_char_control [simp]: "\<not> control_char (context_char c)"
  by (simp add: context_char_def control_char_def Let_def)

text \<open>
  C25. Whatever an attacker puts into an event, the text between the event tags of a prompt is at
  most 615 bytes long, holds no control character (so no line of its own), and where it is cut the
  cut falls in front of a byte that starts a UTF-8 character.
\<close>

theorem sanitize_context_safe:
  "length (sanitize_context s) \<le> 615 \<and> list_all (\<lambda>c. \<not> control_char c) (sanitize_context s) \<and>
   (sanitize_context s = map context_char s \<or>
    (\<exists>n \<le> 600. sanitize_context s = take n (map context_char s) @ '' ...(truncated)'' \<and>
       (n = 0 \<or> \<not> utf8_continuation (map context_char s ! n))))"
proof -
  have "list_all (\<lambda>c. \<not> control_char c) (take n (map context_char s))" for n
    by (auto simp: list_all_iff dest!: in_set_takeD)
  moreover have "list_all (\<lambda>c. \<not> control_char c) '' ...(truncated)''"
    by (simp add: control_char_def)
  moreover have "min (length s) (utf8_cut out 600) \<le> 600" for out
    using utf8_cut_le [of out 600] by simp
  ultimately show ?thesis
    using utf8_cut_le [of "map context_char s" 600] utf8_cut_boundary [of "map context_char s" 600]
    by (auto simp: sanitize_context_def kMaxContextBytes_def Let_def list_all_iff)
qed

lemma sanitize_context_safe_witness:
  "length (sanitize_context (replicate 700 (CHR 0x0A))) \<le> 615 \<and>
   list_all (\<lambda>c. \<not> control_char c) (sanitize_context (replicate 700 (CHR 0x0A)))"
  using sanitize_context_safe [of "replicate 700 (CHR 0x0A)"] by blast

subsection \<open>A failure is never a verdict\<close>

definition is_fail_safe :: "classification \<Rightarrow> bool" where
  "is_fail_safe c \<longleftrightarrow> c_verdict c = Unknown \<and> c_severity c = Medium \<and> starts_with msg_fail_safe (c_reason c)"

lemma is_fail_safe_fail_safe [simp]: "is_fail_safe (fail_safe m why)"
  by (simp add: is_fail_safe_def fail_safe_def default_classification_def)

definition reply_verdict :: "'j json_lib \<Rightarrow> string \<Rightarrow> verdict option" where
  "reply_verdict J resp =
     (case js_reply_text J resp of
        Inl _ \<Rightarrow> None
      | Inr txt \<Rightarrow> (case js_parse J (extract_json txt) of
            Inl _ \<Rightarrow> None
          | Inr p \<Rightarrow> (case js_string J p ''verdict'' ''unknown'' of
                Inl _ \<Rightarrow> None | Inr v \<Rightarrow> Some (parse_verdict v))))"

lemma read_reply_Inr:
  "read_reply J model deep resp = Inr c \<Longrightarrow> is_fail_safe c \<or> reply_verdict J resp = Some (c_verdict c)"
  by (auto simp: read_reply_def reply_verdict_def Let_def and_then_Inr_iff split: if_splits prod.splits)

text \<open>
  The HTTPS client answers "normal" only on the strength of a reply: it had a key, the request
  was carried out with status 200, and the reply held a JSON object whose verdict is the word
  "normal".  Every failure (no key, transport, status, missing or malformed JSON) gives the verdict
  Unknown with severity Medium instead.
\<close>

theorem claude_answers_or_fails_safe:
  "is_fail_safe (fst (claude_call W J key model system user n deep env)) \<or>
   (key \<noteq> [] \<and> (\<exists>parts. fst (web_post W (messages_request key (request_body J model n system user)) env) = Http 200 parts \<and>
      reply_verdict J (resp_text parts) = Some (c_verdict (fst (claude_call W J key model system user n deep env)))))"
proof (cases "key = []")
  case False
  obtain res env' where r: "web_post W (messages_request key (request_body J model n system user)) env = (res, env')"
    by (cases "web_post W (messages_request key (request_body J model n system user)) env") auto
  show ?thesis
    using False r
    by (cases res) (auto simp: claude_call_def Let_def dest: read_reply_Inr split: sum.split)
qed (simp add: claude_call_def)

end
