(* ===== verification/Pipeline.thy ===== *)
theory Pipeline
  imports Correlator_Spec Llm
begin

section \<open>The classification pipeline\<close>

text \<open>
  \<open>analyzer/src/pipeline.cpp\<close>: what becomes of one event.  The rule prefilter and the sequence
  correlator come first, the two tiers of the language model after them; the outcome names the
  layer that decided.  The client is any \<open>llm_client\<close> on any state.
\<close>

datatype layer =
    L_Drop | L_Rule | L_RuleCorrelation | L_CorrelationSonnet | L_HaikuNormal | L_Sonnet | L_AgentDrop

fun layer_string :: "layer \<Rightarrow> string" where
  "layer_string L_Drop = ''drop''"
| "layer_string L_Rule = ''rule''"
| "layer_string L_RuleCorrelation = ''rule+correlation''"
| "layer_string L_CorrelationSonnet = ''correlation+sonnet''"
| "layer_string L_HaikuNormal = ''haiku-normal''"
| "layer_string L_Sonnet = ''sonnet''"
| "layer_string L_AgentDrop = ''agent-drop''"

record outcome =
  o_layer :: layer
  o_alerted :: bool
  o_alert :: alert
  o_log_line :: string
  o_haiku_calls :: nat
  o_sonnet_calls :: nat
  o_input_tokens :: u64
  o_output_tokens :: u64

definition new_outcome :: outcome where
  "new_outcome = \<lparr>o_layer = L_Drop, o_alerted = False, o_alert = default_alert, o_log_line = [],
     o_haiku_calls = 0, o_sonnet_calls = 0, o_input_tokens = 0, o_output_tokens = 0\<rparr>"

definition make_alert :: "security_event \<Rightarrow> string \<Rightarrow> verdict \<Rightarrow> severity \<Rightarrow> string \<Rightarrow> string \<Rightarrow> alert" where
  "make_alert ev summary v s source reason =
     \<lparr>a_verdict = v, a_severity = s, a_source = source, a_reason = reason, a_event_summary = summary,
      a_pid = ev_pid ev, a_comm = cstr (ev_comm ev)\<rparr>"

definition account :: "outcome \<Rightarrow> classification \<Rightarrow> bool \<Rightarrow> outcome" where
  "account out c sonnet =
     (let out1 = (if sonnet then out\<lparr>o_sonnet_calls := o_sonnet_calls out + 1\<rparr>
                  else out\<lparr>o_haiku_calls := o_haiku_calls out + 1\<rparr>)
      in out1\<lparr>o_input_tokens := o_input_tokens out1 + c_input_tokens c,
              o_output_tokens := o_output_tokens out1 + c_output_tokens c\<rparr>)"

definition alert_outcome :: "outcome \<Rightarrow> layer \<Rightarrow> alert \<Rightarrow> outcome" where
  "alert_outcome out l a = out\<lparr>o_layer := l, o_alerted := True, o_alert := a\<rparr>"

subsection \<open>The branches\<close>

definition drop_notice_reason :: "pqsec_drop_event \<Rightarrow> string" where
  "drop_notice_reason d = snprintf_buf 240
     (msg_drop_1 @ dec_nat (unat (dropped d)) @ msg_drop_2 @ dec_nat (unat (dropped_total d)) @
      msg_drop_3 @ dec_nat (unat (sent_total d)) @ msg_drop_4)"

definition agent_drop_outcome :: "security_event \<Rightarrow> pqsec_drop_event \<Rightarrow> outcome" where
  "agent_drop_outcome ev d =
     alert_outcome new_outcome L_AgentDrop
       (make_alert ev (event_summary ev) Unknown Medium ''agent'' (drop_notice_reason d))"

definition corrected_verdict :: "verdict \<Rightarrow> verdict" where
  "corrected_verdict v = (if v = Normal \<or> v = Unknown then Suspicious else v)"

definition correlated_outcome ::
  "security_event \<Rightarrow> prefilter_result \<Rightarrow> correlation_hit \<Rightarrow> 's llm_client \<Rightarrow> 's \<Rightarrow> outcome \<times> 's" where
  "correlated_outcome ev pr h llm s =
     (let summary = event_summary ev
      in if pr_decision pr = Raise
         then (alert_outcome new_outcome L_RuleCorrelation
                 (make_alert ev summary Malicious (max (pr_severity pr) (h_severity h))
                    (''rule+'' @ h_rule h) (pr_reason pr @ ''; '' @ h_reason h)), s)
         else let (c, s') = llm_deep_analyze llm s (summary @ '' | correlation: '' @ h_reason h)
              in (alert_outcome (account new_outcome c True) L_CorrelationSonnet
                    (make_alert ev summary (corrected_verdict (c_verdict c))
                       (max (c_severity c) (h_severity h)) (h_rule h @ ''+sonnet'')
                       (h_reason h @ '' / '' @ c_reason c)), s'))"

definition haiku_log_line :: "classification \<Rightarrow> string \<Rightarrow> string" where
  "haiku_log_line h summary =
     ''  [llm:'' @ c_model h @ '' normal] '' @ summary @ ''  ('' @ c_reason h @ '', conf='' @
     snprintf_buf 32 (fmt_fixed 2 (c_confidence h)) @ '')''"

definition escalated_outcome :: "security_event \<Rightarrow> 's llm_client \<Rightarrow> 's \<Rightarrow> outcome \<times> 's" where
  "escalated_outcome ev llm s =
     (let summary = event_summary ev;
          (h, s1) = llm_classify llm s summary;
          out1 = account new_outcome h False
      in if c_verdict h = Normal
         then (out1\<lparr>o_layer := L_HaikuNormal, o_log_line := haiku_log_line h summary\<rparr>, s1)
         else let (c, s2) = llm_deep_analyze llm s1 summary
              in (alert_outcome (account out1 c True) L_Sonnet
                    (make_alert ev summary (c_verdict c) (c_severity c) ''sonnet'' (c_reason c)), s2))"

definition classify_event ::
  "security_event \<Rightarrow> 's llm_client \<Rightarrow> 's \<times> correlator \<Rightarrow> outcome \<times> 's \<times> correlator" where
  "classify_event ev llm st =
     (let (s, corr) = st; summary = event_summary ev
      in case ev_u ev of
           U_drop d \<Rightarrow> (agent_drop_outcome ev d, s, corr)
         | _ \<Rightarrow>
             (let pr = prefilter ev; (h, corr') = observe corr ev
              in if hit h
                 then (let (out, s') = correlated_outcome ev pr h llm s in (out, s', corr'))
                 else (case pr_decision pr of
                         Drop \<Rightarrow>
                           (new_outcome\<lparr>o_layer := L_Drop,
                              o_log_line := ''  [drop]  '' @ summary @ ''  ('' @ pr_reason pr @ '')''\<rparr>,
                            s, corr')
                       | Raise \<Rightarrow>
                           (alert_outcome new_outcome L_Rule
                              (make_alert ev summary Malicious (pr_severity pr) ''rule'' (pr_reason pr)),
                            s, corr')
                       | Escalate \<Rightarrow>
                           (let (out, s') = escalated_outcome ev llm s in (out, s', corr')))))"

text \<open>\<open>process_event\<close>: the alert that \<open>emit_alert\<close> gets, or the line on \<open>stderr\<close>.\<close>

datatype emitted = Alert_output alert | Log_output string

definition process_event ::
  "security_event \<Rightarrow> 's llm_client \<Rightarrow> 's \<times> correlator \<Rightarrow> emitted \<times> 's \<times> correlator" where
  "process_event ev llm st =
     (let (out, st') = classify_event ev llm st
      in (if o_alerted out then Alert_output (o_alert out)
          else Log_output (cstr (o_log_line out) @ [CHR 0x0A]), st'))"

text \<open>The events of a stream in turn, with the state carried from one to the next.\<close>

fun process_all ::
  "security_event list \<Rightarrow> 's llm_client \<Rightarrow> 's \<times> correlator \<Rightarrow> emitted list \<times> 's \<times> correlator" where
  "process_all [] llm st = ([], st)"
| "process_all (e # es) llm st =
     (let (x, st1) = process_event e llm st; (xs, st2) = process_all es llm st1 in (x # xs, st2))"

subsection \<open>The layer that decides\<close>

text \<open>
  The decision table, from the four facts it depends on: is the event a drop notice, does a
  sequence rule fire, what does the prefilter say, and what would the first tier answer.
\<close>

definition decided_layer :: "bool \<Rightarrow> bool \<Rightarrow> prefilter_decision \<Rightarrow> verdict \<Rightarrow> layer" where
  "decided_layer notice correlated d v =
     (if notice then L_AgentDrop
      else if correlated then (if d = Raise then L_RuleCorrelation else L_CorrelationSonnet)
      else (case d of
              Drop \<Rightarrow> L_Drop
            | Raise \<Rightarrow> L_Rule
            | Escalate \<Rightarrow> if v = Normal then L_HaikuNormal else L_Sonnet))"

definition is_notice :: "security_event \<Rightarrow> bool" where
  "is_notice ev \<longleftrightarrow> (case ev_u ev of U_drop d \<Rightarrow> True | _ \<Rightarrow> False)"

lemma account_simps [simp]:
  "o_haiku_calls (account out c sonnet) = o_haiku_calls out + (if sonnet then 0 else 1)"
  "o_sonnet_calls (account out c sonnet) = o_sonnet_calls out + (if sonnet then 1 else 0)"
  "o_input_tokens (account out c sonnet) = o_input_tokens out + c_input_tokens c"
  "o_output_tokens (account out c sonnet) = o_output_tokens out + c_output_tokens c"
  "o_layer (account out c sonnet) = o_layer out"
  "o_alerted (account out c sonnet) = o_alerted out"
  "o_alert (account out c sonnet) = o_alert out"
  "o_log_line (account out c sonnet) = o_log_line out"
  by (simp_all add: account_def Let_def)

lemma alert_outcome_simps [simp]:
  "o_haiku_calls (alert_outcome out l a) = o_haiku_calls out"
  "o_sonnet_calls (alert_outcome out l a) = o_sonnet_calls out"
  "o_input_tokens (alert_outcome out l a) = o_input_tokens out"
  "o_output_tokens (alert_outcome out l a) = o_output_tokens out"
  "o_layer (alert_outcome out l a) = l"
  "o_alerted (alert_outcome out l a)"
  "o_alert (alert_outcome out l a) = a"
  by (simp_all add: alert_outcome_def)

lemma make_alert_simps [simp]:
  "a_verdict (make_alert ev summary v s src r) = v"
  "a_severity (make_alert ev summary v s src r) = s"
  "a_source (make_alert ev summary v s src r) = src"
  "a_reason (make_alert ev summary v s src r) = r"
  "a_event_summary (make_alert ev summary v s src r) = summary"
  "a_pid (make_alert ev summary v s src r) = ev_pid ev"
  "a_comm (make_alert ev summary v s src r) = cstr (ev_comm ev)"
  by (simp_all add: make_alert_def)

lemma new_outcome_simps [simp]:
  "o_haiku_calls new_outcome = 0" "o_sonnet_calls new_outcome = 0"
  "o_input_tokens new_outcome = 0" "o_output_tokens new_outcome = 0"
  "\<not> o_alerted new_outcome" "o_layer new_outcome = L_Drop"
  by (simp_all add: new_outcome_def)

lemma corrected_verdict_cases [simp]:
  "corrected_verdict v \<noteq> Normal" "corrected_verdict v \<noteq> Unknown"
  "corrected_verdict v = Malicious \<longleftrightarrow> v = Malicious"
  by (cases v; simp add: corrected_verdict_def)+

text \<open>The five ways an event that is no notice can go, one rule each.\<close>

lemma classify_notice:
  "ev_u ev = U_drop d \<Longrightarrow> classify_event ev llm (s, corr) = (agent_drop_outcome ev d, s, corr)"
  by (simp add: classify_event_def)

lemma classify_correlated:
  assumes "\<not> is_notice ev" and "hit (fst (observe corr ev))"
  shows "classify_event ev llm (s, corr) =
    (fst (correlated_outcome ev (prefilter ev) (fst (observe corr ev)) llm s),
     snd (correlated_outcome ev (prefilter ev) (fst (observe corr ev)) llm s), snd (observe corr ev))"
  using assms
  by (cases "observe corr ev") (simp add: classify_event_def is_notice_def Let_def case_prod_unfold split: payload.splits)

lemma classify_drop:
  assumes "\<not> is_notice ev" and "\<not> hit (fst (observe corr ev))" and "pr_decision (prefilter ev) = Drop"
  shows "classify_event ev llm (s, corr) =
    (new_outcome\<lparr>o_layer := L_Drop,
       o_log_line := ''  [drop]  '' @ event_summary ev @ ''  ('' @ pr_reason (prefilter ev) @ '')''\<rparr>,
     s, snd (observe corr ev))"
  using assms
  by (cases "observe corr ev") (simp add: classify_event_def is_notice_def Let_def case_prod_unfold split: payload.splits)

lemma classify_raise:
  assumes "\<not> is_notice ev" and "\<not> hit (fst (observe corr ev))" and "pr_decision (prefilter ev) = Raise"
  shows "classify_event ev llm (s, corr) =
    (alert_outcome new_outcome L_Rule
       (make_alert ev (event_summary ev) Malicious (pr_severity (prefilter ev)) ''rule''
          (pr_reason (prefilter ev))),
     s, snd (observe corr ev))"
  using assms
  by (cases "observe corr ev") (simp add: classify_event_def is_notice_def Let_def case_prod_unfold split: payload.splits)

lemma classify_escalate:
  assumes "\<not> is_notice ev" and "\<not> hit (fst (observe corr ev))" and "pr_decision (prefilter ev) = Escalate"
  shows "classify_event ev llm (s, corr) =
    (fst (escalated_outcome ev llm s), snd (escalated_outcome ev llm s), snd (observe corr ev))"
  using assms
  by (cases "observe corr ev") (simp add: classify_event_def is_notice_def Let_def case_prod_unfold split: payload.splits)

lemma classify_cases [case_names notice correlated drop raise escalate]:
  assumes "\<And>d. ev_u ev = U_drop d \<Longrightarrow> P"
    and "\<not> is_notice ev \<Longrightarrow> hit (fst (observe corr ev)) \<Longrightarrow> P"
    and "\<not> is_notice ev \<Longrightarrow> \<not> hit (fst (observe corr ev)) \<Longrightarrow> pr_decision (prefilter ev) = Drop \<Longrightarrow> P"
    and "\<not> is_notice ev \<Longrightarrow> \<not> hit (fst (observe corr ev)) \<Longrightarrow> pr_decision (prefilter ev) = Raise \<Longrightarrow> P"
    and "\<not> is_notice ev \<Longrightarrow> \<not> hit (fst (observe corr ev)) \<Longrightarrow> pr_decision (prefilter ev) = Escalate \<Longrightarrow> P"
  shows P
proof (cases "is_notice ev")
  case True
  then show P
    using assms(1) by (simp add: is_notice_def split: payload.splits)
next
  case False
  then show P
    using assms(2-) by (cases "hit (fst (observe corr ev))"; cases "pr_decision (prefilter ev)") simp_all
qed

lemmas classify_simps = classify_notice classify_correlated classify_drop classify_raise classify_escalate

lemma is_notice_drop [simp]: "ev_u ev = U_drop d \<Longrightarrow> is_notice ev"
  by (simp add: is_notice_def)

text \<open>The correlator sees every event, and only the event: no client can influence it.\<close>

lemma classify_correlator: "snd (snd (classify_event ev llm (s, corr))) = snd (observe corr ev)"
  by (cases rule: classify_cases [where ev = ev and corr = corr])
    (simp_all add: classify_simps observe_def split: prod.split)

subsection \<open>What every client gives\<close>

definition first_tier :: "'s llm_client \<Rightarrow> 's \<Rightarrow> security_event \<Rightarrow> verdict" where
  "first_tier llm s ev = c_verdict (fst (llm_classify llm s (event_summary ev)))"

lemma correlated_outcome_simps:
  "o_alerted (fst (correlated_outcome ev pr h llm s))"
  "o_layer (fst (correlated_outcome ev pr h llm s)) =
     (if pr_decision pr = Raise then L_RuleCorrelation else L_CorrelationSonnet)"
  "o_haiku_calls (fst (correlated_outcome ev pr h llm s)) = 0"
  "o_sonnet_calls (fst (correlated_outcome ev pr h llm s)) = (if pr_decision pr = Raise then 0 else 1)"
  "h_severity h \<le> a_severity (o_alert (fst (correlated_outcome ev pr h llm s)))"
  "a_verdict (o_alert (fst (correlated_outcome ev pr h llm s))) \<notin> {Normal, Unknown}"
  "a_pid (o_alert (fst (correlated_outcome ev pr h llm s))) = ev_pid ev"
  "a_comm (o_alert (fst (correlated_outcome ev pr h llm s))) = cstr (ev_comm ev)"
  "a_event_summary (o_alert (fst (correlated_outcome ev pr h llm s))) = event_summary ev"
  by (simp_all add: correlated_outcome_def Let_def split: prod.split)

lemma escalated_outcome_simps:
  "o_alerted (fst (escalated_outcome ev llm s)) \<longleftrightarrow> first_tier llm s ev \<noteq> Normal"
  "o_layer (fst (escalated_outcome ev llm s)) =
     (if first_tier llm s ev = Normal then L_HaikuNormal else L_Sonnet)"
  "o_haiku_calls (fst (escalated_outcome ev llm s)) = 1"
  "o_sonnet_calls (fst (escalated_outcome ev llm s)) = (if first_tier llm s ev = Normal then 0 else 1)"
  "first_tier llm s ev \<noteq> Normal \<Longrightarrow> a_pid (o_alert (fst (escalated_outcome ev llm s))) = ev_pid ev"
  "first_tier llm s ev \<noteq> Normal \<Longrightarrow>
     a_comm (o_alert (fst (escalated_outcome ev llm s))) = cstr (ev_comm ev)"
  "first_tier llm s ev \<noteq> Normal \<Longrightarrow>
     a_event_summary (o_alert (fst (escalated_outcome ev llm s))) = event_summary ev"
  by (auto simp: escalated_outcome_def first_tier_def Let_def split: prod.splits)

lemma agent_drop_outcome_simps:
  "o_alerted (agent_drop_outcome ev d)" "o_layer (agent_drop_outcome ev d) = L_AgentDrop"
  "o_haiku_calls (agent_drop_outcome ev d) = 0" "o_sonnet_calls (agent_drop_outcome ev d) = 0"
  "a_pid (o_alert (agent_drop_outcome ev d)) = ev_pid ev"
  "a_comm (o_alert (agent_drop_outcome ev d)) = cstr (ev_comm ev)"
  "a_event_summary (o_alert (agent_drop_outcome ev d)) = event_summary ev"
  by (simp_all add: agent_drop_outcome_def)

lemmas outcome_simps = correlated_outcome_simps escalated_outcome_simps agent_drop_outcome_simps

text \<open>
  C11. The pipeline decides by its table.  The layer of the outcome is a function of four facts
  (drop notice, sequence rule, prefilter decision, first-tier answer); an alert is raised in every
  layer but "drop" and "haiku-normal"; the cheap model is asked at most once and only for escalated
  events, the expensive one at most once and only in the two layers named after it.
\<close>

theorem pipeline_decision_table:
  "let out = fst (classify_event ev llm (s, corr));
       l = decided_layer (is_notice ev) (hit (fst (observe corr ev))) (pr_decision (prefilter ev))
             (first_tier llm s ev)
   in o_layer out = l \<and> o_alerted out = (l \<notin> {L_Drop, L_HaikuNormal}) \<and>
      o_haiku_calls out = (if l \<in> {L_HaikuNormal, L_Sonnet} then 1 else 0) \<and>
      o_sonnet_calls out = (if l \<in> {L_CorrelationSonnet, L_Sonnet} then 1 else 0)"
  unfolding Let_def
  by (cases rule: classify_cases [where ev = ev and corr = corr])
    (simp_all add: classify_simps decided_layer_def outcome_simps)

subsection \<open>Rules and sequences do not depend on the model\<close>

lemma correlated_raise:
  "pr_decision pr = Raise \<Longrightarrow>
    correlated_outcome ev pr h llm' s' = (fst (correlated_outcome ev pr h llm s), s')"
  by (simp add: correlated_outcome_def Let_def)

lemma observe_notice: "ev_u ev = U_drop d \<Longrightarrow> observe c ev = (no_hit, c)"
  by (simp add: observe_def)

lemma classify_deterministic:
  assumes "o_layer (fst (classify_event ev llm (s, corr))) \<notin> {L_CorrelationSonnet, L_HaikuNormal, L_Sonnet}"
  shows "classify_event ev llm' (s', corr) =
    (fst (classify_event ev llm (s, corr)), s', snd (observe corr ev))"
  using assms
  by (cases rule: classify_cases [where ev = ev and corr = corr])
    (simp_all add: classify_simps outcome_simps observe_notice correlated_raise [of _ _ _ llm' s' llm s]
      split: if_splits)

text \<open>
  What the rules decide, they decide alone.  If with some client in some state an event ends
  in a layer of the rules (drop, rule, rule with correlation, drop notice), then with every other
  client in every other state the outcome is the same, and that client is not asked: its state does
  not change.
\<close>

theorem rules_decide_alone:
  assumes "o_layer (fst (classify_event ev llm (s, corr))) \<in> {L_Drop, L_Rule, L_RuleCorrelation, L_AgentDrop}"
  shows "fst (classify_event ev llm' (s', corr)) = fst (classify_event ev llm (s, corr)) \<and>
    fst (snd (classify_event ev llm' (s', corr))) = s'"
  using classify_deterministic [of ev llm s corr llm' s'] assms by auto

subsection \<open>Silence\<close>

text \<open>The events that the prefilter drops.\<close>

definition benign_event :: "security_event \<Rightarrow> bool" where
  "benign_event ev \<longleftrightarrow>
     (case ev_u ev of
        U_execve f \<Rightarrow> basename_of f \<in> set kBenignBins \<and>
          \<not> starts_with ''/tmp/'' (cstr f) \<and> \<not> starts_with ''/dev/shm/'' (cstr f)
      | U_tcp t \<Rightarrow> is_private_ipv4 (daddr t)
      | U_file f \<Rightarrow> \<not> has_flag (access f) PQSEC_FA_SENSITIVE
      | _ \<Rightarrow> False)"

lemma prefilter_Drop: "pr_decision (prefilter ev) = Drop \<longleftrightarrow> benign_event ev"
  by (auto simp: prefilter_def prefilter_execve_def prefilter_tcp_def prefilter_file_def pf_def Let_def
      benign_event_def kMaliciousBins_def kBenignBins_def split: payload.split if_splits)

lemma silent_cases:
  assumes "\<not> o_alerted (fst (classify_event ev llm (s, corr)))"
  shows "\<not> hit (fst (observe corr ev)) \<and>
    (benign_event ev \<or> pr_decision (prefilter ev) = Escalate \<and> first_tier llm s ev = Normal)"
  using assms
  by (cases rule: classify_cases [where ev = ev and corr = corr])
    (simp_all add: classify_simps outcome_simps flip: prefilter_Drop)

lemma claude_call_Normal:
  assumes "c_verdict (fst (claude_call W J key model system user n deep env)) = Normal"
  shows "key \<noteq> [] \<and> (\<exists>parts. fst (web_post W (messages_request key (request_body J model n system user)) env) = Http 200 parts \<and>
    reply_verdict J (resp_text parts) = Some Normal)"
proof (cases "key = []")
  case True
  then show ?thesis
    using assms by (simp add: claude_call_def fail_safe_def default_classification_def)
next
  case False
  obtain res env' where r: "web_post W (messages_request key (request_body J model n system user)) env = (res, env')"
    by (cases "web_post W (messages_request key (request_body J model n system user)) env") auto
  have fs: "c_verdict (fail_safe m why) = Unknown" for m why
    by (simp add: fail_safe_def default_classification_def)
  show ?thesis
    using False r assms fs
    by (cases res) (auto simp: claude_call_def Let_def is_fail_safe_def dest: read_reply_Inr split: sum.splits if_splits)
qed

text \<open>
  C10. Silence with the HTTPS client.  An event passes without an alert only if no sequence rule
  fires and either the prefilter knows it as benign (a whitelisted program outside the staging
  directories, a private destination, a file access that is not sensitive), or the model was asked
  with a key, the request ended with status 200 and the reply's verdict is "normal".  So no failure
  of the service, of the transport or of the parsing of a reply can hide an event.
\<close>

theorem silence_needs_a_reply:
  assumes "\<not> o_alerted (fst (classify_event ev (claude_client W J c) (env, corr)))"
  shows "\<not> hit (fst (observe corr ev)) \<and>
    (benign_event ev \<or>
     api_key c \<noteq> [] \<and>
     (\<exists>parts. fst (web_post W (messages_request (api_key c) (request_body J (haiku_model c) 256 classify_system
                  (wrap_event (event_summary ev)))) env) = Http 200 parts \<and>
        reply_verdict J (resp_text parts) = Some Normal))"
proof -
  let ?body = "request_body J (haiku_model c) 256 classify_system (wrap_event (event_summary ev))"
  have "api_key c \<noteq> [] \<and> (\<exists>parts. fst (web_post W (messages_request (api_key c) ?body) env) = Http 200 parts \<and>
      reply_verdict J (resp_text parts) = Some Normal)"
    if "first_tier (claude_client W J c) env ev = Normal"
    by (rule claude_call_Normal) (use that in \<open>simp add: first_tier_def claude_client_def\<close>)
  then show ?thesis
    using silent_cases [OF assms] by (cases "benign_event ev") simp_all
qed

subsection \<open>Sequences, from the events to the alert\<close>

lemma process_event_fst:
  "fst (process_event ev llm st) =
     (let out = fst (classify_event ev llm st)
      in if o_alerted out then Alert_output (o_alert out) else Log_output (cstr (o_log_line out) @ [CHR 0x0A]))"
  by (simp add: process_event_def Let_def case_prod_unfold)

lemma process_event_snd: "snd (process_event ev llm st) = snd (classify_event ev llm st)"
  by (simp add: process_event_def Let_def case_prod_unfold)

lemma process_all_Cons:
  "process_all (e # es) llm st =
     (fst (process_event e llm st) # fst (process_all es llm (snd (process_event e llm st))),
      snd (process_all es llm (snd (process_event e llm st))))"
  by (simp add: Let_def case_prod_unfold)

declare process_all.simps(2) [simp del]

lemmas process_all_simps = process_all.simps(1) process_all_Cons

lemma process_all_append:
  "process_all (es @ fs) llm st =
     (fst (process_all es llm st) @ fst (process_all fs llm (snd (process_all es llm st))),
      snd (process_all fs llm (snd (process_all es llm st))))"
  by (induction es arbitrary: st) (simp_all add: process_all_simps)

lemma process_all_correlator:
  "snd (snd (process_all es llm st)) = observe_all (snd st) es"
proof (induction es arbitrary: st)
  case (Cons e es)
  then show ?case
    using classify_correlator [of e llm "fst st" "snd st"]
    by (simp add: process_all_simps process_event_snd)
qed simp

lemma length_process_all: "length (fst (process_all es llm st)) = length es"
  by (induction es arbitrary: st) (simp_all add: process_all_simps)

definition rule_severity :: "string \<Rightarrow> severity" where
  "rule_severity r = (if r = ''beacon'' then High else Critical)"

lemma observe_severity: "hit (fst (observe c ev)) \<Longrightarrow> h_severity (fst (observe c ev)) = rule_severity (h_rule (fst (observe c ev)))"
proof -
  have "hit (find_shared now mine ds) \<Longrightarrow>
      h_severity (find_shared now mine ds) = rule_severity (h_rule (find_shared now mine ds))" for now mine ds
    by (induction ds) (auto simp: Let_def no_hit_def download_exec_hit_def rule_severity_def)
  then show "hit (fst (observe c ev)) \<Longrightarrow> ?thesis"
    by (auto simp: observe_def observe_execve_def observe_connect_def observe_file_def no_hit_def
        write_exec_hit_def beacon_hit_def rule_severity_def Let_def split: payload.splits option.splits if_splits)
qed

lemma classify_hit:
  assumes "\<not> is_notice ev" and "hit (fst (observe (snd st) ev))"
  shows "o_alerted (fst (classify_event ev llm st))"
    "rule_severity (h_rule (fst (observe (snd st) ev))) \<le> a_severity (o_alert (fst (classify_event ev llm st)))"
    "a_verdict (o_alert (fst (classify_event ev llm st))) \<notin> {Normal, Unknown}"
    "a_pid (o_alert (fst (classify_event ev llm st))) = ev_pid ev"
proof -
  let ?h = "fst (observe (snd st) ev)"
  have "fst (classify_event ev llm st) = fst (correlated_outcome ev (prefilter ev) ?h llm (fst st))"
    using assms classify_correlated [of ev "snd st" llm "fst st"] by simp
  then show "o_alerted (fst (classify_event ev llm st))"
    "rule_severity (h_rule ?h) \<le> a_severity (o_alert (fst (classify_event ev llm st)))"
    "a_verdict (o_alert (fst (classify_event ev llm st))) \<notin> {Normal, Unknown}"
    "a_pid (o_alert (fst (classify_event ev llm st))) = ev_pid ev"
    using correlated_outcome_simps(5) [of ?h ev "prefilter ev" llm "fst st"]
      correlated_outcome_simps(1,6,7) [of ev "prefilter ev" ?h llm "fst st"] observe_severity [OF assms(2)]
    by simp_all
qed

lemma hit_alerted:
  assumes "\<not> is_notice ev" and "hit (fst (observe (snd st) ev))"
  shows "\<exists>a. fst (process_event ev llm st) = Alert_output a \<and>
    rule_severity (h_rule (fst (observe (snd st) ev))) \<le> a_severity a \<and>
    a_verdict a \<notin> {Normal, Unknown} \<and> a_pid a = ev_pid ev"
  using classify_hit [OF assms, of llm] by (simp add: process_event_fst Let_def)

lemma spec_rule_not_notice: "spec_rule w n past ev \<noteq> None \<Longrightarrow> \<not> is_notice ev"
  by (auto simp: spec_rule_def is_notice_def split: payload.splits)

lemma detected:
  assumes sorted: "time_sorted ev_ts_ns w (past @ [ev])" and r: "spec_rule w n past ev = Some r"
  shows "\<exists>a. fst (process_event ev llm (snd (process_all past llm (s, new_correlator w n)))) = Alert_output a \<and>
    rule_severity r \<le> a_severity a \<and> a_verdict a \<notin> {Normal, Unknown} \<and> a_pid a = ev_pid ev"
proof -
  let ?st = "snd (process_all past llm (s, new_correlator w n))"
  have "hit_rule (fst (observe (snd ?st) ev)) = Some r"
    using observe_trace [OF sorted, of n] r by (simp add: process_all_correlator)
  then have "hit (fst (observe (snd ?st) ev))" and "h_rule (fst (observe (snd ?st) ev)) = r"
    by (simp_all add: hit_rule_def split: if_splits)
  then show ?thesis
    using hit_alerted [of ev ?st llm] spec_rule_not_notice [of w n past ev] r by simp
qed

text \<open>
  C2. From events to alerts, whatever the model says.  If the trace specification finds a sequence
  (download then run, write then run, beacon) that the event completes, then the pipeline that
  processed all the events before it, with any client in any state, answers the event with an alert
  of at least the severity of the rule (High for a beacon, Critical for the others), a verdict that
  is neither "normal" nor "unknown", and the event's own process id.
\<close>

theorem sequences_are_alerted:
  assumes "time_sorted ev_ts_ns w (past @ [ev])" and "spec_rule w n past ev = Some r"
  shows "\<exists>a. fst (process_event ev llm (snd (process_all past llm (s, new_correlator w n)))) = Alert_output a \<and>
    rule_severity r \<le> a_severity a \<and> a_verdict a \<notin> {Normal, Unknown} \<and> a_pid a = ev_pid ev"
  by (rule detected [OF assms])

lemma last_such_later:
  assumes "e \<in> set xs" and "P e"
  shows "\<exists>e' ys zs. last_such P xs = Some e' \<and> xs = ys @ e # zs \<and> e' \<in> set (e # zs)"
proof -
  obtain ys zs where xs: "xs = ys @ e # zs"
    using assms(1) by (meson split_list)
  then have "last_such P xs = Some (last (e # filter P zs))"
    using assms(2) by (simp add: last_such_def Let_def)
  moreover have "last (e # filter P zs) \<in> set (e # zs)"
    using last_in_set [of "e # filter P zs"] by auto
  ultimately show ?thesis
    using xs by blast
qed

lemma write_then_run_rule:
  assumes sorted: "time_sorted ev_ts_ns w (past @ [ev])"
    and e: "e \<in> set past" "writes_path (cstr f) e" "live w (ev_ts_ns ev) (ev_ts_ns e)"
    and ev: "ev_u ev = U_execve f" "basename_of f \<notin> set kDownloaders"
  shows "spec_rule w n past ev = Some ''write-exec-chain''"
proof -
  obtain e' ys zs where last: "last_such (writes_path (cstr f)) past = Some e'"
    and past: "past = ys @ e # zs" "e' \<in> set (e # zs)"
    using last_such_later [of e past "writes_path (cstr f)"] e by blast
  have "ev_ts_ns e \<le> ev_ts_ns e'" and "no_wrap w (ev_ts_ns e')"
    using sorted past by (auto simp: time_sorted_def sorted_append)
  then have "live w (ev_ts_ns ev) (ev_ts_ns e')"
    using e(3) expired_mono unfolding live_def by blast
  then have "staged_spec w (ev_ts_ns ev) past (cstr f) \<noteq> None"
    using last by (simp add: staged_spec_def)
  moreover have "is_temp_path (cstr f)"
    using e(2) by (auto simp: writes_path_def split: payload.splits)
  ultimately show ?thesis
    using ev by (simp add: spec_rule_def Let_def)
qed


subsection \<open>Concrete instances\<close>

lemma sequences_are_alerted_witness:
  "\<exists>a. fst (process_event sample_run mock_client
          (snd (process_all [sample_write] mock_client ((), new_correlator 1000 3)))) = Alert_output a \<and>
     Critical \<le> a_severity a \<and> a_pid a = 42"
proof -
  have "ev_pid sample_run = 42" and "rule_severity ''write-exec-chain'' = Critical"
    by (simp_all add: sample_run_def rule_severity_def)
  then show ?thesis
    using sequences_are_alerted [OF sample_sorted sample_spec, of mock_client "()"] by auto
qed


lemma sample_run_rule:
  "classify_event sample_run llm (s, new_correlator 1000 3) =
     (alert_outcome new_outcome L_Rule
        (make_alert sample_run (event_summary sample_run) Malicious High ''rule'' msg_temp_exec),
      s, new_correlator 1000 3)"
  by (simp add: classify_event_def sample_run_u observe_def observe_execve_def new_correlator_def
      basename_sample_path kDownloaders_def cstr_sample_path is_temp_path_def starts_with_def
      staged_hit_def drop_expired_def no_hit_def prefilter_def prefilter_execve_def pf_def Let_def)

lemma rules_decide_alone_witness:
  "fst (snd (classify_event sample_run \<lparr>llm_classify = \<lambda>n ctx. (mock_classify ctx, n + 1),
      llm_deep_analyze = \<lambda>n ctx. (mock_deep_analyze ctx, n + 1)\<rparr> (7 :: nat, new_correlator 1000 3))) = 7"
  using rules_decide_alone [of sample_run mock_client "()" "new_correlator 1000 3"
      "\<lparr>llm_classify = \<lambda>n ctx. (mock_classify ctx, n + 1),
        llm_deep_analyze = \<lambda>n ctx. (mock_deep_analyze ctx, n + 1)\<rparr>" "7 :: nat"]
  by (simp add: sample_run_rule)

text \<open>A service that answers every request with status 200, and a JSON library that reads it.\<close>

definition calm_web :: "nat web" where
  "calm_web = \<lparr>web_post = \<lambda>rq n. (Http 200 [''{}''], n + 1)\<rparr>"

definition calm_json :: "unit json_lib" where
  "calm_json = \<lparr>js_float = \<lambda>d. fmt_fixed 6 d, js_reply_text = \<lambda>r. Inr ''{x}'',
     js_parse = \<lambda>s. Inr (),
     js_string = \<lambda>_ name dflt. Inr (if name = ''verdict'' then ''normal'' else dflt),
     js_double = \<lambda>_ name dflt. Inr dflt, js_usage = \<lambda>r. Inr None\<rparr>"

lemma sample_connect_silent:
  "\<not> o_alerted (fst (classify_event sample_connect
      (claude_client calm_web calm_json (new_claude ''k'')) (0, new_correlator 1000 3)))"
proof -
  have esc: "pr_decision (prefilter sample_connect) = Escalate"
    by (simp add: prefilter_def sample_connect_def prefilter_tcp_def is_private_ipv4_def pf_def Let_def)
  have hist: "hist_of (new_correlator 1000 3) k = []" for k
    by (simp add: hist_of_def new_correlator_def)
  have hit: "\<not> hit (fst (observe (new_correlator 1000 3) sample_connect))"
    by (simp add: observe_def sample_connect_def observe_connect_def is_private_ipv4_def Let_def
        next_hist_def hist push_bounded_def corr_consts no_hit_def)
      (simp add: new_correlator_def)
  have notice: "\<not> is_notice sample_connect"
    by (simp add: is_notice_def sample_connect_def)
  have "first_tier (claude_client calm_web calm_json (new_claude ''k'')) 0 sample_connect = Normal"
    by (simp add: first_tier_def claude_client_def claude_call_def new_claude_def calm_web_def
        calm_json_def read_reply_def extract_json_def rfind_char_def parse_verdict_def resp_text_def write_cb_def)
  then show ?thesis
    by (simp add: classify_escalate [OF notice hit esc] outcome_simps)
qed

lemma silence_needs_a_reply_witness:
  "\<not> hit (fst (observe (new_correlator 1000 3) sample_connect)) \<and>
   reply_verdict calm_json ''{}'' = Some Normal"
proof -
  have "\<not> benign_event sample_connect"
    by (simp add: benign_event_def sample_connect_def is_private_ipv4_def Let_def)
  then show ?thesis
    using silence_needs_a_reply [OF sample_connect_silent] by (auto simp: calm_web_def resp_text_def write_cb_def)
qed

end
