(* ===== verification/Summary.thy ===== *)
theory Summary
  imports Pipeline
begin

section \<open>What an event can put into an alert\<close>

text \<open>
  The kernel's byte strings are chosen by whoever runs a program.  This theory bounds what they
  can do to the summary that alerts and prompts carry, and shows the one path on which they reach
  the console unfiltered: the process tree.
\<close>

definition control_free :: "string \<Rightarrow> bool" where
  "control_free s \<longleftrightarrow> list_all (\<lambda>c. \<not> control_char c) s"

lemma control_free_append [simp]: "control_free (a @ b) \<longleftrightarrow> control_free a \<and> control_free b"
  by (simp add: control_free_def)

lemma control_free_Nil [simp]: "control_free []"
  by (simp add: control_free_def)

lemma control_free_Cons [simp]: "control_free (c # s) \<longleftrightarrow> \<not> control_char c \<and> control_free s"
  by (simp add: control_free_def)

lemma control_free_take: "control_free s \<Longrightarrow> control_free (take n s)"
  by (auto simp: control_free_def list_all_iff dest: in_set_takeD)

lemma control_free_snprintf: "control_free s \<Longrightarrow> control_free (snprintf_buf n s)"
  by (simp add: snprintf_buf_def control_free_take)

lemma control_char_printable [simp]: "\<not> control_char (printable_char c)"
  by (simp add: printable_char_def control_char_def Let_def)

lemma control_free_printable [simp]: "control_free (printable s n)"
  by (induction s n rule: printable.induct) simp_all

lemma control_free_dec [simp]: "control_free (dec_nat n)"
  by (auto simp: control_free_def list_all_iff control_char_def is_digit_def dest!: dec_nat_digits)

lemma control_char_literals [simp]:
  "\<not> control_char (CHR '' '')" "\<not> control_char (CHR ''='')" "\<not> control_char (CHR '':'')"
  "\<not> control_char (CHR ''.'')" "\<not> control_char (CHR ''-'')"
  by (simp_all add: control_char_def)

lemma control_free_inet [simp]: "control_free (inet_ntop4 a)"
  by (simp add: inet_ntop4_def)

lemma control_free_summary_text: "control_free (summary_text ev)"
  unfolding summary_text_def Let_def
  by (cases "ev_u ev") (simp_all add: control_char_def)

definition clean_ancestry :: "security_event \<Rightarrow> bool" where
  "clean_ancestry ev \<longleftrightarrow> control_free (cstr (ev_comm ev)) \<and>
     list_all (\<lambda>a. control_free (cstr (anc_comm a))) (ev_anc ev)"

lemma control_free_or_question: "control_free s \<Longrightarrow> control_free (or_question s)"
  by (simp add: or_question_def control_char_def)

lemma control_free_tree_tail:
  "list_all (\<lambda>a. control_free (cstr (anc_comm a))) as \<Longrightarrow> control_free (tree_tail as)"
  by (induction as) (simp_all add: control_free_or_question control_char_def)

text \<open>
  The summary of an event is one line of bounded content.  It is a part of at most 255 bytes
  without control characters, which names the event, and after it at most the process tree; and if
  the names of the process and of its ancestors hold no control character, then neither does the
  summary as a whole.
\<close>

theorem summary_is_one_line:
  "\<exists>base tree. event_summary ev = base @ tree \<and> length base \<le> 255 \<and> control_free base \<and>
     tree \<in> {[], '' tree=['' @ process_tree ev @ '']''} \<and>
     (clean_ancestry ev \<longrightarrow> control_free (event_summary ev))"
proof -
  let ?base = "snprintf_buf 256 (summary_text ev)"
  have base: "length ?base \<le> 255" "control_free ?base"
    using length_snprintf [of 256 "summary_text ev"]
    by (simp_all add: control_free_snprintf control_free_summary_text)
  have "clean_ancestry ev \<Longrightarrow> control_free (process_tree ev)"
    by (simp add: clean_ancestry_def process_tree_def control_free_or_question control_free_tree_tail)
  then show ?thesis
    using base by (auto simp: event_summary_def Let_def control_char_def)
qed

lemma summary_is_one_line_witness: "control_free (event_summary sample_run)"
proof -
  have "clean_ancestry sample_run"
    by (simp add: clean_ancestry_def sample_run_def zero_event_def zero_ancestor_def cstr_c_field
        nul_def control_char_def list_all_iff)
  then show ?thesis
    using summary_is_one_line [of sample_run] by blast
qed

subsection \<open>The process tree is not filtered\<close>

text \<open>A process that named itself with a line break, running a program of a staging directory.\<close>

definition forging_event :: security_event where
  "forging_event = zero_event\<lparr>
     ev_comm := strncpy_into (zeros PQSEC_COMM_LEN) (''a'' @ [CHR 0x0A] @ ''b'') 15,
     ev_anc := (replicate PQSEC_ANCESTORS zero_ancestor)[0 := zero_ancestor\<lparr>anc_pid := 7\<rparr>],
     ev_u := U_execve (strncpy_into (zeros PQSEC_FILENAME_LEN) ''/tmp/x'' 127)\<rparr>"

lemma forging_comm: "cstr (ev_comm forging_event) = ''a'' @ [CHR 0x0A] @ ''b''"
  using cstr_strncpy_zeros [of 15 "''a'' @ [CHR 0x0A] @ ''b''"]
  by (simp add: forging_event_def event_consts cstr_def nul_def)

lemma forging_path: "cstr (strncpy_into (zeros PQSEC_FILENAME_LEN) ''/tmp/x'' 127) = ''/tmp/x''"
  using cstr_strncpy_zeros [of 127 "''/tmp/x''"]
  by (simp add: event_consts cstr_def nul_def)

lemma forging_u [simp]:
  "ev_u forging_event = U_execve (strncpy_into (zeros PQSEC_FILENAME_LEN) ''/tmp/x'' 127)"
  by (simp add: forging_event_def)

lemma sealed_forging_event: "sealed_event forging_event"
  by (simp add: sealed_event_def forging_event_def zero_ancestor_def event_consts
      sealed_strncpy [of 15, simplified] sealed_strncpy [of 127, simplified]) (auto dest!: set_update_subset_insert [THEN subsetD])

lemma forging_silent: "observe default_correlator forging_event = (no_hit, default_correlator)"
  by (simp add: observe_def observe_execve_def default_correlator_def new_correlator_def
      forging_path basename_of_def kDownloaders_def is_temp_path_def starts_with_def
      staged_hit_def drop_expired_def Let_def)

lemma forging_alert:
  "fst (process_event forging_event llm (s, default_correlator)) =
     Alert_output (make_alert forging_event (event_summary forging_event) Malicious High ''rule'' msg_temp_exec)"
  by (simp add: process_event_fst classify_event_def forging_silent no_hit_def prefilter_def
      prefilter_execve_def forging_path starts_with_def pf_def Let_def)

lemma nul_event_summary: "nul \<notin> set (event_summary ev)"
proof -
  have q: "nul \<notin> set (or_question (cstr c))" for c
    by (simp add: or_question_def nul_def [symmetric]) (simp add: nul_def)
  have t: "nul \<notin> set (tree_tail as)" for as
    by (induction as) (simp_all add: q, simp_all add: nul_def)
  have "control_free (snprintf_buf 256 (summary_text ev))"
    by (simp add: control_free_snprintf control_free_summary_text)
  then have "nul \<notin> set (snprintf_buf 256 (summary_text ev))"
    by (auto simp: control_free_def list_all_iff control_char_def nul_def)
  then show ?thesis
    by (simp add: event_summary_def process_tree_def q t Let_def) (simp add: nul_def)
qed


end
