(* ===== verification/Channel_Sink.thy ===== *)
theory Channel_Sink
  imports Socket Event
begin

section \<open>The agent's sending queue\<close>

text \<open>
  \<open>ChannelSink\<close> of \<open>agent/src/main.cpp\<close>: the ring-buffer callback copies events into a bounded
  queue or drops and counts them, a thread of its own seals and sends them, and tells the analyzer
  how many were dropped once the queue is half empty again.  Every critical section under the mutex
  is one atomic step of a transition relation, and so is every send of the thread, which touches
  what only the thread owns; the steps of callback, thread and destructor interleave freely.
\<close>

datatype phase =
    Waiting
  | Sending security_event u64 u64
  | Noticing security_event
  | Finished

record sink =
  s_capacity :: nat
  s_queue :: "security_event list"
  s_stop :: bool
  s_broken :: bool
  s_exiting :: bool
  s_dropped :: u64
  s_pending :: u64
  s_peak :: nat
  s_sent :: u64
  s_sender :: record_sender
  s_tx :: "tx list"
  s_wire :: bytes
  s_phase :: phase

definition new_sink :: "record_sender \<Rightarrow> nat \<Rightarrow> tx list \<Rightarrow> sink" where
  "new_sink sender cap tx =
     \<lparr>s_capacity = cap, s_queue = [], s_stop = False, s_broken = False, s_exiting = False,
      s_dropped = 0, s_pending = 0, s_peak = 0, s_sent = 0, s_sender = sender, s_tx = tx, s_wire = [],
      s_phase = Waiting\<rparr>"

subsection \<open>The callback\<close>

definition handle :: "security_event \<Rightarrow> sink \<Rightarrow> sink" where
  "handle ev s =
     (if s_broken s then s
      else if s_capacity s \<le> length (s_queue s)
        then s\<lparr>s_dropped := s_dropped s + 1, s_pending := s_pending s + 1\<rparr>
      else s\<lparr>s_queue := s_queue s @ [ev], s_peak := max (s_peak s) (length (s_queue s) + 1)\<rparr>)"

subsection \<open>The thread\<close>

definition make_drop_notice :: "u32 \<Rightarrow> u64 \<Rightarrow> u64 \<Rightarrow> u64 \<Rightarrow> u64 \<Rightarrow> security_event" where
  "make_drop_notice pid now n all_dropped count =
     zero_event\<lparr>ev_pid := pid, ev_ts_ns := now,
       ev_comm := strncpy_into (zeros PQSEC_COMM_LEN) ''agent'' (PQSEC_COMM_LEN - 1),
       ev_u := U_drop \<lparr>dropped = n, dropped_total = all_dropped, sent_total = count\<rparr>\<rparr>"

text \<open>The critical section of \<open>run\<close>, entered when \<open>stop_ || !q_.empty()\<close>.\<close>

definition take_next :: "sink \<Rightarrow> sink" where
  "take_next s =
     (case s_queue s of
        [] \<Rightarrow> s\<lparr>s_phase := Finished\<rparr>
      | ev # q \<Rightarrow>
          if 0 < s_pending s \<and> length q \<le> s_capacity s div 2
          then s\<lparr>s_queue := q, s_pending := 0, s_phase := Sending ev (s_pending s) (s_dropped s)\<rparr>
          else s\<lparr>s_queue := q, s_phase := Sending ev 0 0\<rparr>)"

text \<open>The struct's bytes are sealed and sent; any exception marks the sink broken and ends the process.\<close>

definition send_one :: "libs \<Rightarrow> security_event \<Rightarrow> sink \<Rightarrow> bool \<times> sink" where
  "send_one L ev s =
     (case seal L (s_sender s) (event_image ev) of
        (Inl e, snd') \<Rightarrow> (False, s\<lparr>s_sender := snd', s_broken := True, s_exiting := True\<rparr>)
      | (Inr rec, snd') \<Rightarrow>
          (case send_record rec (s_tx s) of
             (Inl e, out, tx') \<Rightarrow>
               (False, s\<lparr>s_sender := snd', s_tx := tx', s_wire := s_wire s @ out,
                  s_broken := True, s_exiting := True\<rparr>)
           | (Inr _, out, tx') \<Rightarrow>
               (True, s\<lparr>s_sender := snd', s_tx := tx', s_wire := s_wire s @ out,
                  s_sent := s_sent s + 1\<rparr>)))"

text \<open>The rest of the loop body: after the event, a notice if there is something to report.\<close>

definition after_send :: "u32 \<Rightarrow> u64 \<Rightarrow> sink \<Rightarrow> sink" where
  "after_send pid now s =
     (case s_phase s of
        Sending ev r t \<Rightarrow>
          s\<lparr>s_phase := if 0 < r then Noticing (make_drop_notice pid now r t (s_sent s)) else Waiting\<rparr>
      | Noticing n \<Rightarrow> s\<lparr>s_phase := Waiting\<rparr>
      | _ \<Rightarrow> s)"

subsection \<open>Steps and runs\<close>

text \<open>
  The callback is not called any more once the destructor runs.  The labels keep what happened to
  each event.
\<close>

datatype label =
    Accept security_event
  | Refuse security_event
  | Ignore security_event
  | Stop
  | Take
  | Sent security_event
  | Notice security_event
  | Fail security_event

inductive sink_step :: "libs \<Rightarrow> u32 \<Rightarrow> sink \<Rightarrow> label \<Rightarrow> sink \<Rightarrow> bool" for L pid where
  accept: "\<not> s_stop s \<Longrightarrow> \<not> s_broken s \<Longrightarrow> length (s_queue s) < s_capacity s \<Longrightarrow>
     sink_step L pid s (Accept ev) (handle ev s)"
| refuse: "\<not> s_stop s \<Longrightarrow> \<not> s_broken s \<Longrightarrow> s_capacity s \<le> length (s_queue s) \<Longrightarrow>
     sink_step L pid s (Refuse ev) (handle ev s)"
| ignore: "\<not> s_stop s \<Longrightarrow> s_broken s \<Longrightarrow> sink_step L pid s (Ignore ev) (handle ev s)"
| stop: "sink_step L pid s Stop (s\<lparr>s_stop := True\<rparr>)"
| take: "s_phase s = Waiting \<Longrightarrow> s_stop s \<or> s_queue s \<noteq> [] \<Longrightarrow> sink_step L pid s Take (take_next s)"
| sent: "s_phase s = Sending ev r t \<Longrightarrow> send_one L ev s = (True, s') \<Longrightarrow>
     sink_step L pid s (Sent ev) (after_send pid now s')"
| notice: "s_phase s = Noticing ev \<Longrightarrow> send_one L ev s = (True, s') \<Longrightarrow>
     sink_step L pid s (Notice ev) (after_send pid now s')"
| fail: "s_phase s = Sending ev r t \<or> s_phase s = Noticing ev \<Longrightarrow> send_one L ev s = (False, s') \<Longrightarrow>
     sink_step L pid s (Fail ev) (s'\<lparr>s_phase := Finished\<rparr>)"

inductive sink_run :: "libs \<Rightarrow> u32 \<Rightarrow> sink \<Rightarrow> label list \<Rightarrow> sink \<Rightarrow> bool" for L pid s0 where
  start: "sink_run L pid s0 [] s0"
| step: "sink_run L pid s0 tr s \<Longrightarrow> sink_step L pid s l s' \<Longrightarrow> sink_run L pid s0 (tr @ [l]) s'"

inductive_cases step_AcceptE: "sink_step L pid s (Accept ev) s'"
inductive_cases step_RefuseE: "sink_step L pid s (Refuse ev) s'"
inductive_cases step_IgnoreE: "sink_step L pid s (Ignore ev) s'"
inductive_cases step_StopE: "sink_step L pid s Stop s'"
inductive_cases step_TakeE: "sink_step L pid s Take s'"
inductive_cases step_SentE: "sink_step L pid s (Sent ev) s'"
inductive_cases step_NoticeE: "sink_step L pid s (Notice ev) s'"
inductive_cases step_FailE: "sink_step L pid s (Fail ev) s'"

text \<open>What a run did with the events.\<close>

definition accepted :: "label list \<Rightarrow> security_event list" where
  "accepted tr = concat (map (\<lambda>l. case l of Accept ev \<Rightarrow> [ev] | _ \<Rightarrow> []) tr)"

definition refused :: "label list \<Rightarrow> security_event list" where
  "refused tr = concat (map (\<lambda>l. case l of Refuse ev \<Rightarrow> [ev] | _ \<Rightarrow> []) tr)"

definition sent_events :: "label list \<Rightarrow> security_event list" where
  "sent_events tr = concat (map (\<lambda>l. case l of Sent ev \<Rightarrow> [ev] | _ \<Rightarrow> []) tr)"

definition notices :: "label list \<Rightarrow> security_event list" where
  "notices tr = concat (map (\<lambda>l. case l of Notice ev \<Rightarrow> [ev] | _ \<Rightarrow> []) tr)"

definition transmitted :: "label list \<Rightarrow> security_event list" where
  "transmitted tr = concat (map (\<lambda>l. case l of Sent ev \<Rightarrow> [ev] | Notice ev \<Rightarrow> [ev] | _ \<Rightarrow> []) tr)"

definition reported :: "security_event \<Rightarrow> u64" where
  "reported ev = (case ev_u ev of U_drop d \<Rightarrow> dropped d | _ \<Rightarrow> 0)"

lemmas log_defs = accepted_def refused_def sent_events_def notices_def transmitted_def

lemma log_snoc [simp]:
  "accepted (tr @ [l]) = accepted tr @ (case l of Accept ev \<Rightarrow> [ev] | _ \<Rightarrow> [])"
  "refused (tr @ [l]) = refused tr @ (case l of Refuse ev \<Rightarrow> [ev] | _ \<Rightarrow> [])"
  "sent_events (tr @ [l]) = sent_events tr @ (case l of Sent ev \<Rightarrow> [ev] | _ \<Rightarrow> [])"
  "notices (tr @ [l]) = notices tr @ (case l of Notice ev \<Rightarrow> [ev] | _ \<Rightarrow> [])"
  "transmitted (tr @ [l]) = transmitted tr @ (case l of Sent ev \<Rightarrow> [ev] | Notice ev \<Rightarrow> [ev] | _ \<Rightarrow> [])"
  by (simp_all add: log_defs)

lemma log_Nil [simp]:
  "accepted [] = []" "refused [] = []" "sent_events [] = []" "notices [] = []" "transmitted [] = []"
  by (simp_all add: log_defs)

subsection \<open>What no step touches\<close>

lemma send_one_keeps:
  assumes "send_one L ev s = (ok, s')"
  shows "s_queue s' = s_queue s" "s_phase s' = s_phase s" "s_capacity s' = s_capacity s"
    "s_pending s' = s_pending s" "s_dropped s' = s_dropped s" "s_stop s' = s_stop s"
    "s_peak s' = s_peak s" "ok \<Longrightarrow> s_broken s' = s_broken s" "\<not> ok \<Longrightarrow> s_broken s'"
    "s_sent s' = s_sent s + (if ok then 1 else 0)"
  using assms by (auto simp: send_one_def split: prod.splits sum.splits)

lemma after_send_keeps [simp]:
  "s_queue (after_send pid now s) = s_queue s" "s_capacity (after_send pid now s) = s_capacity s"
  "s_pending (after_send pid now s) = s_pending s" "s_dropped (after_send pid now s) = s_dropped s"
  "s_stop (after_send pid now s) = s_stop s" "s_peak (after_send pid now s) = s_peak s"
  "s_broken (after_send pid now s) = s_broken s" "s_sent (after_send pid now s) = s_sent s"
  "s_sender (after_send pid now s) = s_sender s" "s_wire (after_send pid now s) = s_wire s"
  by (simp_all add: after_send_def split: phase.split)

lemma take_next_keeps [simp]:
  "s_capacity (take_next s) = s_capacity s" "s_dropped (take_next s) = s_dropped s"
  "s_stop (take_next s) = s_stop s" "s_peak (take_next s) = s_peak s"
  "s_broken (take_next s) = s_broken s" "s_sent (take_next s) = s_sent s"
  "s_sender (take_next s) = s_sender s" "s_wire (take_next s) = s_wire s"
  by (simp_all add: take_next_def split: list.split)

lemma handle_keeps [simp]:
  "s_capacity (handle ev s) = s_capacity s" "s_stop (handle ev s) = s_stop s"
  "s_broken (handle ev s) = s_broken s" "s_sent (handle ev s) = s_sent s"
  "s_sender (handle ev s) = s_sender s" "s_wire (handle ev s) = s_wire s"
  "s_phase (handle ev s) = s_phase s"
  by (simp_all add: handle_def)

lemma reported_notice [simp]: "reported (make_drop_notice pid now n all_dropped count) = n"
  by (simp add: reported_def make_drop_notice_def)

subsection \<open>Bounds\<close>

definition queue_inv :: "sink \<Rightarrow> bool" where
  "queue_inv s \<longleftrightarrow> length (s_queue s) \<le> s_peak s \<and> s_peak s \<le> s_capacity s \<and>
     (0 < s_capacity s \<longrightarrow> s_pending s \<noteq> 0 \<longrightarrow> s_capacity s div 2 < length (s_queue s)) \<and>
     (s_phase s = Finished \<longrightarrow> s_broken s \<or> s_stop s \<and> s_queue s = [])"

lemma queue_inv_handle:
  assumes "queue_inv s" and "\<not> s_stop s"
  shows "queue_inv (handle ev s)"
  using assms by (auto simp: queue_inv_def handle_def)

lemma queue_inv_take:
  assumes "queue_inv s" and "s_stop s \<or> s_queue s \<noteq> []"
  shows "queue_inv (take_next s)"
proof (cases "s_queue s")
  case Nil
  then show ?thesis
    using assms by (auto simp: queue_inv_def take_next_def)
next
  case (Cons ev q)
  have "\<not> 0 < s_pending s \<longleftrightarrow> s_pending s = 0"
    by (simp add: word_neq_0_conv [symmetric])
  then show ?thesis
    using assms Cons by (auto simp: queue_inv_def take_next_def)
qed

lemma queue_inv_step:
  assumes "sink_step L pid s l s'" and "queue_inv s"
  shows "queue_inv s'"
  using assms
proof (induction rule: sink_step.induct)
  case (sent s ev r t s' now)
  then show ?case
    using send_one_keeps [OF sent(2)] by (auto simp: queue_inv_def after_send_def split: if_splits)
next
  case (notice s ev s' now)
  then show ?case
    using send_one_keeps [OF notice(2)] by (auto simp: queue_inv_def after_send_def)
next
  case (fail s ev r t s')
  then show ?case
    using send_one_keeps [OF fail(2)] by (auto simp: queue_inv_def)
qed (auto simp: queue_inv_handle queue_inv_take, auto simp: queue_inv_def)

lemma queue_inv_run:
  "sink_run L pid s0 tr s \<Longrightarrow> queue_inv s0 \<Longrightarrow> queue_inv s"
  by (induction rule: sink_run.induct) (auto intro: queue_inv_step)

lemma capacity_run: "sink_run L pid s0 tr s \<Longrightarrow> s_capacity s = s_capacity s0"
proof (induction rule: sink_run.induct)
  case (step tr s l s')
  from step(2,3) show ?case
    by cases (auto dest: send_one_keeps(3))
qed simp

lemma queue_inv_new: "queue_inv (new_sink sender cap tx)"
  by (simp add: queue_inv_def new_sink_def)

subsection \<open>Order\<close>

definition inflight :: "sink \<Rightarrow> security_event list" where
  "inflight s = (case s_phase s of Sending ev r t \<Rightarrow> [ev] | _ \<Rightarrow> [])"

definition order_inv :: "label list \<Rightarrow> sink \<Rightarrow> bool" where
  "order_inv tr s \<longleftrightarrow>
     (s_broken s \<longrightarrow> s_phase s = Finished) \<and>
     (\<exists>rest. accepted tr = sent_events tr @ rest \<and> (\<not> s_broken s \<longrightarrow> rest = inflight s @ s_queue s))"

lemma order_inv_step:
  assumes "sink_step L pid s l s'" and "order_inv tr s"
  shows "order_inv (tr @ [l]) s'"
  using assms
proof (induction rule: sink_step.induct)
  case (accept s ev)
  then show ?case
    by (auto simp: order_inv_def inflight_def handle_def)
next
  case (take s)
  then show ?case
    by (auto simp: order_inv_def inflight_def take_next_def split: list.split)
next
  case (sent s ev r t s' now)
  then show ?case
    using send_one_keeps [OF sent(2)]
    by (auto simp: order_inv_def inflight_def after_send_def)
next
  case (notice s ev s' now)
  then show ?case
    using send_one_keeps [OF notice(2)] by (auto simp: order_inv_def inflight_def after_send_def)
next
  case (fail s ev r t s')
  then show ?case
    using send_one_keeps [OF fail(2)] by (auto simp: order_inv_def)
qed (auto simp: order_inv_def inflight_def handle_def)

lemma order_inv_run:
  "sink_run L pid (new_sink sender cap tx) tr s \<Longrightarrow> order_inv tr s"
proof (induction rule: sink_run.induct)
  case start
  then show ?case
    by (simp add: order_inv_def inflight_def new_sink_def)
qed (rule order_inv_step)

subsection \<open>Accounting\<close>

definition unreported :: "sink \<Rightarrow> u64" where
  "unreported s =
     s_pending s + (case s_phase s of Sending ev r t \<Rightarrow> r | Noticing n \<Rightarrow> reported n | _ \<Rightarrow> 0)"

definition account_inv :: "label list \<Rightarrow> sink \<Rightarrow> bool" where
  "account_inv tr s \<longleftrightarrow>
     s_dropped s = of_nat (length (refused tr)) \<and> s_sent s = of_nat (length (transmitted tr)) \<and>
     (\<not> s_broken s \<longrightarrow> s_dropped s = unreported s + sum_list (map reported (notices tr)))"

lemma account_inv_step:
  assumes "sink_step L pid s l s'" and "account_inv tr s"
  shows "account_inv (tr @ [l]) s'"
  using assms
proof (induction rule: sink_step.induct)
  case (take s)
  then show ?case
    by (auto simp: account_inv_def unreported_def take_next_def split: list.split)
next
  case (sent s ev r t s' now)
  have "0 < r \<longleftrightarrow> r \<noteq> 0"
    by (rule word_neq_0_conv [symmetric])
  with sent show ?case
    using send_one_keeps [OF sent(2)] by (auto simp: account_inv_def unreported_def after_send_def)
next
  case (notice s ev s' now)
  then show ?case
    using send_one_keeps [OF notice(2)] by (auto simp: account_inv_def unreported_def after_send_def ac_simps)
next
  case (fail s ev r t s')
  then show ?case
    using send_one_keeps [OF fail(2)] by (auto simp: account_inv_def)
qed (auto simp: account_inv_def unreported_def handle_def ac_simps)

lemma account_inv_run:
  "sink_run L pid (new_sink sender cap tx) tr s \<Longrightarrow> account_inv tr s"
proof (induction rule: sink_run.induct)
  case start
  then show ?case
    by (simp add: account_inv_def unreported_def new_sink_def)
qed (rule account_inv_step)

subsection \<open>The wire\<close>

text \<open>The sender after a list of seals.\<close>

fun after_seals :: "libs \<Rightarrow> record_sender \<Rightarrow> bytes list \<Rightarrow> record_sender" where
  "after_seals L s [] = s"
| "after_seals L s (p # ps) = after_seals L (snd (seal L s p)) ps"

lemma after_seals_append: "after_seals L s (ps @ qs) = after_seals L (after_seals L s ps) qs"
  by (induction ps arbitrary: s) simp_all

lemma seal_all_append:
  "seal_all L s (ps @ qs) = seal_all L s ps @ seal_all L (after_seals L s ps) qs"
  by (induction ps arbitrary: s) (simp_all add: seal_all_def split: prod.split sum.split)

definition wire_inv :: "libs \<Rightarrow> record_sender \<Rightarrow> label list \<Rightarrow> sink \<Rightarrow> bool" where
  "wire_inv L sender tr s \<longleftrightarrow>
     map fst (seal_all L sender (map event_image (transmitted tr))) = map event_image (transmitted tr) \<and>
     (\<exists>cut. s_wire s = concat (map snd (seal_all L sender (map event_image (transmitted tr)))) @ cut \<and>
       (\<not> s_broken s \<longrightarrow> cut = [] \<and> s_sender s = after_seals L sender (map event_image (transmitted tr)))) \<and>
     (s_broken s \<longrightarrow> s_phase s = Finished)"

lemma send_one_True:
  assumes "send_one L ev s = (True, s')"
  obtains rec sender' where "seal L (s_sender s) (event_image ev) = (Inr rec, sender')"
    and "s_wire s' = s_wire s @ rec" and "s_sender s' = sender'"
proof -
  obtain rec sender' where seal: "seal L (s_sender s) (event_image ev) = (Inr rec, sender')"
    using assms by (auto simp: send_one_def split: prod.splits sum.splits)
  moreover obtain out tx' where out: "send_record rec (s_tx s) = (Inr (), out, tx')"
    using assms seal by (auto simp: send_one_def split: prod.splits sum.splits)
  moreover have "out = rec"
    using write_all_out [of rec "s_tx s"] out by (simp add: send_record_def)
  ultimately show ?thesis
    using assms by (intro that) (auto simp: send_one_def)
qed

lemma wire_inv_send:
  assumes "wire_inv L sender tr s" and "send_one L ev s = (True, s')" and "\<not> s_broken s"
    and "transmitted tr' = transmitted tr @ [ev]"
  shows "wire_inv L sender tr' (after_send pid now s')"
proof -
  obtain rec sender' where seal: "seal L (s_sender s) (event_image ev) = (Inr rec, sender')"
    and "s_wire s' = s_wire s @ rec" "s_sender s' = sender'"
    using send_one_True [OF assms(2)] .
  then show ?thesis
    using assms send_one_keeps(8) [OF assms(2)]
    by (auto simp: wire_inv_def seal_all_append after_seals_append)
       (auto simp: seal_all_def)
qed

lemma wire_inv_step:
  assumes "sink_step L pid s l s'" and "wire_inv L sender tr s"
  shows "wire_inv L sender (tr @ [l]) s'"
  using assms
proof (induction rule: sink_step.induct)
  case (sent s ev r t s' now)
  then have "\<not> s_broken s"
    by (auto simp: wire_inv_def)
  with sent show ?case
    by (intro wire_inv_send [OF sent(3,2)]) simp_all
next
  case (notice s ev s' now)
  then have "\<not> s_broken s"
    by (auto simp: wire_inv_def)
  with notice show ?case
    by (intro wire_inv_send [OF notice(3,2)]) simp_all
next
  case (fail s ev r t s')
  then have "\<not> s_broken s"
    by (auto simp: wire_inv_def)
  moreover have "\<exists>cut. s_wire s' = s_wire s @ cut"
    using fail(2) by (auto simp: send_one_def split: prod.splits sum.splits)
  ultimately show ?case
    using fail send_one_keeps(9) [OF fail(2)] by (auto simp: wire_inv_def)
next
  case (take s)
  then show ?case
    by (auto simp: wire_inv_def)
qed (auto simp: wire_inv_def)

lemma wire_inv_run:
  "sink_run L pid (new_sink sender cap tx) tr s \<Longrightarrow> wire_inv L sender tr s"
proof (induction rule: sink_run.induct)
  case start
  then show ?case
    by (simp add: wire_inv_def new_sink_def seal_all_def)
qed (rule wire_inv_step)

subsection \<open>What is sent is well formed\<close>

lemma wf_drop_notice: "wf_event (make_drop_notice pid now n all_dropped count)"
proof -
  have "length (strncpy_into (zeros PQSEC_COMM_LEN) ''agent'' (PQSEC_COMM_LEN - 1)) = PQSEC_COMM_LEN"
    by (simp add: length_strncpy)
  then show ?thesis
    using wf_zero_event by (simp add: make_drop_notice_def wf_event_def)
qed

definition wf_phase :: "phase \<Rightarrow> bool" where
  "wf_phase ph \<longleftrightarrow> (case ph of Sending ev r t \<Rightarrow> wf_event ev | Noticing ev \<Rightarrow> wf_event ev | _ \<Rightarrow> True)"

definition wf_inv :: "label list \<Rightarrow> sink \<Rightarrow> bool" where
  "wf_inv tr s \<longleftrightarrow> list_all wf_event (s_queue s) \<and> wf_phase (s_phase s) \<and> list_all wf_event (transmitted tr)"

lemma wf_inv_step:
  assumes "sink_step L pid s l s'" and "list_all wf_event (accepted (tr @ [l]))" and "wf_inv tr s"
  shows "wf_inv (tr @ [l]) s'"
  using assms
proof (induction rule: sink_step.induct)
  case (take s)
  then show ?case
    by (auto simp: wf_inv_def wf_phase_def take_next_def split: list.splits)
next
  case (sent s ev r t s' now)
  then show ?case
    using send_one_keeps [OF sent(2)]
    by (auto simp: wf_inv_def wf_phase_def after_send_def wf_drop_notice)
next
  case (notice s ev s' now)
  then show ?case
    using send_one_keeps [OF notice(2)] by (auto simp: wf_inv_def wf_phase_def after_send_def)
next
  case (fail s ev r t s')
  then show ?case
    using send_one_keeps [OF fail(2)] by (auto simp: wf_inv_def wf_phase_def)
qed (auto simp: wf_inv_def wf_phase_def handle_def)

lemma wf_inv_run:
  "sink_run L pid (new_sink sender cap tx) tr s \<Longrightarrow> list_all wf_event (accepted tr) \<Longrightarrow> wf_inv tr s"
proof (induction rule: sink_run.induct)
  case start
  then show ?case
    by (simp add: wf_inv_def wf_phase_def new_sink_def)
next
  case (step tr s l s')
  then have "wf_inv tr s"
    by simp
  then show ?case
    by (rule wf_inv_step [OF step(2) step.prems])
qed

subsection \<open>What the sink promises\<close>

text \<open>
  C28. The queue neither reorders nor loses an accepted event.  In every interleaving of callback,
  thread and destructor, the events sent so far are an initial part of the events accepted so far,
  in their order; while the channel works, the rest is exactly the event in flight and the queue;
  and the queue never exceeds its capacity.
\<close>

theorem sink_order:
  assumes "sink_run L pid (new_sink sender cap tx) tr s"
  shows "\<exists>rest. accepted tr = sent_events tr @ rest \<and>
    (\<not> s_broken s \<longrightarrow> rest = inflight s @ s_queue s) \<and> length (s_queue s) \<le> cap"
proof -
  have "queue_inv s" and "s_capacity s = cap"
    using queue_inv_run [OF assms queue_inv_new] capacity_run [OF assms] by (simp_all add: new_sink_def)
  then show ?thesis
    using order_inv_run [OF assms] by (auto simp: order_inv_def queue_inv_def)
qed

text \<open>Without a refused event there is nothing to report.\<close>

definition quiet_inv :: "label list \<Rightarrow> sink \<Rightarrow> bool" where
  "quiet_inv tr s \<longleftrightarrow> refused tr = [] \<longrightarrow> s_pending s = 0 \<and> notices tr = [] \<and> transmitted tr = sent_events tr \<and>
     (case s_phase s of Sending ev r t \<Rightarrow> r = 0 | Noticing n \<Rightarrow> False | _ \<Rightarrow> True)"

lemma quiet_inv_step:
  assumes "sink_step L pid s l s'" and "quiet_inv tr s"
  shows "quiet_inv (tr @ [l]) s'"
  using assms
proof (induction rule: sink_step.induct)
  case (take s)
  then show ?case
    by (auto simp: quiet_inv_def take_next_def split: list.split phase.splits)
next
  case (sent s ev r t s' now)
  then show ?case
    using send_one_keeps [OF sent(2)] by (auto simp: quiet_inv_def after_send_def)
next
  case (notice s ev s' now)
  then show ?case
    using send_one_keeps [OF notice(2)] by (auto simp: quiet_inv_def after_send_def)
next
  case (fail s ev r t s')
  then show ?case
    using send_one_keeps [OF fail(2)] by (auto simp: quiet_inv_def)
qed (auto simp: quiet_inv_def handle_def)

lemma quiet_inv_run: "sink_run L pid (new_sink sender cap tx) tr s \<Longrightarrow> quiet_inv tr s"
proof (induction rule: sink_run.induct)
  case start
  then show ?case
    by (simp add: quiet_inv_def new_sink_def)
qed (rule quiet_inv_step)

lemma sink_complete:
  assumes "sink_run L pid (new_sink sender cap tx) tr s" and "0 < cap"
    and "s_phase s = Finished" and "\<not> s_broken s"
  shows "sent_events tr = accepted tr \<and>
    sum_list (map reported (notices tr)) = of_nat (length (refused tr)) \<and>
    map fst (seal_all L sender (map event_image (transmitted tr))) = map event_image (transmitted tr) \<and>
    s_wire s = concat (map snd (seal_all L sender (map event_image (transmitted tr))))"
proof -
  have q: "queue_inv s" and cap: "s_capacity s = cap"
    using queue_inv_run [OF assms(1) queue_inv_new] capacity_run [OF assms(1)]
    by (simp_all add: new_sink_def)
  then have "s_queue s = []" and "s_pending s = 0"
    using assms(2-4) by (auto simp: queue_inv_def)
  moreover have "inflight s = []" and "unreported s = s_pending s"
    using assms(3) by (simp_all add: inflight_def unreported_def)
  ultimately show ?thesis
    using order_inv_run [OF assms(1)] account_inv_run [OF assms(1)] wire_inv_run [OF assms(1)] assms(4)
    by (auto simp: order_inv_def account_inv_def wire_inv_def)
qed

text \<open>
  No loss is silent.  Once the thread has finished on a working channel, everything that was
  accepted has been sent, the drops that the notices reported add up to the events that were
  refused, and the bytes on the wire are the sealed records of the events and notices, in order.
\<close>

theorem sink_finishes_complete:
  assumes "sink_run L pid (new_sink sender cap tx) tr s" and "0 < cap"
    and "s_phase s = Finished" and "\<not> s_broken s"
  shows "sent_events tr = accepted tr \<and>
    sum_list (map reported (notices tr)) = of_nat (length (refused tr)) \<and>
    map fst (seal_all L sender (map event_image (transmitted tr))) = map event_image (transmitted tr) \<and>
    s_wire s = concat (map snd (seal_all L sender (map event_image (transmitted tr))))"
  by (rule sink_complete [OF assms])

lemma sink_run_Cons:
  assumes "sink_step L pid s l s1" and "sink_run L pid s1 tr s'"
  shows "sink_run L pid s (l # tr) s'"
  using assms(2)
proof (induction rule: sink_run.induct)
  case start
  show ?case
    using sink_run.step [OF sink_run.start assms(1)] by simp
next
  case (step tr s2 l' s3)
  then show ?case
    using sink_run.step [of L pid s "l # tr" s2 l' s3] by simp
qed

definition work_left :: "sink \<Rightarrow> nat" where
  "work_left s = 3 * length (s_queue s) +
     (case s_phase s of Waiting \<Rightarrow> 1 | Sending ev r t \<Rightarrow> 3 | Noticing n \<Rightarrow> 2 | Finished \<Rightarrow> 0)"

lemma thread_progress:
  assumes "s_stop s" and "s_phase s \<noteq> Finished"
  shows "\<exists>l s'. sink_step L pid s l s' \<and> work_left s' < work_left s \<and> s_stop s'"
proof (cases "s_phase s")
  case Waiting
  moreover have "work_left (take_next s) < work_left s"
    using Waiting by (auto simp: work_left_def take_next_def split: list.split)
  ultimately show ?thesis
    using take [of s L pid] assms(1) by (intro exI [of _ Take] exI [of _ "take_next s"]) simp
next
  case (Sending ev r t)
  obtain ok s' where send: "send_one L ev s = (ok, s')"
    by (cases "send_one L ev s") auto
  note k = send_one_keeps [OF send]
  show ?thesis
  proof (cases ok)
    case True
    then show ?thesis
      using sent [OF Sending, of L s' pid 0] send k assms(1) Sending
      by (intro exI [of _ "Sent ev"] exI [of _ "after_send pid 0 s'"])
        (auto simp: work_left_def after_send_def)
  next
    case False
    then show ?thesis
      using fail [of s ev r t L s' pid] send k assms(1) Sending
      by (intro exI [of _ "Fail ev"] exI [of _ "s'\<lparr>s_phase := Finished\<rparr>"]) (auto simp: work_left_def)
  qed
next
  case (Noticing ev)
  obtain ok s' where send: "send_one L ev s = (ok, s')"
    by (cases "send_one L ev s") auto
  note k = send_one_keeps [OF send]
  show ?thesis
  proof (cases ok)
    case True
    then show ?thesis
      using notice [OF Noticing, of L s' pid 0] send k assms(1) Noticing
      by (intro exI [of _ "Notice ev"] exI [of _ "after_send pid 0 s'"])
        (auto simp: work_left_def after_send_def)
  next
    case False
    then show ?thesis
      using fail [of s ev 0 0 L s' pid] send k assms(1) Noticing
      by (intro exI [of _ "Fail ev"] exI [of _ "s'\<lparr>s_phase := Finished\<rparr>"]) (auto simp: work_left_def)
  qed
qed (use assms in simp)


subsection \<open>A concrete run\<close>

text \<open>One event over the small libraries: accepted, the stop flag set, sent, and the thread ends.\<close>

lemma toy_sends:
  assumes "wf_event ev" and "snd_seq (s_sender s) \<noteq> seq_max" and "s_tx s = []"
  shows "\<exists>s'. send_one toy_libs ev s = (True, s')"
proof -
  have "length (event_image ev) \<le> 0xffff - 16"
    using assms(1) by (simp add: length_event_image sizeof_272)
  then obtain rec sender' where "seal toy_libs (s_sender s) (event_image ev) = (Inr rec, sender')"
    using toy_seals_any assms(2) by blast
  then show ?thesis
    using assms(3) by (simp add: send_one_def send_record_def)
qed

lemma toy_sink_run_any:
  assumes "snd_seq sender \<noteq> seq_max" and "wf_event ev" and "0 < cap"
  shows "\<exists>tr s. sink_run toy_libs pid (new_sink sender cap []) tr s \<and> accepted tr = [ev] \<and>
     transmitted tr = [ev] \<and> refused tr = [] \<and> s_phase s = Finished \<and> \<not> s_broken s"
proof -
  define s0 where "s0 = new_sink sender cap []"
  define s1 where "s1 = (handle ev s0)\<lparr>s_stop := True\<rparr>"
  define s2 where "s2 = take_next s1"
  have q1: "s_queue s1 = [ev]" "s_phase s1 = Waiting" "s_stop s1" "s_pending s1 = 0"
    "\<not> s_broken s1" "s_sender s1 = sender" "s_tx s1 = []"
    using assms(3) by (simp_all add: s1_def s0_def handle_def new_sink_def)
  then have q2: "s_queue s2 = []" "s_phase s2 = Sending ev 0 0" "s_sender s2 = sender" "s_tx s2 = []"
    "\<not> s_broken s2" "s_stop s2"
    by (simp_all add: s2_def take_next_def)
  obtain s3 where s3: "send_one toy_libs ev s2 = (True, s3)"
    using toy_sends [OF assms(2) _ q2(4)] q2(3) assms(1) by auto
  define s4 where "s4 = after_send pid 0 s3"
  have q4: "s_queue s4 = []" "s_phase s4 = Waiting" "\<not> s_broken s4" "s_stop s4"
    using send_one_keeps [OF s3] q2 by (simp_all add: s4_def after_send_def)
  have "sink_step toy_libs pid s0 (Accept ev) (handle ev s0)"
    using assms(3) by (intro accept) (simp_all add: s0_def new_sink_def)
  moreover have "sink_step toy_libs pid (handle ev s0) Stop s1"
    unfolding s1_def by (rule stop)
  moreover have "sink_step toy_libs pid s1 Take s2"
    unfolding s2_def by (rule take) (simp_all add: q1)
  moreover have "sink_step toy_libs pid s2 (Sent ev) s4"
    unfolding s4_def by (rule sent [OF q2(2) s3])
  moreover have "sink_step toy_libs pid s4 Take (take_next s4)"
    by (rule take) (simp_all add: q4)
  ultimately have "sink_run toy_libs pid s0 [Accept ev, Stop, Take, Sent ev, Take] (take_next s4)"
    by (intro sink_run_Cons) (assumption | rule sink_run.start)+
  moreover have "s_phase (take_next s4) = Finished" "\<not> s_broken (take_next s4)"
    using q4 by (simp_all add: take_next_def)
  moreover have "accepted [Accept ev, Stop, Take, Sent ev, Take] = [ev]"
    "transmitted [Accept ev, Stop, Take, Sent ev, Take] = [ev]"
    "refused [Accept ev, Stop, Take, Sent ev, Take] = []"
    by (simp_all add: log_defs)
  ultimately show ?thesis
    unfolding s0_def by blast
qed

lemma toy_sink_run:
  assumes "snd_seq sender \<noteq> seq_max"
  shows "\<exists>tr s. sink_run toy_libs pid (new_sink sender 2 []) tr s \<and> accepted tr = [sample_run] \<and>
     transmitted tr = [sample_run] \<and> s_phase s = Finished \<and> \<not> s_broken s"
  using toy_sink_run_any [OF assms wf_samples(2), of 2 pid] by auto

lemma sink_order_witness:
  "\<exists>tr s rest. sink_run toy_libs 7 (new_sink toy_sender 2 []) tr s \<and> accepted tr = [sample_run] \<and>
     accepted tr = sent_events tr @ rest \<and> length (s_queue s) \<le> 2"
proof -
  obtain tr s where run: "sink_run toy_libs 7 (new_sink toy_sender 2 []) tr s"
    and acc: "accepted tr = [sample_run]" and ok: "\<not> s_broken s"
    using toy_sink_run [OF toy_sender_seq] by metis
  then show ?thesis
    using sink_order [OF run] by metis
qed

lemma sink_finishes_complete_witness:
  "\<exists>tr s. sink_run toy_libs 7 (new_sink toy_sender 2 []) tr s \<and> sent_events tr = [sample_run] \<and>
     s_wire s = concat (map snd (seal_all toy_libs toy_sender [event_image sample_run]))"
proof -
  obtain tr s where run: "sink_run toy_libs 7 (new_sink toy_sender 2 []) tr s"
    and acc: "accepted tr = [sample_run]" "transmitted tr = [sample_run]"
    and fin: "s_phase s = Finished" "\<not> s_broken s"
    using toy_sink_run [OF toy_sender_seq] by metis
  have "(0 :: nat) < 2"
    by simp
  from sink_finishes_complete [OF run this fin] run acc show ?thesis
    by (metis list.simps(8,9))
qed


end
