(* ===== verification/Collector.thy ===== *)
theory Collector
  imports Correlator
begin

section \<open>The kernel collector\<close>

text \<open>
  \<open>agent/bpf/collector.bpf.c\<close>: three hooks that reserve a slot of the ring buffer, fill it in
  place and submit it.  The kernel is a parameter of every call: the tasks a probe may read, the
  helper functions' answers, and what \<open>bpf_ringbuf_reserve\<close> returns: no slot, or 272 bytes with
  whatever an earlier record left there.  A probe read that faults yields zeros, as the helpers
  document.
\<close>

definition AF_INET :: u8 where "AF_INET = 2"
definition FMODE_WRITE :: u32 where "FMODE_WRITE = 0x2"
definition FMODE_EXEC :: u32 where "FMODE_EXEC = 0x20"
definition max_sensitive :: nat where "max_sensitive = 64"

type_synonym addr = u64

record task_struct =
  real_parent :: addr
  tgid :: u32
  task_comm :: string

record kfile =
  f_mode :: u32
  f_ino :: u64
  f_sdev :: u32
  f_path :: addr

record kernel =
  tasks :: "addr \<Rightarrow> task_struct option"
  current_task :: addr
  pid_tgid :: u64
  ktime_ns :: u64
  current_comm :: "string option"
  user_str :: "addr \<Rightarrow> string option"
  sock_addr :: "addr \<Rightarrow> (u32 \<times> u16) option"
  d_path :: "addr \<Rightarrow> string \<Rightarrow> int \<times> string"
  reserve :: "bytes option"

record sens_key =
  sk_ino :: u64
  sk_dev :: u32

text \<open>The maps: the sensitive inodes, the path buffer, and the records submitted so far.\<close>

record collector =
  sensitive_inodes :: "sens_key list"
  scratch :: "string option"
  submitted :: "security_event list"

subsection \<open>Probe reads\<close>

definition read_parent :: "kernel \<Rightarrow> addr \<Rightarrow> addr" where
  "read_parent K t = (case tasks K t of None \<Rightarrow> 0 | Some s \<Rightarrow> real_parent s)"

definition read_tgid :: "kernel \<Rightarrow> addr \<Rightarrow> u32" where
  "read_tgid K t = (case tasks K t of None \<Rightarrow> 0 | Some s \<Rightarrow> tgid s)"

text \<open>
  \<open>bpf_probe_read_kernel_str\<close> and its user-space twin into an array: the string cut to the array
  with a NUL behind it, the bytes after the NUL as they were; all zeros if the read faults.
\<close>

definition read_str :: "string \<Rightarrow> string option \<Rightarrow> string" where
  "read_str dst src =
     (case src of
        None \<Rightarrow> zeros (length dst)
      | Some s \<Rightarrow> let t = take (length dst - 1) (cstr s) in t @ nul # drop (length t + 1) dst)"

lemma length_read_str [len_simps]: "dst \<noteq> [] \<Longrightarrow> length (read_str dst src) = length dst"
  by (cases dst) (auto simp: read_str_def Let_def split: option.split)

lemma terminated_read_str: "dst \<noteq> [] \<Longrightarrow> terminated (read_str dst src)"
  by (auto simp: read_str_def Let_def terminated_def zeros_def split: option.split)

lemma cstr_read_str:
  "length (cstr s) < length dst \<Longrightarrow> cstr (read_str dst (Some s)) = cstr s"
  by (simp add: read_str_def cstr_append_nul Let_def)

subsection \<open>The common fields\<close>

text \<open>The unrolled loop of \<open>fill_ancestry\<close> over the slots; \<open>break\<close> leaves the rest as they are.\<close>

fun fill_ancestry :: "kernel \<Rightarrow> addr \<Rightarrow> pqsec_ancestor list \<Rightarrow> pqsec_ancestor list" where
  "fill_ancestry K t [] = []"
| "fill_ancestry K t (a # as) =
     (let t' = read_parent K t
      in if t' = 0 then a # as
         else \<lparr>anc_pid = read_tgid K t',
               anc_comm = read_str (anc_comm a) (map_option task_comm (tasks K t'))\<rparr> #
              fill_ancestry K t' as)"

text \<open>The slot's contents with the common fields filled; the type is that of the payload.\<close>

definition fill_common :: "kernel \<Rightarrow> bytes \<Rightarrow> payload \<Rightarrow> security_event" where
  "fill_common K raw u =
     (let e = event_of_image raw
      in \<lparr>ev_pid = ucast (drop_bit 32 (pid_tgid K)),
          ev_ppid = read_tgid K (read_parent K (current_task K)),
          ev_ts_ns = ktime_ns K,
          ev_comm = strncpy_into (zeros PQSEC_COMM_LEN)
            (case current_comm K of None \<Rightarrow> [] | Some s \<Rightarrow> s) (PQSEC_COMM_LEN - 1),
          ev_anc = fill_ancestry K (current_task K) (ev_anc e),
          ev_u = u\<rparr>)"

definition submit :: "security_event \<Rightarrow> collector \<Rightarrow> collector" where
  "submit e c = c\<lparr>submitted := submitted c @ [e]\<rparr>"

text \<open>The \<open>char[128]\<close> at the start of the union, as it was in the slot.\<close>

definition old_name :: "bytes \<Rightarrow> string" where
  "old_name raw = of_bytes (slice 120 PQSEC_FILENAME_LEN raw)"

subsection \<open>Executions and connections\<close>

definition handle_execve :: "kernel \<Rightarrow> addr \<Rightarrow> collector \<Rightarrow> collector" where
  "handle_execve K filename c =
     (case reserve K of
        None \<Rightarrow> c
      | Some raw \<Rightarrow>
          submit (fill_common K raw (U_execve (read_str (old_name raw) (user_str K filename)))) c)"

definition bpf_ntohs :: "u16 \<Rightarrow> u16" where
  "bpf_ntohs w = push_bit 8 w OR drop_bit 8 w"

definition handle_tcp_connect :: "kernel \<Rightarrow> addr \<Rightarrow> collector \<Rightarrow> collector" where
  "handle_tcp_connect K uaddr c =
     (case reserve K of
        None \<Rightarrow> c
      | Some raw \<Rightarrow>
          let (s_addr, sin_port) = (case sock_addr K uaddr of None \<Rightarrow> (0, 0) | Some a \<Rightarrow> a)
          in submit (fill_common K raw
               (U_tcp \<lparr>daddr = s_addr, dport = bpf_ntohs sin_port, family = AF_INET\<rparr>)) c)"

subsection \<open>File opens\<close>

definition is_staging :: "string \<Rightarrow> bool" where
  "is_staging p \<longleftrightarrow>
     p ! 0 = CHR ''/'' \<and>
     (p ! 1 = CHR ''t'' \<and> p ! 2 = CHR ''m'' \<and> p ! 3 = CHR ''p'' \<and> p ! 4 = CHR ''/'' \<or>
      p ! 1 = CHR ''v'' \<and> p ! 2 = CHR ''a'' \<and> p ! 3 = CHR ''r'' \<and> p ! 4 = CHR ''/'' \<and>
      p ! 5 = CHR ''t'' \<and> p ! 6 = CHR ''m'' \<and> p ! 7 = CHR ''p'' \<and> p ! 8 = CHR ''/'' \<or>
      p ! 1 = CHR ''d'' \<and> p ! 2 = CHR ''e'' \<and> p ! 3 = CHR ''v'' \<and> p ! 4 = CHR ''/'' \<and>
      p ! 5 = CHR ''s'' \<and> p ! 6 = CHR ''h'' \<and> p ! 7 = CHR ''m'' \<and> p ! 8 = CHR ''/'')"

definition key_of :: "kfile \<Rightarrow> sens_key" where
  "key_of file = \<lparr>sk_ino = f_ino file, sk_dev = f_sdev file\<rparr>"

definition access_bits :: "bool \<Rightarrow> bool \<Rightarrow> u32 \<Rightarrow> u32" where
  "access_bits sens is_write mode =
     ((if is_write then PQSEC_FA_WRITE else 0) OR (if sens then PQSEC_FA_SENSITIVE else 0)) OR
     (if mode AND FMODE_EXEC \<noteq> 0 then PQSEC_FA_EXEC else 0)"

text \<open>From the reservation on; \<open>path\<close> is the scratch buffer or \<open>NULL\<close>.\<close>

definition submit_open :: "kernel \<Rightarrow> kfile \<Rightarrow> u32 \<Rightarrow> string option \<Rightarrow> collector \<Rightarrow> collector" where
  "submit_open K file acc path c =
     (case reserve K of
        None \<Rightarrow> c
      | Some raw \<Rightarrow>
          let empty = (old_name raw)[0 := nul];
              name = (case path of None \<Rightarrow> empty | Some p \<Rightarrow> read_str empty (Some p))
          in submit (fill_common K raw
               (U_file \<lparr>fpath = name, access = acc, ino = f_ino file, dev = f_sdev file\<rparr>)) c)"

definition handle_file_open :: "kernel \<Rightarrow> kfile \<Rightarrow> collector \<Rightarrow> collector" where
  "handle_file_open K file c =
     (let sens = key_of file \<in> set (sensitive_inodes c);
          is_write = (f_mode file AND FMODE_WRITE \<noteq> 0);
          acc = access_bits sens is_write (f_mode file)
      in if \<not> sens \<and> \<not> is_write then c
         else if is_write then
           (case scratch c of
              None \<Rightarrow> c
            | Some buf \<Rightarrow>
                let (n, buf') = d_path K (f_path file) buf; c' = c\<lparr>scratch := Some buf'\<rparr>
                in if n < 0 then c'
                   else if \<not> sens \<and> \<not> is_staging buf' then c'
                   else submit_open K file acc (Some buf') c')
         else submit_open K file acc None c)"

subsection \<open>Sequences of calls\<close>

datatype hook = Exec_hook addr | Connect_hook addr | Open_hook kfile

fun run_hook :: "kernel \<times> hook \<Rightarrow> collector \<Rightarrow> collector" where
  "run_hook (K, Exec_hook f) c = handle_execve K f c"
| "run_hook (K, Connect_hook a) c = handle_tcp_connect K a c"
| "run_hook (K, Open_hook f) c = handle_file_open K f c"

definition collect :: "(kernel \<times> hook) list \<Rightarrow> collector \<Rightarrow> collector" where
  "collect calls c = fold run_hook calls c"

definition new_collector :: "sens_key list \<Rightarrow> collector" where
  "new_collector keys =
     \<lparr>sensitive_inodes = keys, scratch = Some (zeros PQSEC_FILENAME_LEN), submitted = []\<rparr>"

text \<open>
  What the helpers document: a reserved slot has the size asked for, and \<open>bpf_d_path\<close> stays in
  its buffer and leaves a C string there unless it fails.
\<close>

definition kernel_ok :: "kernel \<Rightarrow> bool" where
  "kernel_ok K \<longleftrightarrow>
     (\<forall>raw. reserve K = Some raw \<longrightarrow> length raw = sizeof_security_event) \<and>
     (\<forall>p b. length (snd (d_path K p b)) = length b \<and>
        (0 \<le> fst (d_path K p b) \<longrightarrow> terminated (snd (d_path K p b))))"

text \<open>The task has \<open>n\<close> generations of parents.\<close>

fun has_parents :: "kernel \<Rightarrow> addr \<Rightarrow> nat \<Rightarrow> bool" where
  "has_parents K t 0 \<longleftrightarrow> True"
| "has_parents K t (Suc n) \<longleftrightarrow> read_parent K t \<noteq> 0 \<and> has_parents K (read_parent K t) n"

definition good_event :: "security_event \<Rightarrow> bool" where
  "good_event e \<longleftrightarrow> wf_event e \<and> terminated_event e"

lemma fill_ancestry_good:
  assumes "has_parents K t (length as)" and "list_all wf_ancestor as"
  shows "list_all (\<lambda>a. wf_ancestor a \<and> terminated (anc_comm a)) (fill_ancestry K t as)"
  using assms
proof (induction as arbitrary: t)
  case (Cons a as)
  then have "length (anc_comm a) = PQSEC_COMM_LEN"
    by (simp add: wf_ancestor_def)
  then have "anc_comm a \<noteq> []"
    by (auto simp: event_consts)
  with Cons show ?case
    by (simp add: Let_def wf_ancestor_def length_read_str terminated_read_str)
qed simp

lemma length_fill_ancestry [simp, len_simps]: "length (fill_ancestry K t as) = length as"
  by (induction as arbitrary: t) (simp_all add: Let_def)

lemma good_fill_common:
  assumes raw: "length raw = sizeof_security_event"
    and parents: "has_parents K (current_task K) PQSEC_ANCESTORS"
    and u: "wf_payload u" "terminated_payload u"
  shows "good_event (fill_common K raw u)"
proof -
  have wf: "wf_event (event_of_image raw)"
    using raw by (intro wf_event_of_image) simp
  then have "list_all (\<lambda>a. wf_ancestor a \<and> terminated (anc_comm a))
      (fill_ancestry K (current_task K) (ev_anc (event_of_image raw)))"
    using parents by (intro fill_ancestry_good) (simp_all add: wf_event_def)
  moreover have "length (strncpy_into (zeros PQSEC_COMM_LEN) s (PQSEC_COMM_LEN - 1)) = PQSEC_COMM_LEN"
    "terminated (strncpy_into (zeros PQSEC_COMM_LEN) s (PQSEC_COMM_LEN - 1))" for s
    using terminated_strncpy_zeros [of 15 s] by (simp_all add: length_strncpy event_consts)
  ultimately show ?thesis
    using wf u by (simp add: good_event_def fill_common_def Let_def wf_event_def terminated_event_def
        list_all_iff)
qed

lemma length_old_name: "length raw = sizeof_security_event \<Longrightarrow> length (old_name raw) = PQSEC_FILENAME_LEN"
  by (simp add: old_name_def length_slice sizeof_272 event_consts)

lemma old_name_not_Nil: "length raw = sizeof_security_event \<Longrightarrow> old_name raw \<noteq> []"
  using length_old_name [of raw] by (auto simp: event_consts)

definition collector_ok :: "collector \<Rightarrow> bool" where
  "collector_ok c \<longleftrightarrow> list_all good_event (submitted c) \<and>
     (\<forall>b. scratch c = Some b \<longrightarrow> length b = PQSEC_FILENAME_LEN)"

lemma collector_ok_submit [keep_inv]:
  "collector_ok c \<Longrightarrow> good_event e \<Longrightarrow> collector_ok (submit e c)"
  by (simp add: collector_ok_def submit_def)

definition call_ok :: "kernel \<Rightarrow> bool" where
  "call_ok K \<longleftrightarrow> kernel_ok K \<and> has_parents K (current_task K) PQSEC_ANCESTORS"

lemma collector_ok_fill [keep_inv]:
  assumes "call_ok K" and "collector_ok c" and "reserve K = Some raw"
    and "wf_payload u" and "terminated_payload u"
  shows "collector_ok (submit (fill_common K raw u) c)"
  using assms by (intro collector_ok_submit good_fill_common) (simp_all add: call_ok_def kernel_ok_def)

lemma collector_ok_open:
  assumes "call_ok K" and "collector_ok c"
  shows "collector_ok (submit_open K file acc path c)"
proof (cases "reserve K")
  case (Some raw)
  then have raw: "length raw = sizeof_security_event"
    using assms(1) by (simp add: call_ok_def kernel_ok_def)
  let ?empty = "(old_name raw)[0 := nul]"
  have empty: "length ?empty = PQSEC_FILENAME_LEN" "?empty \<noteq> []" "terminated ?empty"
    using length_old_name [OF raw] old_name_not_Nil [OF raw]
    by (cases "old_name raw"; simp add: terminated_def)+
  then show ?thesis
    using Some assms
    by (auto simp: submit_open_def Let_def length_read_str terminated_read_str split: option.split
        intro!: collector_ok_fill)
qed (use assms in \<open>simp add: submit_open_def\<close>)

lemma collector_ok_scratch [keep_inv]:
  "collector_ok c \<Longrightarrow> length b = PQSEC_FILENAME_LEN \<Longrightarrow> collector_ok (c\<lparr>scratch := Some b\<rparr>)"
  by (simp add: collector_ok_def)

lemma collector_ok_file_open:
  assumes "call_ok K" and "collector_ok c"
  shows "collector_ok (handle_file_open K file c)"
proof (cases "scratch c")
  case None
  then show ?thesis
    using assms by (simp add: handle_file_open_def Let_def collector_ok_open)
next
  case (Some b)
  obtain n b' where d: "d_path K (f_path file) b = (n, b')"
    by (cases "d_path K (f_path file) b")
  have "length b' = PQSEC_FILENAME_LEN"
    using assms d Some unfolding call_ok_def kernel_ok_def collector_ok_def by (metis snd_conv)
  then have "collector_ok (c\<lparr>scratch := Some b'\<rparr>)"
    using assms(2) by (simp add: collector_ok_scratch)
  then show ?thesis
    using assms Some d by (simp add: handle_file_open_def Let_def collector_ok_open)
qed

lemma collector_ok_hook:
  assumes "call_ok K" and "collector_ok c"
  shows "collector_ok (run_hook (K, h) c)"
proof (cases h)
  case (Exec_hook f)
  show ?thesis
  proof (cases "reserve K")
    case (Some raw)
    then have "length raw = sizeof_security_event"
      using assms(1) by (simp add: call_ok_def kernel_ok_def)
    then show ?thesis
      using Exec_hook Some assms length_old_name [of raw] old_name_not_Nil [of raw]
      by (simp add: handle_execve_def collector_ok_fill length_read_str terminated_read_str)
  qed (use assms Exec_hook in \<open>simp add: handle_execve_def\<close>)
next
  case (Connect_hook a)
  then show ?thesis
    using assms by (simp add: handle_tcp_connect_def collector_ok_fill split: option.split prod.split)
next
  case (Open_hook f)
  then show ?thesis
    using assms by (simp add: collector_ok_file_open)
qed


subsection \<open>The staging directories\<close>

lemma starts_with_cstr:
  "nul \<notin> set p \<Longrightarrow> starts_with p (cstr s) \<longleftrightarrow> starts_with p s"
proof (induction p arbitrary: s)
  case (Cons c p)
  then show ?case
    by (cases s) (auto simp: starts_with_def cstr_def)
qed (simp add: starts_with_def)

lemma starts_with_nth:
  "length p \<le> length s \<Longrightarrow> starts_with p s \<longleftrightarrow> (\<forall>i < length p. s ! i = p ! i)"
  by (auto simp: starts_with_def list_eq_iff_nth_eq min_def)

lemma starts_with_Cons_nth:
  "length s = m \<Longrightarrow> length p < m \<Longrightarrow> k + length p < m \<Longrightarrow>
    starts_with (c # p) (drop k s) \<longleftrightarrow> s ! k = c \<and> starts_with p (drop (Suc k) s)"
  by (simp add: starts_with_def Cons_nth_drop_Suc [symmetric])

lemma staging_agrees:
  assumes "length buf = PQSEC_FILENAME_LEN"
  shows "is_staging buf \<longleftrightarrow> is_temp_path (cstr buf)"
proof -
  have nul: "nul \<notin> set ''/tmp/''" "nul \<notin> set ''/dev/shm/''" "nul \<notin> set ''/var/tmp/''"
    by (simp_all add: nul_def)
  note step = starts_with_Cons_nth [of buf 128]
  have len: "length buf = 128"
    using assms by (simp add: event_consts)
  have zero: "starts_with p buf \<longleftrightarrow> starts_with p (drop 0 buf)" for p
    by simp
  have "starts_with [] s" for s
    by (simp add: starts_with_def)
  then show ?thesis
    unfolding is_temp_path_def nul [THEN starts_with_cstr] zero is_staging_def
    by (simp add: step len del: drop0) (auto simp: eval_nat_numeral)
qed

text \<open>
  C33. Kernel and analyzer agree on what a staging path is: on every buffer of the kernel's size, the
  character comparisons of \<open>is_staging\<close> give what the analyzer's \<open>is_temp_path\<close> gives for the
  C string in it.
\<close>

theorem staging_filters_agree:
  assumes "length buf = PQSEC_FILENAME_LEN"
  shows "is_staging buf \<longleftrightarrow> is_temp_path (cstr buf)"
  by (rule staging_agrees [OF assms])

subsection \<open>What a file open reports\<close>

lemma access_bits_flags:
  "has_flag (access_bits sens wr mode) PQSEC_FA_WRITE \<longleftrightarrow> wr"
  "has_flag (access_bits sens wr mode) PQSEC_FA_SENSITIVE \<longleftrightarrow> sens"
  "has_flag (access_bits sens wr mode) PQSEC_FA_EXEC \<longleftrightarrow> mode AND FMODE_EXEC \<noteq> 0"
  "\<not> has_flag (access_bits sens wr mode) PQSEC_FA_CREATE"
  by (auto simp: has_flag_def access_bits_def access_consts)

lemma file_open_event:
  assumes "kernel_ok K" and "reserve K = Some raw"
    and "scratch c = Some buf" and "length buf = PQSEC_FILENAME_LEN"
    and "d_path K (f_path file) buf = (n, buf')"
    and "sens = (key_of file \<in> set (sensitive_inodes c))" and "wr = (f_mode file AND FMODE_WRITE \<noteq> 0)"
  shows "\<exists>e f. submitted (handle_file_open K file c) = submitted c @
      (if wr \<and> 0 \<le> n \<and> (sens \<or> is_temp_path (cstr buf')) \<or> \<not> wr \<and> sens then [e] else []) \<and>
    ev_u e = U_file f \<and> cstr (fpath f) = (if wr then cstr buf' else []) \<and>
    has_flag (access f) PQSEC_FA_WRITE = wr \<and> has_flag (access f) PQSEC_FA_SENSITIVE = sens \<and>
    ino f = f_ino file \<and> dev f = f_sdev file \<and> ev_ts_ns e = ktime_ns K"
proof -
  let ?empty = "(old_name raw)[0 := nul]"
  let ?f = "\<lparr>fpath = if wr then read_str ?empty (Some buf') else ?empty,
    access = access_bits sens wr (f_mode file), ino = f_ino file, dev = f_sdev file\<rparr>"
  have raw: "length raw = sizeof_security_event"
    using assms(1,2) by (simp add: kernel_ok_def)
  have buf': "length buf' = PQSEC_FILENAME_LEN" and ends: "0 \<le> n \<Longrightarrow> terminated buf'"
    using assms(1,4,5) unfolding kernel_ok_def by (metis snd_conv, metis fst_conv snd_conv)
  have path: "cstr (fpath ?f) = (if wr then cstr buf' else [])" if "wr \<longrightarrow> 0 \<le> n"
  proof -
    have "cstr ?empty = []"
      using old_name_not_Nil [OF raw] by (cases "old_name raw") (simp_all add: cstr_def)
    moreover have "cstr (read_str ?empty (Some buf')) = cstr buf'" if "0 \<le> n"
      using length_cstr_less [OF ends [OF that]] buf' length_old_name [OF raw] by (intro cstr_read_str) simp
    ultimately show ?thesis
      using that by simp
  qed
  have staging: "is_staging buf' \<longleftrightarrow> is_temp_path (cstr buf')"
    by (rule staging_agrees [OF buf'])
  show ?thesis
  proof (cases "wr \<and> n < 0")
    case True
    let ?g = "\<lparr>fpath = buf', access = access_bits sens wr (f_mode file), ino = f_ino file, dev = f_sdev file\<rparr>"
    have "submitted (handle_file_open K file c) = submitted c"
      using True assms(3,5,7) by (simp add: handle_file_open_def Let_def)
    with True show ?thesis
      by (intro exI [of _ "fill_common K raw (U_file ?g)"] exI [of _ ?g])
        (simp add: access_bits_flags fill_common_def Let_def)
  next
    case False
    have "submitted (handle_file_open K file c) = submitted c @
        (if wr \<and> 0 \<le> n \<and> (sens \<or> is_temp_path (cstr buf')) \<or> \<not> wr \<and> sens
         then [fill_common K raw (U_file ?f)] else [])"
      using False assms(2,3,5,6,7) staging
      by (auto simp: handle_file_open_def submit_open_def submit_def Let_def)
    moreover have "cstr (fpath ?f) = (if wr then cstr buf' else [])"
      using False by (intro path) auto
    ultimately show ?thesis
      by (intro exI [of _ "fill_common K raw (U_file ?f)"] exI [of _ ?f])
        (simp only: access_bits_flags fill_common_def Let_def pqsec_file_event.select_convs
          security_event.select_convs HOL.simp_thms)
  qed
qed



subsection \<open>A concrete kernel\<close>

text \<open>
  One task that is its own parent, whose only file is \<open>/tmp/x\<close> and which runs it; slots hold the
  image of an earlier event.
\<close>

definition toy_kernel :: "u64 \<Rightarrow> kernel" where
  "toy_kernel now =
     \<lparr>tasks = \<lambda>a. if a = 8 then Some \<lparr>real_parent = 8, tgid = 9, task_comm = ''sh''\<rparr> else None,
      current_task = 8, pid_tgid = push_bit 32 9 OR 9, ktime_ns = now, current_comm = Some ''sh'',
      user_str = \<lambda>a. Some ''/tmp/x'', sock_addr = \<lambda>a. None,
      d_path = \<lambda>p b. if length b = 128 then (7, c_field 128 ''/tmp/x'') else (-1, b),
      reserve = Some (event_image sample_connect)\<rparr>"

definition toy_file :: kfile where
  "toy_file = \<lparr>f_mode = FMODE_WRITE, f_ino = 5, f_sdev = 1, f_path = 1\<rparr>"

lemma toy_kernel_ok: "kernel_ok (toy_kernel now)" "call_ok (toy_kernel now)"
proof -
  have "terminated (c_field 128 ''/tmp/x'')"
    by (simp add: terminated_def c_field_def zeros_def)
  then show "kernel_ok (toy_kernel now)"
    using length_event_image [OF wf_samples(3)]
    by (simp add: kernel_ok_def toy_kernel_def length_c_field)
  moreover have "has_parents (toy_kernel now) 8 n" for n
    by (induction n) (simp_all add: read_parent_def toy_kernel_def)
  ultimately show "call_ok (toy_kernel now)"
    by (simp add: call_ok_def toy_kernel_def)
qed


lemma staging_filters_agree_witness:
  "is_staging (c_field 128 ''/tmp/x'') = is_temp_path (cstr (c_field 128 ''/tmp/x''))"
  by (rule staging_filters_agree) (simp add: length_c_field event_consts)



end
