(* ===== verification/Detection.thy ===== *)
theory Detection
  imports Collector Pipeline
begin

section \<open>From the kernel's hooks to an alert\<close>

text \<open>
  The collector and the analyzer composed: what the hooks submit is what the pipeline reads.
  Between them stand the channel and the queue, which deliver events unchanged and in order.
\<close>

lemma submitted_hook: "\<exists>es. submitted (run_hook (K, h) c) = submitted c @ es"
  by (cases h)
    (auto simp: handle_execve_def handle_tcp_connect_def handle_file_open_def submit_open_def submit_def
      Let_def split: option.split prod.split)

lemma submitted_collect: "\<exists>es. submitted (collect calls c) = submitted c @ es"
proof (induction calls arbitrary: c)
  case (Cons Kh calls)
  obtain es where "submitted (run_hook Kh c) = submitted c @ es"
    using submitted_hook [of "fst Kh" "snd Kh" c] by auto
  moreover obtain fs where "submitted (collect calls (run_hook Kh c)) = submitted (run_hook Kh c) @ fs"
    using Cons by blast
  ultimately show ?case
    by (simp add: collect_def)
qed (simp add: collect_def)

lemma scratch_hook: "scratch c \<noteq> None \<Longrightarrow> scratch (run_hook (K, h) c) \<noteq> None"
  by (cases h)
    (auto simp: handle_execve_def handle_tcp_connect_def handle_file_open_def submit_open_def submit_def
      Let_def split: option.split prod.split)

lemma collected_state:
  assumes "\<forall>(K, h) \<in> set calls. call_ok K"
  obtains buf where "scratch (collect calls (new_collector keys)) = Some buf"
    and "length buf = PQSEC_FILENAME_LEN"
proof -
  have "collector_ok (fold run_hook calls c) \<and> scratch (fold run_hook calls c) \<noteq> None"
    if "collector_ok c" and "scratch c \<noteq> None" for c
    using assms that
  proof (induction calls arbitrary: c)
    case (Cons Kh calls)
    obtain K h where Kh: "Kh = (K, h)"
      by (cases Kh)
    have "collector_ok (run_hook (K, h) c)"
      using Cons.prems Kh by (intro collector_ok_hook) simp_all
    moreover have "scratch (run_hook (K, h) c) \<noteq> None"
      by (rule scratch_hook [OF Cons.prems(3)])
    ultimately show ?case
      using Cons.IH [of "run_hook Kh c"] Cons.prems(1) Kh by simp
  qed simp
  from this [of "new_collector keys"] show ?thesis
    using that by (auto simp: collect_def collector_ok_def new_collector_def)
qed

lemma collect_one: "collect [(K, h)] c = run_hook (K, h) c"
  by (simp add: collect_def)

lemma collect_append: "collect (calls @ calls') c = collect calls' (collect calls c)"
  by (simp add: collect_def)

text \<open>An open of a staging path for writing becomes an event that the correlator remembers.\<close>

lemma open_is_write:
  assumes "call_ok K" and "reserve K \<noteq> None" and "scratch c = Some buf" "length buf = PQSEC_FILENAME_LEN"
    and "f_mode file AND FMODE_WRITE \<noteq> 0"
    and "0 \<le> fst (d_path K (f_path file) buf)" "cstr (snd (d_path K (f_path file) buf)) = p"
    and "is_temp_path p"
  shows "\<exists>e. submitted (run_hook (K, Open_hook file) c) = submitted c @ [e] \<and> writes_path p e \<and>
    ev_ts_ns e = ktime_ns K"
proof -
  obtain raw where raw: "reserve K = Some raw"
    using assms(2) by blast
  obtain n buf' where d: "d_path K (f_path file) buf = (n, buf')"
    by (cases "d_path K (f_path file) buf")
  have K: "kernel_ok K"
    using assms(1) by (simp add: call_ok_def)
  have "p \<noteq> []"
    using assms(8) by (auto simp: is_temp_path_def starts_with_def)
  then show ?thesis
    using file_open_event [OF K raw assms(3,4) d refl refl] assms(5-8) d
    by (auto simp: writes_path_def)
qed

lemma exec_is_run:
  assumes "call_ok K" and "reserve K \<noteq> None" and "user_str K name = Some s"
    and "length (cstr s) < PQSEC_FILENAME_LEN"
  shows "\<exists>e f. submitted (run_hook (K, Exec_hook name) c) = submitted c @ [e] \<and> ev_u e = U_execve f \<and>
    cstr f = cstr s \<and> ev_ts_ns e = ktime_ns K"
proof -
  obtain raw where raw: "reserve K = Some raw"
    using assms(2) by blast
  then have "length (old_name raw) = PQSEC_FILENAME_LEN"
    using assms(1) by (intro length_old_name) (simp add: call_ok_def kernel_ok_def)
  then have "cstr (read_str (old_name raw) (Some s)) = cstr s"
    using assms(4) by (intro cstr_read_str) simp
  then show ?thesis
    using raw assms(3) by (simp add: handle_execve_def submit_def fill_common_def Let_def)
qed


lemma toy_call_open:
  "\<exists>e. submitted (run_hook (toy_kernel now, Open_hook toy_file) (new_collector [])) = [e] \<and> ev_ts_ns e = now"
  using open_is_write [OF toy_kernel_ok(2), of now "new_collector []" "zeros PQSEC_FILENAME_LEN" toy_file "''/tmp/x''"]
  by (simp add: toy_kernel_def toy_file_def new_collector_def FMODE_WRITE_def event_consts cstr_sample_path
      is_temp_path_def starts_with_def) blast

lemma toy_path:
  "\<forall>b. length b = PQSEC_FILENAME_LEN \<longrightarrow> 0 \<le> fst (d_path (toy_kernel now) (f_path toy_file) b) \<and>
     cstr (snd (d_path (toy_kernel now) (f_path toy_file) b)) = ''/tmp/x''"
  by (simp add: toy_kernel_def event_consts cstr_sample_path)

lemma cstr_tmp_x: "cstr ''/tmp/x'' = ''/tmp/x''"
  by (rule cstr_id) (simp add: nul_def)


end
