(* ===== verification/Memo.thy ===== *)
theory Memo
  imports Pipeline
begin

section \<open>The evaluation's memoising client\<close>

text \<open>
  \<open>MemoLlm\<close> of \<open>analyzer/src/eval.cpp\<close>: a client in front of another one that asks it at most once
  for every context and at most \<open>cap\<close> times in all, and counts.  Its state is the inner client's
  state with the two tables and the counters.  The facts about it are proved from three contracts
  on clients: that two of them answer alike, that one keeps an invariant, and that one counts.
\<close>

record memo =
  haiku_memo :: "(string \<times> classification) list"
  sonnet_memo :: "(string \<times> classification) list"
  m_calls :: u64
  m_hits :: u64
  m_capped :: u64
  haiku_in :: u64
  haiku_out :: u64
  sonnet_in :: u64
  sonnet_out :: u64

definition new_memo :: memo where
  "new_memo = \<lparr>haiku_memo = [], sonnet_memo = [], m_calls = 0, m_hits = 0, m_capped = 0,
     haiku_in = 0, haiku_out = 0, sonnet_in = 0, sonnet_out = 0\<rparr>"

definition msg_capped :: string where
  "msg_capped =
     ''eval --max-llm-calls '' @ [CHR 0xEB, CHR 0x8F, CHR 0x84, CHR 0xEB, CHR 0x8B, CHR 0xAC]"

definition capped_answer :: classification where
  "capped_answer = default_classification\<lparr>c_model := ''capped'', c_verdict := Unknown, c_reason := msg_capped\<rparr>"

definition remember :: "bool \<Rightarrow> string \<Rightarrow> classification \<Rightarrow> memo \<Rightarrow> memo" where
  "remember deep ctx c m =
     (if deep then m\<lparr>sonnet_in := sonnet_in m + c_input_tokens c, sonnet_out := sonnet_out m + c_output_tokens c,
        sonnet_memo := AList.update ctx c (sonnet_memo m)\<rparr>
      else m\<lparr>haiku_in := haiku_in m + c_input_tokens c, haiku_out := haiku_out m + c_output_tokens c,
        haiku_memo := AList.update ctx c (haiku_memo m)\<rparr>)"

definition memo_get ::
  "'s llm_client \<Rightarrow> u64 \<Rightarrow> bool \<Rightarrow> 's \<times> memo \<Rightarrow> string \<Rightarrow> classification \<times> 's \<times> memo" where
  "memo_get inner cap deep st ctx =
     (let (s, m) = st
      in case map_of (if deep then sonnet_memo m else haiku_memo m) ctx of
           Some c \<Rightarrow> (c\<lparr>c_input_tokens := 0, c_output_tokens := 0\<rparr>, s, m\<lparr>m_hits := m_hits m + 1\<rparr>)
         | None \<Rightarrow>
             if cap \<le> m_calls m then (capped_answer, s, m\<lparr>m_capped := m_capped m + 1\<rparr>)
             else let (c, s') = (if deep then llm_deep_analyze inner s ctx else llm_classify inner s ctx)
                  in (c, s', remember deep ctx c (m\<lparr>m_calls := m_calls m + 1\<rparr>)))"

definition memo_client :: "'s llm_client \<Rightarrow> u64 \<Rightarrow> ('s \<times> memo) llm_client" where
  "memo_client inner cap =
     \<lparr>llm_classify = memo_get inner cap False, llm_deep_analyze = memo_get inner cap True\<rparr>"

lemma remember_counts [simp]:
  "m_calls (remember deep ctx c m) = m_calls m" "m_hits (remember deep ctx c m) = m_hits m"
  "m_capped (remember deep ctx c m) = m_capped m"
  by (simp_all add: remember_def)

subsection \<open>Three contracts on clients\<close>

text \<open>Answers and outcomes that differ at most in the token counts.\<close>

definition same_answer :: "classification \<Rightarrow> classification \<Rightarrow> bool" where
  "same_answer c d \<longleftrightarrow>
     c\<lparr>c_input_tokens := 0, c_output_tokens := 0\<rparr> = d\<lparr>c_input_tokens := 0, c_output_tokens := 0\<rparr>"

definition same_outcome :: "outcome \<Rightarrow> outcome \<Rightarrow> bool" where
  "same_outcome o1 o2 \<longleftrightarrow>
     o1\<lparr>o_input_tokens := 0, o_output_tokens := 0\<rparr> = o2\<lparr>o_input_tokens := 0, o_output_tokens := 0\<rparr>"

lemma same_answer_refl [simp]: "same_answer c c"
  by (simp add: same_answer_def)

lemma same_outcome_refl [simp]: "same_outcome x x"
  by (simp add: same_outcome_def)

lemma same_answerD:
  assumes "same_answer c d"
  shows "c_verdict c = c_verdict d" "c_severity c = c_severity d" "c_confidence c = c_confidence d"
    "c_reason c = c_reason d" "c_model c = c_model d"
  using arg_cong [OF assms [unfolded same_answer_def], of c_verdict]
    arg_cong [OF assms [unfolded same_answer_def], of c_severity]
    arg_cong [OF assms [unfolded same_answer_def], of c_confidence]
    arg_cong [OF assms [unfolded same_answer_def], of c_reason]
    arg_cong [OF assms [unfolded same_answer_def], of c_model]
  by simp_all

lemma same_outcomeD:
  assumes "same_outcome x y"
  shows "o_layer x = o_layer y" "o_alerted x = o_alerted y" "o_alert x = o_alert y"
    "o_haiku_calls x = o_haiku_calls y" "o_sonnet_calls x = o_sonnet_calls y"
  using arg_cong [OF assms [unfolded same_outcome_def], of o_layer]
    arg_cong [OF assms [unfolded same_outcome_def], of o_alerted]
    arg_cong [OF assms [unfolded same_outcome_def], of o_alert]
    arg_cong [OF assms [unfolded same_outcome_def], of o_haiku_calls]
    arg_cong [OF assms [unfolded same_outcome_def], of o_sonnet_calls]
  by simp_all

lemma same_outcome_account:
  "same_outcome x y \<Longrightarrow> same_outcome (account x c deep) (account y d deep)"
  by (cases x; cases y) (simp add: same_outcome_def account_def)

lemma same_outcome_alert:
  "same_outcome x y \<Longrightarrow> same_outcome (alert_outcome x l a) (alert_outcome y l a)"
  by (cases x; cases y) (simp add: same_outcome_def alert_outcome_def)

lemma same_outcome_log:
  "same_outcome x y \<Longrightarrow>
    same_outcome (x\<lparr>o_layer := l, o_log_line := t\<rparr>) (y\<lparr>o_layer := l, o_log_line := t\<rparr>)"
  by (cases x; cases y) (simp add: same_outcome_def)

lemmas same_outcome_intros = same_outcome_refl same_outcome_account same_outcome_alert same_outcome_log

text \<open>
  Two clients that answer alike as long as they have credit; every call uses up one.
\<close>

locale client_simulation =
  fixes llm1 :: "'s llm_client" and llm2 :: "'t llm_client"
    and related :: "nat \<Rightarrow> 's \<Rightarrow> 't \<Rightarrow> bool"
  assumes classify_alike: "related (Suc n) s t \<Longrightarrow>
      same_answer (fst (llm_classify llm1 s ctx)) (fst (llm_classify llm2 t ctx)) \<and>
      related n (snd (llm_classify llm1 s ctx)) (snd (llm_classify llm2 t ctx))"
    and deep_alike: "related (Suc n) s t \<Longrightarrow>
      same_answer (fst (llm_deep_analyze llm1 s ctx)) (fst (llm_deep_analyze llm2 t ctx)) \<and>
      related n (snd (llm_deep_analyze llm1 s ctx)) (snd (llm_deep_analyze llm2 t ctx))"
    and spend: "related (Suc n) s t \<Longrightarrow> related n s t"
begin

lemma correlated_alike:
  assumes "related (Suc n) s t"
  shows "same_outcome (fst (correlated_outcome ev pr h llm1 s)) (fst (correlated_outcome ev pr h llm2 t)) \<and>
    related n (snd (correlated_outcome ev pr h llm1 s)) (snd (correlated_outcome ev pr h llm2 t))"
proof -
  let ?ctx = "event_summary ev @ '' | correlation: '' @ h_reason h"
  have "same_answer (fst (llm_deep_analyze llm1 s ?ctx)) (fst (llm_deep_analyze llm2 t ?ctx))"
    and rel: "related n (snd (llm_deep_analyze llm1 s ?ctx)) (snd (llm_deep_analyze llm2 t ?ctx))"
    using deep_alike [OF assms] by blast+
  note same = same_answerD [OF this(1)]
  show ?thesis
    using rel spend [OF assms]
    by (simp add: correlated_outcome_def Let_def case_prod_unfold same same_outcome_intros
        del: append_Cons)
qed

lemma escalated_alike:
  assumes "related (Suc (Suc n)) s t"
  shows "same_outcome (fst (escalated_outcome ev llm1 s)) (fst (escalated_outcome ev llm2 t)) \<and>
    related n (snd (escalated_outcome ev llm1 s)) (snd (escalated_outcome ev llm2 t))"
proof -
  let ?ctx = "event_summary ev"
  let ?s = "snd (llm_classify llm1 s ?ctx)" and ?t = "snd (llm_classify llm2 t ?ctx)"
  have "same_answer (fst (llm_classify llm1 s ?ctx)) (fst (llm_classify llm2 t ?ctx))"
    and rel: "related (Suc n) ?s ?t"
    using classify_alike [OF assms] by blast+
  note same = same_answerD [OF this(1)]
  have "same_answer (fst (llm_deep_analyze llm1 ?s ?ctx)) (fst (llm_deep_analyze llm2 ?t ?ctx))"
    and rel': "related n (snd (llm_deep_analyze llm1 ?s ?ctx)) (snd (llm_deep_analyze llm2 ?t ?ctx))"
    using deep_alike [OF rel] by blast+
  note same' = same_answerD [OF this(1)]
  have "haiku_log_line (fst (llm_classify llm1 s ?ctx)) x = haiku_log_line (fst (llm_classify llm2 t ?ctx)) x" for x
    by (simp add: haiku_log_line_def same)
  then show ?thesis
    using spend [OF rel] rel'
    by (simp add: escalated_outcome_def Let_def case_prod_unfold same same' same_outcome_intros)
qed

lemma event_alike:
  assumes "related (Suc (Suc n)) s t"
  shows "same_outcome (fst (classify_event ev llm1 (s, c))) (fst (classify_event ev llm2 (t, c))) \<and>
    related n (fst (snd (classify_event ev llm1 (s, c)))) (fst (snd (classify_event ev llm2 (t, c))))"
proof -
  show ?thesis
    using spend [OF spend [OF assms]] correlated_alike [OF spend [OF assms]] escalated_alike [OF assms]
    by (cases rule: classify_cases [where ev = ev and corr = c]) (simp_all add: classify_simps)
qed

end

text \<open>A client that keeps an invariant of its state.\<close>

locale client_invariant =
  fixes llm :: "'s llm_client" and Inv :: "'s \<Rightarrow> bool"
  assumes classify_keeps: "Inv s \<Longrightarrow> Inv (snd (llm_classify llm s ctx))"
    and deep_keeps: "Inv s \<Longrightarrow> Inv (snd (llm_deep_analyze llm s ctx))"
begin

lemma event_keeps: "Inv s \<Longrightarrow> Inv (fst (snd (classify_event ev llm (s, c))))"
  by (cases rule: classify_cases [where ev = ev and corr = c])
    (simp_all add: classify_simps correlated_outcome_def escalated_outcome_def Let_def case_prod_unfold
      classify_keeps deep_keeps)

end

text \<open>A client one of whose counters advances with every call.\<close>

locale call_counter =
  fixes llm :: "'s llm_client" and count :: "'s \<Rightarrow> u64"
  assumes classify_counts: "count (snd (llm_classify llm s ctx)) = count s + 1"
    and deep_counts: "count (snd (llm_deep_analyze llm s ctx)) = count s + 1"
begin

lemma event_counts:
  "count (fst (snd (classify_event ev llm (s, c)))) =
     count s + of_nat (o_haiku_calls (fst (classify_event ev llm (s, c))) +
       o_sonnet_calls (fst (classify_event ev llm (s, c))))"
  by (cases rule: classify_cases [where ev = ev and corr = c])
    (simp_all add: classify_simps correlated_outcome_def escalated_outcome_def agent_drop_outcome_def Let_def
      case_prod_unfold classify_counts deep_counts)

end

subsection \<open>The memoising client under the three contracts\<close>

text \<open>A client whose answers depend on the context alone, as the mock's do.\<close>

definition pure_client :: "'s llm_client \<Rightarrow> bool" where
  "pure_client llm \<longleftrightarrow>
     (\<forall>s t ctx. fst (llm_classify llm s ctx) = fst (llm_classify llm t ctx) \<and>
       fst (llm_deep_analyze llm s ctx) = fst (llm_deep_analyze llm t ctx))"

text \<open>The tables hold answers of the inner client, and the cap leaves room for \<open>n\<close> more calls.\<close>

definition memo_related :: "'s llm_client \<Rightarrow> u64 \<Rightarrow> nat \<Rightarrow> 's \<times> memo \<Rightarrow> 's \<Rightarrow> bool" where
  "memo_related inner cap n st t \<longleftrightarrow>
     unat (m_calls (snd st)) + n \<le> unat cap \<and>
     (\<forall>ctx c u. map_of (haiku_memo (snd st)) ctx = Some c \<longrightarrow> c = fst (llm_classify inner u ctx)) \<and>
     (\<forall>ctx c u. map_of (sonnet_memo (snd st)) ctx = Some c \<longrightarrow> c = fst (llm_deep_analyze inner u ctx))"

lemma calls_below_cap:
  fixes n cap :: u64
  assumes "unat n + Suc k \<le> unat cap"
  shows "\<not> cap \<le> n" "unat (n + 1) = Suc (unat n)"
proof -
  show "\<not> cap \<le> n"
    using assms by (simp add: word_le_nat_alt)
  have "unat n + 1 < 2 ^ 64"
    using assms unsigned_less [of cap, where 'a = nat] by simp
  then show "unat (n + 1) = Suc (unat n)"
    by (simp add: unat_word_ariths)
qed

locale memoised =
  fixes inner :: "'s llm_client" and cap :: u64
  assumes pure: "pure_client inner"
begin

lemma get_alike:
  assumes "memo_related inner cap (Suc n) st t"
  shows "same_answer (fst (memo_get inner cap deep st ctx))
      (fst ((if deep then llm_deep_analyze inner else llm_classify inner) t ctx)) \<and>
    memo_related inner cap n (snd (memo_get inner cap deep st ctx)) u"
proof -
  obtain s m where st: "st = (s, m)"
    by (cases st)
  have room: "unat (m_calls m) + Suc n \<le> unat cap"
    using assms by (simp add: memo_related_def st)
  note below = calls_below_cap [OF room]
  define f g where "f x = fst (llm_classify inner t x)" and "g x = fst (llm_deep_analyze inner t x)" for x
  then have same: "fst (llm_classify inner u x) = f x" "fst (llm_deep_analyze inner u x) = g x" for u x
    using pure unfolding pure_client_def by metis+
  show ?thesis
  proof (cases "map_of (if deep then sonnet_memo m else haiku_memo m) ctx")
    case (Some c)
    then have "c = fst ((if deep then llm_deep_analyze inner else llm_classify inner) t ctx)"
      using assms by (auto simp: memo_related_def st split: if_splits)
    then show ?thesis
      using Some assms by (simp add: memo_get_def st same_answer_def memo_related_def Let_def)
  next
    case None
    then show ?thesis
      using assms below room same
      by (auto simp: memo_get_def st memo_related_def remember_def update_conv' case_prod_unfold Let_def
          split: if_splits)
  qed
qed

end

sublocale memoised < alike: client_simulation "memo_client inner cap" inner "memo_related inner cap"
proof
  fix n st t ctx
  assume r: "memo_related inner cap (Suc n) st t"
  show "same_answer (fst (llm_classify (memo_client inner cap) st ctx)) (fst (llm_classify inner t ctx)) \<and>
      memo_related inner cap n (snd (llm_classify (memo_client inner cap) st ctx)) (snd (llm_classify inner t ctx))"
    using get_alike [OF r, of False ctx] by (simp add: memo_client_def)
  show "same_answer (fst (llm_deep_analyze (memo_client inner cap) st ctx)) (fst (llm_deep_analyze inner t ctx)) \<and>
      memo_related inner cap n (snd (llm_deep_analyze (memo_client inner cap) st ctx))
        (snd (llm_deep_analyze inner t ctx))"
    using get_alike [OF r, of True ctx] by (simp add: memo_client_def)
  show "memo_related inner cap n st t"
    using r by (simp add: memo_related_def)
qed

context memoised
begin

lemma simulates: "client_simulation (memo_client inner cap) inner (memo_related inner cap)"
  by (rule alike.client_simulation_axioms)

end

lemma pure_mock: "pure_client mock_client"
  by (simp add: pure_client_def mock_client_def)

interpretation mock_memo: memoised mock_client cap for cap
  by unfold_locales (rule pure_mock)

lemma word_less_plus_1_le: "\<not> cap \<le> n \<Longrightarrow> n + 1 \<le> (cap :: u64)"
  by (simp add: inc_le not_le)

interpretation memo_budget: client_invariant "memo_client inner cap" "\<lambda>st. m_calls (snd st) \<le> cap" for inner cap
  by unfold_locales
    (auto simp: memo_client_def memo_get_def word_less_plus_1_le split: option.split prod.split)

interpretation memo_frozen: client_invariant "memo_client inner cap"
    "\<lambda>st. cap \<le> m_calls (snd st) \<and> fst st = s0 \<and> m_calls (snd st) = n" for inner cap s0 n
  by unfold_locales (auto simp: memo_client_def memo_get_def split: option.split prod.split)

definition memo_count :: "'s \<times> memo \<Rightarrow> u64" where
  "memo_count st = m_calls (snd st) + m_hits (snd st) + m_capped (snd st)"

interpretation memo_counts: call_counter "memo_client inner cap" memo_count for inner cap
  by unfold_locales
    (auto simp: memo_client_def memo_get_def memo_count_def split: option.split prod.split)

end
