(* ===== verification/Eval.thy ===== *)
theory Eval
  imports Memo Events_File "HOL-Library.List_Lexorder" "HOL-Library.Char_ord"
begin

section \<open>The detection evaluation\<close>

text \<open>
  \<open>analyzer/src/eval.cpp\<close>: labelled event files go through \<open>classify_event\<close> under a virtual clock,
  outcomes are counted, and the gate compares the highest severity of every attack scenario with
  what it should have been.  The file system and the measured latencies are parameters.  The printed
  report and the JSON file are in \<open>Report\<close>.
\<close>

subsection \<open>One file under the virtual clock\<close>

definition vclock_start :: u64 where "vclock_start = 1000000000"

text \<open>
  What the callbacks of \<open>run_file\<close> get, in order.  The state is that of the client and the
  correlator.
\<close>

datatype item = Classified entry outcome | Directive string

fun run_entries ::
  "'s llm_client \<Rightarrow> entry list \<Rightarrow> u64 \<Rightarrow> 's \<times> correlator \<Rightarrow> item list \<times> 's \<times> correlator" where
  "run_entries llm [] clk st = ([], st)"
| "run_entries llm (e # es) clk st =
     (case e_kind e of
        K_Directive \<Rightarrow>
          let (xs, st') = run_entries llm es clk st in (Directive (e_directive e) # xs, st')
      | K_Delay \<Rightarrow> run_entries llm es (clk + word_of_int (e_delay_ms e) * 1000000) st
      | K_Event \<Rightarrow>
          let clk' = clk + 1000000;
              (out, st1) = classify_event ((e_ev e)\<lparr>ev_ts_ns := clk'\<rparr>) llm st;
              (xs, st2) = run_entries llm es clk' st1
          in (Classified e out # xs, st2))"

datatype eval_exit = Exit nat | Uncaught string

record filesystem =
  fs_is_dir :: "string \<Rightarrow> bool option"
  fs_names :: "string \<Rightarrow> string list"
  fs_text :: "string \<Rightarrow> string option"

text \<open>A new correlator for every file; an error in the file is an exception nobody catches.\<close>

definition run_file :: "filesystem \<Rightarrow> 's llm_client \<Rightarrow> string \<Rightarrow> 's \<Rightarrow> eval_exit + item list \<times> 's" where
  "run_file fs llm path s =
     (case fs_text fs path of
        None \<Rightarrow> Inl (Exit 2)
      | Some text \<Rightarrow>
          let (es, err) = parse path text;
              (xs, s', corr) = run_entries llm es vclock_start (s, default_correlator)
          in case err of Some why \<Rightarrow> Inl (Uncaught why) | None \<Rightarrow> Inr (xs, s'))"

subsection \<open>Counting\<close>

type_synonym counter = "(string \<times> u64) list"

definition count_of :: "counter \<Rightarrow> string \<Rightarrow> u64" where
  "count_of m k = (case map_of m k of None \<Rightarrow> 0 | Some n \<Rightarrow> n)"

definition bump :: "string \<Rightarrow> counter \<Rightarrow> counter" where
  "bump k m = AList.update k (count_of m k + 1) m"

record 'u stats =
  st_events :: u64
  st_alerts :: u64
  by_layer :: counter
  by_source :: counter
  fp_summary :: counter
  st_haiku_calls :: u64
  st_sonnet_calls :: u64
  lat_rule_us :: "'u list"
  lat_llm_us :: "'u list"

definition new_stats :: "'u stats" where
  "new_stats = \<lparr>st_events = 0, st_alerts = 0, by_layer = [], by_source = [], fp_summary = [],
     st_haiku_calls = 0, st_sonnet_calls = 0, lat_rule_us = [], lat_llm_us = []\<rparr>"

definition tally :: "'u stats \<Rightarrow> outcome \<Rightarrow> 'u \<Rightarrow> bool \<Rightarrow> 'u stats" where
  "tally st out us benign =
     (let st1 = st\<lparr>st_events := st_events st + 1,
            by_layer := bump (layer_string (o_layer out)) (by_layer st),
            st_haiku_calls := st_haiku_calls st + of_nat (o_haiku_calls out),
            st_sonnet_calls := st_sonnet_calls st + of_nat (o_sonnet_calls out)\<rparr>;
          st2 = (if o_haiku_calls out + o_sonnet_calls out \<noteq> 0 then st1\<lparr>lat_llm_us := lat_llm_us st1 @ [us]\<rparr>
                 else st1\<lparr>lat_rule_us := lat_rule_us st1 @ [us]\<rparr>)
      in if o_alerted out
         then st2\<lparr>st_alerts := st_alerts st2 + 1,
                by_source := bump (a_source (o_alert out)) (by_source st2),
                fp_summary := (if benign then bump (a_event_summary (o_alert out)) (fp_summary st2)
                               else fp_summary st2)\<rparr>
         else st2)"

definition outcomes :: "item list \<Rightarrow> outcome list" where
  "outcomes xs = concat (map (\<lambda>x. case x of Classified e out \<Rightarrow> [out] | Directive d \<Rightarrow> []) xs)"

text \<open>The latencies are those of the \<open>i\<close>-th classified event from \<open>off\<close> on.\<close>

definition tally_all :: "(nat \<Rightarrow> 'u) \<Rightarrow> bool \<Rightarrow> item list \<Rightarrow> 'u stats" where
  "tally_all us benign xs =
     foldl (\<lambda>st (out, i). tally st out (us i) benign) new_stats (zip (outcomes xs) [0..<length (outcomes xs)])"

definition p50 :: "'u::{linorder,zero} list \<Rightarrow> 'u" where
  "p50 v = (if v = [] then 0 else sort v ! (length v div 2))"

definition p90 :: "'u::{linorder,zero} list \<Rightarrow> 'u" where
  "p90 v = (if v = [] then 0 else sort v ! (length v * 9 div 10))"

text \<open>Both are measured values, whatever the number of events, and in order.\<close>

lemma percentiles:
  assumes "v \<noteq> []"
  shows "p50 v \<in> set v" "p90 v \<in> set v" "p50 v \<le> p90 v"
proof -
  have i: "length v div 2 < length v" "length v * 9 div 10 < length v" "length v div 2 \<le> length v * 9 div 10"
    using assms by (cases v; auto)+
  then show "p50 v \<in> set v" "p90 v \<in> set v"
    using nth_mem [of _ "sort v"] assms by (simp_all add: p50_def p90_def)
  show "p50 v \<le> p90 v"
    using i assms by (simp add: p50_def p90_def sorted_nth_mono)
qed

subsection \<open>Scenarios\<close>

record scenario =
  sc_name :: string
  known_miss :: string
  expect_max_sev :: string
  sc_events :: u64
  expect_alert :: u64
  hit_alert :: u64
  expect_drop :: u64
  sc_fp :: u64
  max_sev :: severity
  any_alert :: bool
  sc_layers :: counter

definition new_scenario :: "string \<Rightarrow> scenario" where
  "new_scenario name = \<lparr>sc_name = name, known_miss = [], expect_max_sev = [], sc_events = 0, expect_alert = 0,
     hit_alert = 0, expect_drop = 0, sc_fp = 0, max_sev = Info, any_alert = False, sc_layers = []\<rparr>"

definition parse_sev :: "string \<Rightarrow> severity" where
  "parse_sev s =
     (if s = ''low'' then Low else if s = ''medium'' then Medium else if s = ''high'' then High
      else if s = ''critical'' then Critical else Info)"

text \<open>\<open>d.substr(d.find(':') + 1)\<close>: the whole string if there is no colon, as \<open>npos + 1\<close> is 0.\<close>

definition after_colon :: "string \<Rightarrow> string" where
  "after_colon d = (case find_char (CHR '':'') d of None \<Rightarrow> d | Some i \<Rightarrow> drop (Suc i) d)"

definition on_directive :: "string \<Rightarrow> scenario \<Rightarrow> scenario" where
  "on_directive d sc =
     (if starts_with ''known-miss'' d
      then sc\<lparr>known_miss := trim (if find_char (CHR '':'') d = None then [] else after_colon d)\<rparr>
      else if starts_with ''expect-max-severity'' d then sc\<lparr>expect_max_sev := trim (after_colon d)\<rparr>
      else sc)"

definition on_outcome :: "entry \<Rightarrow> outcome \<Rightarrow> scenario \<Rightarrow> scenario" where
  "on_outcome e out sc =
     (let sc1 = sc\<lparr>sc_events := sc_events sc + 1, sc_layers := bump (layer_string (o_layer out)) (sc_layers sc)\<rparr>;
          sc2 = (if e_expect e = ''alert'' then
                   sc1\<lparr>expect_alert := expect_alert sc1 + 1,
                     hit_alert := hit_alert sc1 + (if o_alerted out then 1 else 0)\<rparr>
                 else if e_expect e = ''drop'' then
                   sc1\<lparr>expect_drop := expect_drop sc1 + 1, sc_fp := sc_fp sc1 + (if o_alerted out then 1 else 0)\<rparr>
                 else sc1)
      in if o_alerted out
         then sc2\<lparr>any_alert := True, max_sev := max (max_sev sc2) (a_severity (o_alert out))\<rparr>
         else sc2)"

fun scenario_step :: "scenario \<Rightarrow> item \<Rightarrow> scenario" where
  "scenario_step sc (Classified e out) = on_outcome e out sc"
| "scenario_step sc (Directive d) = on_directive d sc"

definition scenario_of :: "string \<Rightarrow> item list \<Rightarrow> scenario" where
  "scenario_of name xs = foldl scenario_step (new_scenario name) xs"

definition detected_sc :: "scenario \<Rightarrow> bool" where
  "detected_sc sc \<longleftrightarrow> High \<le> max_sev sc"

definition severity_met :: "scenario \<Rightarrow> bool" where
  "severity_met sc \<longleftrightarrow> expect_max_sev sc = [] \<or> parse_sev (expect_max_sev sc) \<le> max_sev sc"

text \<open>The loop over the scenarios: (detected, gated, gated and detected, the gate fails).\<close>

fun gate_loop :: "scenario list \<Rightarrow> nat \<times> nat \<times> nat \<times> bool \<Rightarrow> nat \<times> nat \<times> nat \<times> bool" where
  "gate_loop [] acc = acc"
| "gate_loop (sc # scs) (detected, gated, gated_ok, fail) =
     (let det = detected_sc sc; detected' = (if det then detected + 1 else detected)
      in if known_miss sc = []
         then if det then gate_loop scs (detected', gated + 1, gated_ok + 1, fail)
              else gate_loop scs (detected', gated + 1, gated_ok, True)
         else gate_loop scs (detected', gated, gated_ok, fail))"

definition gate_summary :: "scenario list \<Rightarrow> nat \<times> nat \<times> nat \<times> bool" where
  "gate_summary scs = gate_loop scs (0, 0, 0, False)"

subsection \<open>Files and arguments\<close>

definition events_name :: "string \<Rightarrow> bool" where
  "events_name n \<longleftrightarrow> 7 < length n \<and> drop (length n - 7) n = ''.events''"

fun expand :: "filesystem \<Rightarrow> string list \<Rightarrow> eval_exit + string list" where
  "expand fs [] = Inr []"
| "expand fs (p # ps) =
     (case fs_is_dir fs p of
        None \<Rightarrow> Inl (Exit 2)
      | Some d \<Rightarrow>
          and_then (expand fs ps) (\<lambda>r. Inr
            ((if d then sort (map (\<lambda>n. p @ ''/'' @ n) (filter events_name (fs_names fs p))) else [p]) @ r)))"

definition rfind_sub :: "string \<Rightarrow> string \<Rightarrow> nat option" where
  "rfind_sub p s = List.find (\<lambda>i. starts_with p (drop i s)) (rev [0..<Suc (length s)])"

definition basename_noext :: "string \<Rightarrow> string" where
  "basename_noext p =
     (let b = after_last_slash p
      in case rfind_sub ''.events'' b of None \<Rightarrow> b | Some d \<Rightarrow> take d b)"

record eval_options =
  eo_benign :: "string list"
  eo_attack :: "string list"
  eo_llm :: string
  eo_json :: string
  eo_cap :: u64
  eo_gate :: bool

definition default_eval_options :: eval_options where
  "default_eval_options =
     \<lparr>eo_benign = [], eo_attack = [], eo_llm = ''mock'', eo_json = [], eo_cap = 2000, eo_gate = False\<rparr>"

text \<open>\<open>argv[i + 1][0] != '-'\<close>; the empty argument has a NUL there.\<close>

definition path_arg :: "string \<Rightarrow> bool" where
  "path_arg a \<longleftrightarrow> a = [] \<or> hd a \<noteq> CHR ''-''"

function eval_args :: "eval_options \<Rightarrow> string list \<Rightarrow> eval_exit + eval_options" where
  "eval_args o1 [] = Inr o1"
| "eval_args o1 (a # r) =
     (if a = ''--benign'' then
        eval_args (o1\<lparr>eo_benign := eo_benign o1 @ takeWhile path_arg r\<rparr>) (dropWhile path_arg r)
      else if a = ''--attack'' then
        eval_args (o1\<lparr>eo_attack := eo_attack o1 @ takeWhile path_arg r\<rparr>) (dropWhile path_arg r)
      else if a = ''--gate'' then eval_args (o1\<lparr>eo_gate := True\<rparr>) r
      else if a \<notin> {''--llm'', ''--max-llm-calls'', ''--json''} then Inl (Exit 2)
      else case r of
             [] \<Rightarrow> Inl (Exit 2)
           | v # r' \<Rightarrow>
               if a = ''--llm'' then eval_args (o1\<lparr>eo_llm := v\<rparr>) r'
               else if a = ''--json'' then eval_args (o1\<lparr>eo_json := v\<rparr>) r'
               else (case stoul v of
                       Inl err \<Rightarrow> Inl (Uncaught ''stoul'')
                     | Inr n \<Rightarrow> eval_args (o1\<lparr>eo_cap := of_nat n\<rparr>) r'))"
  by pat_completeness auto
termination
  by (relation "measure (\<lambda>(o1, args). length args)") (simp_all add: le_imp_less_Suc length_dropWhile_le)

text \<open>Which client: the one with the key, or the mock; \<open>None\<close> where the program exits.\<close>

datatype llm_choice = Real_llm string | Mock_llm

definition choose_llm :: "string \<Rightarrow> string option \<Rightarrow> llm_choice option" where
  "choose_llm mode key =
     (if mode = ''real'' then
        (case key of None \<Rightarrow> None | Some k \<Rightarrow> if k = [] then None else Some (Real_llm k))
      else if mode = ''mock'' then Some Mock_llm else None)"

subsection \<open>The whole run\<close>

fun run_files ::
  "filesystem \<Rightarrow> 's llm_client \<Rightarrow> string list \<Rightarrow> 's \<Rightarrow> eval_exit + (string \<times> item list) list \<times> 's" where
  "run_files fs llm [] s = Inr ([], s)"
| "run_files fs llm (f # fs') s =
     and_then (run_file fs llm f s) (\<lambda>(xs, s1).
     and_then (run_files fs llm fs' s1) (\<lambda>(r, s2). Inr ((f, xs) # r, s2)))"

definition exit_status :: "bool \<Rightarrow> bool \<Rightarrow> nat" where
  "exit_status gate gate_fail = (if gate \<and> gate_fail then 1 else 0)"

record 'u report =
  r_benign :: "'u stats"
  r_files :: nat
  r_benign_memo :: memo
  r_attack :: "'u stats"
  r_scenarios :: "scenario list"
  r_memo :: memo
  r_exit :: nat

definition evaluate ::
  "filesystem \<Rightarrow> (nat \<Rightarrow> 'u) \<Rightarrow> eval_options \<Rightarrow> 's llm_client \<Rightarrow> 's \<Rightarrow> eval_exit + 'u report" where
  "evaluate fs us o1 inner s0 =
     (let llm = memo_client inner (eo_cap o1)
      in and_then (expand fs (eo_benign o1)) (\<lambda>bfiles.
         and_then (run_files fs llm bfiles (s0, new_memo)) (\<lambda>(bruns, st1).
         and_then (expand fs (eo_attack o1)) (\<lambda>afiles.
         and_then (run_files fs llm afiles st1) (\<lambda>(aruns, st2).
           let bxs = concat (map snd bruns);
               axs = concat (map snd aruns);
               scs = map (\<lambda>(f, xs). scenario_of (basename_noext f) xs) aruns;
               (detected, gated, gated_ok, fail) = gate_summary scs
           in Inr \<lparr>r_benign = tally_all us True bxs, r_files = length bfiles, r_benign_memo = snd st1,
                r_attack = tally_all (\<lambda>i. us (length (outcomes bxs) + i)) False axs,
                r_scenarios = scs, r_memo = snd st2,
                r_exit = exit_status (eo_gate o1) fail\<rparr>)))))"

definition eval_main ::
  "filesystem \<Rightarrow> (nat \<Rightarrow> 'u) \<Rightarrow> string option \<Rightarrow> (llm_choice \<Rightarrow> 's llm_client) \<Rightarrow> 's \<Rightarrow> string list \<Rightarrow>
    eval_exit + 'u report" where
  "eval_main fs us key mk s0 args =
     and_then (eval_args default_eval_options args) (\<lambda>o1.
       if eo_benign o1 = [] \<and> eo_attack o1 = [] then Inl (Exit 2)
       else case choose_llm (eo_llm o1) key of
              None \<Rightarrow> Inl (Exit 2)
            | Some c \<Rightarrow> evaluate fs us o1 (mk c) s0)"

subsection \<open>The virtual clock\<close>

text \<open>The events as the classifier gets them, the clock after them, and the clock without wrap-around.\<close>

fun stamped :: "entry list \<Rightarrow> u64 \<Rightarrow> security_event list" where
  "stamped [] clk = []"
| "stamped (e # es) clk =
     (case e_kind e of
        K_Directive \<Rightarrow> stamped es clk
      | K_Delay \<Rightarrow> stamped es (clk + word_of_int (e_delay_ms e) * 1000000)
      | K_Event \<Rightarrow> (e_ev e)\<lparr>ev_ts_ns := clk + 1000000\<rparr> # stamped es (clk + 1000000))"

fun end_time :: "entry list \<Rightarrow> nat \<Rightarrow> nat" where
  "end_time [] t = t"
| "end_time (e # es) t =
     end_time es (t + (case e_kind e of K_Directive \<Rightarrow> 0 | K_Delay \<Rightarrow> nat (e_delay_ms e) * 1000000 | K_Event \<Rightarrow> 1000000))"

lemma end_time_ge: "t \<le> end_time es t"
  by (induction es arbitrary: t) (auto intro: order.trans [OF le_add1] split: entry_kind.split)

lemma run_entries_correlator:
  "snd (snd (run_entries llm es clk (s, c))) = observe_all c (stamped es clk)"
proof (induction es arbitrary: clk s c)
  case (Cons e es)
  show ?case
  proof (cases "e_kind e")
    case K_Event
    let ?ev = "(e_ev e)\<lparr>ev_ts_ns := clk + 1000000\<rparr>"
    let ?r = "classify_event ?ev llm (s, c)"
    have "snd (snd (run_entries llm es (clk + 1000000) (snd ?r))) =
        observe_all (snd (snd ?r)) (stamped es (clk + 1000000))"
      using Cons [of "clk + 1000000" "fst (snd ?r)" "snd (snd ?r)"] by simp
    then show ?thesis
      using K_Event classify_correlator [of ?ev llm s c] by (simp add: Let_def case_prod_unfold)
  qed (simp_all add: Cons Let_def case_prod_unfold)
qed simp

lemma unat_add_small: "unat (a :: u64) + n < 2 ^ 64 \<Longrightarrow> unat (a + of_nat n) = unat a + n"
  by (simp add: unat_word_ariths unat_of_nat)

lemma clock_step:
  assumes "end_time es (unat (clk :: u64) + d) < 2 ^ 64"
  shows "unat (clk + of_nat d) = unat clk + d" "clk \<le> clk + of_nat d"
proof -
  have "unat clk + d < 2 ^ 64"
    using end_time_ge [of "unat clk + d" es] assms by (rule le_less_trans)
  then show "unat (clk + of_nat d) = unat clk + d"
    by (rule unat_add_small)
  then show "clk \<le> clk + of_nat d"
    by (simp add: word_le_nat_alt)
qed

lemma delay_step:
  "0 \<le> d \<Longrightarrow> word_of_int d * 1000000 = (of_nat (nat d * 1000000) :: u64)"
  by simp

definition delays_ok :: "entry list \<Rightarrow> bool" where
  "delays_ok es \<longleftrightarrow> (\<forall>e \<in> set es. 0 \<le> e_delay_ms e)"

lemma stamped_times:
  "delays_ok es \<Longrightarrow> end_time es (unat clk) < 2 ^ 64 \<Longrightarrow>
    sorted (map ev_ts_ns (stamped es clk)) \<and>
    (\<forall>ev \<in> set (stamped es clk). clk \<le> ev_ts_ns ev \<and> unat (ev_ts_ns ev) \<le> end_time es (unat clk))"
proof (induction es arbitrary: clk)
  case (Cons e es)
  have ok: "delays_ok es" "0 \<le> e_delay_ms e"
    using Cons.prems(1) by (simp_all add: delays_ok_def)
  show ?case
  proof (cases "e_kind e")
    case K_Event
    have "end_time es (unat clk + 1000000) < 2 ^ 64"
      using K_Event Cons.prems(2) by simp
    note step = clock_step [OF this]
    have "unat (clk + 1000000) \<le> end_time es (unat (clk + 1000000))"
      by (rule end_time_ge)
    then show ?thesis
      using Cons.IH [OF ok(1), of "clk + 1000000"] K_Event Cons.prems(2) step
      by (auto intro: order.trans)
  next
    case K_Delay
    have "end_time es (unat clk + nat (e_delay_ms e) * 1000000) < 2 ^ 64"
      using K_Delay Cons.prems(2) by simp
    note step = clock_step [OF this, folded delay_step [OF ok(2)]]
    show ?thesis
      using Cons.IH [OF ok(1), of "clk + word_of_int (e_delay_ms e) * 1000000"] K_Delay Cons.prems(2) step
      by (auto intro: order.trans)
  next
    case K_Directive
    then show ?thesis
      using Cons.IH [OF ok(1), of clk] Cons.prems(2) by simp
  qed
qed simp

lemma stamped_sorted:
  assumes "delays_ok es" and "end_time es (unat clk) + unat w < 2 ^ 64"
  shows "time_sorted ev_ts_ns w (stamped es clk)"
proof -
  have "no_wrap w (ev_ts_ns ev)" if "ev \<in> set (stamped es clk)" for ev
  proof -
    have "unat (ev_ts_ns ev) + unat w < 2 ^ 64"
      using stamped_times [OF assms(1), of clk] that assms(2) by fastforce
    then have "unat (ev_ts_ns ev + w) = unat (ev_ts_ns ev) + unat w"
      using unat_add_small [of "ev_ts_ns ev" "unat w"] by simp
    then show ?thesis
      by (simp add: no_wrap_def word_le_nat_alt)
  qed
  then show ?thesis
    using stamped_times [OF assms(1), of clk] assms(2) by (simp add: time_sorted_def)
qed

lemma delays_ok_parse: "delays_ok (fst (parse name text))"
  using parse_sound_entries [of name "text"] by (auto simp: delays_ok_def sound_entry_def list_all_iff)

subsection \<open>Scenarios and the gate\<close>

text \<open>The alert of severity at least \<open>v\<close> among the outcomes.\<close>

definition raised :: "severity \<Rightarrow> item list \<Rightarrow> bool" where
  "raised v xs \<longleftrightarrow> (\<exists>out \<in> set (outcomes xs). o_alerted out \<and> v \<le> a_severity (o_alert out))"

lemma outcomes_simps [simp]:
  "outcomes [] = []" "outcomes (Classified e out # xs) = out # outcomes xs"
  "outcomes (Directive d # xs) = outcomes xs" "outcomes (xs @ ys) = outcomes xs @ outcomes ys"
  by (simp_all add: outcomes_def)

lemma raised_simps [simp]:
  "\<not> raised v []" "raised v (Directive d # xs) \<longleftrightarrow> raised v xs"
  "raised v (Classified e out # xs) \<longleftrightarrow> o_alerted out \<and> v \<le> a_severity (o_alert out) \<or> raised v xs"
  by (auto simp: raised_def)

lemma max_sev_step:
  "max_sev (on_directive d sc) = max_sev sc"
  "max_sev (on_outcome e out sc) =
     (if o_alerted out then max (max_sev sc) (a_severity (o_alert out)) else max_sev sc)"
  by (simp_all add: on_directive_def on_outcome_def Let_def)

lemma max_sev_scenario:
  "v \<le> max_sev (foldl scenario_step sc xs) \<longleftrightarrow> v \<le> max_sev sc \<or> raised v xs"
proof (induction xs arbitrary: sc)
  case (Cons x xs)
  then show ?case
    by (cases x) (auto simp: max_sev_step le_max_iff_disj)
qed simp

lemma detected_iff: "detected_sc (scenario_of name xs) \<longleftrightarrow> raised High xs"
proof -
  have "\<not> High \<le> Info"
    by (simp add: severity_order)
  then show ?thesis
    by (simp add: detected_sc_def scenario_of_def max_sev_scenario) (simp add: new_scenario_def)
qed

lemma gate_loop_fails:
  "snd (snd (snd (gate_loop scs (a, b, c, fail)))) \<longleftrightarrow>
     fail \<or> (\<exists>sc \<in> set scs. known_miss sc = [] \<and> \<not> detected_sc sc)"
  by (induction scs arbitrary: a b c fail) (auto simp: Let_def)

lemma gate_loop_counts:
  "gate_loop scs (a, b, c, fail) = (d, g, k, fail') \<Longrightarrow> c \<le> b \<Longrightarrow> (c < b \<longleftrightarrow> fail) \<Longrightarrow> k \<le> g \<and> (k < g \<longleftrightarrow> fail')"
  by (induction scs arbitrary: a b c fail) (auto simp: Let_def split: if_splits)

text \<open>Every classified event was classified in the state that the events before it led to.\<close>

lemma run_entries_split:
  "stamped es clk = past @ ev # rest \<Longrightarrow>
    \<exists>u. fst (classify_event ev llm (u, observe_all c past)) \<in> set (outcomes (fst (run_entries llm es clk (s, c))))"
proof (induction es arbitrary: clk s c past)
  case (Cons e es)
  show ?case
  proof (cases "e_kind e")
    case K_Event
    let ?ev = "(e_ev e)\<lparr>ev_ts_ns := clk + 1000000\<rparr>"
    let ?r = "classify_event ?ev llm (s, c)"
    have run: "outcomes (fst (run_entries llm (e # es) clk (s, c))) =
        fst ?r # outcomes (fst (run_entries llm es (clk + 1000000) (fst (snd ?r), snd (observe c ?ev))))"
      using K_Event classify_correlator [of ?ev llm s c]
      by (simp add: Let_def case_prod_unfold) (metis prod.collapse)
    show ?thesis
    proof (cases past)
      case Nil
      then show ?thesis
        using Cons.prems K_Event run by auto
    next
      case (Cons e1 past')
      then have "stamped es (clk + 1000000) = past' @ ev # rest" and "e1 = ?ev"
        using Cons.prems K_Event by simp_all
      with Cons.IH [OF this(1), of "snd (observe c ?ev)" "fst (snd ?r)"] run Cons show ?thesis
        by auto
    qed
  next
    case K_Delay
    with Cons show ?thesis by simp
  next
    case K_Directive
    with Cons show ?thesis by (simp add: Let_def case_prod_unfold)
  qed
qed simp

text \<open>
  C34. A scenario that holds a sequence passes the gate.  If in an attack file, stamped by the virtual
  clock, some event completes a sequence of the trace specification, then the file's scenario counts
  as detected, whatever the client answers, also when its budget is used up.
\<close>

theorem scenario_detects_sequence:
  assumes src: "fs_text fs path = Some content" "parse path content = (es, None)"
    and bound: "end_time es (unat vclock_start) + 60000000000 < 2 ^ 64"
    and ev: "stamped es vclock_start = past @ ev # rest"
      "spec_rule (60 * 1000000000) 3 past ev = Some r"
  shows "\<exists>xs s'. run_file fs llm path s = Inr (xs, s') \<and> detected_sc (scenario_of name xs)"
proof -
  let ?run = "run_entries llm es vclock_start (s, default_correlator)"
  let ?c = "observe_all default_correlator past"
  have run: "run_file fs llm path s = Inr (fst ?run, fst (snd ?run))"
    using src by (simp add: run_file_def case_prod_unfold Let_def)
  have "delays_ok es"
    using delays_ok_parse [of path content] src(2) by simp
  then have "time_sorted ev_ts_ns (60 * 1000000000) (past @ [ev] @ rest)"
    using stamped_sorted [of es vclock_start "60 * 1000000000"] bound ev(1) by simp
  then have "time_sorted ev_ts_ns (60 * 1000000000) (past @ [ev])"
    by (auto simp: time_sorted_def sorted_append)
  from observe_trace [OF this, of 3] ev(2)
  have "hit_rule (fst (observe ?c ev)) = Some r"
    by (simp add: default_correlator_def)
  then have h: "hit (fst (observe ?c ev))" "h_rule (fst (observe ?c ev)) = r"
    by (simp_all add: hit_rule_def split: if_splits)
  obtain u where out: "fst (classify_event ev llm (u, ?c)) \<in> set (outcomes (fst ?run))"
    using run_entries_split [OF ev(1), of llm default_correlator s] by blast
  have "High \<le> rule_severity r"
    by (simp add: rule_severity_def severity_order)
  moreover have "\<not> is_notice ev"
    using spec_rule_not_notice [of "60 * 1000000000" 3 past ev] ev(2) by simp
  ultimately have "o_alerted (fst (classify_event ev llm (u, ?c)))"
    and "High \<le> a_severity (o_alert (fst (classify_event ev llm (u, ?c))))"
    using classify_hit(1,2) [of ev "(u, ?c)" llm] h by auto
  with out have "raised High (fst ?run)"
    unfolding raised_def by blast
  then show ?thesis
    using run detected_iff by blast
qed

text \<open>
  C35. What the gate decides.  When the files can be read, the evaluation returns, and its exit
  status is 1 exactly if the gate is asked for and some attack file that names no reason for a known
  miss led to no alert of severity High or Critical.
\<close>

theorem gate_decides:
  assumes "expand fs (eo_benign o1) = Inr bfiles" and "expand fs (eo_attack o1) = Inr afiles"
    and "run_files fs (memo_client inner (eo_cap o1)) bfiles (s0, new_memo) = Inr (bruns, st1)"
    and "run_files fs (memo_client inner (eo_cap o1)) afiles st1 = Inr (aruns, st2)"
  shows "\<exists>rep. evaluate fs us o1 inner s0 = Inr rep \<and>
    (r_exit rep = 1 \<longleftrightarrow> eo_gate o1 \<and>
      (\<exists>(f, xs) \<in> set aruns. known_miss (scenario_of (basename_noext f) xs) = [] \<and>
         \<not> (\<exists>out \<in> set (outcomes xs). o_alerted out \<and> High \<le> a_severity (o_alert out))))"
proof -
  let ?scs = "map (\<lambda>(f, xs). scenario_of (basename_noext f) xs) aruns"
  have "snd (snd (snd (gate_summary ?scs))) \<longleftrightarrow>
      (\<exists>(f, xs) \<in> set aruns. known_miss (scenario_of (basename_noext f) xs) = [] \<and> \<not> raised High xs)"
    by (auto simp: gate_summary_def gate_loop_fails detected_iff case_prod_unfold)
  then show ?thesis
    unfolding raised_def [symmetric]
    by (simp add: evaluate_def exit_status_def assms Let_def case_prod_unfold)
qed

subsection \<open>The memoising client over a file\<close>

fun same_item :: "item \<Rightarrow> item \<Rightarrow> bool" where
  "same_item (Classified e o1) (Classified e' o2) \<longleftrightarrow> e = e' \<and> same_outcome o1 o2"
| "same_item (Directive d) (Directive d') \<longleftrightarrow> d = d'"
| "same_item _ _ \<longleftrightarrow> False"

context client_simulation
begin

lemma spend_all: "related (k + n) s t \<Longrightarrow> related n s t"
  by (induction k) (auto dest: spend)

lemma run_alike:
  "related (2 * length es + n) s t \<Longrightarrow>
    list_all2 same_item (fst (run_entries llm1 es clk (s, c))) (fst (run_entries llm2 es clk (t, c)))"
proof (induction es arbitrary: clk s t c)
  case (Cons e es)
  have more: "related (Suc (Suc (2 * length es + n))) s t"
    using Cons.prems by simp
  show ?case
  proof (cases "e_kind e")
    case K_Event
    let ?ev = "(e_ev e)\<lparr>ev_ts_ns := clk + 1000000\<rparr>"
    let ?r1 = "classify_event ?ev llm1 (s, c)" and ?r2 = "classify_event ?ev llm2 (t, c)"
    have same: "same_outcome (fst ?r1) (fst ?r2)"
      and rel: "related (2 * length es + n) (fst (snd ?r1)) (fst (snd ?r2))"
      using event_alike [OF more] by blast+
    have "snd (snd ?r1) = snd (snd ?r2)"
      by (simp add: classify_correlator)
    then show ?thesis
      using Cons.IH [OF rel, of "clk + 1000000" "snd (snd ?r1)"] same K_Event
      by (simp add: Let_def case_prod_unfold) (metis prod.collapse)
  next
    case K_Delay
    then show ?thesis
      using Cons.IH spend [OF spend [OF more]] by simp
  next
    case K_Directive
    then show ?thesis
      using Cons.IH spend [OF spend [OF more]] by (simp add: Let_def case_prod_unfold)
  qed
qed simp

end

text \<open>
  C39. The memo is transparent.  With a client whose answers depend on the context alone and a cap
  that leaves room for two calls per line, the evaluation of a file decides, alerts and counts
  exactly as the plain client does; only the token counts may differ.
\<close>

theorem memo_is_transparent:
  assumes "pure_client inner" and "2 * length es \<le> unat cap"
  shows "list_all2 same_item (fst (run_entries (memo_client inner cap) es clk ((s, new_memo), c)))
    (fst (run_entries inner es clk (s, c)))"
proof -
  have sim: "client_simulation (memo_client inner cap) inner (memo_related inner cap)"
    by (rule memoised.simulates [OF memoised.intro [OF assms(1)]])
  have "memo_related inner cap (2 * length es + 0) (s, new_memo) s"
    using assms(2) by (simp add: memo_related_def new_memo_def)
  then show ?thesis
    by (rule client_simulation.run_alike [OF sim])
qed

context client_invariant
begin

lemma run_keeps: "Inv s \<Longrightarrow> Inv (fst (snd (run_entries llm es clk (s, c))))"
proof (induction es arbitrary: clk s c)
  case (Cons e es)
  show ?case
  proof (cases "e_kind e")
    case K_Event
    let ?ev = "(e_ev e)\<lparr>ev_ts_ns := clk + 1000000\<rparr>"
    obtain out s' c' where r: "classify_event ?ev llm (s, c) = (out, s', c')"
      by (metis prod.collapse)
    have "Inv s'"
      using event_keeps [OF Cons.prems, of ?ev c] r by simp
    then show ?thesis
      using Cons.IH [of s' "clk + 1000000" c'] K_Event r by (simp add: Let_def case_prod_unfold)
  qed (use Cons in \<open>simp_all add: Let_def case_prod_unfold\<close>)
qed simp

end

context call_counter
begin

lemma run_counts:
  "count (fst (snd (run_entries llm es clk (s, c)))) =
     count s + of_nat (\<Sum>out \<leftarrow> outcomes (fst (run_entries llm es clk (s, c))). o_haiku_calls out + o_sonnet_calls out)"
proof (induction es arbitrary: clk s c)
  case (Cons e es)
  show ?case
  proof (cases "e_kind e")
    case K_Event
    let ?ev = "(e_ev e)\<lparr>ev_ts_ns := clk + 1000000\<rparr>"
    let ?r = "classify_event ?ev llm (s, c)"
    show ?thesis
      using Cons.IH [of "clk + 1000000" "fst (snd ?r)" "snd (snd ?r)"] event_counts [of ?ev s c] K_Event
      by (simp add: Let_def case_prod_unfold)
  qed (simp_all add: Cons Let_def case_prod_unfold)
qed simp

end

text \<open>
  The budget of requests.  Over any file, from any state in which the cap is kept, the number of
  requests never exceeds the cap; and once it is used up, the inner client is not asked any more.
\<close>

theorem memo_budget:
  assumes "m_calls (snd st) \<le> cap"
  shows "m_calls (snd (fst (snd (run_entries (memo_client inner cap) es clk (st, c))))) \<le> cap \<and>
    (m_calls (snd st) = cap \<longrightarrow> fst (fst (snd (run_entries (memo_client inner cap) es clk (st, c)))) = fst st)"
  using memo_budget.run_keeps [OF assms, of inner es clk c]
    memo_frozen.run_keeps [of cap st "fst st" cap inner es clk c] by simp

text \<open>
  Every consultation is a request, a hit or a refusal.  Over any file the counters of requests,
  of hits and of refused calls together advance by the numbers of calls of both tiers that the
  outcomes report (modulo \<open>2 ^ 64\<close>).
\<close>

theorem memo_accounting:
  "memo_count (fst (snd (run_entries (memo_client inner cap) es clk (st, c)))) =
     memo_count st + of_nat (\<Sum>out \<leftarrow> outcomes (fst (run_entries (memo_client inner cap) es clk (st, c))).
       o_haiku_calls out + o_sonnet_calls out)"
  by (rule memo_counts.run_counts)

subsection \<open>Concrete instances\<close>

text \<open>A recorded file with a write and a run of the written file.\<close>

definition sample_content :: string where
  "sample_content = recorded_file [sample_write, sample_run]"

definition sample_fs :: filesystem where
  "sample_fs = \<lparr>fs_is_dir = \<lambda>p. Some False, fs_names = \<lambda>p. [], fs_text = \<lambda>p. Some sample_content\<rparr>"

lemma recordable_sample_write: "recordable sample_write"
  unfolding recordable_def sample_write_def zero_event_def
  by (simp add: recordable_anc_zero clean_c_field cstr_c_field nul_def event_consts field_char_def access_consts)

definition sample_entries :: "entry list" where
  "sample_entries = [replayed 1 sample_write, replayed 2 sample_run]"

lemma sample_parsed: "parse path sample_content = (sample_entries, None)"
  using parse_recorded [of "[sample_write, sample_run]" path] recordable_sample_write recordable_sample_run
  by (simp add: sample_content_def sample_entries_def upt_rec numeral_2_eq_2)

lemma sample_stamped:
  "stamped sample_entries vclock_start =
     [sample_write\<lparr>ev_ts_ns := 1001000000\<rparr>] @ (sample_run\<lparr>ev_ts_ns := 1002000000\<rparr>) # []"
  by (simp add: sample_entries_def replayed_def new_entry_def vclock_start_def)

lemma sample_stamped_rule:
  "spec_rule (60 * 1000000000) 3 [sample_write\<lparr>ev_ts_ns := 1001000000\<rparr>] (sample_run\<lparr>ev_ts_ns := 1002000000\<rparr>) =
     Some ''write-exec-chain''"
proof (rule write_then_run_rule [where e = "sample_write\<lparr>ev_ts_ns := 1001000000\<rparr>"])
  show "writes_path (cstr (c_field PQSEC_FILENAME_LEN ''/tmp/x'')) (sample_write\<lparr>ev_ts_ns := 1001000000\<rparr>)"
    using sample_write_writes by (simp add: writes_path_def cstr_sample_path)
qed (simp_all add: time_sorted_def no_wrap_def live_def expired_def sample_run_u basename_sample_path
    kDownloaders_def)

lemma sample_end_time: "end_time sample_entries (unat vclock_start) + 60000000000 < 2 ^ 64"
  by (simp add: sample_entries_def replayed_def new_entry_def vclock_start_def)

lemma scenario_detects_sequence_witness:
  "\<exists>xs s'. run_file sample_fs (memo_client mock_client 0) ''f'' ((), new_memo) = Inr (xs, s') \<and>
     detected_sc (scenario_of ''f'' xs)"
  by (rule scenario_detects_sequence [OF _ sample_parsed sample_end_time sample_stamped sample_stamped_rule])
    (simp add: sample_fs_def)

lemma memo_is_transparent_witness:
  "list_all2 same_item (fst (run_entries (memo_client mock_client 4) sample_entries 0 (((), new_memo), default_correlator)))
     (fst (run_entries mock_client sample_entries 0 ((), default_correlator)))"
  by (rule memo_is_transparent [OF pure_mock]) (simp add: sample_entries_def)

lemma memo_budget_witness:
  "m_calls (snd (fst (snd (run_entries (memo_client mock_client 1) sample_entries 0
     (((), new_memo), default_correlator))))) \<le> 1"
  using memo_budget [of "((), new_memo)" 1 mock_client sample_entries 0 default_correlator]
  by (simp add: new_memo_def)

lemma gate_decides_witness:
  "\<exists>rep :: nat report. evaluate sample_fs (\<lambda>i. i) (default_eval_options\<lparr>eo_attack := [''f''], eo_gate := True\<rparr>)
      mock_client () = Inr rep \<and>
    (r_exit rep = 1 \<longleftrightarrow>
      (\<exists>(f, xs) \<in> {(''f'', fst (run_entries (memo_client mock_client 2000) sample_entries vclock_start
           (((), new_memo), default_correlator)))}.
         known_miss (scenario_of (basename_noext f) xs) = [] \<and>
         \<not> (\<exists>out \<in> set (outcomes xs). o_alerted out \<and> High \<le> a_severity (o_alert out))))"
proof -
  let ?o = "default_eval_options\<lparr>eo_attack := [''f''], eo_gate := True\<rparr>"
  have e: "expand sample_fs (eo_benign ?o) = Inr []" "expand sample_fs (eo_attack ?o) = Inr [''f'']"
    by (simp_all add: default_eval_options_def sample_fs_def)
  have b: "run_files sample_fs (memo_client mock_client (eo_cap ?o)) [] ((), new_memo) = Inr ([], (), new_memo)"
    by simp
  have a: "run_files sample_fs (memo_client mock_client (eo_cap ?o)) [''f''] ((), new_memo) =
      Inr ([(''f'', fst (run_entries (memo_client mock_client 2000) sample_entries vclock_start
           (((), new_memo), default_correlator)))],
        fst (snd (run_entries (memo_client mock_client 2000) sample_entries vclock_start
           (((), new_memo), default_correlator))))"
    using sample_parsed
    by (simp add: run_file_def sample_fs_def default_eval_options_def case_prod_unfold Let_def)
  have "eo_gate ?o = True"
    by simp
  then show ?thesis
    using gate_decides [OF e b a, of "\<lambda>i. i"] by (simp only: HOL.simp_thms list.set)
qed

end
