(* ===== verification/Identity.thy ===== *)
theory Identity
  imports Handshake
begin

section \<open>Identity files\<close>

text \<open>
  \<open>crypto/src/identity.cpp\<close> and \<open>tools/keygen.cpp\<close>: writing a fresh signature key pair to two
  files and loading an identity from three.  The file system is a map from paths to contents and
  permission bits; what may fail is the record \<open>disk\<close>.  A writing function returns the states the
  files go through, the last one being where it leaves them, because other processes see them all.
\<close>

datatype identity_error =
    Open_failed string | Write_failed string | Size_failed string | Read_failed string | Chmod_failed string
  | Key_length_mismatch | Id_crypto crypto_error

record stored_file =
  f_data :: bytes
  f_perm :: u32

type_synonym files = "string \<Rightarrow> stored_file option"

text \<open>Which calls succeed on a path, how many bytes fit, and the process's umask.\<close>

record disk =
  can_create :: "string \<Rightarrow> bool"
  room :: "string \<Rightarrow> nat"
  can_chmod :: "string \<Rightarrow> bool"
  can_open :: "string \<Rightarrow> bool"
  can_seek :: "string \<Rightarrow> bool"
  can_read :: "string \<Rightarrow> bool"
  umask :: u32

subsection \<open>Files\<close>

text \<open>\<open>0666\<close> and \<open>S_IRUSR | S_IWUSR\<close>.\<close>

definition rw_all :: u32 where "rw_all = 0x1B6"
definition rw_owner :: u32 where "rw_owner = 0x180"

text \<open>\<open>std::ofstream(path, trunc)\<close>: a new file gets \<open>0666\<close> under the umask, an old one keeps its bits.\<close>

definition truncated :: "disk \<Rightarrow> string \<Rightarrow> files \<Rightarrow> files" where
  "truncated D path fs =
     fs(path \<mapsto> \<lparr>f_data = [],
       f_perm = (case fs path of None \<Rightarrow> rw_all AND NOT (umask D) | Some f \<Rightarrow> f_perm f)\<rparr>)"

definition with_data :: "string \<Rightarrow> bytes \<Rightarrow> files \<Rightarrow> files" where
  "with_data path d fs = fs(path := map_option (\<lambda>f. f\<lparr>f_data := d\<rparr>) (fs path))"

definition with_perm :: "string \<Rightarrow> u32 \<Rightarrow> files \<Rightarrow> files" where
  "with_perm path m fs = fs(path := map_option (\<lambda>f. f\<lparr>f_perm := m\<rparr>) (fs path))"

definition write_bytes_file ::
  "disk \<Rightarrow> string \<Rightarrow> bytes \<Rightarrow> bool \<Rightarrow> files \<Rightarrow> (identity_error + unit) \<times> files list" where
  "write_bytes_file D path d restrict_perms fs =
     (if \<not> can_create D path then (Inl (Open_failed path), [fs])
      else let fs1 = truncated D path fs; fs2 = with_data path (take (room D path) d) fs1
           in if room D path < length d then (Inl (Write_failed path), [fs1, fs2])
              else if restrict_perms then
                if can_chmod D path then (Inr (), [fs1, fs2, with_perm path rw_owner fs2])
                else (Inl (Chmod_failed path), [fs1, fs2])
              else (Inr (), [fs1, fs2]))"

definition read_bytes_file :: "disk \<Rightarrow> string \<Rightarrow> files \<Rightarrow> identity_error + bytes" where
  "read_bytes_file D path fs =
     (case fs path of
        None \<Rightarrow> Inl (Open_failed path)
      | Some f \<Rightarrow>
          if \<not> can_open D path then Inl (Open_failed path)
          else if \<not> can_seek D path then Inl (Size_failed path)
          else if f_data f \<noteq> [] \<and> \<not> can_read D path then Inl (Read_failed path)
          else Inr (f_data f))"

subsection \<open>Identities\<close>

definition id_crypto :: "crypto_error + 'a \<Rightarrow> identity_error + 'a" where
  "id_crypto r = (case r of Inl e \<Rightarrow> Inl (Id_crypto e) | Inr x \<Rightarrow> Inr x)"

definition generate_identity_files ::
  "disk \<Rightarrow> libs \<Rightarrow> seed \<Rightarrow> string \<Rightarrow> files \<Rightarrow> (identity_error + unit) \<times> files list" where
  "generate_identity_files D L r pfx fs =
     (case id_crypto (and_then (mldsa_new L) (\<lambda>_. mldsa_keypair L r)) of
        Inl e \<Rightarrow> (Inl e, [fs])
      | Inr kp \<Rightarrow>
          (case write_bytes_file D (pfx @ ''.pub'') (public_key kp) False fs of
             (Inl e, h) \<Rightarrow> (Inl e, h)
           | (Inr _, h) \<Rightarrow>
               let (res, h') = write_bytes_file D (pfx @ ''.key'') (secret_key kp) True (last h)
               in (res, h @ h')))"

definition load_identity ::
  "disk \<Rightarrow> libs \<Rightarrow> string \<Rightarrow> string \<Rightarrow> string \<Rightarrow> files \<Rightarrow> identity_error + identity" where
  "load_identity D L my_pub my_key peer_pub fs =
     and_then (id_crypto (mldsa_new L)) (\<lambda>_.
     and_then (read_bytes_file D my_pub fs) (\<lambda>pub.
     and_then (read_bytes_file D my_key fs) (\<lambda>sec.
     and_then (read_bytes_file D peer_pub fs) (\<lambda>peer.
       if length pub \<noteq> sig_public_len L \<or> length sec \<noteq> sig_secret_len L \<or> length peer \<noteq> sig_public_len L
       then Inl Key_length_mismatch
       else Inr \<lparr>sig_public = pub, sig_secret = sec, peer_sig_public = peer\<rparr>))))"

text \<open>\<open>pqsec_keygen\<close>: the exit status and the states of the files.\<close>

definition keygen_main :: "disk \<Rightarrow> libs \<Rightarrow> seed \<Rightarrow> string list \<Rightarrow> files \<Rightarrow> nat \<times> files list" where
  "keygen_main D L r args fs =
     (case args of
        [pfx] \<Rightarrow>
          (case generate_identity_files D L r pfx fs of (Inl e, h) \<Rightarrow> (1, h) | (Inr _, h) \<Rightarrow> (0, h))
      | _ \<Rightarrow> (1, [fs]))"

subsection \<open>Provisioning\<close>

text \<open>Reads do not fail on a file that is there.\<close>

definition disk_reads :: "disk \<Rightarrow> bool" where
  "disk_reads D \<longleftrightarrow> (\<forall>p. can_open D p \<and> can_seek D p \<and> can_read D p)"

lemma read_here: "disk_reads D \<Longrightarrow> fs path = Some f \<Longrightarrow> read_bytes_file D path fs = Inr (f_data f)"
  by (simp add: read_bytes_file_def disk_reads_def)

lemma write_bytes_done:
  assumes "write_bytes_file D path d restrict_perms fs = (Inr u, h)"
  shows "h \<noteq> []" "\<exists>m. last h path = Some \<lparr>f_data = d, f_perm = m\<rparr> \<and> (restrict_perms \<longrightarrow> m = rw_owner)"
    "q \<noteq> path \<Longrightarrow> last h q = fs q"
  using assms
  by (auto simp: write_bytes_file_def Let_def truncated_def with_data_def with_perm_def split: if_splits)

text \<open>A run of \<open>pqsec_keygen\<close> that succeeds leaves the pair in the two files and nothing else changed.\<close>

lemma keygen_done:
  assumes "keygen_main D L r [pfx] fs = (0, h)"
  obtains pk sk m where "oqs_sig_keypair L r = Some (pk, sk)"
    and "last h (pfx @ ''.pub'') = Some \<lparr>f_data = pk, f_perm = m\<rparr>"
    and "last h (pfx @ ''.key'') = Some \<lparr>f_data = sk, f_perm = rw_owner\<rparr>"
    and "\<forall>q. q \<notin> {pfx @ ''.pub'', pfx @ ''.key''} \<longrightarrow> last h q = fs q"
    and "sig_available L"
proof -
  obtain u where g: "generate_identity_files D L r pfx fs = (Inr u, h)"
    using assms by (auto simp: keygen_main_def split: prod.splits sum.splits)
  obtain kp where kp: "id_crypto (and_then (mldsa_new L) (\<lambda>_. mldsa_keypair L r)) = Inr kp"
    using g by (auto simp: generate_identity_files_def split: sum.splits)
  then have keys: "oqs_sig_keypair L r = Some (public_key kp, secret_key kp)" "sig_available L"
    by (auto simp: id_crypto_def mldsa_new_def mldsa_keypair_def split: sum.splits if_splits option.splits)
  obtain h1 h2 v where w1: "write_bytes_file D (pfx @ ''.pub'') (public_key kp) False fs = (Inr v, h1)"
    and w2: "write_bytes_file D (pfx @ ''.key'') (secret_key kp) True (last h1) = (Inr u, h2)"
    and h: "h = h1 @ h2"
    using g kp by (auto simp: generate_identity_files_def Let_def split: prod.splits sum.splits)
  obtain m where m: "last h1 (pfx @ ''.pub'') = Some \<lparr>f_data = public_key kp, f_perm = m\<rparr>"
    using write_bytes_done(2) [OF w1] by auto
  have last: "last h = last h2"
    using write_bytes_done(1) [OF w2] by (simp add: h)
  have "last h (pfx @ ''.pub'') = Some \<lparr>f_data = public_key kp, f_perm = m\<rparr>"
    using write_bytes_done(3) [OF w2, of "pfx @ ''.pub''"] m last by simp
  moreover have "last h (pfx @ ''.key'') = Some \<lparr>f_data = secret_key kp, f_perm = rw_owner\<rparr>"
    using write_bytes_done(2) [OF w2] last by simp
  moreover have "\<forall>q. q \<notin> {pfx @ ''.pub'', pfx @ ''.key''} \<longrightarrow> last h q = fs q"
    using write_bytes_done(3) [OF w2] write_bytes_done(3) [OF w1] last by simp
  ultimately show ?thesis
    using keys by (intro that)
qed

lemma paths_differ [simp]:
  "p @ ''.pub'' \<noteq> q @ ''.key''" "q @ ''.key'' \<noteq> p @ ''.pub''"
proof -
  have "last (p @ ''.pub'') \<noteq> last (q @ ''.key'')"
    by simp
  then show "p @ ''.pub'' \<noteq> q @ ''.key''" "q @ ''.key'' \<noteq> p @ ''.pub''"
    by metis+
qed

lemma provisioned:
  assumes "libs_sized L" and "disk_reads D" and "p \<noteq> q"
    and "keygen_main Dk L r [p] fs = (0, h)" and "keygen_main Dk' L r' [q] (last h) = (0, h')"
  shows "\<exists>idc ids.
    load_identity D L (p @ ''.pub'') (p @ ''.key'') (q @ ''.pub'') (last h') = Inr idc \<and>
    load_identity D L (q @ ''.pub'') (q @ ''.key'') (p @ ''.pub'') (last h') = Inr ids \<and>
    honest_identities L idc ids"
proof -
  obtain pk sk m where p: "oqs_sig_keypair L r = Some (pk, sk)"
    "last h (p @ ''.pub'') = Some \<lparr>f_data = pk, f_perm = m\<rparr>"
    "last h (p @ ''.key'') = Some \<lparr>f_data = sk, f_perm = rw_owner\<rparr>"
    and avail: "sig_available L"
    using keygen_done [OF assms(4)] by metis
  obtain pk' sk' m' where q: "oqs_sig_keypair L r' = Some (pk', sk')"
    "last h' (q @ ''.pub'') = Some \<lparr>f_data = pk', f_perm = m'\<rparr>"
    "last h' (q @ ''.key'') = Some \<lparr>f_data = sk', f_perm = rw_owner\<rparr>"
    and keep: "\<forall>x. x \<notin> {q @ ''.pub'', q @ ''.key''} \<longrightarrow> last h' x = last h x"
    using keygen_done [OF assms(5)] by metis
  have p': "last h' (p @ ''.pub'') = Some \<lparr>f_data = pk, f_perm = m\<rparr>"
    "last h' (p @ ''.key'') = Some \<lparr>f_data = sk, f_perm = rw_owner\<rparr>"
    using p(2,3) keep assms(3) by simp_all
  have len: "length pk = sig_public_len L" "length sk = sig_secret_len L"
    "length pk' = sig_public_len L" "length sk' = sig_secret_len L"
    using assms(1) p(1) q(1) unfolding libs_sized_def by blast+
  have reads: "read_bytes_file D (p @ ''.pub'') (last h') = Inr pk"
    "read_bytes_file D (p @ ''.key'') (last h') = Inr sk"
    "read_bytes_file D (q @ ''.pub'') (last h') = Inr pk'"
    "read_bytes_file D (q @ ''.key'') (last h') = Inr sk'"
    using p' q(2,3) assms(2) by (simp_all add: read_here)
  show ?thesis
  proof (intro exI conjI)
    show "load_identity D L (p @ ''.pub'') (p @ ''.key'') (q @ ''.pub'') (last h') =
        Inr \<lparr>sig_public = pk, sig_secret = sk, peer_sig_public = pk'\<rparr>"
      by (simp add: load_identity_def id_crypto_def mldsa_new_def avail reads len)
    show "load_identity D L (q @ ''.pub'') (q @ ''.key'') (p @ ''.pub'') (last h') =
        Inr \<lparr>sig_public = pk', sig_secret = sk', peer_sig_public = pk\<rparr>"
      by (simp add: load_identity_def id_crypto_def mldsa_new_def avail reads len)
    show "honest_identities L \<lparr>sig_public = pk, sig_secret = sk, peer_sig_public = pk'\<rparr>
        \<lparr>sig_public = pk', sig_secret = sk', peer_sig_public = pk\<rparr>"
      using p(1) q(1) unfolding honest_identities_def by auto
  qed
qed

text \<open>
  Provisioning works.  After two successful runs of the key generator with different prefixes,
  in either role a party can load its identity with the other's public key, and the two loaded
  identities are such that each has pinned the other's key: what the handshake needs.
\<close>

theorem provisioned_parties:
  assumes "libs_sized L" and "disk_reads D" and "p \<noteq> q"
    and "keygen_main Dk L r [p] fs = (0, h)" and "keygen_main Dk' L r' [q] (last h) = (0, h')"
  shows "\<exists>idc ids.
    load_identity D L (p @ ''.pub'') (p @ ''.key'') (q @ ''.pub'') (last h') = Inr idc \<and>
    load_identity D L (q @ ''.pub'') (q @ ''.key'') (p @ ''.pub'') (last h') = Inr ids \<and>
    honest_identities L idc ids"
  by (rule provisioned [OF assms])

text \<open>
  C33. The private key is readable before it is protected.  When the key file is new, the files pass
  through a state in which it already holds the private key and still has the permissions that the
  umask leaves of \<open>0666\<close>.
\<close>

theorem key_exposed:
  assumes "keygen_main D L r [pfx] fs = (0, h)" and "fs (pfx @ ''.key'') = None"
  shows "\<exists>s \<in> set h. \<exists>f. s (pfx @ ''.key'') = Some f \<and>
    map_option snd (oqs_sig_keypair L r) = Some (f_data f) \<and> f_perm f = rw_all AND NOT (umask D)"
proof -
  obtain u where g: "generate_identity_files D L r pfx fs = (Inr u, h)"
    using assms(1) by (auto simp: keygen_main_def split: prod.splits sum.splits)
  obtain kp where kp: "id_crypto (and_then (mldsa_new L) (\<lambda>_. mldsa_keypair L r)) = Inr kp"
    using g by (auto simp: generate_identity_files_def split: sum.splits)
  then have keys: "oqs_sig_keypair L r = Some (public_key kp, secret_key kp)"
    by (auto simp: id_crypto_def mldsa_new_def mldsa_keypair_def split: sum.splits if_splits option.splits)
  obtain h1 h2 v where w1: "write_bytes_file D (pfx @ ''.pub'') (public_key kp) False fs = (Inr v, h1)"
    and w2: "write_bytes_file D (pfx @ ''.key'') (secret_key kp) True (last h1) = (Inr u, h2)"
    and h: "h = h1 @ h2"
    using g kp by (auto simp: generate_identity_files_def Let_def split: prod.splits sum.splits)
  have none: "last h1 (pfx @ ''.key'') = None"
    using write_bytes_done(3) [OF w1] assms(2) by simp
  let ?s = "with_data (pfx @ ''.key'') (secret_key kp) (truncated D (pfx @ ''.key'') (last h1))"
  have "?s \<in> set h2"
    using w2 by (auto simp: write_bytes_file_def Let_def split: if_splits)
  moreover have "?s (pfx @ ''.key'') = Some \<lparr>f_data = secret_key kp, f_perm = rw_all AND NOT (umask D)\<rparr>"
    by (simp add: with_data_def truncated_def none)
  ultimately show ?thesis
    using h keys by (intro bexI [of _ ?s]) auto
qed

subsection \<open>A concrete disk\<close>

text \<open>A disk without failures, under the usual umask \<open>022\<close>.\<close>

definition toy_disk :: disk where
  "toy_disk = \<lparr>can_create = \<lambda>p. True, room = \<lambda>p. 100, can_chmod = \<lambda>p. True, can_open = \<lambda>p. True,
     can_seek = \<lambda>p. True, can_read = \<lambda>p. True, umask = 0x12\<rparr>"

lemma toy_keygen: "fst (keygen_main toy_disk toy_libs r [p] fs) = 0"
  by (simp add: keygen_main_def generate_identity_files_def write_bytes_file_def id_crypto_def mldsa_new_def
      mldsa_keypair_def toy_disk_def toy_libs_def Let_def)

lemma toy_keygen_eq: "keygen_main toy_disk toy_libs r [p] fs = (0, snd (keygen_main toy_disk toy_libs r [p] fs))"
  using toy_keygen [of r p fs] by (metis prod.collapse)

lemma provisioned_parties_witness:
  "\<exists>fs idc ids. load_identity toy_disk toy_libs ''a.pub'' ''a.key'' ''b.pub'' fs = Inr idc \<and>
     load_identity toy_disk toy_libs ''b.pub'' ''b.key'' ''a.pub'' fs = Inr ids \<and>
     honest_identities toy_libs idc ids"
proof -
  have disk: "disk_reads toy_disk"
    by (simp add: disk_reads_def toy_disk_def)
  have ab: "''a'' \<noteq> ''b''"
    by simp
  have names: "''a'' @ ''.pub'' = ''a.pub''" "''a'' @ ''.key'' = ''a.key''"
    "''b'' @ ''.pub'' = ''b.pub''" "''b'' @ ''.key'' = ''b.key''"
    by simp_all
  show ?thesis
    using provisioned_parties [OF toy_libs_ok(2) disk ab toy_keygen_eq [of 1 _ Map.empty] toy_keygen_eq [of 2]]
    unfolding names by blast
qed

lemma key_exposed_witness:
  "\<exists>s \<in> set (snd (keygen_main toy_disk toy_libs 1 [''a''] Map.empty)). \<exists>f. s ''a.key'' = Some f \<and>
     f_perm f = rw_all AND NOT (umask toy_disk)"
proof -
  have name: "''a'' @ ''.key'' = ''a.key''"
    by simp
  have "(Map.empty :: files) (''a'' @ ''.key'') = None"
    by simp
  from key_exposed [OF toy_keygen_eq [of 1 "''a''"] this] show ?thesis
    unfolding name by blast
qed

end
