(* ===== verification/Daemon.thy ===== *)
theory Daemon
  imports Channel_Sink Identity Pipeline
begin

section \<open>The analyzer daemon\<close>

text \<open>
  \<open>analyzer/src/main.cpp\<close>: options, the choice of the language-model client, one connection (the
  handshake, then records until the stream ends or something throws) and the loop over connections,
  which share the correlator and the client.  A connection is what its socket will deliver, the
  seeds of the handshake's random choices and which of its sends fail.
\<close>

subsection \<open>Options\<close>

record options =
  opt_port :: u16
  opt_bind :: string
  opt_id :: string
  opt_peer :: string
  opt_mock :: bool
  opt_once :: bool

definition default_options :: options where
  "default_options = \<lparr>opt_port = 9443, opt_bind = ''127.0.0.1'', opt_id = ''analyzer'',
     opt_peer = ''agent.pub'', opt_mock = False, opt_once = False\<rparr>"

text \<open>The process ends with a status, or an exception leaves \<open>main\<close>.\<close>

datatype stop = Exit_status nat | Uncaught_exception num_error

function parse_args :: "options \<Rightarrow> string list \<Rightarrow> stop + options" where
  "parse_args o1 [] = Inr o1"
| "parse_args o1 (a # r) =
     (if a = ''--mock-llm'' then parse_args (o1\<lparr>opt_mock := True\<rparr>) r
      else if a = ''--once'' then parse_args (o1\<lparr>opt_once := True\<rparr>) r
      else if a \<notin> {''--port'', ''--bind'', ''--id'', ''--peer''} then Inl (Exit_status 1)
      else case r of
             [] \<Rightarrow> Inl (Exit_status 1)
           | v # r' \<Rightarrow>
               if a = ''--bind'' then parse_args (o1\<lparr>opt_bind := v\<rparr>) r'
               else if a = ''--id'' then parse_args (o1\<lparr>opt_id := v\<rparr>) r'
               else if a = ''--peer'' then parse_args (o1\<lparr>opt_peer := v\<rparr>) r'
               else (case stoi v of
                       Inl e \<Rightarrow> Inl (Uncaught_exception e)
                     | Inr n \<Rightarrow> parse_args (o1\<lparr>opt_port := word_of_int n\<rparr>) r'))"
  by pat_completeness auto
termination
  by (relation "measure (\<lambda>(o1, args). length args)") simp_all

datatype llm_kind = Claude_llm string | Mock_kind

definition make_llm :: "options \<Rightarrow> string option \<Rightarrow> llm_kind" where
  "make_llm o1 key =
     (case key of
        None \<Rightarrow> Mock_kind
      | Some k \<Rightarrow> if \<not> opt_mock o1 \<and> k \<noteq> [] then Claude_llm k else Mock_kind)"

subsection \<open>Receiving makes progress\<close>

fun rx_weight :: "rx list \<Rightarrow> nat" where
  "rx_weight [] = 0"
| "rx_weight (Rx_data d # s) = Suc (length d) + rx_weight s"
| "rx_weight (_ # s) = Suc (rx_weight s)"

lemma sys_recv_weight: "sys_recv n s = (res, s') \<Longrightarrow> rx_weight s' \<le> rx_weight s \<and>
    (\<forall>d. res = Got d \<longrightarrow> d \<noteq> [] \<longrightarrow> rx_weight s' < rx_weight s)"
  by (cases "(n, s)" rule: sys_recv.cases) (auto split: if_splits)

lemma read_loop_weight:
  "rx_weight (snd (read_loop n got s)) \<le> rx_weight s \<and>
   (\<forall>d. fst (read_loop n got s) = Inr (Some d) \<longrightarrow> length got < n \<longrightarrow>
      rx_weight (snd (read_loop n got s)) < rx_weight s)"
proof (induction n got s rule: read_loop.induct)
  case (1 n got s)
  show ?case
  proof (cases "n \<le> length got")
    case False
    obtain res s' where r: "sys_recv (n - length got) s = (res, s')"
      by (cases "sys_recv (n - length got) s")
    note w = sys_recv_weight [OF r]
    show ?thesis
    proof (cases res)
      case (Got d)
      show ?thesis
      proof (cases "d = []")
        case True
        then show ?thesis
          using w r Got False by (subst read_loop.simps, subst (2) read_loop.simps, subst (3) read_loop.simps) simp
      next
        case d: False
        have eq: "read_loop n got s = read_loop n (got @ d) s'"
          using r Got False d by (subst read_loop.simps) simp
        show ?thesis
          using "1.IH"(1) [OF False r [symmetric] Got d] w Got d unfolding eq by auto
      qed
    next
      case Interrupted
      have eq: "read_loop n got s = read_loop n got s'"
        using r Interrupted False by (subst read_loop.simps) simp
      show ?thesis
        using "1.IH"(2) [OF False r [symmetric] Interrupted] w unfolding eq by auto
    next
      case Failed
      have eq: "read_loop n got s = (Inl Recv_failed, s')"
        using r Failed False by (subst read_loop.simps) simp
      then show ?thesis
        using w by simp
    qed
  qed (simp add: read_loop.simps)
qed

lemma read_all_weight:
  "read_all n s = (res, s') \<Longrightarrow> rx_weight s' \<le> rx_weight s"
  "read_all n s = (Inr (Some d), s') \<Longrightarrow> 0 < n \<Longrightarrow> rx_weight s' < rx_weight s"
  using read_loop_weight [of n "[]" s] by (auto simp: read_all_def)

text \<open>A record takes something off the stream.\<close>

lemma recv_record_weight:
  assumes "recv_record s = (Inr rec, s')" and "rec \<noteq> []"
  shows "rx_weight s' < rx_weight s"
proof -
  obtain header s1 where h: "read_all 2 s = (Inr (Some header), s1)"
    using assms by (auto simp: recv_record_def split: prod.splits sum.splits option.splits)
  have "rx_weight s' \<le> rx_weight s1"
    using assms h read_all_weight(1) [of _ s1]
    by (auto simp: recv_record_def Let_def split: prod.splits sum.splits option.splits if_splits)
  then show ?thesis
    using read_all_weight(2) [OF h] by simp
qed

subsection \<open>One connection\<close>

datatype serve_error =
    Accept_failed | Serve_handshake hs_error | Serve_socket socket_error | Serve_record record_error

text \<open>
  The loop of \<open>serve_connection\<close>: the number of events or the exception, what was emitted, and the
  state of client and correlator, which survives either way.
\<close>

type_synonym 's served = "(serve_error + nat) \<times> emitted list \<times> 's \<times> correlator"

function serve_loop ::
  "libs \<Rightarrow> 's llm_client \<Rightarrow> record_receiver \<Rightarrow> rx list \<Rightarrow> nat \<Rightarrow> 's \<times> correlator \<Rightarrow> 's served" where
  "serve_loop L llm r s n st =
     (case recv_record s of
        (Inl e, s') \<Rightarrow> (Inl (Serve_socket e), [], st)
      | (Inr rec, s') \<Rightarrow>
          if rec = [] then (Inr n, [], st)
          else (case open_record L r rec of
                  (Inl e, r') \<Rightarrow> (Inl (Serve_record e), [], st)
                | (Inr pt, r') \<Rightarrow>
                    if length pt < sizeof_security_event then serve_loop L llm r' s' n st
                    else let (x, st1) = process_event (event_of_image pt) llm st;
                             (res, xs, st2) = serve_loop L llm r' s' (Suc n) st1
                         in (res, x # xs, st2)))"
  by pat_completeness auto
termination
  by (relation "measure (\<lambda>(L, llm, r, s, n, st). rx_weight s)")
    (auto intro: recv_record_weight [OF sym])

declare serve_loop.simps [simp del]

record connection =
  conn_rx :: "rx list"
  conn_seeds :: hs_seeds
  conn_send_fails :: "nat \<Rightarrow> socket_error option"

text \<open>The transport over the socket delivers what \<open>recv_frame\<close> finds, as far as it is asked.\<close>

definition serve_connection ::
  "libs \<Rightarrow> 's llm_client \<Rightarrow> identity \<Rightarrow> connection \<Rightarrow> 's \<times> correlator \<Rightarrow> 's served" where
  "serve_connection L llm i c st =
     (let (f1, s1) = recv_frame (conn_rx c);
          (f2, s2) = recv_frame s1;
          t = \<lparr>t_in = [f1, f2], t_out = [], t_send_fails = conn_send_fails c\<rparr>
      in case server_handshake L i (conn_seeds c) t of
           (Inl e, t') \<Rightarrow> (Inl (Serve_handshake e), [], st)
         | (Inr ch, t') \<Rightarrow> serve_loop L llm (chan_receiver ch) s2 0 st)"

subsection \<open>The daemon\<close>

text \<open>
  What \<open>tcp_accept\<close> will give, in order (\<open>None\<close> for an exception); a signal ends the list.  Every
  exception of a connection is caught.  The result: the outcome of each connection, what was emitted,
  and the state.
\<close>

fun accept_loop ::
  "libs \<Rightarrow> 's llm_client \<Rightarrow> identity \<Rightarrow> bool \<Rightarrow> connection option list \<Rightarrow> 's \<times> correlator \<Rightarrow>
    (serve_error + nat) list \<times> emitted list \<times> 's \<times> correlator" where
  "accept_loop L llm i once [] st = ([], [], st)"
| "accept_loop L llm i once (c # cs) st =
     (let (res, xs, st1) =
        (case c of None \<Rightarrow> (Inl Accept_failed, [], st) | Some conn \<Rightarrow> serve_connection L llm i conn st)
      in if once then ([res], xs, st1)
         else let (rs, ys, st2) = accept_loop L llm i once cs st1 in (res # rs, xs @ ys, st2))"

definition daemon_main ::
  "disk \<Rightarrow> files \<Rightarrow> libs \<Rightarrow> (llm_kind \<Rightarrow> 's llm_client) \<Rightarrow> 's \<Rightarrow> string option \<Rightarrow> (u16 \<Rightarrow> string \<Rightarrow> bool) \<Rightarrow>
    connection option list \<Rightarrow> string list \<Rightarrow> (stop + nat) \<times> emitted list" where
  "daemon_main D fs L mk s0 key can_listen links args =
     (case parse_args default_options args of
        Inl e \<Rightarrow> (Inl e, [])
      | Inr o1 \<Rightarrow>
          (case load_identity D L (opt_id o1 @ ''.pub'') (opt_id o1 @ ''.key'') (opt_peer o1) fs of
             Inl e \<Rightarrow> (Inr 1, [])
           | Inr i \<Rightarrow>
               if \<not> can_listen (opt_port o1) (opt_bind o1) then (Inr 1, [])
               else let (rs, xs, st) = accept_loop L (mk (make_llm o1 key)) i (opt_once o1) links
                          (s0, default_correlator)
                    in (Inr 0, xs)))"

subsection \<open>The abstract view\<close>

text \<open>
  What a connection is to the analyzer: the events of the records that open, up to the end of the
  stream or the first failure.  The client and the correlator have no part in it.
\<close>

function received :: "libs \<Rightarrow> record_receiver \<Rightarrow> rx list \<Rightarrow> security_event list" where
  "received L r s =
     (case recv_record s of
        (Inl e, s') \<Rightarrow> []
      | (Inr rec, s') \<Rightarrow>
          if rec = [] then []
          else (case open_record L r rec of
                  (Inl e, r') \<Rightarrow> []
                | (Inr pt, r') \<Rightarrow>
                    if length pt < sizeof_security_event then received L r' s'
                    else event_of_image pt # received L r' s'))"
  by pat_completeness auto
termination
  by (relation "measure (\<lambda>(L, r, s). rx_weight s)") (auto intro: recv_record_weight [OF sym])

declare received.simps [simp del]

definition connection_events :: "libs \<Rightarrow> identity \<Rightarrow> connection \<Rightarrow> security_event list" where
  "connection_events L i c =
     (let (f1, s1) = recv_frame (conn_rx c);
          (f2, s2) = recv_frame s1
      in case server_handshake L i (conn_seeds c)
           \<lparr>t_in = [f1, f2], t_out = [], t_send_fails = conn_send_fails c\<rparr> of
           (Inl e, t') \<Rightarrow> [] | (Inr ch, t') \<Rightarrow> received L (chan_receiver ch) s2)"

text \<open>The four ways a round of the loop goes.\<close>

lemma serve_loop_cases:
  obtains (fails) e where "serve_loop L llm r s n st = (Inl e, [], st)" and "received L r s = []"
  | (ends) "serve_loop L llm r s n st = (Inr n, [], st)" and "received L r s = []"
  | (short) rec s' pt r' where "recv_record s = (Inr rec, s')" and "rec \<noteq> []"
      and "open_record L r rec = (Inr pt, r')" and "length pt < sizeof_security_event"
  | (event) rec s' pt r' where "recv_record s = (Inr rec, s')" and "rec \<noteq> []"
      and "open_record L r rec = (Inr pt, r')" and "sizeof_security_event \<le> length pt"
proof -
  obtain res s' where rr: "recv_record s = (res, s')"
    by (cases "recv_record s")
  show ?thesis
  proof (cases res)
    case (Inl e)
    then show ?thesis
      using rr by (intro fails [of "Serve_socket e"]) (simp_all add: serve_loop.simps received.simps)
  next
    case (Inr rec)
    show ?thesis
    proof (cases "rec = []")
      case True
      then show ?thesis
        using rr Inr by (intro ends) (simp_all add: serve_loop.simps received.simps)
    next
      case False
      obtain res2 r' where o: "open_record L r rec = (res2, r')"
        by (cases "open_record L r rec")
      show ?thesis
      proof (cases res2)
        case (Inl e)
        then show ?thesis
          using rr Inr False o
          by (intro fails [of "Serve_record e"]) (simp_all add: serve_loop.simps received.simps)
      next
        case (Inr pt)
        then show ?thesis
          using rr \<open>res = Inr rec\<close> False o short event by (cases "length pt < sizeof_security_event") simp_all
      qed
    qed
  qed
qed

lemma serve_loop_short:
  assumes "recv_record s = (Inr rec, s')" and "rec \<noteq> []" and "open_record L r rec = (Inr pt, r')"
    and "length pt < sizeof_security_event"
  shows "serve_loop L llm r s n st = serve_loop L llm r' s' n st" "received L r s = received L r' s'"
  using assms by (simp_all add: serve_loop.simps [of L llm r s] received.simps [of L r s])

lemma serve_loop_event:
  assumes "recv_record s = (Inr rec, s')" and "rec \<noteq> []" and "open_record L r rec = (Inr pt, r')"
    and "sizeof_security_event \<le> length pt"
  shows "serve_loop L llm r s n st =
      (let (x, st1) = process_event (event_of_image pt) llm st;
           (res, xs, st2) = serve_loop L llm r' s' (Suc n) st1 in (res, x # xs, st2))"
    "received L r s = event_of_image pt # received L r' s'"
  using assms by (simp_all add: serve_loop.simps [of L llm r s] received.simps [of L r s])

lemma serve_loop_refines:
  "snd (serve_loop L llm r s n st) = process_all (received L r s) llm st"
proof (induction "rx_weight s" arbitrary: r s n st rule: less_induct)
  case less
  show ?case
  proof (cases rule: serve_loop_cases [of L llm r s n st])
    case (short rec s' pt r')
    show ?thesis
      using less [OF recv_record_weight [OF short(1,2)], of r' n st]
      by (simp add: serve_loop_short [OF short])
  next
    case (event rec s' pt r')
    obtain x st1 where p: "process_event (event_of_image pt) llm st = (x, st1)"
      by (cases "process_event (event_of_image pt) llm st")
    show ?thesis
      using less [OF recv_record_weight [OF event(1,2)], of r' "Suc n" st1]
      by (simp add: serve_loop_event [OF event] p process_all_Cons case_prod_unfold Let_def prod_eq_iff)
  qed simp_all
qed

text \<open>What the receiver opened on the way, in order.\<close>

lemma received_opened:
  "\<exists>recs pts. open_all L r recs = Inr pts \<and>
    received L r s = map event_of_image (filter (\<lambda>p. sizeof_security_event \<le> length p) pts)"
proof (induction "rx_weight s" arbitrary: r s rule: less_induct)
  case less
  have none: "open_all L r [] = Inr []"
    by (simp add: open_all_def)
  show ?case
  proof (cases rule: serve_loop_cases [of L mock_client r s 0 "((), default_correlator)"])
    case (short rec s' pt r')
    obtain recs pts where "open_all L r' recs = Inr pts"
      "received L r' s' = map event_of_image (filter (\<lambda>p. sizeof_security_event \<le> length p) pts)"
      using less [OF recv_record_weight [OF short(1,2)], of r'] by blast
    then have "open_all L r (rec # recs) = Inr (pt # pts)" and
      "received L r s = map event_of_image (filter (\<lambda>p. sizeof_security_event \<le> length p) (pt # pts))"
      using short by (simp_all add: open_all_def serve_loop_short(2) [OF short])
    then show ?thesis by blast
  next
    case (event rec s' pt r')
    obtain recs pts where "open_all L r' recs = Inr pts"
      "received L r' s' = map event_of_image (filter (\<lambda>p. sizeof_security_event \<le> length p) pts)"
      using less [OF recv_record_weight [OF event(1,2)], of r'] by blast
    then have "open_all L r (rec # recs) = Inr (pt # pts)" and
      "received L r s = map event_of_image (filter (\<lambda>p. sizeof_security_event \<le> length p) (pt # pts))"
      using event by (simp_all add: open_all_def serve_loop_event(2) [OF event])
    then show ?thesis by blast
  next
    case (fails e)
    with none show ?thesis
      by (intro exI [of _ "[]"]) simp
  next
    case ends
    with none show ?thesis
      by (intro exI [of _ "[]"]) simp
  qed
qed

text \<open>
  C8. The daemon is one pipeline.  Whatever happens on its connections (handshakes that fail, records
  that do not open, streams that break, in any number), what it emits and the state it ends in are
  those of the pipeline on the received events of all connections in a row: the sequence rules see
  through reconnections, and no connection disturbs another.
\<close>

theorem daemon_is_one_pipeline:
  "snd (accept_loop L llm i False cs st) =
     process_all (concat (map (\<lambda>c. case c of None \<Rightarrow> [] | Some x \<Rightarrow> connection_events L i x) cs)) llm st"
proof (induction cs arbitrary: st)
  case (Cons c cs)
  have "snd (serve_connection L llm i x st) = process_all (connection_events L i x) llm st" for x
    by (simp add: serve_connection_def connection_events_def Let_def case_prod_unfold serve_loop_refines
        split: sum.split)
  then show ?case
    using Cons
    by (cases c) (simp_all add: case_prod_unfold Let_def process_all_append)
qed simp

lemma run_receives_take:
  "run_receives step r ws = Inr ms \<Longrightarrow> run_receives step r (take k ws) = Inr (take k ms)"
proof (induction ws arbitrary: r ms k)
  case (Cons w ws)
  then show ?case
    by (cases k) (auto simp: and_then_Inr_iff split: prod.splits sum.splits)
qed simp


subsection \<open>From the agent's queue to the analyzer's output\<close>

lemma length_run_sends: "length (run_sends f s ms) \<le> length ms"
  by (induction ms arbitrary: s) (auto split: prod.split sum.split intro: le_SucI)

lemma sealed_first:
  assumes "map fst (seal_all L sd (p # ps)) = p # ps"
  obtains rec sd' where "seal L sd p = (Inr rec, sd')" and "seal_all L sd (p # ps) = (p, rec) # seal_all L sd' ps"
    and "map fst (seal_all L sd' ps) = ps"
proof (cases "seal L sd p")
  case (Pair res sd')
  show ?thesis
  proof (cases res)
    case (Inl e)
    then have "length (p # ps) = length (seal_all L sd' ps)"
      using Pair assms by (metis (no_types, lifting) length_map old.sum.simps(5) prod.case run_sends.simps(2) seal_all_def)
    then show ?thesis
      using length_run_sends [of "seal L" sd' ps] by (simp add: seal_all_def)
  next
    case (Inr rec)
    then show ?thesis
      using Pair assms that by (simp add: seal_all_def)
  qed
qed

lemma serve_loop_delivers:
  assumes "records_in_step L sd r" and "list_all wf_event evs"
    and "map fst (seal_all L sd (map event_image evs)) = map event_image evs"
    and "clean_script s" and "stream s = concat (map snd (seal_all L sd (map event_image evs)))"
  shows "serve_loop L llm r s n st = (Inr (n + length evs), process_all evs llm st)"
  using assms
proof (induction evs arbitrary: sd r s n st)
  case Nil
  then have "fst (recv_record s) = Inr []"
    by (intro rf.end_law) (simp_all add: seal_all_def)
  then show ?case
    by (cases "recv_record s") (simp add: serve_loop.simps)
next
  case (Cons e evs)
  obtain rec sd' where seal: "seal L sd (event_image e) = (Inr rec, sd')"
    and all: "seal_all L sd (event_image e # map event_image evs) =
      (event_image e, rec) # seal_all L sd' (map event_image evs)"
    and rest: "map fst (seal_all L sd' (map event_image evs)) = map event_image evs"
    using sealed_first [of L sd "event_image e" "map event_image evs"] Cons.prems(3) by auto
  obtain r' where o: "open_record L r rec = (Inr (event_image e), r')" and step: "records_in_step L sd' r'"
    using rl.step_law [OF Cons.prems(1) seal] by blast
  have "libs_sized L"
    using Cons.prems(1) by (simp add: records_in_step_def)
  then have rec: "delimited_record rec"
    using seal_all_delimited [of L sd "event_image e # map event_image evs"] all by simp
  then have "rec \<noteq> []"
    by (auto simp: delimited_record_def)
  obtain s' where s': "recv_record s = (Inr rec, s')" "clean_script s'"
    "stream s' = concat (map snd (seal_all L sd' (map event_image evs)))"
    using rf.recv_law [OF Cons.prems(4) _ rec] Cons.prems(5) all by auto
  have len: "sizeof_security_event \<le> length (event_image e)"
    and img: "event_of_image (event_image e) = e"
    using Cons.prems(2) event_of_image_event_image [of e "[]"] by (simp_all add: length_event_image)
  have ih: "serve_loop L llm r' s' (Suc n) st1 = (Inr (Suc n + length evs), process_all evs llm st1)" for st1
    using Cons.prems(2) by (intro Cons.IH [OF step _ rest s'(2,3)]) simp
  show ?case
    unfolding serve_loop_event(1) [OF s'(1) \<open>rec \<noteq> []\<close> o len]
    by (simp add: img ih process_all_Cons case_prod_unfold Let_def)
qed

text \<open>Two honest parties, and what the agent's sink has put on the wire.\<close>

lemma honest_link:
  assumes "libs_available L" and "libs_sized L" and "kem_correct L" and "dh_correct L"
    and "sig_correct L" and "gcm_correct L" and "honest_identities L idc ids"
  shows "\<exists>shf saf chf caf cc.
    client_handshake L idc sdc (fresh_transport [shf, saf]) = (Inr cc, finished_transport [chf, caf]) \<and>
    delimited_frame shf \<and> delimited_frame saf \<and>
    (\<forall>pid cap tx tr s rx llm st. 0 < cap \<and> sink_run L pid (new_sink (chan_sender cc) cap tx) tr s \<and>
       s_phase s = Finished \<and> \<not> s_broken s \<and> list_all wf_event (accepted tr) \<and>
       clean_script rx \<and> stream rx = chf @ caf @ s_wire s \<longrightarrow>
       serve_connection L llm ids \<lparr>conn_rx = rx, conn_seeds = sds, conn_send_fails = \<lambda>_. None\<rparr> st =
         (Inr (length (transmitted tr)), process_all (transmitted tr) llm st))"
proof -
  obtain c s caf mid where c: "client_sent L sdc c" "sv_ch_frame s = cl_frame c"
    and acc: "client_accepts L idc sdc c (sv_sh_frame s) (sv_sa_frame s) caf (sv_keys s)"
    and client: "client_handshake L idc sdc (fresh_transport [sv_sh_frame s, sv_sa_frame s]) =
      (Inr (client_channel (sv_keys s)), finished_transport [cl_frame c, caf])"
    and start: "server_start L ids sds (fresh_transport [cl_frame c, caf]) = (Inr s, mid)"
    and finish: "server_finish L ids s mid =
      (Inr (server_channel (sv_keys s)), finished_transport [sv_sh_frame s, sv_sa_frame s])"
    by (rule honest_run [OF assms(1-5,7)])
  have server: "server_handshake L ids sds (fresh_transport [cl_frame c, caf]) =
      (Inr (server_channel (sv_keys s)), finished_transport [sv_sh_frame s, sv_sa_frame s])"
    unfolding server_handshake_Inr using start finish by blast
  let ?sd = "chan_sender (client_channel (sv_keys s))" and ?r = "chan_receiver (server_channel (sv_keys s))"
  have step: "records_in_step L ?sd ?r"
    using assms(2,6) by (auto simp: records_in_step_def client_channel_def server_channel_def)
  have chf: "delimited_frame (cl_frame c)" and caf: "delimited_frame caf"
    using client_frames_delimited [OF c(1)] acc ca.ser_delimited by (auto simp: client_accepts_def)
  have "serve_connection L llm ids \<lparr>conn_rx = rx, conn_seeds = sds, conn_send_fails = \<lambda>_. None\<rparr> st =
      (Inr (length (transmitted tr)), process_all (transmitted tr) llm st)"
    if cap: "0 < cap" and run: "sink_run L pid (new_sink ?sd cap tx) tr z"
      and fin: "s_phase z = Finished" "\<not> s_broken z" and wf: "list_all wf_event (accepted tr)"
      and rx: "clean_script rx" "stream rx = cl_frame c @ caf @ s_wire z"
    for pid cap tx tr z rx llm st
  proof -
    obtain rx1 where rx1: "recv_frame rx = (Inr (cl_frame c), rx1)" "clean_script rx1" "stream rx1 = caf @ s_wire z"
      using hf.recv_law [OF rx chf] by blast
    obtain rx2 where rx2: "recv_frame rx1 = (Inr caf, rx2)" "clean_script rx2" "stream rx2 = s_wire z"
      using hf.recv_law [OF rx1(2,3) caf] by blast
    have sealed: "map fst (seal_all L ?sd (map event_image (transmitted tr))) = map event_image (transmitted tr)"
      and wire: "s_wire z = concat (map snd (seal_all L ?sd (map event_image (transmitted tr))))"
      using sink_complete [OF run cap fin] by blast+
    have "list_all wf_event (transmitted tr)"
      using wf_inv_run [OF run wf] by (simp add: wf_inv_def)
    from serve_loop_delivers [OF step this sealed rx2(2), of llm 0 st] rx2(3) wire
    have "serve_loop L llm ?r rx2 0 st = (Inr (length (transmitted tr)), process_all (transmitted tr) llm st)"
      by simp
    then show ?thesis
      using server rx1(1) rx2(1) by (simp add: serve_connection_def fresh_transport_def)
  qed
  moreover have "delimited_frame (sv_sh_frame s)" "delimited_frame (sv_sa_frame s)"
    using start server_frames_delimited unfolding server_start_Inr by blast+
  ultimately show ?thesis
    using client by blast
qed


subsection \<open>Concrete instances\<close>



end
