(* ===== verification/Recorder.thy ===== *)
theory Recorder
  imports Events_File Alert
begin

section \<open>The agent's local sinks\<close>

text \<open>
  \<open>StdoutSink\<close> and \<open>RecordSink\<close> of \<open>agent/src/main.cpp\<close>: a line on the console, and the recording
  in the format of \<open>Events_File\<close>, in which longer gaps between events become \<open>delay\<close> lines so that a
  replay keeps the real time between them.
\<close>

subsection \<open>The console\<close>

definition access_letters :: "u32 \<Rightarrow> string" where
  "access_letters a =
     (let s = (if has_flag a PQSEC_FA_WRITE then ''w'' else '''') @
              (if has_flag a PQSEC_FA_CREATE then ''c'' else '''') @
              (if has_flag a PQSEC_FA_SENSITIVE then ''s'' else '''') @
              (if has_flag a PQSEC_FA_EXEC then ''x'' else '''')
      in if s = [] then ''-'' else s)"

definition stdout_head :: "string \<Rightarrow> security_event \<Rightarrow> string" where
  "stdout_head kind e =
     kind @ ''pid='' @ pad_right 6 (dec_nat (unat (ev_pid e))) @ '' ppid='' @
     pad_right 6 (dec_nat (unat (ev_ppid e))) @ '' comm='' @ pad_right 16 (cstr (ev_comm e))"

definition stdout_line :: "security_event \<Rightarrow> string" where
  "stdout_line e =
     (case ev_u e of
        U_execve f \<Rightarrow> stdout_head ''EXECVE   '' e @ '' file='' @ cstr f @ [CHR 0x0A]
      | U_tcp t \<Rightarrow> stdout_head ''CONNECT  '' e @ '' dst='' @ inet_ntop4 (daddr t) @ '':'' @
          dec_nat (unat (dport t)) @ [CHR 0x0A]
      | U_file f \<Rightarrow> stdout_head ''FILE     '' e @ '' access='' @ pad_right 4 (access_letters (access f)) @
          '' ino='' @ dec_nat (unat (ino f)) @ '' path='' @
          (if cstr (fpath f) \<noteq> [] then cstr (fpath f) else ''(inode-only)'') @ [CHR 0x0A]
      | _ \<Rightarrow> [])"

subsection \<open>Recording\<close>

record record_sink =
  rs_out :: string
  rs_n :: u64
  rs_last_ts :: u64

definition msg_rec_note :: string where
  "msg_rec_note =
     '' (ts_ns '' @ [CHR 0xEB, CHR 0x8A, CHR 0x94, CHR 0x20, CHR 0xEA, CHR 0xB8, CHR 0xB0, CHR
     0xEB, CHR 0xA1, CHR 0x9D, CHR 0xED, CHR 0x95, CHR 0x98, CHR 0xEC, CHR 0xA7, CHR 0x80, CHR
     0x20, CHR 0xEC, CHR 0x95, CHR 0x8A, CHR 0xEC, CHR 0x9D, CHR 0x8C, CHR 0x20, CHR 0xE2, CHR
     0x80, CHR 0x94, CHR 0x20, CHR 0xEC, CHR 0x9E, CHR 0xAC, CHR 0xEC, CHR 0x83, CHR 0x9D, CHR
     0x20, CHR 0xEC, CHR 0x8B, CHR 0x9C, CHR 0x20, CHR 0xEC, CHR 0x8B, CHR 0x9C, CHR 0xEA, CHR
     0xB3, CHR 0x84, CHR 0x20, CHR 0xEC, CHR 0x9E, CHR 0xAC, CHR 0xEB, CHR 0xB6, CHR 0x80, CHR
     0xEC, CHR 0x97, CHR 0xAC] @ '')''"

text \<open>The constructor writes one comment with the time of day.\<close>

definition record_header_line :: "string \<Rightarrow> string" where
  "record_header_line time = ''# recorded by agent --record at '' @ time @ msg_rec_note @ [CHR 0x0A]"

definition new_record_sink :: "string \<Rightarrow> record_sink" where
  "new_record_sink time = \<lparr>rs_out = record_header_line time, rs_n = 0, rs_last_ts = 0\<rparr>"

definition delay_line :: "u64 \<Rightarrow> string" where
  "delay_line gap = ''delay '' @ dec_nat (unat (gap div 1000000)) @ [CHR 0x0A]"

definition record_event :: "security_event \<Rightarrow> record_sink \<Rightarrow> record_sink" where
  "record_event ev s =
     (let line = format_line ev
      in if line = [] then s
         else let pause = (if rs_last_ts s \<noteq> 0 \<and> rs_last_ts s + 10000000 < ev_ts_ns ev
                           then delay_line (ev_ts_ns ev - rs_last_ts s) else [])
              in s\<lparr>rs_out := rs_out s @ pause @ line @ [CHR 0x0A], rs_last_ts := ev_ts_ns ev, rs_n := rs_n s + 1\<rparr>)"

definition record_all :: "security_event list \<Rightarrow> record_sink \<Rightarrow> record_sink" where
  "record_all evs s = fold record_event evs s"

subsection \<open>A recording reads back, with its pauses\<close>

text \<open>What the parser makes of a recording: for every event its pause, if it has one, and the event.\<close>

definition pause_entry :: "nat \<Rightarrow> u64 \<Rightarrow> entry" where
  "pause_entry n gap = (new_entry n)\<lparr>e_kind := K_Delay, e_delay_ms := int (unat (gap div 1000000))\<rparr>"

fun expected :: "nat \<Rightarrow> u64 \<Rightarrow> security_event list \<Rightarrow> entry list" where
  "expected n prev [] = []"
| "expected n prev (ev # evs) =
     (if prev \<noteq> 0 \<and> prev + 10000000 < ev_ts_ns ev
      then pause_entry (Suc n) (ev_ts_ns ev - prev) # replayed (Suc (Suc n)) ev #
        expected (Suc (Suc n)) (ev_ts_ns ev) evs
      else replayed (Suc n) ev # expected (Suc n) (ev_ts_ns ev) evs)"

lemma unat_gap_less: "unat ((gap :: u64) div 1000000) < 2 ^ 63"
proof -
  have "unat (gap div 1000000) = unat gap div 1000000"
    by (simp add: unat_div)
  also have "\<dots> < 2 ^ 63"
    using unsigned_less [of gap, where 'a = nat] by simp
  finally show ?thesis .
qed

lemma parse_delay_line:
  "parse_line n (''delay'' @ CHR '' '' # dec_nat (unat (gap div 1000000))) = Inr (Some (pause_entry n gap))"
proof -
  let ?d = "dec_nat (unat (gap div 1000000))"
  have hash: "find_char (CHR ''#'') (''delay'' @ CHR '' '' # ?d) = None"
    using dec_nat_digits [of "CHR ''#''" "unat (gap div 1000000)"] by (auto simp: is_digit_def)
  have kind: "ext_word (''delay'' @ CHR '' '' # ?d) = Some (''delay'', CHR '' '' # ?d)"
    by (rule ext_word_blank) (simp_all add: word_chars_def is_space_def)
  have "ext_long (CHR '' '' # ?d) = Some (int (unat (gap div 1000000)), [])"
    using ext_long_dec [OF unat_gap_less, of "[]" gap] by (simp add: ext_long_skip is_space_def)
  then show ?thesis
    unfolding parse_line_def hash by (simp only: Let_def option.case prod.case kind)
      (simp add: parse_delay_def expect_of_def pause_entry_def new_entry_def)
qed

fun recorded_lines :: "u64 \<Rightarrow> security_event list \<Rightarrow> string list" where
  "recorded_lines prev [] = []"
| "recorded_lines prev (ev # evs) =
     (if prev \<noteq> 0 \<and> prev + 10000000 < ev_ts_ns ev
      then [''delay'' @ CHR '' '' # dec_nat (unat ((ev_ts_ns ev - prev) div 1000000))] else []) @
     format_line ev # recorded_lines (ev_ts_ns ev) evs"

definition unlines :: "string list \<Rightarrow> string" where
  "unlines ls = concat (map (\<lambda>l. l @ [CHR 0x0A]) ls)"

lemma unlines_simps [simp]:
  "unlines [] = []" "unlines (l # ls) = l @ CHR 0x0A # unlines ls" "unlines (ls @ ms) = unlines ls @ unlines ms"
  by (simp_all add: unlines_def)

lemma getlines_unlines: "\<forall>l \<in> set ls. CHR 0x0A \<notin> set l \<Longrightarrow> getlines (unlines ls) = ls"
  by (induction ls) simp_all

lemma format_line_not_Nil:
  assumes "recordable ev"
  shows "format_line ev \<noteq> []"
proof
  assume "format_line ev = []"
  moreover have "parse_line 0 [] = Inr None"
    by (simp add: parse_line_def ext_word_def trim_def skip_ws_def)
  ultimately show False
    using parse_line_format [OF assms, of 0] by simp
qed

lemma record_all_out:
  "list_all recordable evs \<Longrightarrow> rs_out (record_all evs s) = rs_out s @ unlines (recorded_lines (rs_last_ts s) evs)"
proof (induction evs arbitrary: s)
  case (Cons ev evs)
  then have "format_line ev \<noteq> []"
    by (simp add: format_line_not_Nil)
  then show ?case
    using Cons by (simp add: record_all_def record_event_def delay_line_def Let_def)
qed (simp add: record_all_def)

lemma recorded_lines_plain:
  "list_all recordable evs \<Longrightarrow> list_all (\<lambda>l. CHR 0x0A \<notin> set l) (recorded_lines prev evs)"
proof (induction evs arbitrary: prev)
  case (Cons ev evs)
  have "CHR 0x0A \<notin> set (format_line ev)"
    using line_chars_format [OF wf_recordable, of ev] Cons.prems(1)
    by (auto simp: list_all_iff [of line_char] line_char_def)
  moreover have "CHR 0x0A \<notin> set (dec_nat n)" for n
    using dec_nat_digits [of "CHR 0x0A" n] by (auto simp: is_digit_def)
  ultimately show ?case
    using Cons.IH [of "ev_ts_ns ev"] Cons.prems by simp
qed simp

lemma parse_recorded_lines:
  "list_all recordable evs \<Longrightarrow> parse_lines name n (recorded_lines prev evs) = (expected n prev evs, None)"
proof (induction evs arbitrary: n prev)
  case (Cons ev evs)
  have "parse_line m (format_line ev) = Inr (Some (replayed m ev))" for m
    using Cons.prems by (simp add: parse_line_format replayed_def)
  then show ?case
    using Cons parse_delay_line [of "Suc n" "ev_ts_ns ev - prev"] by simp
qed simp

text \<open>The header is a comment and no directive.\<close>

lemma parse_header_line:
  "parse_line n (''# recorded by agent --record at '' @ time @ msg_rec_note) = Inr None"
proof -
  let ?c = "''recorded by agent --record at '' @ time @ msg_rec_note"
  have "trim (CHR '' '' # ?c) = rev (dropWhile trim_char (rev ?c))"
    by (simp add: trim_def trim_char_def)
  moreover have "rev ?c = rev (tl ?c) @ [CHR ''r'']"
    by simp
  moreover have "hd (rev (dropWhile trim_char (xs @ [CHR ''r'']))) = CHR ''r''" for xs
    by (induction xs) (simp_all add: trim_char_def hd_append)
  ultimately have "hd (trim (CHR '' '' # ?c)) = CHR ''r''"
    by metis
  then show ?thesis
    by (simp add: parse_line_def ext_word_def skip_ws_def)
qed

text \<open>
  Record and replay agree on the time between events.  A file recorded by the agent, with its
  header, parses without an error into the recorded events in their order, and in front of every
  event that came more than ten milliseconds after the one before it stands a delay of that gap in
  whole milliseconds.
\<close>

lemma recording_round_trip:
  assumes "list_all recordable evs" and "CHR 0x0A \<notin> set time"
  shows "parse name (rs_out (record_all evs (new_record_sink time))) = (expected 1 0 evs, None)"
proof -
  let ?h = "''# recorded by agent --record at '' @ time @ msg_rec_note"
  have "CHR 0x0A \<notin> set ?h"
    using assms(2) by (simp add: msg_rec_note_def)
  then have "getlines (unlines (?h # recorded_lines 0 evs)) = ?h # recorded_lines 0 evs"
    using recorded_lines_plain [OF assms(1), of 0] by (intro getlines_unlines) (auto simp: list_all_iff)
  moreover have "rs_out (record_all evs (new_record_sink time)) = unlines (?h # recorded_lines 0 evs)"
    using record_all_out [OF assms(1), of "new_record_sink time"]
    by (simp add: new_record_sink_def record_header_line_def)
  ultimately show ?thesis
    using parse_header_line [of 1 time] parse_recorded_lines [OF assms(1), of name 1 0]
    by (simp add: parse_def)
qed

lemma recording_round_trip_witness:
  "parse ''f'' (rs_out (record_all [sample_run, sample_run\<lparr>ev_ts_ns := 500000200\<rparr>] (new_record_sink ''now''))) =
     ([replayed 2 sample_run, pause_entry 3 500000000, replayed 4 (sample_run\<lparr>ev_ts_ns := 500000200\<rparr>)], None)"
proof -
  have "recordable (sample_run\<lparr>ev_ts_ns := 500000200\<rparr>)"
    using recordable_sample_run by (simp add: recordable_def)
  then show ?thesis
    using recording_round_trip [of "[sample_run, sample_run\<lparr>ev_ts_ns := 500000200\<rparr>]" "''now''" "''f''"]
      recordable_sample_run
    by (simp add: sample_times del: One_nat_def)
qed

end
