(* ===== verification/Agent.thy ===== *)
theory Agent
  imports Recorder Daemon Detection
begin

section \<open>The agent\<close>

text \<open>
  \<open>agent/src/main.cpp\<close> without its sinks: where events come from (the ring buffer, the synthetic
  set, a replayed file), the list of watched files, the options, and \<open>main\<close>.  The machine it runs on
  (clock, files, network, kernel objects) is the record \<open>host\<close>.
\<close>

subsection \<open>Ring buffer\<close>

definition on_event :: "(security_event \<Rightarrow> 'k \<Rightarrow> 'k) \<Rightarrow> bytes \<Rightarrow> 'k \<Rightarrow> 'k" where
  "on_event sink d k = (if length d < sizeof_security_event then k else sink (event_of_image d) k)"

subsection \<open>Watched files\<close>

text \<open>\<open>major\<close> and \<open>minor\<close> of \<open>sys/sysmacros.h\<close>.\<close>

definition gnu_major :: "u64 \<Rightarrow> u32" where
  "gnu_major d = ucast (drop_bit 8 (d AND 0xFFF00)) OR ucast (drop_bit 32 (d AND 0xFFFFF00000000000))"

definition gnu_minor :: "u64 \<Rightarrow> u32" where
  "gnu_minor d = ucast (d AND 0xFF) OR ucast (drop_bit 12 (d AND 0xFFFFFF00000))"

definition default_sensitive :: "string list" where
  "default_sensitive =
     [''/etc/shadow'', ''/etc/gshadow'', ''/etc/sudoers'', ''/root/.ssh/authorized_keys'']"

definition watch_list :: "string list \<Rightarrow> string list" where
  "watch_list files = (if files = [] then default_sensitive else files)"

definition key_of_stat :: "u64 \<times> u64 \<Rightarrow> sens_key" where
  "key_of_stat st =
     \<lparr>sk_ino = fst st, sk_dev = push_bit 20 (gnu_major (snd st)) OR (gnu_minor (snd st) AND 0xFFFFF)\<rparr>"

text \<open>An update of the kernel's map of 64 keys: a known key stays, a new one needs room.\<close>

definition map_update :: "sens_key \<Rightarrow> sens_key list \<Rightarrow> sens_key list option" where
  "map_update k m =
     (if k \<in> set m then Some m else if length m < max_sensitive then Some (m @ [k]) else None)"

fun populate_loop ::
  "(string \<Rightarrow> (u64 \<times> u64) option) \<Rightarrow> string list \<Rightarrow> nat \<times> sens_key list \<Rightarrow> nat \<times> sens_key list" where
  "populate_loop stat [] acc = acc"
| "populate_loop stat (f # fs) (n, m) =
     (case stat f of
        None \<Rightarrow> populate_loop stat fs (n, m)
      | Some st \<Rightarrow>
          (case map_update (key_of_stat st) m of
             None \<Rightarrow> populate_loop stat fs (n, m)
           | Some m' \<Rightarrow> populate_loop stat fs (Suc n, m')))"

definition populate_sensitive ::
  "(string \<Rightarrow> (u64 \<times> u64) option) \<Rightarrow> string list \<Rightarrow> nat \<times> sens_key list" where
  "populate_sensitive stat files = populate_loop stat (watch_list files) (0, [])"

subsection \<open>Synthetic events\<close>

definition syn_event :: "u64 \<Rightarrow> string \<Rightarrow> payload \<Rightarrow> security_event" where
  "syn_event now comm u =
     zero_event\<lparr>ev_pid := 4242, ev_ppid := 4200, ev_ts_ns := now,
       ev_comm := strncpy_into (zeros PQSEC_COMM_LEN) comm (PQSEC_COMM_LEN - 1), ev_u := u\<rparr>"

definition syn_execve :: "u64 \<Rightarrow> string \<Rightarrow> string \<Rightarrow> security_event" where
  "syn_execve now comm path =
     syn_event now comm (U_execve (strncpy_into (zeros PQSEC_FILENAME_LEN) path (PQSEC_FILENAME_LEN - 1)))"

definition syn_tcp :: "u64 \<Rightarrow> string \<Rightarrow> string \<Rightarrow> u16 \<Rightarrow> string + security_event" where
  "syn_tcp now comm ip port =
     (case inet_pton4 ip of
        None \<Rightarrow> Inl ip
      | Some a \<Rightarrow> Inr (syn_event now comm (U_tcp \<lparr>daddr = a, dport = port, family = 2\<rparr>)))"

text \<open>What a source does to its sink: wait (seconds, nanoseconds), or hand over an event.\<close>

datatype action = Sleep int int | Emit security_event

text \<open>All five are built before the first is handed over; the clock is read once for each.\<close>

definition run_synthetic :: "(nat \<Rightarrow> u64) \<Rightarrow> string option \<times> action list" where
  "run_synthetic clock =
     (case and_then (syn_tcp (clock 3) ''beacon'' ''45.9.148.99'' 4444) (\<lambda>e4.
           and_then (syn_tcp (clock 4) ''app'' ''10.0.0.5'' 443) (\<lambda>e5.
           Inr [syn_execve (clock 0) ''bash'' ''/usr/bin/ls'', syn_execve (clock 1) ''bash'' ''/tmp/xmrig'',
                syn_execve (clock 2) ''bash'' ''/usr/bin/curl'', e4, e5])) of
        Inl why \<Rightarrow> (Some why, [])
      | Inr evs \<Rightarrow> (None, map Emit evs))"

subsection \<open>Replay\<close>

fun replay_entries :: "(nat \<Rightarrow> u64) \<Rightarrow> nat \<Rightarrow> entry list \<Rightarrow> action list" where
  "replay_entries clock i [] = []"
| "replay_entries clock i (e # es) =
     (case e_kind e of
        K_Delay \<Rightarrow> Sleep (e_delay_ms e div 1000) (e_delay_ms e mod 1000 * 1000000) # replay_entries clock i es
      | K_Event \<Rightarrow> Emit ((e_ev e)\<lparr>ev_ts_ns := clock i\<rparr>) # replay_entries clock (Suc i) es
      | K_Directive \<Rightarrow> replay_entries clock i es)"

text \<open>The parser calls back as it reads, so what stands before a bad line is replayed.\<close>

definition run_replay :: "(string \<Rightarrow> string option) \<Rightarrow> (nat \<Rightarrow> u64) \<Rightarrow> string \<Rightarrow> string option \<times> action list" where
  "run_replay files clock path =
     (case files path of
        None \<Rightarrow> (Some path, [])
      | Some contents \<Rightarrow>
          let (es, err) = parse path contents in (err, replay_entries clock 0 es))"

subsection \<open>Options\<close>

record agent_options =
  ag_forward :: bool
  ag_synthetic :: bool
  ag_replay :: string
  ag_record :: string
  ag_host :: string
  ag_port :: u16
  ag_id :: string
  ag_peer :: string
  ag_queue :: nat
  ag_sensitive :: "string list"

definition default_agent_options :: agent_options where
  "default_agent_options =
     \<lparr>ag_forward = False, ag_synthetic = False, ag_replay = [], ag_record = [], ag_host = ''127.0.0.1'',
      ag_port = 9443, ag_id = ''agent'', ag_peer = ''analyzer.pub'', ag_queue = 4096, ag_sensitive = []\<rparr>"

text \<open>An option with a value.\<close>

definition set_field :: "string \<Rightarrow> string \<Rightarrow> agent_options \<Rightarrow> num_error + agent_options" where
  "set_field a v o1 =
     (if a = ''--replay'' then Inr (o1\<lparr>ag_replay := v\<rparr>)
      else if a = ''--record'' then Inr (o1\<lparr>ag_record := v\<rparr>)
      else if a = ''--host'' then Inr (o1\<lparr>ag_host := v\<rparr>)
      else if a = ''--port'' then
        (case stoi v of Inl e \<Rightarrow> Inl e | Inr n \<Rightarrow> Inr (o1\<lparr>ag_port := word_of_int n\<rparr>))
      else if a = ''--queue'' then
        (case stoul v of Inl e \<Rightarrow> Inl e | Inr n \<Rightarrow> Inr (o1\<lparr>ag_queue := n\<rparr>))
      else if a = ''--id'' then Inr (o1\<lparr>ag_id := v\<rparr>)
      else if a = ''--peer'' then Inr (o1\<lparr>ag_peer := v\<rparr>)
      else Inr (o1\<lparr>ag_sensitive := ag_sensitive o1 @ [v]\<rparr>))"

definition value_options :: "string list" where
  "value_options = [''--replay'', ''--record'', ''--host'', ''--port'', ''--queue'', ''--id'', ''--peer'',
     ''--sensitive'']"

function scan_args :: "agent_options \<Rightarrow> string list \<Rightarrow> stop + agent_options" where
  "scan_args o1 [] = Inr o1"
| "scan_args o1 (a # r) =
     (if a = ''--forward'' then scan_args (o1\<lparr>ag_forward := True\<rparr>) r
      else if a = ''--synthetic'' then scan_args (o1\<lparr>ag_synthetic := True\<rparr>) r
      else if a \<notin> set value_options then Inl (Exit_status 1)
      else case r of
             [] \<Rightarrow> Inl (Exit_status 1)
           | v # r' \<Rightarrow>
               (case set_field a v o1 of
                  Inl e \<Rightarrow> Inl (Uncaught_exception e)
                | Inr o2 \<Rightarrow> scan_args o2 r'))"
  by pat_completeness auto
termination
  by (relation "measure (\<lambda>(o1, args). length args)") simp_all

text \<open>The checks behind the loop.\<close>

definition agent_args :: "string list \<Rightarrow> stop + agent_options" where
  "agent_args args =
     (case scan_args default_agent_options args of
        Inl e \<Rightarrow> Inl e
      | Inr o1 \<Rightarrow>
          if ag_synthetic o1 \<and> ag_replay o1 \<noteq> [] then Inl (Exit_status 1)
          else if ag_queue o1 = 0 then Inl (Exit_status 1)
          else if ag_record o1 \<noteq> [] \<and> (ag_forward o1 \<or> ag_synthetic o1 \<or> ag_replay o1 \<noteq> [])
            then Inl (Exit_status 1)
          else Inr o1)"

subsection \<open>The program\<close>

text \<open>
  The machine: \<open>stat\<close>, the text files, the clock, which recordings can be opened and the local time,
  what a connection will deliver, and the kernel side: do the programs load and attach, is there a
  ring buffer, what each poll hands over and returns until a signal, and what is left at the end.
\<close>

record host =
  h_stat :: "string \<Rightarrow> (u64 \<times> u64) option"
  h_text :: "string \<Rightarrow> string option"
  h_clock :: "nat \<Rightarrow> u64 \<times> u64"
  h_can_record :: "string \<Rightarrow> bool"
  h_localtime :: string
  h_disk :: disk
  h_files :: files
  h_link :: "u16 \<Rightarrow> string \<Rightarrow> connection option"
  h_tx :: "tx list"
  h_loads :: bool
  h_attaches :: bool
  h_ring :: bool
  h_polls :: "(bytes list \<times> int) list"
  h_left :: "bytes list"

text \<open>Nanoseconds of the monotonic clock, in 64 bits; the clock's readings are seconds and nanoseconds.\<close>

definition now_ns :: "u64 \<times> u64 \<Rightarrow> u64" where
  "now_ns ts = fst ts * 1000000000 + snd ts"

definition h_now :: "host \<Rightarrow> nat \<Rightarrow> u64" where
  "h_now H i = now_ns (h_clock H i)"

datatype forward_error = Fwd_identity identity_error | Fwd_connect | Fwd_handshake hs_error

definition make_forward_sink :: "libs \<Rightarrow> host \<Rightarrow> agent_options \<Rightarrow> forward_error + sink" where
  "make_forward_sink L H o1 =
     (case load_identity (h_disk H) L (ag_id o1 @ ''.pub'') (ag_id o1 @ ''.key'') (ag_peer o1) (h_files H) of
        Inl e \<Rightarrow> Inl (Fwd_identity e)
      | Inr i \<Rightarrow>
          (case h_link H (ag_port o1) (ag_host o1) of
             None \<Rightarrow> Inl Fwd_connect
           | Some c \<Rightarrow>
               let (f1, s1) = recv_frame (conn_rx c);
                   (f2, s2) = recv_frame s1;
                   t = \<lparr>t_in = [f1, f2], t_out = [], t_send_fails = conn_send_fails c\<rparr>
               in (case client_handshake L i (conn_seeds c) t of
                     (Inl e, t') \<Rightarrow> Inl (Fwd_handshake e)
                   | (Inr ch, t') \<Rightarrow> Inr (new_sink (chan_sender ch) (ag_queue o1) (h_tx H)))))"

datatype event_sink = Channel_to sink | Record_to record_sink | Stdout_to

definition choose_sink :: "libs \<Rightarrow> host \<Rightarrow> agent_options \<Rightarrow> event_sink option" where
  "choose_sink L H o1 =
     (if ag_forward o1 then
        (case make_forward_sink L H o1 of Inl e \<Rightarrow> None | Inr s \<Rightarrow> Some (Channel_to s))
      else if ag_record o1 \<noteq> [] then
        (if h_can_record H (ag_record o1) then Some (Record_to (new_record_sink (h_localtime H))) else None)
      else Some Stdout_to)"

text \<open>The poll loop: what the callback gets until a poll fails or the signal comes.\<close>

fun poll_loop :: "(bytes list \<times> int) list \<Rightarrow> bytes list" where
  "poll_loop [] = []"
| "poll_loop ((ds, err) # ps) = ds @ (if err < 0 then [] else poll_loop ps)"

definition emitted_by :: "bytes list \<Rightarrow> security_event list" where
  "emitted_by ds = fold (on_event (\<lambda>e es. es @ [e])) ds []"

text \<open>
  \<open>main\<close>: the exit status, the sink, what is done to it in order, and the keys in the kernel's map.
\<close>

record agent_run =
  run_status :: nat
  run_sink :: "event_sink option"
  run_actions :: "action list"
  run_keys :: "sens_key list"

definition agent_source :: "host \<Rightarrow> agent_options \<Rightarrow> event_sink \<Rightarrow> agent_run" where
  "agent_source H o1 s =
     (if ag_synthetic o1 \<or> ag_replay o1 \<noteq> [] then
        let (err, acts) = (if ag_synthetic o1 then run_synthetic (h_now H)
                           else run_replay (h_text H) (h_now H) (ag_replay o1))
        in \<lparr>run_status = (if err = None then 0 else 1), run_sink = Some s, run_actions = acts, run_keys = []\<rparr>
      else if \<not> h_loads H then \<lparr>run_status = 1, run_sink = Some s, run_actions = [], run_keys = []\<rparr>
      else let keys = snd (populate_sensitive (h_stat H) (ag_sensitive o1))
           in if \<not> h_attaches H \<or> \<not> h_ring H
              then \<lparr>run_status = 1, run_sink = Some s, run_actions = [], run_keys = keys\<rparr>
              else \<lparr>run_status = 0, run_sink = Some s,
                    run_actions = map Emit (emitted_by (poll_loop (h_polls H) @ h_left H)), run_keys = keys\<rparr>)"

definition agent_main :: "libs \<Rightarrow> host \<Rightarrow> string list \<Rightarrow> stop + agent_run" where
  "agent_main L H args =
     (case agent_args args of
        Inl e \<Rightarrow> Inl e
      | Inr o1 \<Rightarrow>
          (case choose_sink L H o1 of
             None \<Rightarrow> Inr \<lparr>run_status = 1, run_sink = None, run_actions = [], run_keys = []\<rparr>
           | Some s \<Rightarrow> Inr (agent_source H o1 s)))"

subsection \<open>Record and replay\<close>

text \<open>What replaying a recording does: for every event the pause before it, then the event at its new time.\<close>

fun replay_script :: "(nat \<Rightarrow> u64) \<Rightarrow> nat \<Rightarrow> u64 \<Rightarrow> security_event list \<Rightarrow> action list" where
  "replay_script clock i prev [] = []"
| "replay_script clock i prev (ev # evs) =
     (if prev \<noteq> 0 \<and> prev + 10000000 < ev_ts_ns ev
      then let ms = int (unat ((ev_ts_ns ev - prev) div 1000000))
           in [Sleep (ms div 1000) (ms mod 1000 * 1000000)]
      else []) @ Emit (ev\<lparr>ev_ts_ns := clock i\<rparr>) # replay_script clock (Suc i) (ev_ts_ns ev) evs"

lemma replay_expected: "replay_entries clock i (expected n prev evs) = replay_script clock i prev evs"
  by (induction evs arbitrary: i n prev) (simp_all add: pause_entry_def replayed_def new_entry_def Let_def)


subsection \<open>Checked options\<close>

definition fits_size :: "nat \<Rightarrow> bool" where
  "fits_size n \<longleftrightarrow> n < 2 ^ 64"

lemma stoul_bound: "stoul v = Inr n \<Longrightarrow> fits_size n"
  by (auto simp: stoul_def fits_size_def Let_def case_prod_unfold split: if_splits)

lemma set_field_queue: "set_field a v o1 = Inr o2 \<Longrightarrow> fits_size (ag_queue o1) \<Longrightarrow> fits_size (ag_queue o2)"
  by (auto simp: set_field_def dest: stoul_bound split: if_splits sum.splits)

lemma scan_args_queue: "scan_args o1 args = Inr o2 \<Longrightarrow> fits_size (ag_queue o1) \<Longrightarrow> fits_size (ag_queue o2)"
  by (induction o1 args rule: scan_args.induct)
    (auto dest: set_field_queue split: if_splits list.splits sum.splits)

lemma agent_args_checked:
  assumes "agent_args args = Inr o1"
  shows "0 < ag_queue o1" "fits_size (ag_queue o1)" "\<not> (ag_synthetic o1 \<and> ag_replay o1 \<noteq> [])"
    "ag_record o1 \<noteq> [] \<Longrightarrow> \<not> ag_forward o1 \<and> \<not> ag_synthetic o1 \<and> ag_replay o1 = []"
  using assms scan_args_queue [of default_agent_options args]
  by (auto simp: agent_args_def default_agent_options_def fits_size_def split: sum.splits if_splits)

lemma agent_main_run:
  assumes "agent_main L H args = Inr r" and "run_sink r = Some s"
  obtains o1 where "agent_args args = Inr o1" and "choose_sink L H o1 = Some s" and "r = agent_source H o1 s"
proof -
  obtain o1 where o1: "agent_args args = Inr o1"
    using assms(1) by (auto simp: agent_main_def split: sum.splits)
  obtain z where z: "choose_sink L H o1 = Some z" "r = agent_source H o1 z"
    using assms o1 by (auto simp: agent_main_def split: option.splits)
  have "run_sink (agent_source H o1 z) = Some z"
    by (simp add: agent_source_def Let_def case_prod_unfold)
  with assms(2) z have "z = s"
    by simp
  with o1 z that show ?thesis
    by blast
qed

text \<open>
  What the checks of the options are for.  A channel sink starts empty, with room for at least
  one event and with a capacity that a size_t holds, whatever the command line says; and nothing but
  events of the kernel's ring buffer ever reaches a recording.
\<close>

lemma agent_sinks:
  assumes "agent_main L H args = Inr r" and "run_sink r = Some s"
  shows "case s of
      Channel_to z \<Rightarrow> 0 < s_capacity z \<and> s_capacity z < 2 ^ 64 \<and> s_queue z = [] \<and> queue_inv z
    | Record_to z \<Rightarrow> z = new_record_sink (h_localtime H) \<and>
        run_actions r \<in> {[], map Emit (emitted_by (poll_loop (h_polls H) @ h_left H))}
    | Stdout_to \<Rightarrow> True"
proof -
  obtain o1 where o1: "agent_args args = Inr o1" and s: "choose_sink L H o1 = Some s" and r: "r = agent_source H o1 s"
    using assms by (rule agent_main_run)
  show ?thesis
  proof (cases s)
    case (Channel_to z)
    then obtain sender where "z = new_sink sender (ag_queue o1) (h_tx H)"
      using s by (auto simp: choose_sink_def make_forward_sink_def Let_def case_prod_unfold
          split: if_splits sum.splits option.splits)
    then show ?thesis
      using Channel_to agent_args_checked(1,2) [OF o1] queue_inv_new by (simp add: new_sink_def fits_size_def)
  next
    case (Record_to z)
    then have "ag_record o1 \<noteq> []" and "z = new_record_sink (h_localtime H)"
      using s by (auto simp: choose_sink_def split: if_splits sum.splits)
    then show ?thesis
      using Record_to agent_args_checked(4) [OF o1] by (simp add: r agent_source_def Let_def)
  qed simp
qed

subsection \<open>Watched files\<close>

lemma populate_keeps: "set m \<subseteq> set (snd (populate_loop stat fs (n, m)))"
  by (induction fs arbitrary: n m)
    (auto simp: map_update_def split: option.splits if_splits, (metis Un_iff set_append subsetD)+)

lemma populate_covers:
  assumes "f \<in> set fs" and "stat f = Some st" and "length m + length fs \<le> max_sensitive"
  shows "key_of_stat st \<in> set (snd (populate_loop stat fs (n, m)))"
  using assms
proof (induction fs arbitrary: n m)
  case (Cons g fs)
  show ?case
  proof (cases "g = f")
    case True
    have "length m < max_sensitive"
      using Cons.prems by simp
    then have "\<exists>m'. map_update (key_of_stat st) m = Some m' \<and> key_of_stat st \<in> set m'"
      by (simp add: map_update_def)
    then obtain m' where m': "map_update (key_of_stat st) m = Some m'" "key_of_stat st \<in> set m'"
      by blast
    then show ?thesis
      using True Cons.prems(2) populate_keeps [of m' stat fs "Suc n"] by auto
  next
    case False
    have *: "length m' \<le> Suc (length m)" if "map_update k m = Some m'" for k m'
      using that by (auto simp: map_update_def split: if_splits)
    then show ?thesis
      using False Cons.prems Cons.IH by (fastforce split: option.split dest: *)
  qed
qed simp

text \<open>The agent's device key is the kernel's, for the numbers that \<open>major\<close> and \<open>minor\<close> take apart.\<close>

lemma device_key:
  assumes "gnu_major sd = drop_bit 20 d" and "gnu_minor sd = d AND 0xFFFFF"
  shows "sk_dev (key_of_stat (i, sd)) = d"
proof -
  have "(0xFFFFF :: u32) = mask 20"
    by (simp add: mask_eq_exp_minus_1)
  then have "sk_dev (key_of_stat (i, sd)) = push_bit 20 (drop_bit 20 d) OR take_bit 20 d"
    using assms by (simp add: key_of_stat_def take_bit_eq_mask)
  also have "\<dots> = d"
    by (rule bit_eqI) (auto simp: bit_simps)
  finally show ?thesis .
qed

lemma sensitive_hook: "sensitive_inodes (run_hook (K, h) c) = sensitive_inodes c"
  by (cases h)
    (auto simp: handle_execve_def handle_tcp_connect_def handle_file_open_def submit_open_def submit_def
      Let_def split: option.split prod.split)

lemma sensitive_collect: "sensitive_inodes (collect calls c) = sensitive_inodes c"
  by (induction calls arbitrary: c) (auto simp: collect_def sensitive_hook)

lemma sensitive_alert:
  assumes "ev_u e = U_file f" and "has_flag (access f) PQSEC_FA_SENSITIVE"
  shows "\<exists>a. fst (process_event e llm st) = Alert_output a \<and> a_severity a = High \<and> a_source a = ''rule''"
proof (cases st)
  case (Pair s corr)
  have "fst (observe_file corr e f) = no_hit"
    by (simp add: observe_file_def Let_def)
  then have "\<not> hit (fst (observe corr e))"
    using assms(1) by (simp add: observe_def no_hit_def)
  moreover have "pr_decision (prefilter e) = Raise" "pr_severity (prefilter e) = High"
    using assms by (simp_all add: prefilter_def prefilter_file_def pf_def Let_def)
  moreover have "\<not> is_notice e"
    using assms(1) by (simp add: is_notice_def)
  ultimately show ?thesis
    using Pair by (simp add: process_event_fst classify_raise)
qed


subsection \<open>The synthetic set\<close>

text \<open>The outcomes of a stream, with the state carried from one event to the next.\<close>

fun classify_all :: "security_event list \<Rightarrow> 's llm_client \<Rightarrow> 's \<times> correlator \<Rightarrow> outcome list" where
  "classify_all [] llm st = []"
| "classify_all (e # es) llm st =
     fst (classify_event e llm st) # classify_all es llm (snd (classify_event e llm st))"

text \<open>An event on which no sequence rule fires takes the path of its prefilter decision.\<close>

lemma classify_all_quiet:
  assumes "\<not> is_notice e" and "observe corr e = (no_hit, corr')"
  shows "\<exists>s'. map o_layer (classify_all (e # es) llm (s, corr)) =
    (case pr_decision (prefilter e) of
       Drop \<Rightarrow> L_Drop | Raise \<Rightarrow> L_Rule
     | Escalate \<Rightarrow> if first_tier llm s e = Normal then L_HaikuNormal else L_Sonnet) #
    map o_layer (classify_all es llm (s', corr'))"
proof -
  have hit: "\<not> hit (fst (observe corr e))"
    using assms(2) by (simp add: no_hit_def)
  have "snd (snd (classify_event e llm (s, corr))) = corr'"
    by (simp add: classify_correlator assms(2))
  then obtain s' where "snd (classify_event e llm (s, corr)) = (s', corr')"
    by (cases "snd (classify_event e llm (s, corr))") simp
  then show ?thesis
    using assms(1) hit
    by (cases "pr_decision (prefilter e)") (auto simp: classify_simps outcome_simps)
qed

lemma syn_execve_u:
  assumes "nul \<notin> set path" and "length path < 128"
  obtains f where "ev_u (syn_execve now comm path) = U_execve f" and "cstr f = path"
proof
  show "ev_u (syn_execve now comm path) =
      U_execve (strncpy_into (zeros PQSEC_FILENAME_LEN) path (PQSEC_FILENAME_LEN - 1))"
    by (simp add: syn_execve_def syn_event_def)
  show "cstr (strncpy_into (zeros PQSEC_FILENAME_LEN) path (PQSEC_FILENAME_LEN - 1)) = path"
    using cstr_strncpy_zeros [of 127 path] assms by (simp add: event_consts cstr_id)
qed

lemma syn_tcp_beacon:
  "syn_tcp now ''beacon'' ''45.9.148.99'' 4444 =
    Inr (syn_event now ''beacon'' (U_tcp \<lparr>daddr = 0x6394092D, dport = 4444, family = 2\<rparr>))"
  "syn_tcp now ''app'' ''10.0.0.5'' 443 =
    Inr (syn_event now ''app'' (U_tcp \<lparr>daddr = 0x0500000A, dport = 443, family = 2\<rparr>))"
  by (simp_all add: syn_tcp_def inet_pton4_def cstr_id nul_def is_digit_def digit_val_def)

lemma syn_quiet:
  assumes "nul \<notin> set path" and "length path < 128"
    and "staged c = []" and "downloads c = []" and "conns c = []"
  shows "\<exists>c'. observe c (syn_execve now comm path) = (no_hit, c') \<and> conns c' = [] \<and>
    (after_last_slash path \<notin> set kDownloaders \<longrightarrow> c' = c) \<and> beacon_threshold c' = beacon_threshold c"
proof -
  obtain f where f: "ev_u (syn_execve now comm path) = U_execve f" "cstr f = path"
    using assms(1,2) by (rule syn_execve_u)
  show ?thesis
    using assms(3-5)
    by (cases c) (auto simp: observe_def f observe_execve_def basename_of_def drop_expired_def
        staged_hit_def Let_def)
qed

lemma syn_connect_quiet:
  assumes "ev_u e = U_tcp t" and "conns c = []" and "1 < beacon_threshold c"
  shows "\<exists>c'. observe c e = (no_hit, c')"
  using assms
  by (auto simp: observe_def observe_connect_def next_hist_def hist_of_def push_bounded_def corr_consts Let_def)

lemma syn_private_quiet:
  assumes "ev_u e = U_tcp t" and "is_private_ipv4 (daddr t)"
  shows "observe c e = (no_hit, c)"
  using assms by (simp add: observe_def observe_connect_def)

lemma syn_decision:
  assumes "nul \<notin> set path" and "length path < 128"
  shows "prefilter (syn_execve now comm path) = prefilter_execve path"
proof -
  obtain f where f: "ev_u (syn_execve now comm path) = U_execve f" "cstr f = path"
    using assms by (rule syn_execve_u)
  show ?thesis
    using cstr_id [OF assms(1)] by (simp add: prefilter_def f prefilter_execve_def basename_of_def)
qed

lemma syn_decisions:
  "pr_decision (prefilter_execve ''/usr/bin/ls'') = Drop"
  "pr_decision (prefilter_execve ''/tmp/xmrig'') = Raise"
  "pr_decision (prefilter_execve ''/usr/bin/curl'') = Escalate"
  by (simp_all add: prefilter_execve_def basename_of_def cstr_id nul_def
      starts_with_def kMaliciousBins_def kBenignBins_def pf_def Let_def)

lemma not_notice [simp]:
  "ev_u e = U_execve f \<Longrightarrow> \<not> is_notice e" "ev_u e = U_tcp t \<Longrightarrow> \<not> is_notice e"
  by (simp_all add: is_notice_def)

lemma syn_not_notice: "\<not> is_notice (syn_execve now comm path)"
  by (simp add: is_notice_def syn_execve_def syn_event_def)

text \<open>
  The synthetic set shows every kind of decision.  Its five events can always be built, and a
  fresh analyzer with the default window drops the first and the last, raises a rule alert for the
  second and the fourth, and asks the language model about the third only, whatever the clock says
  and whatever the model answers.
\<close>

theorem synthetic_set:
  "\<exists>evs v. run_synthetic clock = (None, map Emit evs) \<and>
     map o_layer (classify_all evs llm (s, default_correlator)) = [L_Drop, L_Rule, v, L_Rule, L_Drop] \<and>
     v \<in> {L_HaikuNormal, L_Sonnet}"
proof -
  let ?e1 = "syn_execve (clock 0) ''bash'' ''/usr/bin/ls''"
  let ?e2 = "syn_execve (clock 1) ''bash'' ''/tmp/xmrig''"
  let ?e3 = "syn_execve (clock 2) ''bash'' ''/usr/bin/curl''"
  define e4 where "e4 = syn_event (clock 3) ''beacon'' (U_tcp \<lparr>daddr = 0x6394092D, dport = 4444, family = 2\<rparr>)"
  define e5 where "e5 = syn_event (clock 4) ''app'' (U_tcp \<lparr>daddr = 0x0500000A, dport = 443, family = 2\<rparr>)"
  let ?c = default_correlator
  have start: "staged ?c = []" "downloads ?c = []" "conns ?c = []" "beacon_threshold ?c = 3"
    by (simp_all add: default_correlator_def new_correlator_def)
  have o1: "observe ?c ?e1 = (no_hit, ?c)"
    using syn_quiet [of "''/usr/bin/ls''" ?c "clock 0" "''bash''"] start by (simp add: nul_def kDownloaders_def)
  have o2: "observe ?c ?e2 = (no_hit, ?c)"
    using syn_quiet [of "''/tmp/xmrig''" ?c "clock 1" "''bash''"] start by (simp add: nul_def kDownloaders_def)
  obtain c3 where o3: "observe ?c ?e3 = (no_hit, c3)" "conns c3 = []" "beacon_threshold c3 = 3"
    using syn_quiet [of "''/usr/bin/curl''" ?c "clock 2" "''bash''"] start by (auto simp: nul_def)
  have u: "ev_u e4 = U_tcp \<lparr>daddr = 0x6394092D, dport = 4444, family = 2\<rparr>"
    "ev_u e5 = U_tcp \<lparr>daddr = 0x0500000A, dport = 443, family = 2\<rparr>"
    by (simp_all add: e4_def e5_def syn_event_def)
  obtain c4 where o4: "observe c3 e4 = (no_hit, c4)"
    using syn_connect_quiet [OF u(1) o3(2)] o3(3) by auto
  have o5: "observe c4 e5 = (no_hit, c4)"
    by (rule syn_private_quiet [OF u(2)]) (simp add: is_private_ipv4_def Let_def)
  have p: "pr_decision (prefilter ?e1) = Drop" "pr_decision (prefilter ?e2) = Raise"
    "pr_decision (prefilter ?e3) = Escalate"
    using syn_decisions by (simp_all add: syn_decision nul_def)
  have q: "pr_decision (prefilter e4) = Raise" "pr_decision (prefilter e5) = Drop"
    by (simp_all add: prefilter_def u prefilter_tcp_def is_private_ipv4_def pf_def Let_def)
  note n = syn_not_notice not_notice(2) [OF u(1)] not_notice(2) [OF u(2)]
  obtain s1 where s1: "map o_layer (classify_all [?e1, ?e2, ?e3, e4, e5] llm (s, ?c)) =
      L_Drop # map o_layer (classify_all [?e2, ?e3, e4, e5] llm (s1, ?c))"
    using classify_all_quiet [OF n(1) o1, of "[?e2, ?e3, e4, e5]" llm s] p by auto
  obtain s2 where s2: "map o_layer (classify_all [?e2, ?e3, e4, e5] llm (s1, ?c)) =
      L_Rule # map o_layer (classify_all [?e3, e4, e5] llm (s2, ?c))"
    using classify_all_quiet [OF n(1) o2, of "[?e3, e4, e5]" llm s1] p by auto
  let ?v = "if first_tier llm s2 ?e3 = Normal then L_HaikuNormal else L_Sonnet"
  have "\<exists>s3. map o_layer (classify_all [?e3, e4, e5] llm (s2, ?c)) =
      ?v # map o_layer (classify_all [e4, e5] llm (s3, c3))"
    using classify_all_quiet [OF n(1) o3(1), of "[e4, e5]" llm s2] unfolding p prefilter_decision.case .
  then obtain s3 where s3: "map o_layer (classify_all [?e3, e4, e5] llm (s2, ?c)) =
      ?v # map o_layer (classify_all [e4, e5] llm (s3, c3))" ..
  obtain s4 where s4: "map o_layer (classify_all [e4, e5] llm (s3, c3)) =
      L_Rule # map o_layer (classify_all [e5] llm (s4, c4))"
    using classify_all_quiet [OF n(2) o4, of "[e5]" llm s3] q by auto
  have s5: "map o_layer (classify_all [e5] llm (s4, c4)) = [L_Drop]"
    using classify_all_quiet [OF n(3) o5, of "[]" llm s4] q by auto
  have "run_synthetic clock = (None, map Emit [?e1, ?e2, ?e3, e4, e5])"
    by (simp add: run_synthetic_def syn_tcp_beacon e4_def e5_def)
  moreover have "map o_layer (classify_all [?e1, ?e2, ?e3, e4, e5] llm (s, ?c)) =
      [L_Drop, L_Rule, ?v, L_Rule, L_Drop]"
    by (simp only: s1 s2 s3 s4 s5)
  moreover have "?v \<in> {L_HaikuNormal, L_Sonnet}"
    by simp
  ultimately show ?thesis
    by (intro exI conjI)
qed

subsection \<open>Concrete instances\<close>


definition toy_host :: host where
  "toy_host =
     \<lparr>h_stat = \<lambda>f. if f = ''/etc/shadow'' then Some (5, 0x801) else None, h_text = \<lambda>_. None,
      h_clock = \<lambda>i. (0, of_nat i), h_can_record = \<lambda>_. True, h_localtime = ''now'',
      h_disk = \<lparr>can_create = \<lambda>_. True, room = \<lambda>_. 0, can_chmod = \<lambda>_. True, can_open = \<lambda>_. True,
        can_seek = \<lambda>_. True, can_read = \<lambda>_. True, umask = 0\<rparr>,
      h_files = \<lambda>_. None, h_link = \<lambda>_ _. None, h_tx = [], h_loads = True, h_attaches = True, h_ring = True,
      h_polls = [([event_image sample_run, [1]], 1), ([], -1)], h_left = []\<rparr>"

lemma agent_sinks_witness:
  "\<exists>r. agent_main toy_libs toy_host [''--record'', ''f''] = Inr r \<and>
     run_actions r \<in> {[], map Emit (emitted_by [event_image sample_run, [1]])}"
proof -
  let ?o = "default_agent_options\<lparr>ag_record := ''f''\<rparr>"
  have "agent_args [''--record'', ''f''] = Inr ?o"
    by (simp add: agent_args_def default_agent_options_def value_options_def set_field_def)
  moreover have "choose_sink toy_libs toy_host ?o = Some (Record_to (new_record_sink ''now''))"
    by (simp add: choose_sink_def default_agent_options_def toy_host_def)
  ultimately obtain r where r: "agent_main toy_libs toy_host [''--record'', ''f''] = Inr r"
    "run_sink r = Some (Record_to (new_record_sink ''now''))"
    by (simp add: agent_main_def agent_source_def Let_def case_prod_unfold)
  then show ?thesis
    using agent_sinks [OF r] by (auto simp: toy_host_def)
qed


end
