(* ===== verification/Deployment.thy ===== *)
theory Deployment
  imports Agent
begin

section \<open>Two machines with the default configuration\<close>

text \<open>
  Key generator, agent and analyzer daemon composed: the files that two runs of the key generator
  leave, a replay forwarded by the agent's \<open>main\<close>, and the analyzer's \<open>main\<close> at the other end of the
  connection.
\<close>

definition emits :: "action list \<Rightarrow> security_event list" where
  "emits acts = concat (map (\<lambda>a. case a of Emit e \<Rightarrow> [e] | Sleep s n \<Rightarrow> []) acts)"

lemma emits_simps [simp]:
  "emits [] = []" "emits (Emit e # acts) = e # emits acts" "emits (Sleep a b # acts) = emits acts"
  by (simp_all add: emits_def)

lemma wf_event_ts [simp]: "wf_event (ev\<lparr>ev_ts_ns := t\<rparr>) = wf_event ev"
  by (simp add: wf_event_def)

lemma wf_replayed: "list_all sound_entry es \<Longrightarrow> list_all wf_event (emits (replay_entries clock i es))"
  by (induction es arbitrary: i) (auto simp: sound_entry_def split: entry_kind.split)

lemma wf_run_replay: "list_all wf_event (emits (snd (run_replay files clock path)))"
proof (cases "files path")
  case (Some contents)
  then show ?thesis
    using wf_replayed [OF parse_sound_entries] by (simp add: run_replay_def case_prod_unfold Let_def)
qed (simp add: run_replay_def)

text \<open>The agent's half of the connection.\<close>

lemma make_forward_done:
  assumes "load_identity (h_disk H) L (ag_id o1 @ ''.pub'') (ag_id o1 @ ''.key'') (ag_peer o1) (h_files H) = Inr i"
    and "h_link H (ag_port o1) (ag_host o1) = Some \<lparr>conn_rx = rx, conn_seeds = sd, conn_send_fails = \<lambda>_. None\<rparr>"
    and "clean_script rx" "stream rx = shf @ saf" "delimited_frame shf" "delimited_frame saf"
    and "client_handshake L i sd (fresh_transport [shf, saf]) = (Inr cc, t')"
  shows "make_forward_sink L H o1 = Inr (new_sink (chan_sender cc) (ag_queue o1) (h_tx H))"
proof -
  obtain rx1 where rx1: "recv_frame rx = (Inr shf, rx1)" "clean_script rx1" "stream rx1 = saf"
    using hf.recv_law [OF assms(3) _ assms(5)] assms(4) by blast
  obtain rx2 where "recv_frame rx1 = (Inr saf, rx2)"
    using hf.recv_law [OF rx1(2) _ assms(6), of "[]"] rx1(3) by auto
  then show ?thesis
    using assms(1,2,7) rx1(1) by (simp add: make_forward_sink_def fresh_transport_def)
qed

definition forward_options :: "string \<Rightarrow> agent_options" where
  "forward_options path = default_agent_options\<lparr>ag_forward := True, ag_replay := path\<rparr>"

lemma forward_args: "agent_args [''--forward'', ''--replay'', path] = Inr (forward_options path)"
  by (simp add: agent_args_def default_agent_options_def forward_options_def value_options_def set_field_def)

definition once_options :: options where
  "once_options = default_options\<lparr>opt_once := True\<rparr>"

lemma once_args: "parse_args default_options [''--once''] = Inr once_options"
  by (simp add: once_options_def)

text \<open>The analyzer's half: one connection.\<close>

lemma daemon_once:
  assumes "load_identity D L ''analyzer.pub'' ''analyzer.key'' ''agent.pub'' fs = Inr i"
    and "can_listen 9443 ''127.0.0.1''"
    and "serve_connection L (mk (make_llm once_options key)) i c (s0, default_correlator) = (res, xs, st)"
  shows "daemon_main D fs L mk s0 key can_listen [Some c] [''--once''] = (Inr 0, xs)"
  using assms by (simp add: daemon_main_def once_args once_options_def default_options_def)

text \<open>
  C4. The default configuration works.  Keys are generated for "agent" and "analyzer"; the agent is
  started to forward a replay, and its connection and the analyzer's are two honest halves of one
  handshake.  Then the agent's \<open>main\<close> hands every event of the file over to a fresh channel sink, and
  whatever the interleaving in the agent and the segmentation of the stream: if no event was refused
  for lack of room and the sending thread has finished on a working channel, the analyzer started
  with \<open>--once\<close> exits with status 0 and has emitted exactly what the pipeline makes of the events of
  the file.
\<close>

theorem default_deployment:
  assumes libs: "libs_available L" "libs_sized L" "kem_correct L" "dh_correct L" "sig_correct L" "gcm_correct L"
    and keys: "keygen_main Da L ra [''agent''] fs = (0, ha)" "keygen_main Db L rb [''analyzer''] (last ha) = (0, hb)"
    and reads: "disk_reads D"
  shows "\<exists>shf saf chf caf sender. snd_seq sender = 0 \<and> (\<forall>H rx path. path \<noteq> [] \<and> h_disk H = D \<and> h_files H = last hb \<and>
      h_link H 9443 ''127.0.0.1'' = Some \<lparr>conn_rx = rx, conn_seeds = sdc, conn_send_fails = \<lambda>_. None\<rparr> \<and>
      clean_script rx \<and> stream rx = shf @ saf \<longrightarrow>
    (\<exists>r. agent_main L H [''--forward'', ''--replay'', path] = Inr r \<and>
       run_sink r = Some (Channel_to (new_sink sender 4096 (h_tx H))) \<and>
       run_actions r = snd (run_replay (h_text H) (h_now H) path) \<and>
       (\<forall>pid tr s rx' mk s0 key can_listen. sink_run L pid (new_sink sender 4096 (h_tx H)) tr s \<and> accepted tr = emits (run_actions r) \<and>
          refused tr = [] \<and> s_phase s = Finished \<and> \<not> s_broken s \<and>
          clean_script rx' \<and> stream rx' = chf @ caf @ s_wire s \<and> can_listen 9443 ''127.0.0.1'' \<longrightarrow>
        daemon_main D (last hb) L mk s0 key can_listen
            [Some \<lparr>conn_rx = rx', conn_seeds = sds, conn_send_fails = \<lambda>_. None\<rparr>] [''--once''] =
          (Inr 0, fst (process_all (emits (run_actions r)) (mk (make_llm once_options key))
             (s0 :: 's, default_correlator))))))"
    (is "\<exists>shf saf chf caf sender. _ \<and> (\<forall>H rx path. ?pre shf saf H rx path \<longrightarrow> ?post chf caf sender H path)")
proof -
  have names: "''agent'' \<noteq> ''analyzer''" "''agent'' @ ''.pub'' = ''agent.pub''" "''agent'' @ ''.key'' = ''agent.key''"
    "''analyzer'' @ ''.pub'' = ''analyzer.pub''" "''analyzer'' @ ''.key'' = ''analyzer.key''"
    by simp_all
  obtain idc ids where
    loadc: "load_identity D L ''agent.pub'' ''agent.key'' ''analyzer.pub'' (last hb) = Inr idc" and
    loads: "load_identity D L ''analyzer.pub'' ''analyzer.key'' ''agent.pub'' (last hb) = Inr ids" and
    honest: "honest_identities L idc ids"
    using provisioned [OF libs(2) reads names(1) keys] unfolding names by blast
  obtain shf saf chf caf cc where
    client: "client_handshake L idc sdc (fresh_transport [shf, saf]) = (Inr cc, finished_transport [chf, caf])" and
    frames: "delimited_frame shf" "delimited_frame saf" and
    link: "\<forall>pid cap tx tr s rx llm st. 0 < cap \<and> sink_run L pid (new_sink (chan_sender cc) cap tx) tr s \<and>
       s_phase s = Finished \<and> \<not> s_broken s \<and> list_all wf_event (accepted tr) \<and>
       clean_script rx \<and> stream rx = chf @ caf @ s_wire s \<longrightarrow>
       serve_connection L llm ids \<lparr>conn_rx = rx, conn_seeds = sds, conn_send_fails = \<lambda>_. None\<rparr> st =
         (Inr (length (transmitted tr)), process_all (transmitted tr) (llm :: 's llm_client) st)"
    using honest_link [OF libs honest, of sdc sds] by blast
  obtain ks where cc: "cc = client_channel ks"
    using client unfolding client_handshake_Inr by blast
  show ?thesis
  proof (rule exI [of _ shf], rule exI [of _ saf], rule exI [of _ chf], rule exI [of _ caf],
      rule exI [of _ "chan_sender cc"], intro conjI allI impI, goal_cases)
    case 1
    then show ?case
      by (simp add: cc client_channel_def)
  next
    case (2 H rx path)
    then have path: "path \<noteq> []" and H: "h_disk H = D" "h_files H = last hb"
      "h_link H 9443 ''127.0.0.1'' = Some \<lparr>conn_rx = rx, conn_seeds = sdc, conn_send_fails = \<lambda>_. None\<rparr>"
      and rx: "clean_script rx" "stream rx = shf @ saf"
      by blast+
    let ?o = "forward_options path"
    let ?z = "new_sink (chan_sender cc) 4096 (h_tx H)"
    have o1: "ag_id ?o = ''agent''" "ag_peer ?o = ''analyzer.pub''" "ag_port ?o = 9443" "ag_host ?o = ''127.0.0.1''"
      "ag_queue ?o = 4096" "ag_forward ?o" "\<not> ag_synthetic ?o" "ag_replay ?o = path"
      by (simp_all add: forward_options_def default_agent_options_def)
    have "make_forward_sink L H ?o = Inr ?z"
      using make_forward_done [where ?o1.0 = ?o and H = H, OF _ _ rx frames client] loadc H unfolding o1 names by simp
    then have sink: "choose_sink L H ?o = Some (Channel_to ?z)"
      by (simp add: choose_sink_def o1)
    obtain r where r: "agent_main L H [''--forward'', ''--replay'', path] = Inr r" "run_sink r = Some (Channel_to ?z)"
      "run_actions r = snd (run_replay (h_text H) (h_now H) path)"
      using path by (simp add: agent_main_def forward_args sink agent_source_def o1 case_prod_unfold Let_def)
    have "daemon_main D (last hb) L mk s0 key can_listen
          [Some \<lparr>conn_rx = rx', conn_seeds = sds, conn_send_fails = \<lambda>_. None\<rparr>] [''--once''] =
        (Inr 0, fst (process_all (emits (run_actions r)) (mk (make_llm once_options key)) (s0 :: 's, default_correlator)))"
      if run: "sink_run L pid ?z tr s" and acc: "accepted tr = emits (run_actions r)" and "refused tr = []"
        and fin: "s_phase s = Finished" "\<not> s_broken s" and rx': "clean_script rx'" "stream rx' = chf @ caf @ s_wire s"
        and listen: "can_listen 9443 ''127.0.0.1''" for pid tr s rx' mk s0 key can_listen
    proof -
      have "transmitted tr = sent_events tr"
        using quiet_inv_run [OF run] \<open>refused tr = []\<close> by (simp add: quiet_inv_def)
      then have sent: "transmitted tr = emits (run_actions r)"
        using sink_complete [OF run _ fin] acc by simp
      have "list_all wf_event (accepted tr)"
        unfolding acc r(3) by (rule wf_run_replay)
      then have "serve_connection L (mk (make_llm once_options key)) ids
          \<lparr>conn_rx = rx', conn_seeds = sds, conn_send_fails = \<lambda>_. None\<rparr> (s0, default_correlator) =
        (Inr (length (transmitted tr)),
         process_all (transmitted tr) (mk (make_llm once_options key)) (s0, default_correlator))"
        using run fin rx' by (intro link [rule_format] conjI) simp_all
      then show ?thesis
        using daemon_once [OF loads, where can_listen = can_listen, OF listen] unfolding sent by (metis prod.collapse)
    qed
    then show "?post chf caf (chan_sender cc) H path"
      using r by blast
  qed
qed

subsection \<open>A concrete deployment\<close>

text \<open>The replayed file is a recording of one event.\<close>

lemma toy_replay:
  "run_replay (\<lambda>_. Some (rs_out (record_all [sample_run] (new_record_sink ''now'')))) (\<lambda>i. 7) path =
     (None, [Emit (sample_run\<lparr>ev_ts_ns := 7\<rparr>)])"
proof -
  have "parse path (rs_out (record_all [sample_run] (new_record_sink ''now''))) = (expected 1 0 [sample_run], None)"
    using recordable_sample_run by (intro recording_round_trip) simp_all
  then show ?thesis
    by (simp add: run_replay_def replayed_def new_entry_def)
qed

lemma default_deployment_witness:
  "\<exists>H fs r c. agent_main toy_libs H [''--forward'', ''--replay'', ''f''] = Inr r \<and>
     emits (run_actions r) = [sample_run\<lparr>ev_ts_ns := 7\<rparr>] \<and>
     daemon_main toy_disk fs toy_libs (\<lambda>k. mock_client) () None (\<lambda>p b. True) [Some c] [''--once''] =
       (Inr 0, fst (process_all [sample_run\<lparr>ev_ts_ns := 7\<rparr>] mock_client ((), default_correlator)))"
proof -
  let ?ev = "sample_run\<lparr>ev_ts_ns := 7\<rparr>"
  let ?ha = "snd (keygen_main toy_disk toy_libs 1 [''agent''] Map.empty)"
  let ?fs = "last (snd (keygen_main toy_disk toy_libs 2 [''analyzer''] (last ?ha)))"
  have disk: "disk_reads toy_disk"
    by (simp add: disk_reads_def toy_disk_def)
  obtain shf saf chf caf sender where seq: "snd_seq sender = 0" and dep: "\<forall>H rx path. path \<noteq> [] \<and>
      h_disk H = toy_disk \<and> h_files H = ?fs \<and>
      h_link H 9443 ''127.0.0.1'' = Some \<lparr>conn_rx = rx, conn_seeds = toy_seeds 3, conn_send_fails = \<lambda>_. None\<rparr> \<and>
      clean_script rx \<and> stream rx = shf @ saf \<longrightarrow>
    (\<exists>r. agent_main toy_libs H [''--forward'', ''--replay'', path] = Inr r \<and>
       run_sink r = Some (Channel_to (new_sink sender 4096 (h_tx H))) \<and>
       run_actions r = snd (run_replay (h_text H) (h_now H) path) \<and>
       (\<forall>pid tr s rx' mk s0 key can_listen. sink_run toy_libs pid (new_sink sender 4096 (h_tx H)) tr s \<and>
          accepted tr = emits (run_actions r) \<and> refused tr = [] \<and> s_phase s = Finished \<and> \<not> s_broken s \<and>
          clean_script rx' \<and> stream rx' = chf @ caf @ s_wire s \<and> can_listen 9443 ''127.0.0.1'' \<longrightarrow>
        daemon_main toy_disk ?fs toy_libs mk s0 key can_listen
            [Some \<lparr>conn_rx = rx', conn_seeds = toy_seeds 4, conn_send_fails = \<lambda>_. None\<rparr>] [''--once''] =
          (Inr 0, fst (process_all (emits (run_actions r)) (mk (make_llm once_options key))
             (s0 :: unit, default_correlator)))))"
    using default_deployment [OF toy_libs_ok toy_keygen_eq [of 1 "''agent''" Map.empty]
        toy_keygen_eq [of 2 "''analyzer''" "last ?ha"] disk, of "toy_seeds 3" "toy_seeds 4"]
    by (elim exE conjE) (rule that)
  define rx where "rx bs = (if bs = [] then [] else [Rx_data bs])" for bs
  have rx: "clean_script (rx bs)" "stream (rx bs) = bs" for bs
    by (simp_all add: rx_def)
  define H where "H = toy_host\<lparr>h_disk := toy_disk, h_files := ?fs, h_clock := \<lambda>i. (0, 7),
    h_text := \<lambda>_. Some (rs_out (record_all [sample_run] (new_record_sink ''now''))),
    h_link := \<lambda>_ _. Some \<lparr>conn_rx = rx (shf @ saf), conn_seeds = toy_seeds 3, conn_send_fails = \<lambda>_. None\<rparr>\<rparr>"
  have H: "h_disk H = toy_disk" "h_files H = ?fs" "h_tx H = []" "h_now H = (\<lambda>i. 7)"
    "h_text H = (\<lambda>_. Some (rs_out (record_all [sample_run] (new_record_sink ''now''))))"
    "h_link H 9443 ''127.0.0.1'' =
      Some \<lparr>conn_rx = rx (shf @ saf), conn_seeds = toy_seeds 3, conn_send_fails = \<lambda>_. None\<rparr>"
    by (simp_all add: H_def toy_host_def h_now_def now_ns_def fun_eq_iff)
  have "''f'' \<noteq> [] \<and> h_disk H = toy_disk \<and> h_files H = ?fs \<and>
      h_link H 9443 ''127.0.0.1'' =
        Some \<lparr>conn_rx = rx (shf @ saf), conn_seeds = toy_seeds 3, conn_send_fails = \<lambda>_. None\<rparr> \<and>
      clean_script (rx (shf @ saf)) \<and> stream (rx (shf @ saf)) = shf @ saf"
    using H rx by simp
  from dep [rule_format, OF this] obtain r where
    r: "agent_main toy_libs H [''--forward'', ''--replay'', ''f''] = Inr r" and
    acts: "run_actions r = snd (run_replay (h_text H) (h_now H) ''f'')" and
    down: "\<forall>pid tr s rx' mk s0 key can_listen. sink_run toy_libs pid (new_sink sender 4096 (h_tx H)) tr s \<and>
          accepted tr = emits (run_actions r) \<and> refused tr = [] \<and> s_phase s = Finished \<and> \<not> s_broken s \<and>
          clean_script rx' \<and> stream rx' = chf @ caf @ s_wire s \<and> can_listen 9443 ''127.0.0.1'' \<longrightarrow>
        daemon_main toy_disk ?fs toy_libs mk s0 key can_listen
            [Some \<lparr>conn_rx = rx', conn_seeds = toy_seeds 4, conn_send_fails = \<lambda>_. None\<rparr>] [''--once''] =
          (Inr 0, fst (process_all (emits (run_actions r)) (mk (make_llm once_options key))
             (s0 :: unit, default_correlator)))"
    by (elim exE conjE) (rule that)
  have evs: "emits (run_actions r) = [?ev]"
    unfolding acts H toy_replay by simp
  have "snd_seq sender \<noteq> seq_max"
    by (simp add: seq seq_max_def)
  then obtain tr s where run: "sink_run toy_libs 7 (new_sink sender 4096 []) tr s" "accepted tr = [?ev]"
    "refused tr = []" "s_phase s = Finished" "\<not> s_broken s"
    using toy_sink_run_any [of sender ?ev 4096 7] wf_samples(2) by auto
  have "sink_run toy_libs 7 (new_sink sender 4096 (h_tx H)) tr s \<and>
      accepted tr = emits (run_actions r) \<and> refused tr = [] \<and> s_phase s = Finished \<and> \<not> s_broken s \<and>
      clean_script (rx (chf @ caf @ s_wire s)) \<and> stream (rx (chf @ caf @ s_wire s)) = chf @ caf @ s_wire s \<and>
      (\<lambda>p b. True) 9443 ''127.0.0.1''"
    using run evs rx H(3) by simp
  note emitted = down [rule_format, OF this, of "\<lambda>k. mock_client" "()" None, unfolded evs]
  show ?thesis
    by (intro exI conjI) (rule r, rule evs, rule emitted)
qed

end
