(* ===== verification/Descriptors.thy ===== *)
theory Descriptors
  imports Cstdlib
begin

section \<open>Opening and closing sockets\<close>

text \<open>
  The rest of \<open>crypto/src/socket.cpp\<close>, and where the analyzer's \<open>main\<close> uses it: which descriptors a
  process has open.  The kernel's and the resolver's answers are the record \<open>net\<close>; a negative
  descriptor stands for a failed call, as in C.
\<close>

datatype net_error =
    Bad_bind_address string | Host_unknown string | Call_failed string

type_synonym sockaddr = "u32 \<times> u16"

text \<open>An address and a port, both in network byte order.\<close>

record net =
  sys_socket :: int
  sys_bind :: "int \<Rightarrow> sockaddr \<Rightarrow> bool"
  sys_listen :: "int \<Rightarrow> bool"
  sys_accept :: "int \<Rightarrow> int"
  sys_connect :: "int \<Rightarrow> sockaddr \<Rightarrow> bool"
  sys_getsockname :: "int \<Rightarrow> sockaddr option"
  getaddrinfo :: "string \<Rightarrow> u32 option"

definition htons :: "u16 \<Rightarrow> u16" where
  "htons w = push_bit 8 w OR drop_bit 8 w"

definition ntohs :: "u16 \<Rightarrow> u16" where
  "ntohs w = push_bit 8 w OR drop_bit 8 w"

definition tcp_listen :: "net \<Rightarrow> u16 \<Rightarrow> string \<Rightarrow> int set \<Rightarrow> (net_error + int) \<times> int set" where
  "tcp_listen N port bind_ip fds =
     (case inet_pton4 bind_ip of
        None \<Rightarrow> (Inl (Bad_bind_address bind_ip), fds)
      | Some a \<Rightarrow>
          let fd = sys_socket N
          in if fd < 0 then (Inl (Call_failed ''socket''), fds)
             else if \<not> sys_bind N fd (a, htons port) then (Inl (Call_failed ''bind''), insert fd fds)
             else if \<not> sys_listen N fd then (Inl (Call_failed ''listen''), insert fd fds)
             else (Inr fd, insert fd fds))"

definition tcp_local_port :: "net \<Rightarrow> int \<Rightarrow> net_error + u16" where
  "tcp_local_port N fd =
     (case sys_getsockname N fd of
        None \<Rightarrow> Inl (Call_failed ''getsockname'')
      | Some (a, p) \<Rightarrow> Inr (ntohs p))"

definition tcp_accept :: "net \<Rightarrow> int \<Rightarrow> int set \<Rightarrow> (net_error + int) \<times> int set" where
  "tcp_accept N lfd fds =
     (let fd = sys_accept N lfd
      in if fd < 0 then (Inl (Call_failed ''accept''), fds) else (Inr fd, insert fd fds))"

definition close_fd :: "int \<Rightarrow> int set \<Rightarrow> int set" where
  "close_fd fd fds = (if 0 \<le> fd then fds - {fd} else fds)"

definition tcp_connect :: "net \<Rightarrow> u16 \<Rightarrow> string \<Rightarrow> int set \<Rightarrow> (net_error + int) \<times> int set" where
  "tcp_connect N port host_name fds =
     (case getaddrinfo N host_name of
        None \<Rightarrow> (Inl (Host_unknown host_name), fds)
      | Some a \<Rightarrow>
          let fd = sys_socket N
          in if fd < 0 then (Inl (Call_failed ''socket''), fds)
             else if \<not> sys_connect N fd (a, htons port)
               then (Inl (Call_failed ''connect''), insert fd fds - {fd})
             else (Inr fd, insert fd fds))"

text \<open>
  The analyzer's loop: each entry is the kernel at one \<open>accept\<close>; serving the connection, whether it
  ends or throws, opens nothing.
\<close>

fun accept_fds :: "int \<Rightarrow> bool \<Rightarrow> net list \<Rightarrow> int set \<Rightarrow> int set" where
  "accept_fds lfd once [] fds = fds"
| "accept_fds lfd once (N # Ns) fds =
     (let (res, fds1) = tcp_accept N lfd fds;
          cfd = (case res of Inl e \<Rightarrow> -1 | Inr fd \<Rightarrow> fd);
          fds2 = (if 0 \<le> cfd then close_fd cfd fds1 else fds1)
      in if once then fds2 else accept_fds lfd once Ns fds2)"

definition analyzer_fds :: "net \<Rightarrow> u16 \<Rightarrow> string \<Rightarrow> bool \<Rightarrow> net list \<Rightarrow> int set \<Rightarrow> int set" where
  "analyzer_fds N port bind_ip once Ns fds =
     (case tcp_listen N port bind_ip fds of
        (Inl e, fds1) \<Rightarrow> fds1
      | (Inr lfd, fds1) \<Rightarrow> close_fd lfd (accept_fds lfd once Ns fds1))"

subsection \<open>Nothing stays open\<close>

lemma ntohs_htons [simp]: "ntohs (htons w) = w"
  by (rule bit_word_eqI) (auto simp: ntohs_def htons_def bit_simps)

text \<open>The kernel hands out descriptors that are not in use.\<close>

definition fresh_fd :: "int \<Rightarrow> int set \<Rightarrow> bool" where
  "fresh_fd fd fds \<longleftrightarrow> fd < 0 \<or> fd \<notin> fds"

lemma accept_fds_same: "\<forall>N \<in> set Ns. fresh_fd (sys_accept N lfd) fds \<Longrightarrow> accept_fds lfd once Ns fds = fds"
  by (induction Ns) (auto simp: tcp_accept_def close_fd_def fresh_fd_def Let_def)

lemma connect_failed:
  assumes "fresh_fd (sys_socket N) fds" and "tcp_connect N port host_name fds = (Inl e, fds')"
  shows "fds' = fds"
  using assms by (auto simp: tcp_connect_def fresh_fd_def Let_def split: option.splits if_splits)

text \<open>
  No descriptor is lost.  When the analyzer could listen, then after its loop, whatever became of the
  connections, it has exactly the descriptors that it had before.
\<close>

lemma descriptors_balanced:
  assumes "fresh_fd (sys_socket N) fds" and "tcp_listen N port bind_ip fds = (Inr lfd, fds1)"
    and "\<forall>M \<in> set Ns. fresh_fd (sys_accept M lfd) fds1"
  shows "analyzer_fds N port bind_ip once Ns fds = fds"
proof -
  have "lfd = sys_socket N" "0 \<le> lfd" "fds1 = insert lfd fds"
    using assms(2) by (auto simp: tcp_listen_def Let_def split: option.splits if_splits)
  then show ?thesis
    using assms by (auto simp: analyzer_fds_def accept_fds_same close_fd_def fresh_fd_def)
qed

text \<open>\<open>tcp_listen\<close> itself does not close what it opened when \<open>bind\<close> or \<open>listen\<close> fails.\<close>

lemma listen_failure_keeps:
  assumes "inet_pton4 bind_ip = Some a" and "0 \<le> sys_socket N" and "\<not> sys_bind N (sys_socket N) (a, htons port)"
  shows "tcp_listen N port bind_ip fds = (Inl (Call_failed ''bind''), insert (sys_socket N) fds)"
  using assms by (simp add: tcp_listen_def Let_def)

lemma descriptors_balanced_witness:
  "let N = \<lparr>sys_socket = 3, sys_bind = \<lambda>_ _. True, sys_listen = \<lambda>_. True, sys_accept = \<lambda>_. 4,
      sys_connect = \<lambda>_ _. True, sys_getsockname = \<lambda>_. None, getaddrinfo = \<lambda>_. None\<rparr>
   in analyzer_fds N 9443 ''127.0.0.1'' False [N, N] {0, 1, 2} = {0, 1, 2}"
  unfolding Let_def
  by (rule descriptors_balanced [where lfd = 3 and ?fds1.0 = "{0, 1, 2, 3}"])
    (auto simp: fresh_fd_def tcp_listen_def inet_pton4_def cstr_id nul_def is_digit_def digit_val_def)

end
