(* ===== verification/Kdf.thy ===== *)
theory Kdf
  imports Crypto_Prims
begin

section \<open>HKDF through OpenSSL\<close>

text \<open>
  \<open>hkdf_run\<close> of \<open>crypto/src/kdf.cpp\<close>: one step of HKDF as a call of \<open>EVP_KDF_derive\<close> with a list of
  parameters.  What OpenSSL does is the record \<open>evp_kdf\<close>; the libraries' two HKDF functions of
  \<open>Crypto_Prims\<close> are built from it here.
\<close>

datatype hkdf_mode = EXTRACT_ONLY | EXPAND_ONLY

datatype ossl_param =
    Param_digest string | Param_mode hkdf_mode | Param_key bytes | Param_salt bytes | Param_info bytes

record evp_kdf =
  kdf_fetch :: "string \<Rightarrow> bool"
  kdf_ctx_new :: bool
  kdf_derive :: "ossl_param list \<Rightarrow> nat \<Rightarrow> bytes option"

datatype kdf_error = Kdf_fetch_failed | Kdf_ctx_failed | Kdf_derive_failed

definition kdf_params :: "hkdf_mode \<Rightarrow> bytes \<Rightarrow> bytes \<Rightarrow> bytes \<Rightarrow> ossl_param list" where
  "kdf_params mode salt_or_unused key info =
     [Param_digest ''SHA256'', Param_mode mode, Param_key key,
      (if mode = EXTRACT_ONLY then Param_salt salt_or_unused else Param_info info)]"

definition hkdf_run ::
  "evp_kdf \<Rightarrow> hkdf_mode \<Rightarrow> bytes \<Rightarrow> bytes \<Rightarrow> bytes \<Rightarrow> nat \<Rightarrow> kdf_error + bytes" where
  "hkdf_run E mode salt_or_unused key info out_len =
     (if \<not> kdf_fetch E ''HKDF'' then Inl Kdf_fetch_failed
      else if \<not> kdf_ctx_new E then Inl Kdf_ctx_failed
      else case kdf_derive E (kdf_params mode salt_or_unused key info) out_len of
             None \<Rightarrow> Inl Kdf_derive_failed
           | Some out \<Rightarrow> Inr out)"

definition kdf_option :: "kdf_error + bytes \<Rightarrow> bytes option" where
  "kdf_option r = (case r of Inl e \<Rightarrow> None | Inr k \<Rightarrow> Some k)"

text \<open>\<open>hkdf_extract\<close> and \<open>hkdf_expand\<close> as the wrappers of \<open>hkdf_run\<close>, in the place of the libraries' two functions.\<close>

definition with_kdf :: "evp_kdf \<Rightarrow> libs \<Rightarrow> libs" where
  "with_kdf E L =
     L\<lparr>evp_hkdf_extract := \<lambda>salt ikm n. kdf_option (hkdf_run E EXTRACT_ONLY salt ikm [] n),
       evp_hkdf_expand := \<lambda>prk info n. kdf_option (hkdf_run E EXPAND_ONLY [] prk info n)\<rparr>"

lemma kdf_option_Some [simp]: "kdf_option r = Some k \<longleftrightarrow> r = Inr k"
  by (cases r) (simp_all add: kdf_option_def)

lemma hkdf_run_Inr:
  "hkdf_run E mode s k i n = Inr out \<longleftrightarrow>
    kdf_fetch E ''HKDF'' \<and> kdf_ctx_new E \<and> kdf_derive E (kdf_params mode s k i) n = Some out"
  by (auto simp: hkdf_run_def split: option.split)

text \<open>The assumption on lengths carries over, if \<open>EVP_KDF_derive\<close> fills the buffer it is given.\<close>

lemma with_kdf_sized:
  assumes "libs_sized L" and "\<forall>ps n k. kdf_derive E ps n = Some k \<longrightarrow> length k = n"
  shows "libs_sized (with_kdf E L)"
proof -
  have "\<forall>p i n k. kdf_option (hkdf_run E EXPAND_ONLY [] p i n) = Some k \<longrightarrow> length k = n"
    using assms(2) by (auto simp: hkdf_run_Inr)
  then show ?thesis
    using assms(1) by (simp add: libs_sized_def with_kdf_def)
qed

lemma with_kdf_available:
  assumes "libs_available L" and "kdf_fetch E ''HKDF''" and "kdf_ctx_new E" and "\<forall>ps n. kdf_derive E ps n \<noteq> None"
  shows "libs_available (with_kdf E L)"
proof -
  have "kdf_option (hkdf_run E mode s k i n) \<noteq> None" for mode s k i n
  proof -
    obtain out where "kdf_derive E (kdf_params mode s k i) n = Some out"
      using assms(4) by blast
    then show ?thesis
      using assms(2,3) by (simp add: hkdf_run_def kdf_option_def)
  qed
  then show ?thesis
    using assms(1) by (simp add: libs_available_def with_kdf_def)
qed

text \<open>
  The key schedule as calls of OpenSSL: one extraction of both shared secrets under both randoms, and
  four expansions of its result that differ in their labels and carry the transcript hash.
\<close>

lemma schedule_calls:
  assumes "derive_session_keys (with_kdf E L) ssc ssq cr sr th = Inr ks"
  obtains prk where "kdf_derive E (kdf_params EXTRACT_ONLY (cr @ sr) (ssc @ ssq) []) 32 = Some prk"
    and "kdf_derive E (kdf_params EXPAND_ONLY [] prk (label_info ''pqsec c2s key'' th)) 32 = Some (c2s_key ks)"
    and "kdf_derive E (kdf_params EXPAND_ONLY [] prk (label_info ''pqsec s2c key'' th)) 32 = Some (s2c_key ks)"
    and "kdf_derive E (kdf_params EXPAND_ONLY [] prk (label_info ''pqsec c2s iv'' th)) 12 = Some (c2s_iv ks)"
    and "kdf_derive E (kdf_params EXPAND_ONLY [] prk (label_info ''pqsec s2c iv'' th)) 12 = Some (s2c_iv ks)"
  using assms
  by (auto simp: derive_session_keys_def hkdf_extract_def hkdf_expand_def with_kdf_def or_throw_def hkdf_run_Inr
      elim!: and_then_InrE split: option.splits)

text \<open>The four informations differ, whatever the transcript.\<close>

lemma labels_differ:
  "distinct [label_info ''pqsec c2s key'' th, label_info ''pqsec s2c key'' th, label_info ''pqsec c2s iv'' th,
     label_info ''pqsec s2c iv'' th]"
  by (simp add: label_info_def to_bytes_def byte_of_char_def)

end
