(* ===== verification/Crypto_Selftest.thy ===== *)
theory Crypto_Selftest
  imports Record_Layer Handshake
begin

section \<open>The channel's own tests\<close>

text \<open>
  \<open>crypto/examples/record_demo.cpp\<close>, \<open>channel_selftest.cpp\<close>, \<open>hybrid_demo.cpp\<close> and \<open>mlkem_demo.cpp\<close>: programs that
  run the library and count failed checks.  An exception that nobody catches is \<open>Inl\<close>, otherwise the
  result is the number of failed checks.  The random choices are the arguments.
\<close>

definition check :: "bool \<Rightarrow> nat \<Rightarrow> nat" where
  "check cond fails = (if cond then fails else fails + 1)"

lemma check_True [simp]: "cond \<Longrightarrow> check cond fails = fails"
  by (simp add: check_def)

text \<open>\<open>main\<close> ends with 1 if a check failed.\<close>

definition test_status :: "nat \<Rightarrow> nat" where
  "test_status fails = (if fails = 0 then 0 else 1)"

definition flip_at :: "nat \<Rightarrow> bytes \<Rightarrow> bytes" where
  "flip_at i b = b[i := b ! i XOR 1]"

lemma flip_at_differs: "i < length b \<Longrightarrow> flip_at i b \<noteq> b"
proof
  assume i: "i < length b" and "flip_at i b = b"
  then have "b ! i XOR 1 = b ! i"
    unfolding flip_at_def by (metis nth_list_update_eq)
  then have "bit (b ! i XOR 1) 0 = bit (b ! i) 0"
    by simp
  then show False
    by (simp add: bit_simps)
qed

lemma length_flip_at [simp]: "length (flip_at i b) = length b"
  by (simp add: flip_at_def)

subsection \<open>Records\<close>

definition demo_messages :: "bytes list" where
  "demo_messages = [to_bytes ''first event'', to_bytes ''second event'',
     to_bytes (''third '' @ [CHR 0xE2, CHR 0x80, CHR 0x94] @ '' longer payload '' @ [CHR 0xE2, CHR 0x80, CHR 0xA6])]"

fun demo_round_trips :: "libs \<Rightarrow> bytes list \<Rightarrow> record_sender \<Rightarrow> record_receiver \<Rightarrow> bool \<Rightarrow> record_error + bool" where
  "demo_round_trips L [] tx rx ok = Inr ok"
| "demo_round_trips L (m # ms) tx rx ok =
     (case seal L tx m of
        (Inl e, _) \<Rightarrow> Inl e
      | (Inr rec, tx') \<Rightarrow>
          (case open_record L rx rec of
             (Inl e, _) \<Rightarrow> Inl e
           | (Inr got, rx') \<Rightarrow> demo_round_trips L ms tx' rx' (ok \<and> got = m)))"

definition demo_tampered :: "libs \<Rightarrow> record_sender \<Rightarrow> record_receiver \<Rightarrow> record_error + bool" where
  "demo_tampered L tx rx =
     and_then (fst (seal L tx (to_bytes ''sensitive''))) (\<lambda>rec.
       Inr (isl (fst (open_record L rx (flip_at (length rec - 1) rec)))))"

definition demo_reordered :: "libs \<Rightarrow> record_sender \<Rightarrow> record_receiver \<Rightarrow> record_error + bool" where
  "demo_reordered L tx rx =
     (case seal L tx (to_bytes ''rec0'') of
        (Inl e, _) \<Rightarrow> Inl e
      | (Inr r0, tx') \<Rightarrow>
          and_then (fst (seal L tx' (to_bytes ''rec1''))) (\<lambda>r1. Inr (isl (fst (open_record L rx r1)))))"

definition demo_replayed :: "libs \<Rightarrow> record_sender \<Rightarrow> record_receiver \<Rightarrow> record_error + bool" where
  "demo_replayed L tx rx =
     and_then (fst (seal L tx (to_bytes ''once''))) (\<lambda>r0.
       case open_record L rx r0 of
         (Inl e, _) \<Rightarrow> Inl e
       | (Inr _, rx') \<Rightarrow> Inr (isl (fst (open_record L rx' r0))))"

definition record_demo :: "libs \<Rightarrow> bytes \<Rightarrow> bytes \<Rightarrow> record_error + nat" where
  "record_demo L key iv =
     and_then (new_sender key iv) (\<lambda>tx. and_then (new_receiver key iv) (\<lambda>rx.
     and_then (demo_round_trips L demo_messages tx rx True) (\<lambda>ok1.
     and_then (demo_tampered L tx rx) (\<lambda>ok2.
     and_then (demo_reordered L tx rx) (\<lambda>ok3.
     and_then (demo_replayed L tx rx) (\<lambda>ok4.
       Inr (check ok4 (check ok3 (check ok2 (check ok1 0))))))))))"

text \<open>
  What the demo relies on: encryption succeeds and is inverted; a ciphertext and tag decrypt only if
  they are the encryption of the result, and the ciphertext determines the plaintext (GCM is a
  stream cipher with a tag computed over the ciphertext); under another nonce a record does not
  verify.
\<close>

definition gcm_exact :: "libs \<Rightarrow> bool" where
  "gcm_exact L \<longleftrightarrow>
     (\<forall>k n a p. evp_gcm_encrypt L k n a p \<noteq> None) \<and>
     (\<forall>k n a c t p. evp_gcm_decrypt L k n a c t = Some p \<longrightarrow> evp_gcm_encrypt L k n a p = Some (c, t)) \<and>
     (\<forall>k n a p q c t t'. evp_gcm_encrypt L k n a p = Some (c, t) \<and> evp_gcm_encrypt L k n a q = Some (c, t') \<longrightarrow> p = q)"

definition nonce_bound :: "libs \<Rightarrow> bytes \<Rightarrow> bool" where
  "nonce_bound L key \<longleftrightarrow>
     (\<forall>n n' a p c t. length n = 12 \<and> length n' = 12 \<and> n \<noteq> n' \<and> evp_gcm_encrypt L key n a p = Some (c, t) \<longrightarrow>
        evp_gcm_decrypt L key n' a c t = None)"

lemma sealed_record:
  assumes "libs_sized L" and "gcm_exact L" and "snd_seq tx \<noteq> seq_max" and "length p \<le> 0xffff - 16"
  obtains ct tag where "seal L tx p = (Inr (record_of ct tag), tx\<lparr>snd_seq := snd_seq tx + 1\<rparr>)"
    and "length ct = length p" and "length tag = 16"
    and "evp_gcm_encrypt L (snd_key tx) (make_nonce (snd_iv tx) (snd_seq tx)) (record_header (length p + 16)) p =
      Some (ct, tag)"
proof -
  obtain ct tag where e: "evp_gcm_encrypt L (snd_key tx) (make_nonce (snd_iv tx) (snd_seq tx))
      (record_header (length p + 16)) p = Some (ct, tag)"
    using assms(2) unfolding gcm_exact_def by (metis option.exhaust prod.exhaust)
  have "length ct = length p \<and> length tag = 16"
    using assms(1) e unfolding libs_sized_def by blast
  moreover have "seal L tx p = (Inr (record_of ct tag), tx\<lparr>snd_seq := snd_seq tx + 1\<rparr>)"
    using assms(3,4) e calculation by (simp add: seal_def aes_gcm_seal_def record_of_def record_consts Let_def)
  ultimately show ?thesis
    using e that by blast
qed

text \<open>Whether a sealed record opens depends on the sequence numbers and on the tag.\<close>

lemma open_sealed:
  assumes "gcm_correct L" and "length ct \<le> 0xffff - 16" and "length tag = 16" and "rcv_seq rx \<noteq> seq_max"
    and "evp_gcm_encrypt L (rcv_key rx) (make_nonce (rcv_iv rx) (rcv_seq rx)) (record_header (length ct + 16)) p = Some (ct, tag)"
  shows "open_record L rx (record_of ct tag) = (Inr p, rx\<lparr>rcv_seq := rcv_seq rx + 1\<rparr>)"
  using assms by (simp add: open_record_of gcm_correct_def)

lemma open_other_nonce:
  assumes "nonce_bound L (rcv_key rx)" and "length ct \<le> 0xffff - 16" and "length tag = 16"
    and "length (rcv_iv rx) = 12" and "rcv_seq rx \<noteq> seq" and "rcv_seq rx \<noteq> seq_max"
    and "evp_gcm_encrypt L (rcv_key rx) (make_nonce (rcv_iv rx) seq) (record_header (length ct + 16)) p = Some (ct, tag)"
  shows "isl (fst (open_record L rx (record_of ct tag)))"
proof -
  have "make_nonce (rcv_iv rx) seq \<noteq> make_nonce (rcv_iv rx) (rcv_seq rx)"
    using make_nonce_inject [OF assms(4)] assms(5) by metis
  then have "evp_gcm_decrypt L (rcv_key rx) (make_nonce (rcv_iv rx) (rcv_seq rx))
      (record_header (length ct + 16)) ct tag = None"
    using assms(1,4,7) unfolding nonce_bound_def by (metis length_make_nonce)
  then show ?thesis
    using assms(2,3,6) by (simp add: open_record_of)
qed

definition in_step :: "record_sender \<Rightarrow> record_receiver \<Rightarrow> bool" where
  "in_step tx rx \<longleftrightarrow> rcv_key rx = snd_key tx \<and> rcv_iv rx = snd_iv tx \<and> rcv_seq rx = snd_seq tx \<and>
     length (snd_iv tx) = 12"

lemma round_trips_done:
  assumes "libs_sized L" and "gcm_correct L" and "gcm_exact L" and "in_step tx rx"
    and "unat (snd_seq tx) + length ms < 2 ^ 64 - 1" and "\<forall>m \<in> set ms. length m \<le> 0xffff - 16"
  shows "demo_round_trips L ms tx rx ok = Inr ok"
  using assms(4-6)
proof (induction ms arbitrary: tx rx ok)
  case (Cons m ms)
  have seq: "snd_seq tx \<noteq> seq_max" "unat (snd_seq tx + 1) = Suc (unat (snd_seq tx))"
    using Cons.prems(2) by (auto simp: seq_max_def unat_word_ariths unsigned_minus_1_eq_mask mask_eq_exp_minus_1)
  obtain ct tag where s: "seal L tx m = (Inr (record_of ct tag), tx\<lparr>snd_seq := snd_seq tx + 1\<rparr>)"
    and len: "length ct = length m" "length tag = 16"
    and e: "evp_gcm_encrypt L (snd_key tx) (make_nonce (snd_iv tx) (snd_seq tx)) (record_header (length m + 16)) m =
      Some (ct, tag)"
    using sealed_record [OF assms(1,3) seq(1)] Cons.prems(3) by (metis list.set_intros(1))
  have "open_record L rx (record_of ct tag) = (Inr m, rx\<lparr>rcv_seq := rcv_seq rx + 1\<rparr>)"
    using Cons.prems(1,3) seq(1) len e by (intro open_sealed [OF assms(2)]) (auto simp: in_step_def)
  moreover have "demo_round_trips L ms (tx\<lparr>snd_seq := snd_seq tx + 1\<rparr>) (rx\<lparr>rcv_seq := rcv_seq rx + 1\<rparr>) ok = Inr ok"
    using Cons.prems seq(2) by (intro Cons.IH) (auto simp: in_step_def)
  ultimately show ?case
    by (simp add: s)
qed simp

text \<open>Flipping the last bit of a record changes its tag only.\<close>

lemma flip_record:
  assumes "length tag = 16"
  shows "flip_at (length (record_of ct tag) - 1) (record_of ct tag) = record_of ct (flip_at 15 tag)"
  using assms by (simp add: flip_at_def record_of_def list_update_append nth_append record_header_props)

lemma tampered_refused:
  assumes "libs_sized L" and "gcm_correct L" and "gcm_exact L" and "in_step tx rx" and "snd_seq tx = 0"
  shows "demo_tampered L tx rx = Inr True"
proof -
  let ?p = "to_bytes ''sensitive''"
  have seq: "snd_seq tx \<noteq> seq_max" "rcv_seq rx \<noteq> seq_max"
    using assms(4,5) by (simp_all add: seq_max_def in_step_def)
  obtain ct tag where s: "seal L tx ?p = (Inr (record_of ct tag), tx\<lparr>snd_seq := snd_seq tx + 1\<rparr>)"
    and len: "length ct = length ?p" "length tag = 16"
    and e: "evp_gcm_encrypt L (snd_key tx) (make_nonce (snd_iv tx) (snd_seq tx)) (record_header (length ?p + 16)) ?p =
      Some (ct, tag)"
    using sealed_record [OF assms(1,3) seq(1), of ?p] by (auto simp: to_bytes_def)
  have "evp_gcm_decrypt L (rcv_key rx) (make_nonce (rcv_iv rx) (rcv_seq rx)) (record_header (length ct + 16)) ct
      (flip_at 15 tag) = None"
  proof (rule ccontr)
    assume "\<not> ?thesis"
    then obtain q where "evp_gcm_encrypt L (rcv_key rx) (make_nonce (rcv_iv rx) (rcv_seq rx))
        (record_header (length ct + 16)) q = Some (ct, flip_at 15 tag)"
      using assms(3) unfolding gcm_exact_def by blast
    moreover from this have "q = ?p"
      using assms(3,4) e len(1) unfolding gcm_exact_def in_step_def by metis
    ultimately have "flip_at 15 tag = tag"
      using assms(4) e len(1) by (simp add: in_step_def)
    then show False
      using flip_at_differs [of 15 tag] len(2) by simp
  qed
  then have "isl (fst (open_record L rx (record_of ct (flip_at 15 tag))))"
    using len seq by (simp add: open_record_of to_bytes_def)
  then show ?thesis
    using flip_record [OF len(2), of ct] by (simp add: demo_tampered_def s)
qed

lemma reordered_refused:
  assumes "libs_sized L" and "gcm_exact L" and "nonce_bound L (snd_key tx)" and "in_step tx rx" and "snd_seq tx = 0"
  shows "demo_reordered L tx rx = Inr True"
proof -
  let ?p = "to_bytes ''rec1''" and ?tx = "tx\<lparr>snd_seq := snd_seq tx + 1\<rparr>"
  have seq: "snd_seq tx \<noteq> seq_max" "snd_seq ?tx \<noteq> seq_max" "rcv_seq rx \<noteq> seq_max"
    using assms(4,5) by (simp_all add: seq_max_def in_step_def)
  obtain r0 where r0: "seal L tx (to_bytes ''rec0'') = (Inr r0, ?tx)"
    using sealed_record [OF assms(1,2) seq(1), of "to_bytes ''rec0''"] by (auto simp: to_bytes_def)
  obtain ct tag where s: "seal L ?tx ?p = (Inr (record_of ct tag), ?tx\<lparr>snd_seq := snd_seq ?tx + 1\<rparr>)"
    and len: "length ct = length ?p" "length tag = 16"
    and e: "evp_gcm_encrypt L (snd_key ?tx) (make_nonce (snd_iv ?tx) (snd_seq ?tx)) (record_header (length ?p + 16)) ?p =
      Some (ct, tag)"
    using sealed_record [OF assms(1,2) seq(2), of ?p] by (auto simp: to_bytes_def)
  have "isl (fst (open_record L rx (record_of ct tag)))"
    using assms(3,4,5) len e seq
    by (intro open_other_nonce [where seq = "snd_seq ?tx" and p = ?p]) (simp_all add: in_step_def to_bytes_def)
  then show ?thesis
    by (simp add: demo_reordered_def r0 s)
qed

lemma replayed_refused:
  assumes "libs_sized L" and "gcm_correct L" and "gcm_exact L" and "nonce_bound L (snd_key tx)" and "in_step tx rx"
    and "snd_seq tx = 0"
  shows "demo_replayed L tx rx = Inr True"
proof -
  let ?p = "to_bytes ''once''" and ?rx = "rx\<lparr>rcv_seq := rcv_seq rx + 1\<rparr>"
  have seq: "snd_seq tx \<noteq> seq_max" "rcv_seq rx \<noteq> seq_max" "rcv_seq ?rx \<noteq> seq_max"
    using assms(5,6) by (simp_all add: seq_max_def in_step_def)
  obtain ct tag where s: "seal L tx ?p = (Inr (record_of ct tag), tx\<lparr>snd_seq := snd_seq tx + 1\<rparr>)"
    and len: "length ct = length ?p" "length tag = 16"
    and e: "evp_gcm_encrypt L (snd_key tx) (make_nonce (snd_iv tx) (snd_seq tx)) (record_header (length ?p + 16)) ?p =
      Some (ct, tag)"
    using sealed_record [OF assms(1,3) seq(1), of ?p] by (auto simp: to_bytes_def)
  have o: "open_record L rx (record_of ct tag) = (Inr ?p, ?rx)"
    using assms(5) len e seq by (intro open_sealed [OF assms(2)]) (simp_all add: in_step_def to_bytes_def)
  have "isl (fst (open_record L ?rx (record_of ct tag)))"
    using assms(4,5,6) len e seq
    by (intro open_other_nonce [where seq = "snd_seq tx" and p = ?p]) (simp_all add: in_step_def to_bytes_def)
  then show ?thesis
    by (simp add: demo_replayed_def s o)
qed

text \<open>The record layer passes its test: no check fails and nothing is thrown.\<close>

theorem record_demo_passes:
  assumes "libs_sized L" and "gcm_correct L" and "gcm_exact L" and "nonce_bound L key"
    and "length key = 32" and "length iv = 12"
  shows "record_demo L key iv = Inr 0"
proof -
  let ?tx = "\<lparr>snd_key = key, snd_iv = iv, snd_seq = 0\<rparr>" and ?rx = "\<lparr>rcv_key = key, rcv_iv = iv, rcv_seq = 0\<rparr>"
  have step: "in_step ?tx ?rx"
    using assms(6) by (simp add: in_step_def)
  have "demo_round_trips L demo_messages ?tx ?rx True = Inr True"
    by (rule round_trips_done [OF assms(1-3) step]) (simp_all add: demo_messages_def to_bytes_def)
  then show ?thesis
    using assms(4-6) tampered_refused [OF assms(1-3) step] reordered_refused [OF assms(1,3) _ step]
      replayed_refused [OF assms(1-3) _ step]
    by (simp add: record_demo_def new_sender_def new_receiver_def record_consts)
qed

subsection \<open>Primitives and messages\<close>

datatype test_error = Test_crypto crypto_error | Test_wire wire_error

definition on_crypto :: "crypto_error + 'a \<Rightarrow> test_error + 'a" where
  "on_crypto r = (case r of Inl e \<Rightarrow> Inl (Test_crypto e) | Inr x \<Rightarrow> Inr x)"

definition on_wire :: "wire_error + 'a \<Rightarrow> test_error + 'a" where
  "on_wire r = (case r of Inl e \<Rightarrow> Inl (Test_wire e) | Inr x \<Rightarrow> Inr x)"

lemma on_simps [simp]: "on_crypto (Inr x) = Inr x" "on_wire (Inr x) = Inr x"
  by (simp_all add: on_crypto_def on_wire_def)

text \<open>\<open>mlkem_demo\<close>: the exit status.\<close>

definition mlkem_demo :: "libs \<Rightarrow> seed \<Rightarrow> seed \<Rightarrow> nat" where
  "mlkem_demo L r r' =
     (if \<not> kem_available L then 1
      else case oqs_kem_keypair L r of
             None \<Rightarrow> 1
           | Some (pk, sk) \<Rightarrow>
               (case oqs_kem_encaps L r' pk of
                  None \<Rightarrow> 1
                | Some (ct, ss) \<Rightarrow>
                    (case oqs_kem_decaps L ct sk of
                       None \<Rightarrow> 1 | Some ss' \<Rightarrow> if take (kem_ss_len L) ss = take (kem_ss_len L) ss' then 0 else 1)))"

lemma mlkem_demo_passes:
  assumes "libs_available L" and "kem_correct L"
  shows "mlkem_demo L r r' = 0"
proof -
  obtain pk sk where kp: "oqs_kem_keypair L r = Some (pk, sk)"
    using avail(3) [OF assms(1)] by blast
  obtain ct ss where "oqs_kem_encaps L r' pk = Some (ct, ss)"
    using avail(4) [OF assms(1)] by blast
  moreover from this have "oqs_kem_decaps L ct sk = Some ss"
    using assms(2) kp unfolding kem_correct_def by blast
  ultimately show ?thesis
    using assms(1) kp by (simp add: mlkem_demo_def libs_available_def)
qed

text \<open>\<open>channel_selftest\<close>, with its random choices.\<close>

record test_inputs =
  ti_kem :: seed
  ti_encaps :: seed
  ti_server :: seed
  ti_client :: seed
  ti_sign :: seed
  ti_transcript :: bytes
  ti_random :: bytes
  ti_x25519 :: bytes
  ti_random' :: bytes
  ti_x25519' :: bytes

definition test_kem :: "libs \<Rightarrow> test_inputs \<Rightarrow> nat \<Rightarrow> test_error + nat \<times> key_pair \<times> encaps_result" where
  "test_kem L z f =
     and_then (on_crypto (mlkem_keypair L (ti_kem z))) (\<lambda>kp.
     and_then (on_crypto (mlkem_encaps L (ti_encaps z) (public_key kp))) (\<lambda>enc.
     and_then (on_crypto (mlkem_decaps L (ciphertext enc) (secret_key kp))) (\<lambda>ss.
       Inr (check (shared_secret enc = ss) f, kp, enc))))"

definition test_signatures :: "libs \<Rightarrow> test_inputs \<Rightarrow> nat \<Rightarrow> test_error + nat \<times> bytes" where
  "test_signatures L z f =
     and_then (on_crypto (mldsa_keypair L (ti_server z))) (\<lambda>server_id.
     and_then (on_crypto (mldsa_keypair L (ti_client z))) (\<lambda>client_id.
     and_then (on_crypto (mldsa_sign L (ti_sign z) (ti_transcript z) (secret_key server_id))) (\<lambda>sig.
       let f1 = check (mldsa_verify L (ti_transcript z) sig (public_key server_id)) f;
           f2 = check (\<not> mldsa_verify L (flip_at 0 (ti_transcript z)) sig (public_key server_id)) f1;
           f3 = check (\<not> mldsa_verify L (ti_transcript z) sig (public_key client_id)) f2
       in Inr (f3, sig))))"

definition test_wire :: "test_inputs \<Rightarrow> bytes \<Rightarrow> bytes \<Rightarrow> bytes \<Rightarrow> nat \<Rightarrow> test_error + nat" where
  "test_wire z pk ct sig f =
     (let ch = \<lparr>ch_random = ti_random z, ch_x25519 = ti_x25519 z, ch_mlkem = pk\<rparr>;
          sh = \<lparr>sh_random = ti_random' z, sh_x25519 = ti_x25519' z, sh_mlkem_ct = ct\<rparr>
      in and_then (on_wire (serialize_client_hello ch)) (\<lambda>ch_frame.
         and_then (on_wire (parse_client_hello ch_frame)) (\<lambda>ch2.
         let f1 = check (ch_random ch2 = ch_random ch \<and> ch_x25519 ch2 = ch_x25519 ch \<and>
                    ch_mlkem ch2 = ch_mlkem ch) f
         in and_then (on_wire (serialize_server_hello sh)) (\<lambda>sh_frame.
            and_then (on_wire (parse_server_hello sh_frame)) (\<lambda>sh2.
            let f2 = check (sh_random sh2 = sh_random sh \<and> sh_mlkem_ct sh2 = sh_mlkem_ct sh) f1
            in and_then (on_wire (serialize_server_auth (Server_Auth sig))) (\<lambda>sa_frame.
               and_then (on_wire (parse_server_auth sa_frame)) (\<lambda>sa2.
               let f3 = check (sa_signature sa2 = sig) f2
               in and_then (on_wire (peek_type ch_frame)) (\<lambda>t.
                  let f4 = check (t = CLIENT_HELLO) f3;
                      truncated = take (length ch_frame div 2) ch_frame
                  in Inr (check (isl (parse_client_hello truncated)) f4))))))))) "

definition channel_selftest :: "libs \<Rightarrow> test_inputs \<Rightarrow> test_error + nat" where
  "channel_selftest L z =
     and_then (on_crypto (mlkem_new L)) (\<lambda>_.
     and_then (on_crypto (mldsa_new L)) (\<lambda>_.
     and_then (test_kem L z 0) (\<lambda>(f1, kp, enc).
     and_then (test_signatures L z f1) (\<lambda>(f2, sig).
       test_wire z (public_key kp) (ciphertext enc) sig f2))))"

text \<open>Half a frame is refused, whatever it holds.\<close>

lemma truncated_hello_refused:
  assumes "delimited_frame f"
  shows "isl (parse_client_hello (take (length f div 2) f))"
proof (rule ccontr)
  let ?h = "take (length f div 2) f"
  assume "\<not> ?thesis"
  then obtain m where "parse_client_hello ?h = Inr m"
    by (cases "parse_client_hello ?h") auto
  then have d: "delimited_frame ?h"
    using ch.par_delimited by blast
  then have "f = ?h"
    using delimited_append_inject [of f ?h "[]" "drop (length f div 2) f"] assms by simp
  then have "length f \<le> length f div 2"
    by (metis length_take min.cobounded2)
  then show False
    using assms by (simp add: delimited_frame_def kHeaderLen_def)
qed

lemma test_wire_passes:
  assumes "length (ti_random z) = 32" "length (ti_x25519 z) = 32" "length (ti_random' z) = 32"
    "length (ti_x25519' z) = 32" and "pk \<noteq> []" "length pk \<le> 0xffff - 64" and "ct \<noteq> []" "length ct \<le> 0xffff - 64"
    and "sig \<noteq> []" "length sig \<le> 0xffff"
  shows "test_wire z pk ct sig f = Inr f"
proof -
  let ?ch = "\<lparr>ch_random = ti_random z, ch_x25519 = ti_x25519 z, ch_mlkem = pk\<rparr>"
  let ?sh = "\<lparr>sh_random = ti_random' z, sh_x25519 = ti_x25519' z, sh_mlkem_ct = ct\<rparr>"
  have "valid_client_hello ?ch" "valid_server_hello ?sh" "valid_signature (sa_signature (Server_Auth sig))"
    using assms by (simp_all add: valid_client_hello_def valid_server_hello_def valid_signature_def wire_consts)
  note v = this
  obtain a where a: "serialize_client_hello ?ch = Inr a" "parse_client_hello a = Inr ?ch"
    using ch.ser_valid [OF v(1)] ch.par_ser [OF v(1)] by blast
  obtain b where b: "serialize_server_hello ?sh = Inr b" "parse_server_hello b = Inr ?sh"
    using sh.ser_valid [OF v(2)] sh.par_ser [OF v(2)] by blast
  obtain c where c: "serialize_server_auth (Server_Auth sig) = Inr c" "parse_server_auth c = Inr (Server_Auth sig)"
    using sa.ser_valid [OF v(3)] sa.par_ser [OF v(3)] by blast
  have d: "delimited_frame a" "a ! 0 = CLIENT_HELLO"
    using ch.ser_delimited [OF a(1)] by blast+
  then have "peek_type a = Inr CLIENT_HELLO"
    by (simp add: peek_type_def delimited_frame_def)
  then show ?thesis
    using truncated_hello_refused [OF d(1)] by (simp add: test_wire_def a b c Let_def)
qed

text \<open>
  The test of primitives and messages passes, if the one signature that it makes verifies neither
  for the altered text nor under the other party's key.
\<close>

theorem channel_selftest_passes:
  assumes libs: "libs_available L" "libs_sized L" "kem_correct L" "sig_correct L"
    and ids: "oqs_sig_keypair L (ti_server z) = Some (spk, ssk)" "oqs_sig_keypair L (ti_client z) = Some (cpk, csk)"
    and sig: "oqs_sig_sign L (ti_sign z) (ti_transcript z) ssk = Some sig"
    and forged: "\<not> oqs_sig_verify L (flip_at 0 (ti_transcript z)) sig spk" "\<not> oqs_sig_verify L (ti_transcript z) sig cpk"
    and lens: "length (ti_random z) = 32" "length (ti_x25519 z) = 32" "length (ti_random' z) = 32"
      "length (ti_x25519' z) = 32"
  shows "channel_selftest L z = Inr 0"
proof -
  obtain pk sk where kp: "oqs_kem_keypair L (ti_kem z) = Some (pk, sk)"
    using avail(3) [OF libs(1)] by blast
  obtain ct ss where en: "oqs_kem_encaps L (ti_encaps z) pk = Some (ct, ss)"
    using avail(4) [OF libs(1)] by blast
  have dec: "oqs_kem_decaps L ct sk = Some ss"
    using libs(3) kp en unfolding kem_correct_def by blast
  have len: "length pk = kem_public_len L \<and> length sk = kem_secret_len L" "length ct = kem_ct_len L"
    "length spk = sig_public_len L \<and> length ssk = sig_secret_len L" "sig \<noteq> [] \<and> length sig \<le> 0xffff"
    using sized(1) [OF libs(2) kp] sized(2) [OF libs(2) en] sized(3) [OF libs(2) ids(1)]
      sized_signature [OF libs(2) sig] by (simp_all add: valid_signature_def)
  have bounds: "pk \<noteq> []" "length pk \<le> 0xffff - 64" "ct \<noteq> []" "length ct \<le> 0xffff - 64"
    using sized(5-8) [OF libs(2)] len by auto
  have "test_kem L z 0 = Inr (0, \<lparr>public_key = pk, secret_key = sk\<rparr>, \<lparr>ciphertext = ct, shared_secret = ss\<rparr>)"
    using len by (simp add: test_kem_def mlkem_keypair_def kp mlkem_encaps_def en mlkem_decaps_def dec or_throw_def)
  moreover have "oqs_sig_verify L (ti_transcript z) sig spk"
    using libs(4) ids(1) sig unfolding sig_correct_def by blast
  then have "test_signatures L z 0 = Inr (0, sig)"
    using len forged
    by (simp add: test_signatures_def mldsa_keypair_def ids mldsa_sign_def sig or_throw_def mldsa_verify_def Let_def)
  moreover have "test_wire z pk ct sig 0 = Inr 0"
    using test_wire_passes [OF lens bounds] len(4) by simp
  ultimately show ?thesis
    using libs(1) by (simp add: channel_selftest_def mlkem_new_def mldsa_new_def libs_available_def)
qed

subsection \<open>Both sides in one process\<close>

text \<open>
  \<open>hybrid_demo\<close>: hellos, key agreement on both sides, and the two signatures, with the checks in
  between.  Both sides are given the same transcript hash, as in the source.
\<close>

record demo_inputs =
  di_server_id :: seed
  di_client_id :: seed
  di_random :: bytes
  di_x25519 :: seed
  di_kem :: seed
  di_random' :: bytes
  di_x25519' :: seed
  di_encaps :: seed
  di_sign :: seed
  di_sign' :: seed

definition demo_hellos :: "libs \<Rightarrow> demo_inputs \<Rightarrow>
    test_error + bytes \<times> bytes \<times> bytes \<times> bytes \<times> bytes \<times> bytes" where
  "demo_hellos L d =
     and_then (on_crypto (x25519_new L (di_x25519 d))) (\<lambda>x.
     and_then (on_crypto (mlkem_keypair L (di_kem d))) (\<lambda>kp.
     and_then (on_crypto (x25519_public_key L x)) (\<lambda>px.
     and_then (on_wire (serialize_client_hello \<lparr>ch_random = di_random d, ch_x25519 = px, ch_mlkem = public_key kp\<rparr>)) (\<lambda>chf.
     and_then (on_wire (parse_client_hello chf)) (\<lambda>ch.
     and_then (on_crypto (x25519_new L (di_x25519' d))) (\<lambda>y.
     and_then (on_crypto (mlkem_encaps L (di_encaps d) (ch_mlkem ch))) (\<lambda>enc.
     and_then (on_crypto (x25519_public_key L y)) (\<lambda>py.
     and_then (on_wire (serialize_server_hello \<lparr>sh_random = di_random' d, sh_x25519 = py, sh_mlkem_ct = ciphertext enc\<rparr>)) (\<lambda>shf.
     and_then (on_crypto (x25519_compute_shared L y (ch_x25519 ch))) (\<lambda>ssc'.
     and_then (on_wire (parse_server_hello shf)) (\<lambda>sh.
     and_then (on_crypto (x25519_compute_shared L x (sh_x25519 sh))) (\<lambda>ssc.
     and_then (on_crypto (mlkem_decaps L (sh_mlkem_ct sh) (secret_key kp))) (\<lambda>ssq.
       Inr (chf, shf, ssc', shared_secret enc, ssc, ssq))))))))))))))"

definition demo_agreement :: "session_keys \<Rightarrow> session_keys \<Rightarrow> bytes \<times> bytes \<Rightarrow> bytes \<times> bytes \<Rightarrow> nat" where
  "demo_agreement cli srv ss_cli ss_srv =
     check (c2s_key cli \<noteq> s2c_key cli)
       (check (c2s_iv cli = c2s_iv srv \<and> s2c_iv cli = s2c_iv srv)
         (check (c2s_key cli = c2s_key srv \<and> s2c_key cli = s2c_key srv)
           (check (snd ss_cli = snd ss_srv) (check (fst ss_cli = fst ss_srv) 0))))"

definition demo_signatures :: "libs \<Rightarrow> demo_inputs \<Rightarrow> key_pair \<Rightarrow> key_pair \<Rightarrow> bytes \<Rightarrow> bytes \<Rightarrow> nat \<Rightarrow> test_error + nat" where
  "demo_signatures L d server_id client_id hellos th f =
     and_then (on_crypto (mldsa_sign L (di_sign d) th (secret_key server_id))) (\<lambda>sig.
     and_then (on_wire (serialize_server_auth (Server_Auth sig))) (\<lambda>saf.
     and_then (on_crypto (sha256 L (hellos @ saf))) (\<lambda>th2.
     and_then (on_crypto (mldsa_sign L (di_sign' d) th2 (secret_key client_id))) (\<lambda>sig'.
       let f1 = check (mldsa_verify L th sig (public_key server_id)) f;
           f2 = check (mldsa_verify L th2 sig' (public_key client_id)) f1
       in Inr (check (\<not> mldsa_verify L (flip_at 5 th) sig (public_key server_id)) f2)))))"

definition hybrid_demo :: "libs \<Rightarrow> demo_inputs \<Rightarrow> test_error + nat" where
  "hybrid_demo L d =
     and_then (on_crypto (mlkem_new L)) (\<lambda>_.
     and_then (on_crypto (mldsa_new L)) (\<lambda>_.
     and_then (on_crypto (mldsa_keypair L (di_server_id d))) (\<lambda>server_id.
     and_then (on_crypto (mldsa_keypair L (di_client_id d))) (\<lambda>client_id.
     and_then (demo_hellos L d) (\<lambda>(chf, shf, ssc', ssq', ssc, ssq).
     and_then (on_crypto (sha256 L (chf @ shf))) (\<lambda>th.
     and_then (on_crypto (derive_session_keys L ssc' ssq' (di_random d) (di_random' d) th)) (\<lambda>srv.
     and_then (on_crypto (derive_session_keys L ssc ssq (di_random d) (di_random' d) th)) (\<lambda>cli.
       demo_signatures L d server_id client_id (chf @ shf) th
         (demo_agreement cli srv (ssc, ssq) (ssc', ssq'))))))))))"

lemma demo_hellos_agree:
  assumes "libs_available L" "libs_sized L" "kem_correct L" "dh_correct L"
    and "length (di_random d) = 32" "length (di_random' d) = 32"
  obtains chf shf ssc ssq where "demo_hellos L d = Inr (chf, shf, ssc, ssq, ssc, ssq)"
proof -
  obtain x y where x: "evp_x25519_keygen L (di_x25519 d) = Some x" and y: "evp_x25519_keygen L (di_x25519' d) = Some y"
    using avail(6) [OF assms(1)] by metis
  obtain px where px: "evp_x25519_public L x = Some px" "length px = 32"
    using avail(7) [OF assms(1)] by blast
  obtain py where py: "evp_x25519_public L y = Some py" "length py = 32"
    using avail(7) [OF assms(1)] by blast
  obtain pk sk where kp: "oqs_kem_keypair L (di_kem d) = Some (pk, sk)"
    using avail(3) [OF assms(1)] by blast
  obtain ct ssq where en: "oqs_kem_encaps L (di_encaps d) pk = Some (ct, ssq)"
    using avail(4) [OF assms(1)] by blast
  have dec: "oqs_kem_decaps L ct sk = Some ssq"
    using assms(3) kp en unfolding kem_correct_def by blast
  obtain ssc where dh1: "evp_x25519_derive L x py = Some ssc"
    using avail(8) [OF assms(1) py(2)] by blast
  moreover have "evp_x25519_derive L x py = evp_x25519_derive L y px"
    using assms(4) px(1) py(1) unfolding dh_correct_def by blast
  ultimately have dh2: "evp_x25519_derive L y px = Some ssc"
    by metis
  have len: "length pk = kem_public_len L" "length sk = kem_secret_len L" "length ct = kem_ct_len L"
    using sized(1) [OF assms(2) kp] sized(2) [OF assms(2) en] by simp_all
  let ?ch = "\<lparr>ch_random = di_random d, ch_x25519 = px, ch_mlkem = pk\<rparr>"
  let ?sh = "\<lparr>sh_random = di_random' d, sh_x25519 = py, sh_mlkem_ct = ct\<rparr>"
  have v: "valid_client_hello ?ch" "valid_server_hello ?sh"
    using sized(5-8) [OF assms(2)] assms(5,6) px(2) py(2) len
    by (auto simp: valid_client_hello_def valid_server_hello_def wire_consts)
  obtain a where a: "serialize_client_hello ?ch = Inr a" "parse_client_hello a = Inr ?ch"
    using ch.ser_valid [OF v(1)] ch.par_ser [OF v(1)] by blast
  obtain b where b: "serialize_server_hello ?sh = Inr b" "parse_server_hello b = Inr ?sh"
    using sh.ser_valid [OF v(2)] sh.par_ser [OF v(2)] by blast
  have "demo_hellos L d = Inr (a, b, ssc, ssq, ssc, ssq)"
    using len px py
    by (simp add: demo_hellos_def x25519_new_def x y or_throw_def mlkem_keypair_def kp x25519_public_key_def
        X25519_kKeyLen_def a b mlkem_encaps_def en x25519_compute_shared_def dh1 dh2 mlkem_decaps_def dec)
  then show ?thesis
    by (rule that)
qed

text \<open>
  The demo of the handshake's cryptography passes, if the key schedule separates the directions and
  the server's signature does not verify for the altered hash: nothing is thrown and no check fails.
\<close>

theorem hybrid_demo_passes:
  assumes libs: "libs_available L" "libs_sized L" "kem_correct L" "dh_correct L" "sig_correct L"
    and lens: "length (di_random d) = 32" "length (di_random' d) = 32"
    and ids: "oqs_sig_keypair L (di_server_id d) = Some (spk, ssk)" "oqs_sig_keypair L (di_client_id d) = Some (cpk, csk)"
    and separated: "\<And>a b c e th ks. derive_session_keys L a b c e th = Inr ks \<Longrightarrow> c2s_key ks \<noteq> s2c_key ks"
    and hash: "\<And>m h. evp_sha256 L m = Some h \<Longrightarrow> length h = 32"
    and forged: "\<And>th sig. length th = 32 \<Longrightarrow> oqs_sig_sign L (di_sign d) th ssk = Some sig \<Longrightarrow>
      \<not> oqs_sig_verify L (flip_at 5 th) sig spk"
  shows "hybrid_demo L d = Inr 0"
proof -
  obtain chf shf ssc ssq where h: "demo_hellos L d = Inr (chf, shf, ssc, ssq, ssc, ssq)"
    using demo_hellos_agree [OF libs(1-4) lens] .
  obtain th where th: "evp_sha256 L (chf @ shf) = Some th"
    using avail(9) [OF libs(1)] by blast
  obtain ks where ks: "derive_session_keys L ssc ssq (di_random d) (di_random' d) th = Inr ks"
    using avail_keys [OF libs(1)] by blast
  then have agree: "demo_agreement ks ks (ssc, ssq) (ssc, ssq) = 0"
    using separated by (simp add: demo_agreement_def)
  have len: "length spk = sig_public_len L" "length ssk = sig_secret_len L"
    "length cpk = sig_public_len L" "length csk = sig_secret_len L"
    using sized(3) [OF libs(2) ids(1)] sized(3) [OF libs(2) ids(2)] by simp_all
  obtain sig where sig: "oqs_sig_sign L (di_sign d) th ssk = Some sig"
    using avail(5) [OF libs(1)] by blast
  obtain saf where saf: "serialize_server_auth (Server_Auth sig) = Inr saf"
    using sa.ser_valid [of "Server_Auth sig"] sized_signature [OF libs(2) sig] by auto
  obtain th2 where th2: "evp_sha256 L ((chf @ shf) @ saf) = Some th2"
    using avail(9) [OF libs(1)] by blast
  obtain sig' where sig': "oqs_sig_sign L (di_sign' d) th2 csk = Some sig'"
    using avail(5) [OF libs(1)] by blast
  have "oqs_sig_verify L th sig spk" "oqs_sig_verify L th2 sig' cpk"
    using libs(5) ids sig sig' unfolding sig_correct_def by blast+
  then have "demo_signatures L d \<lparr>public_key = spk, secret_key = ssk\<rparr> \<lparr>public_key = cpk, secret_key = csk\<rparr>
      (chf @ shf) th 0 = Inr 0"
    using forged [OF hash [OF th] sig] len th2
    by (simp add: demo_signatures_def mldsa_sign_def sig sig' saf sha256_def or_throw_def mldsa_verify_def Let_def)
  then show ?thesis
    using avail(1,2) [OF libs(1)] agree
    by (simp add: hybrid_demo_def mlkem_new_def mldsa_new_def mldsa_keypair_def ids h sha256_def th or_throw_def ks)
qed

subsection \<open>Concrete instances\<close>

lemma toy_gcm_exact: "gcm_exact toy_libs"
proof -
  have "map (\<lambda>b. b + k) (map (\<lambda>b. b - k) c) = c" for k :: u8 and c
    by (simp add: map_idI)
  moreover have "p = q" if "map (\<lambda>b. b + k) p = map (\<lambda>b. b + k) q" for k :: u8 and p q
    using that by (metis injI inj_map_eq_map add_right_cancel)
  ultimately show ?thesis
    unfolding gcm_exact_def toy_libs_def by (auto simp: Let_def comp_def map_idI split: if_splits)
qed

lemma toy_nonce_bound: "nonce_bound toy_libs key"
proof -
  have "n = n'" if "length n = 12" "length n' = 12" "toy_tag n a p = toy_tag n' a q" for n n' a p q
    using that by (simp add: toy_tag_def)
  moreover have "map (\<lambda>b. b - k) (map (\<lambda>b. b + k) c) = c" for k :: u8 and c
    by (simp add: map_idI)
  ultimately show ?thesis
    unfolding nonce_bound_def toy_libs_def by (auto simp: Let_def)
qed

lemma record_demo_passes_witness: "record_demo toy_libs (replicate 32 1) (replicate 12 0) = Inr 0"
  by (rule record_demo_passes [OF toy_libs_ok(2,6) toy_gcm_exact toy_nonce_bound]) simp_all

text \<open>Libraries whose signatures are the signed text under the key's name.\<close>

definition test_libs :: libs where
  "test_libs = toy_libs\<lparr>sig_max_len := 64,
     oqs_sig_sign := \<lambda>r m sk. Some (first_byte sk # take 32 m),
     oqs_sig_verify := \<lambda>m s pk. s = first_byte pk # take 32 m,
     evp_sha256 := \<lambda>d. Some (take 32 (d @ replicate 32 0)),
     evp_hkdf_expand := \<lambda>p i n. Some (take n (i @ p @ replicate n 0))\<rparr>"

lemma test_libs_ok:
  "libs_available test_libs" "libs_sized test_libs" "kem_correct test_libs" "dh_correct test_libs" "sig_correct test_libs"
proof -
  show "dh_correct test_libs"
    using map2_add_commute by (simp add: dh_correct_def test_libs_def toy_libs_def)
qed (simp_all add: libs_available_def libs_sized_def kem_correct_def sig_correct_def test_libs_def toy_libs_def
    pad32_def toy_tag_def first_byte_def comp_def min_def)

lemma channel_selftest_passes_witness:
  "channel_selftest test_libs \<lparr>ti_kem = 1, ti_encaps = 2, ti_server = 3, ti_client = 4, ti_sign = 5,
     ti_transcript = replicate 200 7, ti_random = replicate 32 0, ti_x25519 = replicate 32 1,
     ti_random' = replicate 32 2, ti_x25519' = replicate 32 3\<rparr> = Inr 0"
proof -
  have "take 32 (flip_at 0 b) = flip_at 0 (take 32 b)" for b
    by (simp add: flip_at_def take_update_swap)
  then have "take 32 (flip_at 0 (replicate 200 7)) \<noteq> take 32 (replicate 200 7)"
    using flip_at_differs [of 0 "take 32 (replicate 200 7)"] by simp
  then show ?thesis
    by (intro channel_selftest_passes [OF test_libs_ok(1-3,5), where spk = "[3]" and ssk = "[3]" and cpk = "[4]" and
          csk = "[4]" and sig = "3 # take 32 (replicate 200 7)"])
      (auto simp: test_libs_def toy_libs_def first_byte_def)
qed

lemma hybrid_demo_passes_witness:
  "hybrid_demo test_libs \<lparr>di_server_id = 1, di_client_id = 2, di_random = replicate 32 0, di_x25519 = 3, di_kem = 4,
     di_random' = replicate 32 1, di_x25519' = 5, di_encaps = 6, di_sign = 7, di_sign' = 8\<rparr> = Inr 0"
proof -
  have keys: "c2s_key ks \<noteq> s2c_key ks" if "derive_session_keys test_libs a b c e th = Inr ks" for a b c e th ks
    using that by (auto simp: derive_session_keys_def hkdf_extract_def hkdf_expand_def test_libs_def toy_libs_def
        or_throw_def label_info_def to_bytes_def byte_of_char_def)
  have forged: "\<not> oqs_sig_verify test_libs (flip_at 5 th) sig [k]"
    if "length th = 32" "oqs_sig_sign test_libs r th [k] = Some sig" for th sig k r
    using that flip_at_differs [of 5 th] by (auto simp: test_libs_def)
  show ?thesis
    by (rule hybrid_demo_passes [OF test_libs_ok, where spk = "[1]" and ssk = "[1]" and cpk = "[2]" and csk = "[2]"])
      (use keys forged in \<open>auto simp: test_libs_def toy_libs_def\<close>)
qed

end
