(* ===== verification/Channel_Demo.thy ===== *)
theory Channel_Demo
  imports Agent
begin

section \<open>The channel end to end\<close>

text \<open>
  \<open>crypto/examples/channel_e2e_demo.cpp\<close>: two processes over a socket, one that connects and sends
  two events, one that accepts, decrypts and prints them.  Each half returns its result and the
  bytes it has sent; the script of what its socket receives is an argument, and the theorem couples
  the two.
\<close>

datatype demo_error = D_socket socket_error | D_handshake hs_error | D_record record_error

subsection \<open>The agent's half\<close>

definition demo_events :: "security_event list" where
  "demo_events =
    [syn_event 0 ''bash'' (U_execve (strncpy_into (zeros PQSEC_FILENAME_LEN) ''/usr/bin/curl'' (PQSEC_FILENAME_LEN - 1))),
     syn_event 0 ''curl''
       (U_tcp \<lparr>daddr = (case inet_pton4 ''185.220.101.1'' of None \<Rightarrow> 0 | Some a \<Rightarrow> a), dport = 443, family = 2\<rparr>)]"

fun send_events :: "libs \<Rightarrow> record_sender \<Rightarrow> security_event list \<Rightarrow> tx list \<Rightarrow> (demo_error + unit) \<times> bytes" where
  "send_events L s [] tx = (Inr (), [])"
| "send_events L s (ev # evs) tx =
     (case seal L s (event_image ev) of
        (Inl e, s') \<Rightarrow> (Inl (D_record e), [])
      | (Inr rec, s') \<Rightarrow>
          (case send_record rec tx of
             (Inl e, out, tx') \<Rightarrow> (Inl (D_socket e), out)
           | (Inr _, out, tx') \<Rightarrow>
               let (res, more) = send_events L s' evs tx' in (res, out @ more)))"

text \<open>The transport of a connection, as in the daemon.\<close>

definition socket_transport :: "connection \<Rightarrow> transport \<times> rx list" where
  "socket_transport c =
     (let (f1, s1) = recv_frame (conn_rx c); (f2, s2) = recv_frame s1
      in (\<lparr>t_in = [f1, f2], t_out = [], t_send_fails = conn_send_fails c\<rparr>, s2))"

definition run_agent :: "libs \<Rightarrow> identity \<Rightarrow> connection \<Rightarrow> tx list \<Rightarrow> (demo_error + unit) \<times> bytes" where
  "run_agent L i c tx =
     (case client_handshake L i (conn_seeds c) (fst (socket_transport c)) of
        (Inl e, t) \<Rightarrow> (Inl (D_handshake e), concat (t_out t))
      | (Inr ch, t) \<Rightarrow>
          let (res, out) = send_events L (chan_sender ch) demo_events tx in (res, concat (t_out t) @ out))"

subsection \<open>The analyzer's half\<close>

text \<open>The lines printed, with their numbers and arguments.\<close>

datatype demo_line = Exec_line nat u32 string string | Connect_line nat u32 string string u16

definition decoded_line :: "nat \<Rightarrow> security_event \<Rightarrow> demo_line option" where
  "decoded_line n ev =
     (case ev_u ev of
        U_execve f \<Rightarrow> Some (Exec_line n (ev_pid ev) (cstr (ev_comm ev)) (cstr f))
      | U_tcp t \<Rightarrow> Some (Connect_line n (ev_pid ev) (cstr (ev_comm ev)) (inet_ntop4 (daddr t)) (dport t))
      | _ \<Rightarrow> None)"

function decode_loop ::
  "libs \<Rightarrow> record_receiver \<Rightarrow> rx list \<Rightarrow> nat \<Rightarrow> (demo_error + nat) \<times> demo_line list" where
  "decode_loop L r s count =
     (case recv_record s of
        (Inl e, s') \<Rightarrow> (Inl (D_socket e), [])
      | (Inr rec, s') \<Rightarrow>
          if rec = [] then (Inr count, [])
          else (case open_record L r rec of
                  (Inl e, r') \<Rightarrow> (Inl (D_record e), [])
                | (Inr pt, r') \<Rightarrow>
                    if length pt < sizeof_security_event then decode_loop L r' s' count
                    else (case decoded_line (Suc count) (event_of_image pt) of
                            None \<Rightarrow> decode_loop L r' s' count
                          | Some line \<Rightarrow>
                              let (res, lines) = decode_loop L r' s' (Suc count) in (res, line # lines))))"
  by pat_completeness auto
termination
  by (relation "measure (\<lambda>(L, r, s, count). rx_weight s)") (auto intro: recv_record_weight [OF sym])

declare decode_loop.simps [simp del]

definition run_analyzer :: "libs \<Rightarrow> identity \<Rightarrow> connection \<Rightarrow> (demo_error + nat) \<times> demo_line list \<times> bytes" where
  "run_analyzer L i c =
     (let (t, s) = socket_transport c
      in case server_handshake L i (conn_seeds c) t of
           (Inl e, t') \<Rightarrow> (Inl (D_handshake e), [], concat (t_out t'))
         | (Inr ch, t') \<Rightarrow>
             let (res, lines) = decode_loop L (chan_receiver ch) s 0 in (res, lines, concat (t_out t')))"

text \<open>The status of \<open>main\<close>: 1 if either process failed.\<close>

definition demo_status :: "demo_error + unit \<Rightarrow> demo_error + nat \<Rightarrow> nat" where
  "demo_status agent analyzer = (if isl analyzer \<or> isl agent then 1 else 0)"

text \<open>
  \<open>main\<close>: two key pairs, two processes.  The status, the lines printed, and what each process sent.
\<close>

definition channel_e2e_demo ::
  "libs \<Rightarrow> seed \<Rightarrow> seed \<Rightarrow> connection \<Rightarrow> tx list \<Rightarrow> connection \<Rightarrow> crypto_error + nat \<times> demo_line list \<times> bytes \<times> bytes" where
  "channel_e2e_demo L ra rb ca tx cb =
     and_then (mldsa_new L) (\<lambda>_.
     and_then (mldsa_keypair L ra) (\<lambda>agent_id.
     and_then (mldsa_keypair L rb) (\<lambda>analyzer_id.
       let (res_a, sent_a) = run_agent L \<lparr>sig_public = public_key agent_id, sig_secret = secret_key agent_id,
             peer_sig_public = public_key analyzer_id\<rparr> ca tx;
           (res_b, lines, sent_b) = run_analyzer L \<lparr>sig_public = public_key analyzer_id,
             sig_secret = secret_key analyzer_id, peer_sig_public = public_key agent_id\<rparr> cb
       in Inr (demo_status res_a res_b, lines, sent_a, sent_b))))"

subsection \<open>What is sent is printed\<close>

lemma write_all_no_error:
  "Tx_error \<notin> set s \<Longrightarrow> \<exists>s'. write_all p s = (Inr (), p, s') \<and> Tx_error \<notin> set s'"
proof (induction s arbitrary: p)
  case (Cons x s)
  obtain s' where "write_all p s = (Inr (), p, s')" "Tx_error \<notin> set s'"
    using Cons by auto
  moreover obtain s2 where "write_all (drop k p) s = (Inr (), drop k p, s2)" "Tx_error \<notin> set s2"
    if "x = Tx_accept k" for k
    using Cons by (cases x) auto
  ultimately show ?case
    using Cons.prems by (cases x) force+
qed simp

lemma seal_available:
  assumes "libs_available L" and "snd_seq s \<noteq> seq_max" and "length p \<le> 0xffff - 16"
  shows "\<exists>rec. seal L s p = (Inr rec, s\<lparr>snd_seq := snd_seq s + 1\<rparr>)"
proof -
  have "evp_gcm_encrypt L k n a p \<noteq> None" for k n a
    using assms(1) unfolding libs_available_def by blast
  then obtain ct tag where "evp_gcm_encrypt L (snd_key s) (make_nonce (snd_iv s) (snd_seq s))
      (record_header (length p + 16)) p = Some (ct, tag)"
    by (metis option.exhaust prod.exhaust)
  then show ?thesis
    using assms(2,3) by (simp add: seal_def aes_gcm_seal_def record_consts Let_def)
qed

fun decoded_lines :: "nat \<Rightarrow> security_event list \<Rightarrow> demo_line list" where
  "decoded_lines n [] = []"
| "decoded_lines n (e # es) = the (decoded_line (Suc n) e) # decoded_lines (Suc n) es"

lemma sent_is_decoded:
  assumes "libs_available L" and "records_in_step L sd r" and "unat (snd_seq sd) + length evs < 2 ^ 64 - 1"
    and "\<forall>e \<in> set evs. wf_event e \<and> (\<forall>n. decoded_line n e \<noteq> None)"
  shows "\<exists>out. (\<forall>tx. Tx_error \<notin> set tx \<longrightarrow> send_events L sd evs tx = (Inr (), out)) \<and>
    (\<forall>s n. clean_script s \<and> stream s = out \<longrightarrow> decode_loop L r s n = (Inr (n + length evs), decoded_lines n evs))"
  using assms(2-)
proof (induction evs arbitrary: sd r)
  case Nil
  have "decode_loop L r s n = (Inr n, [])" if "clean_script s" "stream s = []" for s n
    using rf.end_law [OF that] by (cases "recv_record s") (simp add: decode_loop.simps)
  then show ?case
    by (intro exI [of _ "[]"]) simp
next
  case (Cons e evs)
  have seq: "snd_seq sd \<noteq> seq_max" "unat (snd_seq sd + 1) = Suc (unat (snd_seq sd))"
    using Cons.prems(2) by (auto simp: seq_max_def unat_word_ariths unsigned_minus_1_eq_mask mask_eq_exp_minus_1)
  have e: "wf_event e" "\<And>n. decoded_line n e \<noteq> None"
    using Cons.prems(3) by simp_all
  have len: "length (event_image e) = 272"
    using e(1) by (simp add: length_event_image sizeof_272)
  obtain rec where seal: "seal L sd (event_image e) = (Inr rec, sd\<lparr>snd_seq := snd_seq sd + 1\<rparr>)"
    using seal_available [OF assms(1) seq(1), of "event_image e"] len by auto
  obtain r' where o: "open_record L r rec = (Inr (event_image e), r')"
    and step: "records_in_step L (sd\<lparr>snd_seq := snd_seq sd + 1\<rparr>) r'"
    using rl.step_law [OF Cons.prems(1) seal] by blast
  obtain out where out: "\<forall>tx. Tx_error \<notin> set tx \<longrightarrow> send_events L (sd\<lparr>snd_seq := snd_seq sd + 1\<rparr>) evs tx = (Inr (), out)"
    and ih: "\<forall>s n. clean_script s \<and> stream s = out \<longrightarrow>
      decode_loop L r' s n = (Inr (n + length evs), decoded_lines n evs)"
    using Cons.IH [OF step] Cons.prems(2,3) seq(2) by auto
  have "libs_sized L"
    using Cons.prems(1) by (simp add: records_in_step_def)
  then have rec: "delimited_record rec"
    using seal_all_delimited [of L sd "[event_image e]"] by (simp add: seal_all_def seal)
  have img: "event_of_image (event_image e) = e"
    using event_of_image_event_image [OF e(1), of "[]"] by simp
  have "decode_loop L r s n = (Inr (n + length (e # evs)), decoded_lines n (e # evs))"
    if s: "clean_script s" "stream s = rec @ out" for s n
  proof -
    obtain s' where s': "recv_record s = (Inr rec, s')" "clean_script s'" "stream s' = out"
      using rf.recv_law [OF s rec] by blast
    obtain line where "decoded_line (Suc n) e = Some line"
      using e(2) by blast
    moreover have "rec \<noteq> []"
      using rec by (auto simp: delimited_record_def)
    ultimately show ?thesis
      using ih [rule_format, of s' "Suc n"] s' len
      by (subst decode_loop.simps) (simp add: o img sizeof_272)
  qed
  moreover have "send_events L sd (e # evs) tx = (Inr (), rec @ out)" if no: "Tx_error \<notin> set tx" for tx
  proof -
    obtain tx' where "send_record rec tx = (Inr (), rec, tx')" "Tx_error \<notin> set tx'"
      using write_all_no_error [OF no] by (auto simp: send_record_def)
    then show ?thesis
      using out by (simp add: seal)
  qed
  ultimately show ?case
    by blast
qed

lemma demo_events_wf: "\<forall>e \<in> set demo_events. wf_event e \<and> (\<forall>n. decoded_line n e \<noteq> None)"
proof -
  have "wf_event (syn_event 0 comm u)" if "wf_payload u" for comm u
    using that unfolding syn_event_def by (intro wf_event_with) (simp_all add: event_consts length_strncpy)
  then show ?thesis
    by (simp add: demo_events_def decoded_line_def event_consts length_strncpy) (simp add: syn_event_def)
qed

lemma demo_events_lines:
  "decoded_lines 0 demo_events =
     [Exec_line 1 4242 ''bash'' ''/usr/bin/curl'', Connect_line 2 4242 ''curl'' ''185.220.101.1'' 443]"
proof -
  have "cstr (strncpy_into (zeros 16) s 15) = s" if "nul \<notin> set s" "length s < 16" for s
    using cstr_strncpy_zeros [of 15 s] that by (simp add: cstr_id)
  moreover have "cstr (strncpy_into (zeros 128) ''/usr/bin/curl'' 127) = ''/usr/bin/curl''"
    using cstr_strncpy_zeros [of 127 "''/usr/bin/curl''"] by (simp add: cstr_id nul_def)
  moreover have "inet_pton4 ''185.220.101.1'' = Some 0x0165DCB9" "inet_ntop4 0x0165DCB9 = ''185.220.101.1''"
    by (simp_all add: inet_pton4_def inet_ntop4_def octet_def dec_nat.simps cstr_id nul_def is_digit_def digit_val_def)
  ultimately show ?thesis
    by (simp add: demo_events_def decoded_line_def syn_event_def event_consts nul_def)
qed

text \<open>
  The demo succeeds.  With working libraries there are two byte streams such that, if each process
  receives the one the other has sent, in whatever pieces, and sending does not fail, then both
  send exactly these streams, the analyzer prints the two events as they were built, and the status
  is 0.
\<close>

theorem channel_demo_succeeds:
  assumes libs: "libs_available L" "libs_sized L" "kem_correct L" "dh_correct L" "sig_correct L" "gcm_correct L"
    and keys: "oqs_sig_keypair L ra = Some (apk, ask)" "oqs_sig_keypair L rb = Some (bpk, bsk)"
  shows "\<exists>up down. \<forall>rxa rxb tx. clean_script rxa \<and> stream rxa = down \<and> clean_script rxb \<and> stream rxb = up \<and>
      Tx_error \<notin> set tx \<longrightarrow>
    channel_e2e_demo L ra rb \<lparr>conn_rx = rxa, conn_seeds = sda, conn_send_fails = \<lambda>_. None\<rparr> tx
        \<lparr>conn_rx = rxb, conn_seeds = sdb, conn_send_fails = \<lambda>_. None\<rparr> =
      Inr (0, [Exec_line 1 4242 ''bash'' ''/usr/bin/curl'', Connect_line 2 4242 ''curl'' ''185.220.101.1'' 443], up, down)"
proof -
  let ?ia = "\<lparr>sig_public = apk, sig_secret = ask, peer_sig_public = bpk\<rparr>"
  let ?ib = "\<lparr>sig_public = bpk, sig_secret = bsk, peer_sig_public = apk\<rparr>"
  have honest: "honest_identities L ?ia ?ib"
    using keys by (auto simp: honest_identities_def)
  obtain c s caf mid where c: "client_sent L sda c" "sv_ch_frame s = cl_frame c"
    and acc: "client_accepts L ?ia sda c (sv_sh_frame s) (sv_sa_frame s) caf (sv_keys s)"
    and client: "client_handshake L ?ia sda (fresh_transport [sv_sh_frame s, sv_sa_frame s]) =
      (Inr (client_channel (sv_keys s)), finished_transport [cl_frame c, caf])"
    and start: "server_start L ?ib sdb (fresh_transport [cl_frame c, caf]) = (Inr s, mid)"
    and finish: "server_finish L ?ib s mid =
      (Inr (server_channel (sv_keys s)), finished_transport [sv_sh_frame s, sv_sa_frame s])"
    by (rule honest_run [OF libs(1-5) honest])
  have server: "server_handshake L ?ib sdb (fresh_transport [cl_frame c, caf]) =
      (Inr (server_channel (sv_keys s)), finished_transport [sv_sh_frame s, sv_sa_frame s])"
    unfolding server_handshake_Inr using start finish by blast
  have frames: "delimited_frame (cl_frame c)" "delimited_frame caf" "delimited_frame (sv_sh_frame s)"
    "delimited_frame (sv_sa_frame s)"
    using client_frames_delimited [OF c(1)] acc ca.ser_delimited start server_frames_delimited
    unfolding server_start_Inr by (auto simp: client_accepts_def)
  let ?sd = "chan_sender (client_channel (sv_keys s))" and ?r = "chan_receiver (server_channel (sv_keys s))"
  have "records_in_step L ?sd ?r" "unat (snd_seq ?sd) + length demo_events < 2 ^ 64 - 1"
    using libs(2,6) by (auto simp: records_in_step_def client_channel_def server_channel_def demo_events_def)
  then obtain out where out: "\<forall>tx. Tx_error \<notin> set tx \<longrightarrow> send_events L ?sd demo_events tx = (Inr (), out)"
    and dec: "\<forall>s n. clean_script s \<and> stream s = out \<longrightarrow>
      decode_loop L ?r s n = (Inr (n + length demo_events), decoded_lines n demo_events)"
    using sent_is_decoded [OF libs(1) _ _ demo_events_wf] by blast
  have tr: "\<exists>s'. socket_transport \<lparr>conn_rx = rx, conn_seeds = sd, conn_send_fails = \<lambda>_. None\<rparr> = (fresh_transport [f, g], s') \<and>
      clean_script s' \<and> stream s' = rest"
    if rx: "clean_script rx" "stream rx = f @ g @ rest" and fg: "delimited_frame f" "delimited_frame g" for rx sd f g rest
  proof -
    obtain s1 where s1: "recv_frame rx = (Inr f, s1)" "clean_script s1" "stream s1 = g @ rest"
      using hf.recv_law [OF rx fg(1)] by blast
    obtain s2 where "recv_frame s1 = (Inr g, s2)" "clean_script s2" "stream s2 = rest"
      using hf.recv_law [OF s1(2,3) fg(2)] by blast
    then show ?thesis
      using s1(1) by (simp add: socket_transport_def fresh_transport_def)
  qed
  have agent: "run_agent L ?ia \<lparr>conn_rx = rx, conn_seeds = sda, conn_send_fails = \<lambda>_. None\<rparr> tx =
      (Inr (), cl_frame c @ caf @ out)"
    if "clean_script rx" "stream rx = sv_sh_frame s @ sv_sa_frame s" "Tx_error \<notin> set tx" for rx tx
    using tr [where rest = "[]" and sd = sda, OF that(1) _ frames(3,4)] that(2,3) client out
    by (auto simp: run_agent_def finished_transport_def)
  have analyzer: "run_analyzer L ?ib \<lparr>conn_rx = rx, conn_seeds = sdb, conn_send_fails = \<lambda>_. None\<rparr> =
      (Inr (length demo_events), decoded_lines 0 demo_events, sv_sh_frame s @ sv_sa_frame s)"
    if "clean_script rx" "stream rx = cl_frame c @ caf @ out" for rx
    using tr [where sd = sdb, OF that frames(1,2)] server dec
    by (auto simp: run_analyzer_def finished_transport_def)
  have len: "length apk = sig_public_len L" "length ask = sig_secret_len L"
    "length bpk = sig_public_len L" "length bsk = sig_secret_len L"
    using sized(3) [OF libs(2) keys(1)] sized(3) [OF libs(2) keys(2)] by simp_all
  show ?thesis
    by (intro exI [of _ "cl_frame c @ caf @ out"] exI [of _ "sv_sh_frame s @ sv_sa_frame s"])
      (simp add: channel_e2e_demo_def mldsa_new_def mldsa_keypair_def avail(2) [OF libs(1)] or_throw_def keys
        agent analyzer demo_events_lines demo_status_def)
qed

lemma channel_demo_succeeds_witness:
  "\<exists>up down. \<forall>rxa rxb tx. clean_script rxa \<and> stream rxa = down \<and> clean_script rxb \<and> stream rxb = up \<and>
      Tx_error \<notin> set tx \<longrightarrow>
    channel_e2e_demo toy_libs 1 2 \<lparr>conn_rx = rxa, conn_seeds = toy_seeds 3, conn_send_fails = \<lambda>_. None\<rparr> tx
        \<lparr>conn_rx = rxb, conn_seeds = toy_seeds 4, conn_send_fails = \<lambda>_. None\<rparr> =
      Inr (0, [Exec_line 1 4242 ''bash'' ''/usr/bin/curl'', Connect_line 2 4242 ''curl'' ''185.220.101.1'' 443], up, down)"
  by (rule channel_demo_succeeds [OF toy_libs_ok, where apk = "[1]" and ask = "[1]" and bpk = "[2]" and bsk = "[2]"])
    (simp_all add: toy_libs_def)

end
