(* ===== verification/Analyzer_Selftest.thy ===== *)
theory Analyzer_Selftest
  imports Agent
begin

section \<open>The analyzer's own test\<close>

text \<open>
  \<open>analyzer/src/analyzer_selftest.cpp\<close>: seventeen events through the pipeline with the mock client,
  every event branch, every tier, the chain and the beacon.  The program prints the outcomes without
  checking them; here they are computed.
\<close>

subsection \<open>Events\<close>

definition test_event :: "string \<Rightarrow> u32 \<Rightarrow> u32 \<Rightarrow> payload \<Rightarrow> security_event" where
  "test_event comm pid ppid u =
     zero_event\<lparr>ev_pid := pid, ev_ppid := ppid,
       ev_comm := strncpy_into (zeros PQSEC_COMM_LEN) comm (PQSEC_COMM_LEN - 1), ev_u := u\<rparr>"

definition make_execve :: "string \<Rightarrow> string \<Rightarrow> u32 \<Rightarrow> u32 \<Rightarrow> security_event" where
  "make_execve comm path pid ppid =
     test_event comm pid ppid (U_execve (strncpy_into (zeros PQSEC_FILENAME_LEN) path (PQSEC_FILENAME_LEN - 1)))"

text \<open>The result of \<open>inet_pton\<close> is not looked at: a text that is no address leaves 0.\<close>

definition make_tcp :: "string \<Rightarrow> string \<Rightarrow> u16 \<Rightarrow> u32 \<Rightarrow> u32 \<Rightarrow> security_event" where
  "make_tcp comm ip port pid ppid =
     test_event comm pid ppid
       (U_tcp \<lparr>daddr = (case inet_pton4 ip of None \<Rightarrow> 0 | Some a \<Rightarrow> a), dport = port, family = 2\<rparr>)"

definition selftest_events :: "security_event list" where
  "selftest_events =
    [make_execve ''bash'' ''/usr/bin/ls'' 1234 1000,
     make_execve ''bash'' ''/tmp/xmrig'' 1234 1000,
     make_execve ''bash'' ''/usr/bin/nc'' 1234 1000,
     make_execve ''bash'' ''/usr/bin/curl'' 1234 1000,
     make_execve ''bash'' ''/usr/local/bin/myapp'' 1234 1000,
     make_tcp ''app'' ''10.0.0.5'' 443 1234 1000,
     make_tcp ''curl'' ''185.220.101.1'' 443 1234 1000,
     make_tcp ''beacon'' ''45.9.148.99'' 4444 1234 1000,
     make_execve ''bash'' ''/usr/bin/curl'' 7001 7000,
     make_execve ''bash'' ''/tmp/.cache-x/sysupdate'' 7002 7000,
     make_execve ''bash'' ''/tmp/other'' 7003 8000,
     make_tcp ''implant'' ''198.51.100.7'' 4444 7010 7000,
     make_tcp ''implant'' ''198.51.100.7'' 4444 7010 7000,
     make_tcp ''implant'' ''198.51.100.7'' 4444 7010 7000,
     make_tcp ''updater'' ''203.0.113.9'' 443 7020 7000,
     make_tcp ''updater'' ''203.0.113.9'' 443 7020 7000,
     make_tcp ''updater'' ''203.0.113.9'' 443 7020 7000]"

definition analyzer_selftest :: "emitted list" where
  "analyzer_selftest = fst (process_all selftest_events mock_client ((), default_correlator))"

subsection \<open>One event\<close>

text \<open>The layer and the severity of what is raised.\<close>

definition graded :: "outcome \<Rightarrow> layer \<times> severity option" where
  "graded out = (o_layer out, if o_alerted out then Some (a_severity (o_alert out)) else None)"

definition grade :: "correlation_hit \<Rightarrow> prefilter_result \<Rightarrow> bool \<Rightarrow> layer \<times> severity option" where
  "grade h pr suspicious =
     (if hit h then (if pr_decision pr = Raise then (L_RuleCorrelation, Some (max (pr_severity pr) (h_severity h)))
                     else (L_CorrelationSonnet, Some (max Medium (h_severity h))))
      else case pr_decision pr of
             Drop \<Rightarrow> (L_Drop, None)
           | Raise \<Rightarrow> (L_Rule, Some (pr_severity pr))
           | Escalate \<Rightarrow> if suspicious then (L_Sonnet, Some Medium) else (L_HaikuNormal, None))"

fun grades :: "security_event list \<Rightarrow> correlator \<Rightarrow> (layer \<times> severity option) list" where
  "grades [] c = []"
| "grades (e # es) c =
     (let (h, c') = observe c e in grade h (prefilter e) (mock_suspicious (event_summary e)) # grades es c')"

lemma graded_classify:
  assumes "\<not> is_notice e"
  shows "graded (fst (classify_event e mock_client ((), c))) =
    grade (fst (observe c e)) (prefilter e) (mock_suspicious (event_summary e))"
proof -
  have mock: "c_severity (mock_deep_analyze t) = Medium" "(c_verdict (mock_classify t) = Normal) = (\<not> mock_suspicious t)" for t
    by (simp_all add: mock_deep_analyze_def mock_classify_def Let_def)
  show ?thesis
    using assms
    by (cases rule: classify_cases [where ev = e and corr = c])
      (auto simp: classify_simps graded_def grade_def mock_client_def correlated_outcome_def escalated_outcome_def mock Let_def)
qed

lemma graded_all:
  assumes "\<forall>e \<in> set es. \<not> is_notice e"
  shows "map graded (classify_all es mock_client ((), c)) = grades es c"
  using assms
proof (induction es arbitrary: c)
  case (Cons e es)
  have "snd (classify_event e mock_client ((), c)) = ((), snd (observe c e))"
    using classify_correlator [of e mock_client "()" c] by (metis prod.collapse unit_eq)
  then show ?case
    using Cons graded_classify [of e c] by (simp add: case_prod_unfold Let_def)
qed simp

lemma printable_cstr: "printable s n = map printable_char (take n (cstr s))"
  by (induction s n rule: printable.induct) (simp_all add: cstr_def)

text \<open>What the analyzer sees of the events.\<close>

lemma test_event_fields:
  assumes "nul \<notin> set comm" and "length comm < 16" and "list_all (\<lambda>c. printable_char c = c) comm"
  shows "ev_u (test_event comm pid ppid u) = u" "ev_ts_ns (test_event comm pid ppid u) = 0"
    "cstr (ev_comm (test_event comm pid ppid u)) = comm"
    "printable (ev_comm (test_event comm pid ppid u)) 16 = comm"
    "1 < ppid \<Longrightarrow> ancestor_set (test_event comm pid ppid u) = [ppid]"
    "anc_pid (ev_anc (test_event comm pid ppid u) ! 0) = 0" "anc_comm (ev_anc (test_event comm pid ppid u) ! 0) ! 0 = nul"
proof -
  have c: "cstr (strncpy_into (zeros 16) comm 15) = comm"
    using cstr_strncpy_zeros [of 15 comm] assms(1,2) by (simp add: cstr_id)
  then show "cstr (ev_comm (test_event comm pid ppid u)) = comm"
    by (simp add: test_event_def event_consts)
  show "printable (ev_comm (test_event comm pid ppid u)) 16 = comm"
    using c assms(2,3) printable_cstr [of "strncpy_into (zeros 16) comm 15" 16]
    by (simp add: test_event_def event_consts map_idI list_all_iff)
qed (simp_all add: test_event_def zero_event_def event_consts ancestor_set_def zero_ancestor_def numeral_eq_Suc zeros_def)

subsection \<open>Runs\<close>

definition plain_text :: "string \<Rightarrow> bool" where
  "plain_text s \<longleftrightarrow> list_all (\<lambda>c. c \<noteq> nul \<and> printable_char c = c) s"

lemma plain_textD:
  assumes "plain_text s"
  shows "nul \<notin> set s" "list_all (\<lambda>c. printable_char c = c) s" "map printable_char s = s" "cstr s = s"
proof -
  show n: "nul \<notin> set s" and "list_all (\<lambda>c. printable_char c = c) s" "map printable_char s = s"
    using assms by (auto simp: plain_text_def list_all_iff map_idI)
  show "cstr s = s"
    using n by (rule cstr_id)
qed

text \<open>A correlator with the default window and no staged files.\<close>

definition corr_with :: "lineage list \<Rightarrow> (conn_key \<times> u64 list) list \<Rightarrow> correlator" where
  "corr_with ds cs = default_correlator\<lparr>downloads := ds, conns := cs\<rparr>"

lemma corr_with_fields:
  "window_ns (corr_with ds cs) = 60000000000" "beacon_threshold (corr_with ds cs) = 3" "staged (corr_with ds cs) = []"
  "downloads (corr_with ds cs) = ds" "conns (corr_with ds cs) = cs"
  "(corr_with ds cs)\<lparr>downloads := ds'\<rparr> = corr_with ds' cs" "(corr_with ds cs)\<lparr>conns := cs'\<rparr> = corr_with ds cs'"
  by (simp_all add: corr_with_def default_correlator_def new_correlator_def)

lemma not_expired_0 [simp]: "\<not> expired w 0 t"
  by (simp add: expired_def)

lemma drop_expired_0: "drop_expired c 0 ds = ds"
  by (cases ds) (simp_all add: drop_expired_def)

definition exec_summary :: "string \<Rightarrow> string \<Rightarrow> string" where
  "exec_summary comm path = ''execve comm='' @ comm @ '' file='' @ path"

lemma exec_step:
  assumes "plain_text comm" "length comm < 16" "plain_text path" "length path < 128" "1 < ppid"
    and "length ds < 64"
  shows "grades (make_execve comm path pid ppid # es) (corr_with ds cs) =
    (if after_last_slash path \<in> set kDownloaders
     then grade no_hit (prefilter_execve path) (mock_suspicious (exec_summary comm path)) #
       grades es (corr_with (ds @ [\<lparr>l_ts = 0, l_anc = [ppid], l_comm = after_last_slash path\<rparr>]) cs)
     else grade (if is_temp_path path then find_shared 0 [ppid] ds else no_hit) (prefilter_execve path)
         (mock_suspicious (exec_summary comm path)) # grades es (corr_with ds cs))"
proof -
  let ?e = "make_execve comm path pid ppid" and ?f = "strncpy_into (zeros 128) path 127"
  note t = plain_textD [OF assms(1)] and p = plain_textD [OF assms(3)]
  note f = test_event_fields [OF t(1) assms(2) t(2)]
  have c: "cstr ?f = path"
    using cstr_strncpy_zeros [of 127 path] assms(4) p(4) by simp
  have u: "ev_u ?e = U_execve ?f" "ev_ts_ns ?e = 0" "ancestor_set ?e = [ppid]"
    using f assms(5) by (simp_all add: make_execve_def event_consts)
  have pf: "prefilter ?e = prefilter_execve path"
    by (simp add: prefilter_def u prefilter_execve_def basename_of_def c p(4))
  have "printable ?f 128 = path"
    using printable_cstr [of ?f 128] assms(4) c p(3) by simp
  then have "summary_text ?e = exec_summary comm path"
    using f(4) by (simp add: summary_text_def u event_consts exec_summary_def)
      (simp add: make_execve_def event_consts)
  moreover have "length (exec_summary comm path) < 256"
    using assms(2,4) by (simp add: exec_summary_def)
  ultimately have sum: "event_summary ?e = exec_summary comm path"
    using f(6,7) by (simp add: event_summary_def snprintf_fits make_execve_def event_consts)
  have "observe (corr_with ds cs) ?e =
    (if after_last_slash path \<in> set kDownloaders
     then (no_hit, corr_with (ds @ [\<lparr>l_ts = 0, l_anc = [ppid], l_comm = after_last_slash path\<rparr>]) cs)
     else (if is_temp_path path then find_shared 0 [ppid] ds else no_hit, corr_with ds cs))"
    using assms(6)
    by (simp add: observe_def u observe_execve_def drop_expired_0 corr_with_fields basename_of_def c push_bounded_def
        staged_hit_def corr_consts Let_def)
  then show ?thesis
    by (simp add: pf sum)
qed

definition tcp_summary :: "string \<Rightarrow> string \<Rightarrow> u16 \<Rightarrow> string" where
  "tcp_summary comm ip port = ''connect comm='' @ comm @ '' dst='' @ ip @ '':'' @ dec_nat (unat port)"

text \<open>A hit of the beacon rule, of which the grade shows the severity.\<close>

definition high_hit :: correlation_hit where
  "high_hit = \<lparr>hit = True, h_severity = High, h_rule = [], h_reason = []\<rparr>"

lemma tcp_step:
  assumes "plain_text comm" "length comm < 16" "inet_pton4 ip = Some a" "inet_ntop4 a = ip" "length ip < 16"
    and "length (dec_nat (unat port)) < 6" "length h < 255" "length cs < 4096"
    and "h = (case map_of cs (comm, a, port) of None \<Rightarrow> [] | Some h \<Rightarrow> h)"
  shows "grades (make_tcp comm ip port pid ppid # es) (corr_with ds cs) =
    (if is_private_ipv4 a
     then grade no_hit (prefilter_tcp \<lparr>daddr = a, dport = port, family = 2\<rparr>)
         (mock_suspicious (tcp_summary comm ip port)) # grades es (corr_with ds cs)
     else grade (if length h < 2 then no_hit else high_hit) (prefilter_tcp \<lparr>daddr = a, dport = port, family = 2\<rparr>)
         (mock_suspicious (tcp_summary comm ip port)) # grades es (corr_with ds (AList.update (comm, a, port) (h @ [0]) cs)))"
proof -
  let ?e = "make_tcp comm ip port pid ppid" and ?t = "\<lparr>daddr = a, dport = port, family = 2\<rparr>"
  note t = plain_textD [OF assms(1)]
  note f = test_event_fields [OF t(1) assms(2) t(2)]
  have u: "ev_u ?e = U_tcp ?t" "ev_ts_ns ?e = 0" "cstr (ev_comm ?e) = comm"
    using f assms(3) by (simp_all add: make_tcp_def)
  have "summary_text ?e = tcp_summary comm ip port"
    using f(4) by (simp add: summary_text_def u event_consts tcp_summary_def assms(4)) (simp add: make_tcp_def)
  moreover have "length (tcp_summary comm ip port) < 256"
    using assms(2,5,6) by (simp add: tcp_summary_def)
  ultimately have sum: "event_summary ?e = tcp_summary comm ip port"
    using f(6,7) by (simp add: event_summary_def snprintf_fits make_tcp_def)
  have len: "length (AList.update (comm, a, port) x cs) \<le> Suc (length cs)" for x
    by (induction cs) auto
  have "next_hist (corr_with ds cs) (comm, a, port) 0 = h @ [0]"
    using assms(7,9) by (cases h) (simp_all add: next_hist_def hist_of_def corr_with_fields push_bounded_def corr_consts Let_def)
  then have "observe (corr_with ds cs) ?e =
    (if is_private_ipv4 a then (no_hit, corr_with ds cs)
     else (if length h < 2 then no_hit else beacon_hit (corr_with ds cs) comm ?t (Suc (length h)),
       corr_with ds (AList.update (comm, a, port) (h @ [0]) cs)))"
    using len [of "h @ [0]"] assms(8)
    by (auto simp: observe_def u observe_connect_def corr_with_fields corr_consts Let_def)
  moreover have "prefilter ?e = prefilter_tcp ?t"
    by (simp add: prefilter_def u)
  ultimately show ?thesis
    by (simp add: sum beacon_hit_def high_hit_def grade_def)
qed

text \<open>The addresses of the test.\<close>

lemma test_addresses:
  "inet_pton4 ''10.0.0.5'' = Some 0x0500000A" "inet_pton4 ''185.220.101.1'' = Some 0x0165DCB9"
  "inet_pton4 ''45.9.148.99'' = Some 0x6394092D" "inet_pton4 ''198.51.100.7'' = Some 0x076433C6"
  "inet_pton4 ''203.0.113.9'' = Some 0x097100CB"
  "inet_ntop4 0x0500000A = ''10.0.0.5''" "inet_ntop4 0x0165DCB9 = ''185.220.101.1''"
  "inet_ntop4 0x6394092D = ''45.9.148.99''" "inet_ntop4 0x076433C6 = ''198.51.100.7''"
  "inet_ntop4 0x097100CB = ''203.0.113.9''"
  by (simp_all add: inet_pton4_def inet_ntop4_def octet_def dec_nat.simps cstr_id nul_def is_digit_def digit_val_def)

lemma test_ports: "dec_nat 443 = ''443''" "dec_nat 4444 = ''4444''"
  by (simp_all add: dec_nat.simps)

lemma test_texts:
  "plain_text ''bash''" "plain_text ''app''" "plain_text ''curl''" "plain_text ''beacon''" "plain_text ''implant''"
  "plain_text ''updater''" "plain_text ''/usr/bin/ls''" "plain_text ''/tmp/xmrig''" "plain_text ''/usr/bin/nc''"
  "plain_text ''/usr/bin/curl''" "plain_text ''/usr/local/bin/myapp''" "plain_text ''/tmp/.cache-x/sysupdate''"
  "plain_text ''/tmp/other''"
  by (simp_all add: plain_text_def nul_def printable_char_def)

lemma mock_on_texts:
  "mock_suspicious (exec_summary ''bash'' ''/usr/bin/curl'')"
  "\<not> mock_suspicious (exec_summary ''bash'' ''/usr/local/bin/myapp'')"
  "mock_suspicious (tcp_summary ''curl'' ''185.220.101.1'' 443)"
  "\<not> mock_suspicious (tcp_summary ''updater'' ''203.0.113.9'' 443)"
  by (simp_all add: mock_suspicious_def contains_sub_def exec_summary_def tcp_summary_def test_ports starts_with_def)

lemmas exec_run = exec_step [OF test_texts(1) _ test_texts(7)] exec_step [OF test_texts(1) _ test_texts(8)]
  exec_step [OF test_texts(1) _ test_texts(9)] exec_step [OF test_texts(1) _ test_texts(10)]
  exec_step [OF test_texts(1) _ test_texts(11)] exec_step [OF test_texts(1) _ test_texts(12)]
  exec_step [OF test_texts(1) _ test_texts(13)]

lemmas tcp_run = tcp_step [OF test_texts(2) _ test_addresses(1,6) _ _ _ _ refl]
  tcp_step [OF test_texts(3) _ test_addresses(2,7) _ _ _ _ refl]
  tcp_step [OF test_texts(4) _ test_addresses(3,8) _ _ _ _ refl]
  tcp_step [OF test_texts(5) _ test_addresses(4,9) _ _ _ _ refl]
  tcp_step [OF test_texts(6) _ test_addresses(5,10) _ _ _ _ refl]

lemma selftest_decisions:
  "prefilter_execve ''/usr/bin/ls'' = pf Drop Info (msg_whitelisted @ ''ls'')"
  "prefilter_execve ''/tmp/xmrig'' = pf Raise High msg_temp_exec"
  "prefilter_execve ''/usr/bin/nc'' = pf Raise High (msg_reverse_shell @ ''nc'')"
  "prefilter_execve ''/usr/bin/curl'' = pf Escalate Info (msg_unclassified @ ''curl'')"
  "prefilter_execve ''/usr/local/bin/myapp'' = pf Escalate Info (msg_unclassified @ ''myapp'')"
  "prefilter_execve ''/tmp/.cache-x/sysupdate'' = pf Raise High msg_temp_exec"
  "prefilter_execve ''/tmp/other'' = pf Raise High msg_temp_exec"
  by (simp_all add: prefilter_execve_def basename_of_def cstr_id nul_def starts_with_def kMaliciousBins_def
      kBenignBins_def Let_def)

lemma test_public:
  "is_private_ipv4 0x0500000A" "\<not> is_private_ipv4 0x0165DCB9" "\<not> is_private_ipv4 0x6394092D"
  "\<not> is_private_ipv4 0x076433C6" "\<not> is_private_ipv4 0x097100CB"
  by (simp_all add: is_private_ipv4_def)

lemma selftest_grades:
  "grades selftest_events (corr_with [] []) =
    [(L_Drop, None), (L_Rule, Some High), (L_Rule, Some High), (L_Sonnet, Some Medium), (L_HaikuNormal, None),
     (L_Drop, None), (L_Sonnet, Some Medium), (L_Rule, Some Medium),
     (L_Sonnet, Some Medium), (L_RuleCorrelation, Some Critical), (L_Rule, Some High),
     (L_Rule, Some Medium), (L_Rule, Some Medium), (L_RuleCorrelation, Some High),
     (L_HaikuNormal, None), (L_HaikuNormal, None), (L_CorrelationSonnet, Some High)]"
  unfolding selftest_events_def
  by (simp add: exec_run tcp_run test_ports selftest_decisions test_public prefilter_tcp_def mock_on_texts
      kDownloaders_def is_temp_path_def starts_with_def grade_def pf_def no_hit_def high_hit_def
      download_exec_hit_def max_def less_eq_severity_def del: grades.simps(2))

lemma selftest_no_notice: "\<forall>e \<in> set selftest_events. \<not> is_notice e"
  by (simp add: selftest_events_def is_notice_def make_execve_def make_tcp_def test_event_def)

lemma alerts_graded:
  "[a_severity a. Alert_output a \<leftarrow> fst (process_all es llm st)] =
     List.map_filter snd (map graded (classify_all es llm st))"
  by (induction es arbitrary: st)
    (simp_all add: process_all.simps process_event_def graded_def case_prod_unfold Let_def map_filter_simps)

text \<open>
  The test does what its events are annotated with, one event excepted: the connection of "curl" to
  port 443 (the seventh) is not judged normal by the mock, because its summary holds the process
  name, and goes to the second tier.  Twelve alerts are written, one of them critical (the chain).
\<close>

theorem selftest_outcome:
  "map graded (classify_all selftest_events mock_client ((), default_correlator)) =
    [(L_Drop, None), (L_Rule, Some High), (L_Rule, Some High), (L_Sonnet, Some Medium), (L_HaikuNormal, None),
     (L_Drop, None), (L_Sonnet, Some Medium), (L_Rule, Some Medium),
     (L_Sonnet, Some Medium), (L_RuleCorrelation, Some Critical), (L_Rule, Some High),
     (L_Rule, Some Medium), (L_Rule, Some Medium), (L_RuleCorrelation, Some High),
     (L_HaikuNormal, None), (L_HaikuNormal, None), (L_CorrelationSonnet, Some High)] \<and>
   [a_severity a. Alert_output a \<leftarrow> analyzer_selftest] =
    [High, High, Medium, Medium, Medium, Medium, Critical, High, Medium, Medium, High, High]"
proof -
  have "default_correlator = corr_with [] []"
    by (simp add: corr_with_def default_correlator_def new_correlator_def)
  then have g: "map graded (classify_all selftest_events mock_client ((), default_correlator)) =
      grades selftest_events (corr_with [] [])"
    by (simp only: graded_all [OF selftest_no_notice])
  show ?thesis
    unfolding analyzer_selftest_def alerts_graded g selftest_grades by (simp add: map_filter_simps)
qed

subsection \<open>The probe of the language model\<close>

text \<open>
  \<open>analyzer/src/llm_probe.cpp\<close>: the exit status, the classifications shown with their labels, and the
  client's state.  The arguments are the environment's key, how a client is made of a key, and the
  command line after the program's name.
\<close>

definition probe_context :: "string list \<Rightarrow> string" where
  "probe_context args = (case args of [] \<Rightarrow> ''execve comm=bash file=/tmp/xmrig'' | a # _ \<Rightarrow> a)"

definition llm_probe ::
  "string option \<Rightarrow> (string \<Rightarrow> 's llm_client) \<Rightarrow> 's \<Rightarrow> string list \<Rightarrow> nat \<times> (string \<times> classification) list \<times> 's" where
  "llm_probe key mk s args =
     (case key of
        None \<Rightarrow> (2, [], s)
      | Some k \<Rightarrow>
          if k = [] then (2, [], s)
          else let llm = mk k; ctx = probe_context args; (h, s1) = llm_classify llm s ctx
               in if c_verdict h \<noteq> Normal
                  then let (c, s2) = llm_deep_analyze llm s1 ctx
                       in (0, [(''Haiku classify'', h), (''Sonnet deep  '', c)], s2)
                  else (0, [(''Haiku classify'', h)], s1))"

text \<open>The probe takes the two tiers the way the pipeline takes them for an escalated event.\<close>

lemma probe_like_pipeline:
  assumes "k \<noteq> []"
  shows "snd (snd (llm_probe (Some k) mk s [event_summary ev])) = snd (escalated_outcome ev (mk k) s)"
    "length (fst (snd (llm_probe (Some k) mk s [event_summary ev]))) =
       o_haiku_calls (fst (escalated_outcome ev (mk k) s)) + o_sonnet_calls (fst (escalated_outcome ev (mk k) s))"
  using assms
  by (simp_all add: llm_probe_def probe_context_def escalated_outcome_def Let_def case_prod_unfold)

end
