(* ===== verification/Json_Text.thy ===== *)
theory Json_Text
  imports Json
begin

section \<open>What the serialiser does to a string\<close>

text \<open>
  A reference reading of \<open>dump_escaped\<close>.  The table of well-formed UTF-8 sequences of the Unicode
  standard says, for a first byte, in which ranges the bytes after it lie; a string is cut at it into
  characters and ill-formed parts, an ill-formed part being as long as it could still become a character.
  The serialiser escapes the characters and either replaces the ill-formed parts or fails.
\<close>

definition in_range :: "nat \<Rightarrow> nat \<Rightarrow> char \<Rightarrow> bool" where
  "in_range a b c \<longleftrightarrow> a \<le> of_char c \<and> of_char c \<le> b"

subsection \<open>Characters of a string\<close>

definition tail_byte :: "nat \<times> nat" where
  "tail_byte = (0x80, 0xBF)"

definition needs :: "char \<Rightarrow> (nat \<times> nat) list option" where
  "needs c =
     (if in_range 0 0x7F c then Some []
      else if in_range 0xC2 0xDF c then Some [tail_byte]
      else if in_range 0xE0 0xE0 c then Some [(0xA0, 0xBF), tail_byte]
      else if in_range 0xE1 0xEC c then Some [tail_byte, tail_byte]
      else if in_range 0xED 0xED c then Some [(0x80, 0x9F), tail_byte]
      else if in_range 0xEE 0xEF c then Some [tail_byte, tail_byte]
      else if in_range 0xF0 0xF0 c then Some [(0x90, 0xBF), tail_byte, tail_byte]
      else if in_range 0xF1 0xF3 c then Some [tail_byte, tail_byte, tail_byte]
      else if in_range 0xF4 0xF4 c then Some [(0x80, 0x8F), tail_byte, tail_byte]
      else None)"

text \<open>The longest prefix in the given ranges, the rest, and whether every range was met.\<close>

fun tail_of :: "(nat \<times> nat) list \<Rightarrow> string \<Rightarrow> string \<times> string \<times> bool" where
  "tail_of [] s = ([], s, True)"
| "tail_of (r # rs) [] = ([], [], False)"
| "tail_of (r # rs) (c # s) =
     (if in_range (fst r) (snd r) c
      then (let (p, t, b) = tail_of rs s in (c # p, t, b))
      else ([], c # s, False))"

datatype piece = Character string | Ill_formed

lemma tail_of_length: "length (fst (snd (tail_of rs s))) \<le> length s"
proof (induction rs s rule: tail_of.induct)
  case (3 r rs c s)
  then show ?case
    by (cases "tail_of rs s") auto
qed simp_all

function pieces :: "string \<Rightarrow> piece list" where
  "pieces [] = []"
| "pieces (c # s) =
     (case needs c of
        None \<Rightarrow> Ill_formed # pieces s
      | Some rs \<Rightarrow>
          (if snd (snd (tail_of rs s)) then Character (c # fst (tail_of rs s)) else Ill_formed)
            # pieces (fst (snd (tail_of rs s))))"
  by pat_completeness auto
termination
  by (relation "measure length") (auto simp: le_imp_less_Suc tail_of_length)

fun piece_text :: "piece \<Rightarrow> string" where
  "piece_text (Character s) = s"
| "piece_text Ill_formed = replacement"

definition utf8 :: "string \<Rightarrow> bool" where
  "utf8 s \<longleftrightarrow> Ill_formed \<notin> set (pieces s)"

definition scrub :: "string \<Rightarrow> string" where
  "scrub s = concat (map piece_text (pieces s))"

subsection \<open>Escaping a text\<close>

definition escape_char :: "char \<Rightarrow> string" where
  "escape_char c = escape_codepoint (of_nat (of_char c)) c"

definition escape_text :: "string \<Rightarrow> string" where
  "escape_text t = concat (map escape_char t)"

lemma escape_text_append [simp]: "escape_text (s @ t) = escape_text s @ escape_text t"
  by (simp add: escape_text_def)

lemma escape_text_simps [simp]: "escape_text [] = []" "escape_text (c # t) = escape_char c @ escape_text t"
  by (simp_all add: escape_text_def)

text \<open>A reader of the text of a string: up to the closing quote.\<close>

definition hex_value :: "char \<Rightarrow> nat option" where
  "hex_value c =
     (if in_range 0x30 0x39 c then Some (of_char c - 0x30)
      else if in_range 0x61 0x66 c then Some (of_char c - 0x61 + 10)
      else if in_range 0x41 0x46 c then Some (of_char c - 0x41 + 10)
      else None)"

text \<open>\<open>\u\<close> with a value that one byte encodes; the serialiser writes no others.\<close>

definition unicode_escape :: "char \<Rightarrow> char \<Rightarrow> char \<Rightarrow> char \<Rightarrow> char option" where
  "unicode_escape a b c d =
     (case (hex_value a, hex_value b, hex_value c, hex_value d) of
        (Some w, Some x, Some y, Some z) \<Rightarrow>
          (let n = ((w * 16 + x) * 16 + y) * 16 + z in if n < 0x80 then Some (char_of n) else None)
      | _ \<Rightarrow> None)"

definition simple_escape :: "char \<Rightarrow> char option" where
  "simple_escape c =
     map_of [(CHR 0x22, CHR 0x22), (CHR 0x5C, CHR 0x5C), (CHR ''/'', CHR ''/''), (CHR ''b'', CHR 0x08),
       (CHR ''f'', CHR 0x0C), (CHR ''n'', CHR 0x0A), (CHR ''r'', CHR 0x0D), (CHR ''t'', CHR 0x09)] c"

fun read_string :: "string \<Rightarrow> (string \<times> string) option" where
  "read_string [] = None"
| "read_string (c # s) =
     (if c = CHR 0x22 then Some ([], s)
      else if c = CHR 0x5C
      then (case s of
              [] \<Rightarrow> None
            | e # s' \<Rightarrow>
                if e = CHR ''u''
                then (case s' of
                        h1 # h2 # h3 # h4 # s'' \<Rightarrow>
                          (case unicode_escape h1 h2 h3 h4 of
                             None \<Rightarrow> None
                           | Some k \<Rightarrow> map_option (\<lambda>(t, r). (k # t, r)) (read_string s''))
                      | _ \<Rightarrow> None)
                else (case simple_escape e of
                        None \<Rightarrow> None
                      | Some k \<Rightarrow> map_option (\<lambda>(t, r). (k # t, r)) (read_string s')))
      else if (of_char c :: nat) < 0x20 then None
      else map_option (\<lambda>(t, r). (c # t, r)) (read_string s))"


subsection \<open>The decoder by ranges\<close>

lemma length_types: "length utf8_types = 256"
  by (simp add: utf8_types_def)

lemma utf8_type_ranges:
  "n < 0x80 \<Longrightarrow> utf8_types ! n = 0"
  "0x80 \<le> n \<Longrightarrow> n < 0x90 \<Longrightarrow> utf8_types ! n = 1"
  "0x90 \<le> n \<Longrightarrow> n < 0xA0 \<Longrightarrow> utf8_types ! n = 9"
  "0xA0 \<le> n \<Longrightarrow> n < 0xC0 \<Longrightarrow> utf8_types ! n = 7"
  "0xC0 \<le> n \<Longrightarrow> n < 0xC2 \<Longrightarrow> utf8_types ! n = 8"
  "0xC2 \<le> n \<Longrightarrow> n < 0xE0 \<Longrightarrow> utf8_types ! n = 2"
  "utf8_types ! 0xE0 = 10" "utf8_types ! 0xED = 4" "utf8_types ! 0xF0 = 11" "utf8_types ! 0xF4 = 5"
  "0xE0 < n \<Longrightarrow> n < 0xED \<Longrightarrow> utf8_types ! n = 3"
  "0xED < n \<Longrightarrow> n < 0xF0 \<Longrightarrow> utf8_types ! n = 3"
  "0xF0 < n \<Longrightarrow> n < 0xF4 \<Longrightarrow> utf8_types ! n = 6"
  "0xF4 < n \<Longrightarrow> n < 0x100 \<Longrightarrow> utf8_types ! n = 8"
proof -
  show "utf8_types ! n = 8" if "0xC0 \<le> n" "n < 0xC2"
  proof -
    have "n = 0xC0 \<or> n = 0xC1"
      using that by auto
    then show ?thesis
      by (auto simp: utf8_types_def nth_append)
  qed
  show "utf8_types ! n = 6" if "0xF0 < n" "n < 0xF4"
  proof -
    have "n = 0xF1 \<or> n = 0xF2 \<or> n = 0xF3"
      using that by auto
    then show ?thesis
      by (auto simp: utf8_types_def nth_append)
  qed
qed (simp_all add: utf8_types_def nth_append, arith+)

definition byte_type :: "nat \<Rightarrow> nat" where
  "byte_type n =
     (if n < 0x80 then 0 else if n < 0x90 then 1 else if n < 0xA0 then 9 else if n < 0xC0 then 7
      else if n < 0xC2 then 8 else if n < 0xE0 then 2 else if n = 0xE0 then 10 else if n < 0xED then 3
      else if n = 0xED then 4 else if n < 0xF0 then 3 else if n = 0xF0 then 11 else if n < 0xF4 then 6
      else if n = 0xF4 then 5 else 8)"

lemma utf8_type: "utf8d ! unat (b :: u8) = byte_type (unat b)"
proof -
  have n: "unat b < 256"
    using unsigned_less [of b] by simp
  then have "utf8d ! unat b = utf8_types ! unat b"
    by (simp add: utf8d_def nth_append length_types)
  moreover have "utf8_types ! n = byte_type n" if "n < 256" for n
    using that by (simp add: byte_type_def utf8_type_ranges)
  ultimately show ?thesis
    using n by simp
qed

lemma nth_concat_rows: "\<forall>r \<in> set rs. length r = k \<Longrightarrow> i < length rs \<Longrightarrow> j < k \<Longrightarrow> concat rs ! (i * k + j) = rs ! i ! j"
proof (induction rs arbitrary: i)
  case (Cons r rs)
  then show ?case
    by (cases i) (auto simp: nth_append add.assoc)
qed simp

lemma utf8_next:
  assumes "st \<le> 8" and "ty < 16"
  shows "utf8d ! (256 + st * 16 + ty) = utf8_rows ! st ! ty"
proof -
  have "concat utf8_rows ! (st * 16 + ty) = utf8_rows ! st ! ty"
    by (rule nth_concat_rows) (use assms in \<open>simp_all add: utf8_rows_def\<close>)
  then show ?thesis
    by (simp add: utf8d_def nth_append length_types)
qed

text \<open>
  What the states mean: in the initial state a byte starts a code point; in the others a range of
  continuation bytes leads on, and any other byte is rejected.
\<close>

definition first_state :: "char \<Rightarrow> nat" where
  "first_state c =
     (if in_range 0 0x7F c then 0 else if in_range 0xC2 0xDF c then 2 else if in_range 0xE0 0xE0 c then 4
      else if in_range 0xED 0xED c then 5 else if in_range 0xE1 0xEF c then 3 else if in_range 0xF0 0xF0 c then 6
      else if in_range 0xF1 0xF3 c then 7 else if in_range 0xF4 0xF4 c then 8 else 1)"

definition expects :: "nat \<Rightarrow> char \<Rightarrow> bool" where
  "expects st c \<longleftrightarrow>
     (if st = 4 then in_range 0xA0 0xBF c else if st = 5 then in_range 0x80 0x9F c
      else if st = 6 then in_range 0x90 0xBF c else if st = 8 then in_range 0x80 0x8F c
      else in_range 0x80 0xBF c)"

definition follow :: "nat \<Rightarrow> nat" where
  "follow st = (if st = 2 then 0 else if st \<le> 5 then 2 else 3)"

lemma unat_of_char: "unat (of_char c :: u8) = of_char c"
proof -
  have "of_char c < (256 :: nat)"
    using nat_of_char_less_256 by simp
  then have "unat (word_of_nat (of_char c) :: u8) = of_char c"
    by (simp add: unsigned_of_nat take_bit_nat_eq_self)
  then show ?thesis
    by (simp only: of_nat_of_char)
qed

lemma utf8_row_ranges:
  "utf8_rows ! 2 ! byte_type n = (if 0x80 \<le> n \<and> n \<le> 0xBF then 0 else 1)"
  "utf8_rows ! 3 ! byte_type n = (if 0x80 \<le> n \<and> n \<le> 0xBF then 2 else 1)"
  "utf8_rows ! 4 ! byte_type n = (if 0xA0 \<le> n \<and> n \<le> 0xBF then 2 else 1)"
  "utf8_rows ! 5 ! byte_type n = (if 0x80 \<le> n \<and> n \<le> 0x9F then 2 else 1)"
  "utf8_rows ! 6 ! byte_type n = (if 0x90 \<le> n \<and> n \<le> 0xBF then 3 else 1)"
  "utf8_rows ! 7 ! byte_type n = (if 0x80 \<le> n \<and> n \<le> 0xBF then 3 else 1)"
  "utf8_rows ! 8 ! byte_type n = (if 0x80 \<le> n \<and> n \<le> 0x8F then 3 else 1)"
  by (simp_all add: utf8_rows_def byte_type_def)

lemma utf8_decode_ranges:
  "fst (utf8_decode 0 cp (of_char c)) = first_state c"
  "st \<in> {2..8} \<Longrightarrow> fst (utf8_decode st cp (of_char c)) = (if expects st c then follow st else 1)"
proof -
  let ?t = "byte_type (of_char c)"
  have t: "utf8d ! unat (of_char c :: u8) = ?t"
    using utf8_type [of "of_char c"] by (simp only: unat_of_char)
  have bound: "?t < 16"
    by (simp add: byte_type_def)
  have d: "fst (utf8_decode st cp (of_char c)) = utf8_rows ! st ! ?t" if "st \<le> 8" for st
    unfolding utf8_decode_def Let_def fst_conv t by (rule utf8_next [OF that bound])
  show "fst (utf8_decode 0 cp (of_char c)) = first_state c"
    unfolding d [of 0, simplified] by (simp add: utf8_rows_def first_state_def in_range_def byte_type_def)
  assume "st \<in> {2..8}"
  then have "st \<in> {2, 3, 4, 5, 6, 7, 8}"
    by auto
  moreover from this have "st \<le> 8"
    by auto
  ultimately show "fst (utf8_decode st cp (of_char c)) = (if expects st c then follow st else 1)"
    unfolding d [OF \<open>st \<le> 8\<close>]
    by (elim insertE emptyE) (simp_all add: utf8_row_ranges expects_def follow_def in_range_def)
qed

subsection \<open>The table and the automaton\<close>

definition state_needs :: "nat \<Rightarrow> (nat \<times> nat) list" where
  "state_needs st =
     (if st = 2 then [tail_byte] else if st = 3 then [tail_byte, tail_byte]
      else if st = 4 then [(0xA0, 0xBF), tail_byte] else if st = 5 then [(0x80, 0x9F), tail_byte]
      else if st = 6 then [(0x90, 0xBF), tail_byte, tail_byte] else if st = 7 then [tail_byte, tail_byte, tail_byte]
      else if st = 8 then [(0x80, 0x8F), tail_byte, tail_byte] else [])"

lemma needs_by_state:
  "needs c = (if first_state c = 1 then None else Some (state_needs (first_state c)))"
  unfolding needs_def first_state_def in_range_def state_needs_def by simp presburger

lemma first_state_le: "first_state c \<noteq> 0 \<Longrightarrow> first_state c \<noteq> 1 \<Longrightarrow> first_state c \<in> {2..8}"
  by (simp add: first_state_def split: if_splits)

lemma state_needs_next:
  assumes "st \<in> {2..8}"
  shows "state_needs st = (fst (hd (state_needs st)), snd (hd (state_needs st))) # state_needs (follow st)"
    and "in_range (fst (hd (state_needs st))) (snd (hd (state_needs st))) c = expects st c"
proof -
  have "st \<in> {2, 3, 4, 5, 6, 7, 8}"
    using assms by auto
  then show "state_needs st = (fst (hd (state_needs st)), snd (hd (state_needs st))) # state_needs (follow st)"
    "in_range (fst (hd (state_needs st))) (snd (hd (state_needs st))) c = expects st c"
    by (auto simp: state_needs_def follow_def expects_def tail_byte_def)
qed

text \<open>The code point of an unfinished character, as far as the escapes depend on it.\<close>

definition cp_ok :: "nat \<Rightarrow> nat \<Rightarrow> bool" where
  "cp_ok st cp \<longleftrightarrow>
     (if st = 2 then 2 \<le> cp \<and> cp < 2 ^ 15 else if st = 3 then 1 \<le> cp \<and> cp < 2 ^ 9
      else if st = 5 then 1 \<le> cp \<and> cp < 2 ^ 4 else if st \<in> {7, 8} then 1 \<le> cp \<and> cp < 2 ^ 3
      else cp = 0)"

lemma six_bits: "((b :: nat) AND 63) OR push_bit 6 c = b mod 64 + 64 * c"
proof -
  have m: "b AND 63 = take_bit 6 b"
    using take_bit_eq_mask [of 6 b] by (simp add: mask_eq_exp_minus_1)
  have "(take_bit 6 b) OR push_bit 6 c = take_bit 6 b + push_bit 6 c"
    by (rule disjunctive_add_eq_or [symmetric]) (rule bit_eqI, auto simp: bit_simps)
  then show ?thesis
    using m by (simp add: take_bit_eq_mod push_bit_eq_mult)
qed

lemma cp_step:
  assumes "unat (cp :: u32) < 2 ^ 26"
  shows "unat ((ucast (b :: u8) AND 0x3f) OR push_bit 6 cp :: u32) = unat b mod 64 + 64 * unat cp"
proof -
  have b: "unat (ucast b :: u32) = unat b"
    by (simp add: unsigned_ucast_eq take_bit_nat_eq_self order_less_trans [OF unsigned_less])
  have c: "unat (push_bit 6 cp) = push_bit 6 (unat cp)"
    unfolding unsigned_push_bit_eq by (rule take_bit_nat_eq_self) (use assms in \<open>simp add: push_bit_eq_mult\<close>)
  show ?thesis
    by (simp only: unsigned_or_eq unsigned_and_eq unsigned_numeral b c) (simp add: six_bits)
qed


lemma cp_first:
  "unat (drop_bit ty 0xff AND ucast (b :: u8) :: u32) = unat b mod 2 ^ (8 - ty)"
proof -
  have m: "(0xff :: u32) = mask 8"
    by (simp add: mask_eq_exp_minus_1)
  have b: "unat (ucast b :: u32) = unat b"
    by (simp add: unsigned_ucast_eq take_bit_nat_eq_self order_less_trans [OF unsigned_less])
  have "drop_bit ty (mask 8 :: u32) AND ucast b = take_bit (8 - ty) (ucast b)"
    by (rule bit_word_eqI) (auto simp: bit_simps)
  then show ?thesis
    by (simp only: m unsigned_take_bit_eq b) (simp add: take_bit_eq_mod)
qed

lemma decode_cp:
  "unat (snd (utf8_decode 0 cp (of_char c))) = of_char c mod 2 ^ (8 - byte_type (of_char c))"
  "st \<noteq> 0 \<Longrightarrow> unat cp < 2 ^ 26 \<Longrightarrow>
     unat (snd (utf8_decode st cp (of_char c))) = of_char c mod 64 + 64 * unat cp"
proof -
  have t: "utf8d ! of_char c = byte_type (of_char c)"
    using utf8_type [of "of_char c"] by (simp only: unat_of_char)
  show "unat (snd (utf8_decode 0 cp (of_char c))) = of_char c mod 2 ^ (8 - byte_type (of_char c))"
    by (simp only: utf8_decode_def Let_def snd_conv UTF8_ACCEPT_def t cp_first unat_of_char simp_thms if_False)
  assume "st \<noteq> 0" "unat cp < 2 ^ 26"
  then show "unat (snd (utf8_decode st cp (of_char c))) = of_char c mod 64 + 64 * unat cp"
    by (simp only: utf8_decode_def Let_def snd_conv UTF8_ACCEPT_def cp_step unat_of_char simp_thms if_True)
qed

lemma low_bits: "k * m \<le> n \<Longrightarrow> n < k * m + m \<Longrightarrow> n mod m = n - k * (m :: nat)"
  by (auto dest!: le_Suc_ex)

lemma lead_cases:
  assumes "first_state c \<noteq> 0" and "first_state c \<noteq> 1"
  obtains "first_state c = 2" "byte_type (of_char c) = 2" "0xC2 \<le> (of_char c :: nat)" "of_char c \<le> (0xDF :: nat)"
    | "first_state c = 3" "byte_type (of_char c) = 3" "0xE1 \<le> (of_char c :: nat)" "of_char c \<le> (0xEF :: nat)"
    | "first_state c = 4" "byte_type (of_char c) = 10"
    | "first_state c = 5" "byte_type (of_char c) = 4" "of_char c = (0xED :: nat)"
    | "first_state c = 6" "byte_type (of_char c) = 11"
    | "first_state c = 7" "byte_type (of_char c) = 6" "0xF1 \<le> (of_char c :: nat)" "of_char c \<le> (0xF3 :: nat)"
    | "first_state c = 8" "byte_type (of_char c) = 5" "of_char c = (0xF4 :: nat)"
proof -
  have "(0xC2 \<le> (of_char c :: nat) \<and> of_char c \<le> (0xDF :: nat)) \<or> of_char c = (0xE0 :: nat) \<or>
      (0xE1 \<le> (of_char c :: nat) \<and> of_char c < (0xED :: nat)) \<or> of_char c = (0xED :: nat) \<or>
      (0xED < (of_char c :: nat) \<and> of_char c \<le> (0xEF :: nat)) \<or> of_char c = (0xF0 :: nat) \<or>
      (0xF1 \<le> (of_char c :: nat) \<and> of_char c \<le> (0xF3 :: nat)) \<or> of_char c = (0xF4 :: nat)"
    using assms by (simp add: first_state_def in_range_def split: if_splits) arith?
  then show thesis
    by (elim disjE conjE) (rule that; simp add: first_state_def in_range_def byte_type_def)+
qed

lemma cp_ok_first:
  assumes "first_state c \<noteq> 0" and "first_state c \<noteq> 1"
  shows "cp_ok (first_state c) (unat (snd (utf8_decode 0 cp (of_char c))))"
  unfolding decode_cp(1) using assms
proof (cases rule: lead_cases)
  case 1
  then show "cp_ok (first_state c) (of_char c mod 2 ^ (8 - byte_type (of_char c)))"
    using low_bits [of 3 64 "of_char c"] by (simp add: cp_ok_def) arith
next
  case 2
  then show "cp_ok (first_state c) (of_char c mod 2 ^ (8 - byte_type (of_char c)))"
    using low_bits [of 7 32 "of_char c"] by (simp add: cp_ok_def) arith
next
  case 6
  then show "cp_ok (first_state c) (of_char c mod 2 ^ (8 - byte_type (of_char c)))"
    using low_bits [of 60 4 "of_char c"] by (simp add: cp_ok_def) arith
qed (simp_all add: cp_ok_def)

lemma cp_ok_small: "cp_ok st n \<Longrightarrow> n < 2 ^ 15"
  by (auto simp: cp_ok_def split: if_splits)

lemma cp_ok_next:
  assumes "st \<in> {2..8}" and "expects st c" and "cp_ok st (unat cp)"
  shows "if st = 2 then 0x80 \<le> unat (snd (utf8_decode st cp (of_char c)))
    else cp_ok (follow st) (unat (snd (utf8_decode st cp (of_char c))))"
proof -
  have "unat cp < 2 ^ 26"
    using cp_ok_small [OF assms(3)] by simp
  then have d: "unat (snd (utf8_decode st cp (of_char c))) = of_char c mod 64 + 64 * unat cp"
    using assms(1) by (intro decode_cp(2)) simp_all
  have m: "of_char c mod 64 = of_char c - (0x80 :: nat)" if "0x80 \<le> (of_char c :: nat)" "of_char c < (0xC0 :: nat)"
    using that low_bits [of 2 64 "of_char c"] by simp
  have "st \<in> {2, 3, 4, 5, 6, 7, 8}"
    using assms(1) by auto
  then show ?thesis
    unfolding d using assms(2,3) mod_less_divisor [of 64 "of_char c"] m
    by (elim insertE emptyE) (simp_all add: cp_ok_def follow_def expects_def in_range_def, linarith+)
qed


subsection \<open>The loop, character by character\<close>

lemma escape_high: "0x80 \<le> unat cp \<Longrightarrow> escape_codepoint cp c = [c]"
  by (auto simp: escape_codepoint_def word_le_nat_alt)

definition run_tail :: "error_handler \<Rightarrow> u32 \<Rightarrow> string \<Rightarrow> string \<Rightarrow> string \<times> string \<times> bool \<Rightarrow> string option" where
  "run_tail h cp out pending qtb =
     (if snd (snd qtb) then escape_loop h 0 cp (out @ pending @ fst qtb) [] (fst (snd qtb))
      else if h = Strict then None
      else escape_loop h 0 cp (out @ replacement) [] (fst (snd qtb)))"

lemma loop_tail:
  "st \<in> {2..8} \<Longrightarrow> pending \<noteq> [] \<Longrightarrow> cp_ok st (unat cp) \<Longrightarrow>
     \<exists>cp'. escape_loop h st cp out pending s = run_tail h cp' out pending (tail_of (state_needs st) s)"
proof (induction s arbitrary: st cp pending)
  case Nil
  obtain r rs where n: "state_needs st = r # rs"
    using state_needs_next(1) [OF Nil.prems(1)] by blast
  show ?case
    using Nil.prems(1) by (intro exI [of _ cp]) (auto simp: n run_tail_def UTF8_ACCEPT_def split: error_handler.split)
next
  case (Cons c s)
  let ?d = "utf8_decode st cp (of_char c)"
  have st: "st \<noteq> 0" "st \<noteq> 1"
    using Cons.prems(1) by simp_all
  note n = state_needs_next(1) [OF Cons.prems(1)] and e = state_needs_next(2) [OF Cons.prems(1), of c]
  note d = utf8_decode_ranges(2) [OF Cons.prems(1), of cp c]
  show ?case
  proof (cases "expects st c")
    case False
    then have "tail_of (state_needs st) (c # s) = ([], c # s, False)"
      by (subst n) (simp add: e)
    moreover have "escape_loop h st cp out pending (c # s) =
        (if h = Strict then None else escape_loop h 0 (snd ?d) (out @ replacement) [] (c # s))"
      using False Cons.prems(2) d
      by (simp add: case_prod_unfold Let_def UTF8_ACCEPT_def UTF8_REJECT_def split: error_handler.split)
    ultimately show ?thesis
      by (intro exI [of _ "snd ?d"]) (simp add: run_tail_def)
  next
    case True
    obtain q t b where tl: "tail_of (state_needs (follow st)) s = (q, t, b)"
      by (cases "tail_of (state_needs (follow st)) s") auto
    have t: "tail_of (state_needs st) (c # s) = (c # q, t, b)"
      by (subst n) (simp add: e True tl)
    note cp = cp_ok_next [OF Cons.prems(1) True Cons.prems(3)]
    show ?thesis
    proof (cases "st = 2")
      case True': True
      then have "q = []" "t = s" "b"
        using tl by (simp_all add: follow_def state_needs_def)
      moreover have "escape_loop h st cp out pending (c # s) = escape_loop h 0 (snd ?d) (out @ pending @ [c]) [] s"
        using d True True' cp by (simp add: case_prod_unfold Let_def UTF8_ACCEPT_def follow_def escape_high)
      ultimately show ?thesis
        unfolding t by (intro exI [of _ "snd ?d"]) (simp add: run_tail_def)
    next
      case False
      then have f: "follow st \<in> {2..8}" "follow st \<noteq> 0" "follow st \<noteq> 1"
        by (simp_all add: follow_def)
      have "escape_loop h st cp out pending (c # s) = escape_loop h (follow st) (snd ?d) out (pending @ [c]) s"
        using d True f by (simp add: case_prod_unfold Let_def UTF8_ACCEPT_def UTF8_REJECT_def)
      moreover obtain cp' where "escape_loop h (follow st) (snd ?d) out (pending @ [c]) s =
          run_tail h cp' out (pending @ [c]) (q, t, b)"
        using Cons.IH [OF f(1), of "pending @ [c]" "snd ?d"] cp False by (auto simp: tl)
      ultimately show ?thesis
        unfolding t by (intro exI [of _ cp']) (simp add: run_tail_def)
    qed
  qed
qed


lemma of_char_less [simp]: "of_char c < (256 :: nat)"
  using nat_of_char_less_256 by simp

lemma escape_char_high: "0x80 \<le> (of_char c :: nat) \<Longrightarrow> escape_char c = [c]"
  unfolding escape_char_def
  by (rule escape_high) (simp add: unsigned_of_nat take_bit_nat_eq_self order_less_trans [OF of_char_less])

lemma escape_text_high: "\<forall>c \<in> set t. 0x80 \<le> (of_char c :: nat) \<Longrightarrow> escape_text t = t"
  by (induction t) (simp_all add: escape_char_high)

lemma escape_replacement: "escape_text replacement = replacement"
  by (rule escape_text_high) (simp add: replacement_def)

lemma state_needs_high: "r \<in> set (state_needs st) \<Longrightarrow> 0x80 \<le> fst r"
  by (auto simp: state_needs_def tail_byte_def split: if_splits)

lemma tail_of_high: "\<forall>r \<in> set rs. 0x80 \<le> fst r \<Longrightarrow> \<forall>c \<in> set (fst (tail_of rs s)). 0x80 \<le> (of_char c :: nat)"
  by (induction rs s rule: tail_of.induct) (auto simp: case_prod_unfold in_range_def Let_def)

lemma decode_ascii: "first_state c = 0 \<Longrightarrow> snd (utf8_decode 0 cp (of_char c)) = of_nat (of_char c)"
proof -
  assume "first_state c = 0"
  then have "of_char c < (0x80 :: nat)"
    by (simp add: first_state_def in_range_def split: if_splits)
  then have "unat (snd (utf8_decode 0 cp (of_char c))) = of_char c"
    unfolding decode_cp(1) by (simp add: byte_type_def)
  then show ?thesis
    by (simp add: word_unat_eq_iff unsigned_of_nat take_bit_nat_eq_self order_less_trans [OF of_char_less])
qed

lemma escape_loop_pieces:
  "escape_loop h 0 cp out [] s =
     (if h = Strict \<and> Ill_formed \<in> set (pieces s) then None else Some (out @ escape_text (scrub s)))"
proof (induction s arbitrary: cp out rule: pieces.induct)
  case 1
  then show ?case
    by (simp add: UTF8_ACCEPT_def scrub_def)
next
  case (2 c s)
  let ?d = "utf8_decode 0 cp (of_char c)"
  note d = utf8_decode_ranges(1) [of cp c]
  consider "first_state c = 1" | "first_state c = 0" | "first_state c \<noteq> 0" "first_state c \<noteq> 1"
    by blast
  then show ?case
  proof cases
    case 1
    then have n: "needs c = None"
      by (simp add: needs_by_state)
    have "escape_loop h 0 cp out [] (c # s) = (if h = Strict then None else escape_loop h 0 (snd ?d) (out @ replacement) [] s)"
      using 1 d by (simp add: case_prod_unfold Let_def UTF8_ACCEPT_def UTF8_REJECT_def split: error_handler.split)
    then show ?thesis
      by (simp add: "2.IH"(1) [OF n] n scrub_def escape_replacement)
  next
    case zero: 2
    then have n: "needs c = Some []"
      by (simp add: needs_by_state state_needs_def)
    have "escape_loop h 0 cp out [] (c # s) = escape_loop h 0 (snd ?d) (out @ escape_char c) [] s"
      using zero d decode_ascii [OF zero] by (simp add: case_prod_unfold Let_def UTF8_ACCEPT_def escape_char_def)
    then show ?thesis
      using "2.IH"(2) [OF n] by (simp add: n scrub_def)
  next
    case 3
    then have n: "needs c = Some (state_needs (first_state c))"
      by (simp add: needs_by_state)
    obtain q t b where tl: "tail_of (state_needs (first_state c)) s = (q, t, b)"
      by (cases "tail_of (state_needs (first_state c)) s") auto
    have "escape_loop h 0 cp out [] (c # s) = escape_loop h (first_state c) (snd ?d) out [c] s"
      using 3 d by (simp add: case_prod_unfold Let_def UTF8_ACCEPT_def UTF8_REJECT_def)
    moreover obtain cp' where "escape_loop h (first_state c) (snd ?d) out [c] s = run_tail h cp' out [c] (q, t, b)"
      using loop_tail [where h = h and out = out and s = s and pending = "[c]",
          OF first_state_le [OF 3] _ cp_ok_first [OF 3]] by (auto simp: tl)
    moreover have "escape_loop h 0 cp' o' [] t =
        (if h = Strict \<and> Ill_formed \<in> set (pieces t) then None else Some (o' @ escape_text (scrub t)))" for o'
      using "2.IH"(2) [OF n, of cp' o'] by (simp add: tl)
    moreover have "escape_text (c # q) = c # q"
    proof (rule escape_text_high)
      have "0x80 \<le> (of_char c :: nat)"
        using 3(1) by (simp add: first_state_def in_range_def split: if_splits)
      then show "\<forall>k \<in> set (c # q). 0x80 \<le> (of_char k :: nat)"
        using tail_of_high [of "state_needs (first_state c)" s] state_needs_high tl by fastforce
    qed
    ultimately show ?thesis
      by (cases h) (simp_all add: n tl run_tail_def scrub_def escape_replacement del: escape_loop.simps)
  qed
qed

text \<open>The replacing handler never fails; the strict one fails exactly on what is not UTF-8.\<close>

lemma dump_escaped_replace: "dump_escaped Replace s = Some (escape_text (scrub s))"
  by (simp add: dump_escaped_def UTF8_ACCEPT_def escape_loop_pieces)

lemma dump_escaped_strict: "dump_escaped Strict s = (if utf8 s then Some (escape_text (scrub s)) else None)"
  by (simp add: dump_escaped_def UTF8_ACCEPT_def escape_loop_pieces utf8_def)


subsection \<open>Scrubbing\<close>

lemma tail_of_append: "fst (tail_of rs s) @ fst (snd (tail_of rs s)) = s"
  by (induction rs s rule: tail_of.induct) (auto simp: case_prod_unfold Let_def)

lemma tail_of_again: "snd (snd (tail_of rs s)) \<Longrightarrow> tail_of rs (fst (tail_of rs s) @ u) = (fst (tail_of rs s), u, True)"
  by (induction rs s rule: tail_of.induct) (auto simp: case_prod_unfold Let_def split: if_splits)

lemma scrub_utf8: "utf8 s \<Longrightarrow> scrub s = s"
proof (induction s rule: pieces.induct)
  case 1
  then show ?case
    by (simp add: scrub_def)
next
  case (2 c s)
  obtain rs where n: "needs c = Some rs" "snd (snd (tail_of rs s))" "utf8 (fst (snd (tail_of rs s)))"
    using "2.prems" by (auto simp: utf8_def split: option.splits if_splits)
  then show ?case
    using "2.IH"(2) [OF n(1) n(3)] tail_of_append [of rs s] by (simp add: scrub_def)
qed

text \<open>The characters of a string, put before another string, are its first characters.\<close>

lemma pieces_replacement: "pieces (replacement @ u) = Character replacement # pieces u"
  by (simp add: replacement_def needs_def in_range_def tail_byte_def)

lemma pieces_scrub: "pieces (scrub s @ u) = map (Character \<circ> piece_text) (pieces s) @ pieces u"
proof (induction s rule: pieces.induct)
  case 1
  then show ?case
    by (simp add: scrub_def)
next
  case (2 c s)
  show ?case
  proof (cases "needs c")
    case None
    then show ?thesis
      using "2.IH"(1) by (simp add: scrub_def pieces_replacement)
  next
    case (Some rs)
    note IH = "2.IH"(2) [OF Some]
    show ?thesis
    proof (cases "snd (snd (tail_of rs s))")
      case True
      let ?q = "fst (tail_of rs s)" and ?t = "fst (snd (tail_of rs s))"
      have "pieces (scrub (c # s) @ u) = pieces (c # ?q @ (scrub ?t @ u))"
        using True Some by (simp add: scrub_def)
      also have "\<dots> = Character (c # ?q) # pieces (scrub ?t @ u)"
        unfolding pieces.simps(2) Some by (simp add: tail_of_again [OF True])
      finally show ?thesis
        using True Some IH by simp
    next
      case False
      then show ?thesis
        using Some IH by (simp add: scrub_def pieces_replacement)
    qed
  qed
qed

lemma utf8_scrub: "utf8 (scrub s)"
  using pieces_scrub [of s "[]"] by (auto simp: utf8_def)

lemma utf8_append: "utf8 s \<Longrightarrow> utf8 u \<Longrightarrow> utf8 (s @ u)"
  using pieces_scrub [of s u] by (auto simp: utf8_def scrub_utf8 [unfolded utf8_def])

lemma utf8_ascii: "\<forall>c \<in> set s. of_char c < (0x80 :: nat) \<Longrightarrow> utf8 s"
  by (induction s) (simp_all add: utf8_def needs_def in_range_def)

subsection \<open>Reading back\<close>

lemma hex_value_digit: "n < 16 \<Longrightarrow> hex_value (hex_digit n) = Some n"
proof -
  assume "n < 16"
  then have "n \<in> {0, 1, 2, 3, 4, 5, 6, 7, 8, 9, 10, 11, 12, 13, 14, 15}"
    by simp presburger
  then show ?thesis
    by (auto simp: hex_digit_def hex_value_def in_range_def)
qed

lemma read_control:
  assumes "of_char c \<le> (0x1F :: nat)"
  shows "read_string (hex4 (of_char c) @ s) = map_option (\<lambda>(t, r). (c # t, r)) (read_string s)"
proof -
  let ?n = "of_char c :: nat"
  have "?n div 4096 mod 16 = 0" "?n div 256 mod 16 = 0" "?n div 16 < 16"
    using assms by auto
  then have "unicode_escape (hex_digit (?n div 4096 mod 16)) (hex_digit (?n div 256 mod 16))
      (hex_digit (?n div 16 mod 16)) (hex_digit (?n mod 16)) = Some c"
    using assms by (simp add: unicode_escape_def hex_value_digit Let_def mult_div_mod_eq)
  then show ?thesis
    by (simp add: hex4_def)
qed


lemma escape_char_cases:
  "escape_char c =
     (if c = CHR 0x08 then [CHR 0x5C, CHR ''b''] else if c = CHR 0x09 then [CHR 0x5C, CHR ''t'']
      else if c = CHR 0x0A then [CHR 0x5C, CHR ''n''] else if c = CHR 0x0C then [CHR 0x5C, CHR ''f'']
      else if c = CHR 0x0D then [CHR 0x5C, CHR ''r''] else if c = CHR 0x22 then [CHR 0x5C, CHR 0x22]
      else if c = CHR 0x5C then [CHR 0x5C, CHR 0x5C]
      else if of_char c \<le> (0x1F :: nat) then hex4 (of_char c) else [c])"
proof -
  have u: "unat (of_nat (of_char c) :: u32) = of_char c"
    by (simp add: unsigned_of_nat take_bit_nat_eq_self order_less_trans [OF of_char_less])
  have e': "(of_nat (of_char c) :: u32) = of_nat n \<longleftrightarrow> of_char c = n" if "n < 256" for n
    unfolding word_unat_eq_iff u using that by (simp add: unsigned_of_nat take_bit_nat_eq_self)
  have e: "(of_nat (of_char c) :: u32) = numeral k \<longleftrightarrow> of_char c = (numeral k :: nat)"
    if "numeral k < (256 :: nat)" for k
    using e' [OF that] by (simp only: of_nat_numeral)
  have l: "(of_nat (of_char c) :: u32) \<le> 0x1F \<longleftrightarrow> of_char c \<le> (0x1F :: nat)"
    unfolding word_le_nat_alt u by simp
  have ch: "c = d \<longleftrightarrow> of_char c = (of_char d :: nat)" for d
    by simp
  note chars = ch [of "CHR 0x08"] ch [of "CHR 0x09"] ch [of "CHR 0x0A"] ch [of "CHR 0x0C"]
    ch [of "CHR 0x0D"] ch [of "CHR 0x22"] ch [of "CHR 0x5C"]
  show ?thesis
    unfolding escape_char_def escape_codepoint_def l u chars by (simp add: e del: of_nat_of_char)
qed

lemma read_escape_char:
  "read_string (escape_char c @ s) = map_option (\<lambda>(t, r). (c # t, r)) (read_string s)"
  by (simp add: escape_char_cases simple_escape_def read_control)

lemma read_escape_text: "read_string (escape_text t @ [CHR 0x22] @ r) = Some (t, r)"
proof (induction t)
  case (Cons c t)
  then show ?case
    by (simp add: read_escape_char)
qed simp

lemma escape_printable: "c \<in> set (escape_text t) \<Longrightarrow> 0x20 \<le> (of_char c :: nat)"
proof (induction t)
  case (Cons k t)
  have h: "0x20 \<le> (of_char (hex_digit n) :: nat)" if "n < 16" for n
    using hex_value_digit [OF that] by (auto simp: hex_value_def in_range_def split: if_splits)
  have "0x20 \<le> (of_char c :: nat)" if "c \<in> set (escape_char k)"
    using that h by (auto simp: escape_char_cases hex4_def split: if_splits)
  then show ?case
    using Cons by auto
qed simp

end
