(* ===== verification/Json_Reader.thy ===== *)
theory Json_Reader
  imports Json_Text
begin

section \<open>Reading the serialiser's output\<close>

text \<open>
  A reader of JSON texts without fractional numbers, written after the grammar and independent of the
  serialiser, and the round trip: whatever \<open>dump\<close> writes, compact or indented, reads back as the value
  it was given, with the ill-formed parts of its strings replaced.
\<close>

definition json_space :: "char \<Rightarrow> bool" where
  "json_space c \<longleftrightarrow> c \<in> {CHR '' '', CHR 0x09, CHR 0x0A, CHR 0x0D}"

definition skip_space :: "string \<Rightarrow> string" where
  "skip_space s = dropWhile json_space s"

definition read_int :: "string \<Rightarrow> (json \<times> string) option" where
  "read_int s =
     (let neg = (s \<noteq> [] \<and> hd s = CHR ''-''); t = (if neg then tl s else s);
          ds = takeWhile is_digit t; v = int (dec_value ds)
      in if ds = [] then None else Some (J_int (if neg then - v else v), dropWhile is_digit t))"

definition read_word :: "string \<Rightarrow> (json \<times> string) option" where
  "read_word s =
     (if take 4 s = ''null'' then Some (J_null, drop 4 s)
      else if take 4 s = ''true'' then Some (J_bool True, drop 4 s)
      else if take 5 s = ''false'' then Some (J_bool False, drop 5 s)
      else read_int s)"

text \<open>The first argument bounds the depth of the recursion; the length of the text is always enough.\<close>

fun read_value :: "nat \<Rightarrow> string \<Rightarrow> (json \<times> string) option"
  and read_members :: "nat \<Rightarrow> string \<Rightarrow> ((string \<times> json) list \<times> string) option"
  and read_elements :: "nat \<Rightarrow> string \<Rightarrow> (json list \<times> string) option" where
  "read_value 0 s = None"
| "read_value (Suc n) s =
     (case skip_space s of
        [] \<Rightarrow> None
      | c # t \<Rightarrow>
          if c = CHR 0x22 then map_option (\<lambda>(x, r). (J_string x, r)) (read_string t)
          else if c = CHR ''['' then
            (if take 1 (skip_space t) = '']'' then Some (J_array [], tl (skip_space t))
             else map_option (\<lambda>(x, r). (J_array x, r)) (read_elements n t))
          else if c = CHR ''{'' then
            (if take 1 (skip_space t) = ''}'' then Some (J_object [], tl (skip_space t))
             else map_option (\<lambda>(x, r). (J_object x, r)) (read_members n t))
          else read_word (c # t))"
| "read_members 0 s = None"
| "read_members (Suc n) s =
     (case skip_space s of
        [] \<Rightarrow> None
      | q # s1 \<Rightarrow>
          if q \<noteq> CHR 0x22 then None
          else (case read_string s1 of
            None \<Rightarrow> None
          | Some (k, s2) \<Rightarrow>
              if take 1 (skip_space s2) \<noteq> '':'' then None
              else (case read_value n (tl (skip_space s2)) of
                None \<Rightarrow> None
              | Some (v, s3) \<Rightarrow>
                  if take 1 (skip_space s3) = ''}'' then Some ([(k, v)], tl (skip_space s3))
                  else if take 1 (skip_space s3) = '',''
                  then map_option (\<lambda>(ms, r). ((k, v) # ms, r)) (read_members n (tl (skip_space s3)))
                  else None)))"
| "read_elements 0 s = None"
| "read_elements (Suc n) s =
     (case read_value n s of
        None \<Rightarrow> None
      | Some (v, s3) \<Rightarrow>
          if take 1 (skip_space s3) = '']'' then Some ([v], tl (skip_space s3))
          else if take 1 (skip_space s3) = '',''
          then map_option (\<lambda>(js, r). (v # js, r)) (read_elements n (tl (skip_space s3)))
          else None)"

text \<open>A whole text: one value and nothing but space after it.\<close>

definition read_json :: "string \<Rightarrow> json option" where
  "read_json s =
     (case read_value (Suc (length s)) s of
        None \<Rightarrow> None
      | Some (j, r) \<Rightarrow> if skip_space r = [] then Some j else None)"

text \<open>The value with its strings scrubbed, and values without fractional numbers.\<close>

fun scrub_json :: "json \<Rightarrow> json"
  and scrub_members :: "(string \<times> json) list \<Rightarrow> (string \<times> json) list"
  and scrub_elements :: "json list \<Rightarrow> json list" where
  "scrub_json (J_string s) = J_string (scrub s)"
| "scrub_json (J_array js) = J_array (scrub_elements js)"
| "scrub_json (J_object ms) = J_object (scrub_members ms)"
| "scrub_json j = j"
| "scrub_members [] = []"
| "scrub_members ((k, v) # ms) = (scrub k, scrub_json v) # scrub_members ms"
| "scrub_elements [] = []"
| "scrub_elements (j # js) = scrub_json j # scrub_elements js"

fun float_free :: "json \<Rightarrow> bool"
  and float_free_members :: "(string \<times> json) list \<Rightarrow> bool"
  and float_free_elements :: "json list \<Rightarrow> bool" where
  "float_free (J_float d) \<longleftrightarrow> False"
| "float_free (J_array js) \<longleftrightarrow> float_free_elements js"
| "float_free (J_object ms) \<longleftrightarrow> float_free_members ms"
| "float_free j \<longleftrightarrow> True"
| "float_free_members [] \<longleftrightarrow> True"
| "float_free_members ((k, v) # ms) \<longleftrightarrow> float_free v \<and> float_free_members ms"
| "float_free_elements [] \<longleftrightarrow> True"
| "float_free_elements (j # js) \<longleftrightarrow> float_free j \<and> float_free_elements js"

subsection \<open>The round trip\<close>

lemma skip_space_simps [simp]:
  "skip_space [] = []" "json_space c \<Longrightarrow> skip_space (c # s) = skip_space s"
  "\<not> json_space c \<Longrightarrow> skip_space (c # s) = c # s"
  by (simp_all add: skip_space_def)

lemma json_space_chars [simp]:
  "json_space (CHR '' '')" "json_space (CHR 0x0A)" "\<not> json_space (CHR 0x22)" "\<not> json_space (CHR ''{'')"
  "\<not> json_space (CHR ''}'')" "\<not> json_space (CHR ''['')" "\<not> json_space (CHR '']'')" "\<not> json_space (CHR '','')"
  "\<not> json_space (CHR '':'')" "\<not> json_space (CHR ''-'')" "\<not> json_space (CHR ''n'')" "\<not> json_space (CHR ''t'')"
  "\<not> json_space (CHR ''f'')"
  by (simp_all add: json_space_def)

lemma skip_spaces [simp]: "skip_space (spaces n @ s) = skip_space s"
  by (induction n) (simp_all add: spaces_def)

lemma skip_lead [simp]: "skip_space (json_lead dc cur @ s) = skip_space s"
  by (simp add: json_lead_def split: option.split)

lemma skip_close [simp]:
  "\<not> json_space c \<Longrightarrow> skip_space (json_close dc cur c @ s) = c # s"
  by (simp add: json_close_def split: option.split)

lemma skip_separator [simp]: "skip_space (json_separator dc @ s) = CHR '','' # (if dc_indent dc = None then s else CHR 0x0A # s)"
  by (simp add: json_separator_def split: option.split)

text \<open>What follows a number must not continue it.\<close>

definition stops :: "string \<Rightarrow> bool" where
  "stops r \<longleftrightarrow> r = [] \<or> \<not> is_digit (hd r)"

lemma stops_simps [simp]: "stops []" "stops (c # r) \<longleftrightarrow> \<not> is_digit c"
  by (simp_all add: stops_def)

lemma stops_json [simp]: "stops (json_separator dc @ r)" "\<not> is_digit c \<Longrightarrow> stops (json_close dc cur c @ r)"
  by (simp_all add: json_separator_def json_close_def is_digit_def split: option.split)

lemma read_digits:
  assumes "stops r"
  shows "takeWhile is_digit (dec_nat n @ r) = dec_nat n" and "dropWhile is_digit (dec_nat n @ r) = r"
proof -
  have d: "\<forall>c \<in> set (dec_nat n). is_digit c"
    by (simp add: dec_nat_digits)
  show "takeWhile is_digit (dec_nat n @ r) = dec_nat n" "dropWhile is_digit (dec_nat n @ r) = r"
    using assms d by (cases r; simp add: stops_def)+
qed

lemma dec_int_read:
  assumes "stops r"
  shows "read_int (dec_int n @ r) = Some (J_int n, r)"
proof -
  have h: "hd (dec_nat k) \<noteq> CHR ''-''" for k
    by (metis dec_nat_digits dec_nat_not_Nil digit_neq(1) list.set_sel(1))
  show ?thesis
    by (cases "n < 0") (simp_all add: dec_int_def read_int_def Let_def h read_digits [OF assms])
qed


lemma dec_int_head: "\<exists>c u. dec_int n = c # u \<and> (is_digit c \<or> c = CHR ''-'')"
proof -
  have "\<exists>c u. dec_nat k = c # u \<and> is_digit c" for k
    by (cases "dec_nat k") (use dec_nat_digits [of _ k] in auto)
  from this [of "nat n"] show ?thesis
    by (cases "n < 0") (auto simp: dec_int_def)
qed

lemma digit_not_json_space: "is_digit c \<Longrightarrow> \<not> json_space c"
  by (auto simp: is_digit_def json_space_def)

lemma is_digit_chars [simp]:
  "\<not> is_digit (CHR 0x22)" "\<not> is_digit (CHR ''['')" "\<not> is_digit (CHR ''{'')" "\<not> is_digit (CHR '']'')"
  "\<not> is_digit (CHR ''n'')" "\<not> is_digit (CHR ''t'')" "\<not> is_digit (CHR ''f'')" "\<not> is_digit (CHR ''}'')"
  "\<not> is_digit (CHR '','')" "\<not> is_digit (CHR 0x0A)"
  by (simp_all add: is_digit_def)

lemma read_value_int:
  assumes "stops r"
  shows "read_value (Suc n) (dec_int k @ r) = Some (J_int k, r)"
proof -
  obtain c u where c: "dec_int k = c # u" "is_digit c \<or> c = CHR ''-''"
    using dec_int_head by blast
  then have n: "c \<noteq> CHR 0x22" "c \<noteq> CHR ''[''" "c \<noteq> CHR ''{''" "c \<noteq> CHR ''n''" "c \<noteq> CHR ''t''" "c \<noteq> CHR ''f''"
    by (auto simp: is_digit_def)
  have "\<not> json_space c"
    using c(2) by (auto simp: digit_not_json_space)
  then have "read_value (Suc n) (dec_int k @ r) = read_int (dec_int k @ r)"
    by (simp add: read_word_def c(1) n)
  then show ?thesis
    using dec_int_read [OF assms] by simp
qed

lemma dump_head:
  assumes "dump_value dc cur j = Some t" and "float_free j"
  shows "t \<noteq> [] \<and> \<not> json_space (hd t) \<and> hd t \<noteq> CHR '']''"
proof (cases j)
  case (J_int n)
  obtain c u where d: "dec_int n = c # u" "is_digit c \<or> c = CHR ''-''"
    using dec_int_head by blast
  then have "t = c # u"
    using assms J_int by simp
  then show ?thesis
    using d(2) by (auto simp: digit_not_json_space)
next
  case (J_object ms)
  then show ?thesis
    using assms by (cases "ms = []") (auto simp: json_open_def split: option.splits)
next
  case (J_array js)
  then show ?thesis
    using assms by (cases "js = []") (auto simp: json_open_def split: option.splits)
qed (use assms in \<open>auto split: if_splits\<close>)

lemma dump_string:
  assumes "dump_escaped h s = Some t"
  shows "t = escape_text (scrub s)"
  using assms by (cases h) (auto simp: dump_escaped_replace dump_escaped_strict split: if_splits)

lemma length_frame [simp]:
  "length (json_close dc cur c) \<ge> 1" "length (json_open dc c) \<ge> 1" "length (json_separator dc) \<ge> 1"
  "length (json_colon dc) \<ge> 2"
  by (simp_all add: json_close_def json_open_def json_separator_def json_colon_def split: option.split)

lemma skip_open: "json_open dc c @ s = c # (if dc_indent dc = None then s else CHR 0x0A # s)"
  by (simp add: json_open_def split: option.split)

lemma skip_colon: "json_colon dc @ s = CHR 0x22 # CHR '':'' # (if dc_indent dc = None then s else CHR '' '' # s)"
  by (simp add: json_colon_def)

text \<open>Leading space does not matter to the readers.\<close>

lemma read_lead [simp]:
  "read_value n (json_lead dc cur @ s) = read_value n s"
  "read_members n (json_lead dc cur @ s) = read_members n s"
  "read_elements n (json_lead dc cur @ s) = read_elements n s"
  "json_space c \<Longrightarrow> read_value n (c # s) = read_value n s"
  "json_space c \<Longrightarrow> read_members n (c # s) = read_members n s"
  "json_space c \<Longrightarrow> read_elements n (c # s) = read_elements n s"
proof -
  show v: "read_value n (json_lead dc cur @ s) = read_value n s" for n
    by (cases n) simp_all
  show w: "json_space c \<Longrightarrow> read_value n (c # s) = read_value n s" for n
    by (cases n) simp_all
  show "read_members n (json_lead dc cur @ s) = read_members n s" "json_space c \<Longrightarrow> read_members n (c # s) = read_members n s"
    by (cases n; simp)+
  show "read_elements n (json_lead dc cur @ s) = read_elements n s" "json_space c \<Longrightarrow> read_elements n (c # s) = read_elements n s"
    by (cases n; simp add: v w)+
qed


lemma elements_head:
  assumes "dump_elements dc cur js = Some u" and "js \<noteq> []" and "float_free_elements js"
  shows "take 1 (skip_space (u @ s)) \<noteq> '']''"
proof -
  obtain j rest t v where "js = j # rest" "dump_value dc (json_inner dc cur) j = Some t" "u = json_lead dc cur @ t @ v"
    using assms(1,2) by (cases js) (auto split: option.splits)
  moreover from this have "t \<noteq> []" "\<not> json_space (hd t)" "hd t \<noteq> CHR '']''"
    using dump_head assms(3) by auto
  ultimately show ?thesis
    by (cases t) simp_all
qed

lemma members_head:
  assumes "dump_members dc cur ms = Some u" and "ms \<noteq> []"
  shows "take 1 (skip_space (u @ s)) \<noteq> ''}''"
  using assms by (cases ms) (auto split: option.splits)

lemma read_dump:
  "dump_value dc cur j = Some t \<Longrightarrow> float_free j \<Longrightarrow> stops r \<Longrightarrow> length t < n \<Longrightarrow>
     read_value n (t @ r) = Some (scrub_json j, r)"
  "dump_members dc cur ms = Some t \<Longrightarrow> ms \<noteq> [] \<Longrightarrow> float_free_members ms \<Longrightarrow> length t < n \<Longrightarrow>
     read_members n (t @ json_close dc cur (CHR ''}'') @ r) = Some (scrub_members ms, r)"
  "dump_elements dc cur js = Some t \<Longrightarrow> js \<noteq> [] \<Longrightarrow> float_free_elements js \<Longrightarrow> Suc (length t) < n \<Longrightarrow>
     read_elements n (t @ json_close dc cur (CHR '']'') @ r) = Some (scrub_elements js, r)"
proof (induction dc cur j and dc cur ms and dc cur js arbitrary: t r n and t r n and t r n
    rule: dump_value_dump_members_dump_elements.induct)
  case (1 dc cur)
  then show ?case
    by (cases n) (auto simp: read_word_def)
next
  case (2 dc cur b)
  then show ?case
    by (cases n) (auto simp: read_word_def)
next
  case (3 dc cur k)
  then show ?case
    using read_value_int [of r _ k] by (cases n) (auto simp del: read_value.simps)
next
  case (5 dc cur s)
  then show ?case
    using read_escape_text [of "scrub s" r] by (cases n) (auto dest: dump_string)
next
  case (6 dc cur js)
  show ?case
  proof (cases "js = []")
    case True
    then show ?thesis
      using "6.prems" by (cases n) auto
  next
    case False
    obtain u where u: "dump_elements dc cur js = Some u"
        "t = json_open dc (CHR ''['') @ u @ json_close dc cur (CHR '']'')"
      using "6.prems"(1) False by auto
    then obtain m where m: "n = Suc m" "Suc (length u) < m"
      using "6.prems"(4) length_frame(1) [of dc cur "CHR '']''"] length_frame(2) [of dc "CHR ''[''"] by (cases n) auto
    then show ?thesis
      using "6.IH" [OF False u(1) False _ m(2), of r] "6.prems"(2) elements_head [OF u(1) False]
      by (simp add: u(2) m(1) skip_open)
  qed
next
  case (7 dc cur ms)
  show ?case
  proof (cases "ms = []")
    case True
    then show ?thesis
      using "7.prems" by (cases n) auto
  next
    case False
    obtain u where u: "dump_members dc cur ms = Some u"
        "t = json_open dc (CHR ''{'') @ u @ json_close dc cur (CHR ''}'')"
      using "7.prems"(1) False by auto
    then obtain m where m: "n = Suc m" "length u < m"
      using "7.prems"(4) length_frame(1) [of dc cur "CHR ''}''"] length_frame(2) [of dc "CHR ''{''"] by (cases n) auto
    then show ?thesis
      using "7.IH" [OF False u(1) False _ m(2), of r] "7.prems"(2) members_head [OF u(1) False]
      by (simp add: u(2) m(1) skip_open)
  qed
next
  case (9 dc cur k v ms)
  obtain k' v' u where d: "dump_escaped (dc_handler dc) k = Some k'"
      "dump_value dc (json_inner dc cur) v = Some v'" "dump_members dc cur ms = Some u"
      "t = json_lead dc cur @ [CHR 0x22] @ k' @ json_colon dc @ v' @ (if ms = [] then [] else json_separator dc) @ u"
    using "9.prems"(1) by (auto split: option.splits)
  obtain m where m: "n = Suc m"
    using "9.prems"(4) by (cases n) auto
  have lv: "length v' < m" and lu: "length u < m"
    using "9.prems"(4) by (auto simp: d(4) m json_colon_def)
  let ?rest = "(if ms = [] then [] else json_separator dc) @ u @ json_close dc cur (CHR ''}'') @ r"
  have "stops ?rest"
    using d(3) by (cases "ms = []") auto
  note v = "9.IH"(1) [OF d(1,2) _ this lv]
  have k: "read_string (k' @ CHR 0x22 # x) = Some (scrub k, x)" for x
    using read_escape_text [of "scrub k" x] dump_string [OF d(1)] by simp
  show ?case
  proof (cases "ms = []")
    case True
    then show ?thesis
      using v "9.prems"(3) d(3) by (simp add: d(4) m skip_colon k)
  next
    case False
    then show ?thesis
      using v "9.prems"(3) "9.IH"(2) [OF d(1,2,3) False _ lu, of r]
      by (simp add: d(4) m skip_colon k)
  qed
next
  case (11 dc cur j js)
  obtain j' u where d: "dump_value dc (json_inner dc cur) j = Some j'" "dump_elements dc cur js = Some u"
      "t = json_lead dc cur @ j' @ (if js = [] then [] else json_separator dc) @ u"
    using "11.prems"(1) by (auto split: option.splits)
  obtain m where m: "n = Suc m"
    using "11.prems"(4) by (cases n) auto
  have "j' \<noteq> []"
    using dump_head [OF d(1)] "11.prems"(3) by simp
  then have "0 < length j'"
    by simp
  then have lj: "length j' < m" and lu: "js \<noteq> [] \<Longrightarrow> Suc (length u) < m"
    using "11.prems"(4) length_frame(3) [of dc] by (auto simp: d(3) m)
  have "stops ((if js = [] then [] else json_separator dc) @ u @ json_close dc cur (CHR '']'') @ r)"
    using d(2) by (cases "js = []") auto
  note v = "11.IH"(1) [OF d(1) _ this lj]
  show ?case
  proof (cases "js = []")
    case True
    then show ?thesis
      using v "11.prems"(3) d(2) by (simp add: d(3) m)
  next
    case False
    then show ?thesis
      using v "11.prems"(3) "11.IH"(2) [OF d(1,2) False _ lu [OF False], of r]
      by (simp add: d(3) m)
  qed
qed simp_all

text \<open>What \<open>dump\<close> writes reads back, by either handler and at any indentation.\<close>

lemma read_dump_json:
  assumes "dump_json dc j = Some t" and "float_free j"
  shows "read_json t = Some (scrub_json j)"
  using read_dump(1) [OF assms(1) [unfolded dump_json_def] assms(2), of "[]" "Suc (length t)"]
  by (simp add: read_json_def)

end
