(* ===== verification/Alert_Output.thy ===== *)
theory Alert_Output
  imports Alert Json_Reader
begin

section \<open>What an alert writes\<close>

text \<open>
  \<open>emit_alert\<close> of \<open>analyzer/src/alert.cpp\<close>: the JSON line on \<open>stdout\<close>, for a collector of logs, and the
  console line on \<open>stderr\<close>.  The time is a parameter.  The JSON line is one line of printable UTF-8
  from which the alert's fields can be read back whatever bytes they hold; of the console line this
  is not true: it is built in \<open>Alert\<close>, and \<open>Summary\<close> has an event whose file name splits it.
\<close>

definition alert_json :: "int \<Rightarrow> alert \<Rightarrow> json" where
  "alert_json ts a = json_object
     [(''ts'', J_int ts), (''verdict'', J_string (verdict_string (a_verdict a))),
      (''severity'', J_string (severity_string (a_severity a))), (''source'', J_string (a_source a)),
      (''pid'', J_int (uint (a_pid a))), (''comm'', J_string (a_comm a)),
      (''event'', J_string (a_event_summary a)), (''reason'', J_string (a_reason a))]"

definition alert_config :: "(double \<Rightarrow> string) \<Rightarrow> dump_config" where
  "alert_config fl = \<lparr>dc_handler = Replace, dc_indent = None, dc_float = fl\<rparr>"

text \<open>What is written to \<open>stdout\<close> and to \<open>stderr\<close>; \<open>None\<close> would be an exception of \<open>dump\<close>.\<close>

definition emit_alert :: "(double \<Rightarrow> string) \<Rightarrow> int \<Rightarrow> alert \<Rightarrow> (string \<times> string) option" where
  "emit_alert fl ts a =
     map_option (\<lambda>t. (cstr t @ [CHR 0x0A], alert_line a)) (dump_json (alert_config fl) (alert_json ts a))"

subsection \<open>Output that is printable UTF-8\<close>

definition clean :: "string \<Rightarrow> bool" where
  "clean s \<longleftrightarrow> utf8 s \<and> (\<forall>c \<in> set s. 0x20 \<le> (of_char c :: nat))"

lemma clean_append: "clean s \<Longrightarrow> clean t \<Longrightarrow> clean (s @ t)"
  by (auto simp: clean_def utf8_append)

lemma clean_ascii: "\<forall>c \<in> set s. 0x20 \<le> (of_char c :: nat) \<and> of_char c < (0x80 :: nat) \<Longrightarrow> clean s"
  by (simp add: clean_def utf8_ascii)

lemma clean_simps [simp]:
  "clean []" "0x20 \<le> (of_char c :: nat) \<Longrightarrow> of_char c < (0x80 :: nat) \<Longrightarrow> clean (c # s) \<longleftrightarrow> clean s"
  by (simp_all add: clean_def utf8_def needs_def in_range_def)

lemma escape_char_ascii: "of_char c < (0x80 :: nat) \<Longrightarrow> k \<in> set (escape_char c) \<Longrightarrow> of_char k < (0x80 :: nat)"
proof -
  have h: "of_char (hex_digit n) < (0x80 :: nat)" if "n < 16" for n
    using hex_value_digit [OF that] by (auto simp: hex_value_def in_range_def split: if_splits)
  show "of_char c < (0x80 :: nat) \<Longrightarrow> k \<in> set (escape_char c) \<Longrightarrow> of_char k < (0x80 :: nat)"
    using h by (auto simp: escape_char_cases hex4_def split: if_splits)
qed

lemma utf8_escape_text: "utf8 s \<Longrightarrow> utf8 (escape_text s)"
proof (induction s rule: pieces.induct)
  case 1
  then show ?case
    by (simp add: utf8_def)
next
  case (2 c s)
  obtain rs where n: "needs c = Some rs" "snd (snd (tail_of rs s))" "utf8 (fst (snd (tail_of rs s)))"
    using "2.prems" by (auto simp: utf8_def split: option.splits if_splits)
  let ?q = "fst (tail_of rs s)" and ?t = "fst (snd (tail_of rs s))"
  have rs: "rs = state_needs (first_state c)"
    using n(1) by (simp add: needs_by_state split: if_splits)
  have "escape_text (c # s) = escape_text (c # ?q) @ escape_text ?t"
    using tail_of_append [of rs s] by (metis append_Cons escape_text_append)
  moreover have "utf8 (escape_text (c # ?q))"
  proof (cases "of_char c < (0x80 :: nat)")
    case True
    then have "?q = []"
      using rs by (cases s) (simp_all add: first_state_def in_range_def state_needs_def)
    then show ?thesis
      using True by (auto intro!: utf8_ascii dest: escape_char_ascii)
  next
    case False
    then have "escape_text (c # ?q) = c # ?q"
      using tail_of_high [of rs s] state_needs_high by (intro escape_text_high) (auto simp: rs)
    moreover have "pieces (c # ?q) = [Character (c # ?q)]"
      using tail_of_again [OF n(2), of "[]"] n(1) by simp
    ultimately show ?thesis
      by (simp add: utf8_def)
  qed
  ultimately show ?case
    using "2.IH"(2) [OF n(1) n(3)] by (simp only: utf8_append)
qed

lemma clean_string: "dump_escaped Replace s = Some t \<Longrightarrow> clean t"
  by (auto simp: dump_escaped_replace clean_def utf8_escape_text utf8_scrub dest: escape_printable)


lemma clean_dec_int: "clean (dec_int n)"
proof (rule clean_ascii, rule)
  fix c
  assume "c \<in> set (dec_int n)"
  then have "is_digit c \<or> c = CHR ''-''"
    by (auto simp: dec_int_def dest: dec_nat_digits split: if_splits)
  then show "0x20 \<le> (of_char c :: nat) \<and> of_char c < (0x80 :: nat)"
    by (auto simp: is_digit_def)
qed

lemma clean_compact:
  assumes "dc_indent dc = None" and "dc_handler dc = Replace"
  shows "dump_value dc cur j = Some t \<Longrightarrow> float_free j \<Longrightarrow> clean t"
    and "dump_members dc cur ms = Some t \<Longrightarrow> float_free_members ms \<Longrightarrow> clean t"
    and "dump_elements dc cur js = Some t \<Longrightarrow> float_free_elements js \<Longrightarrow> clean t"
  using assms
proof (induction dc cur j and dc cur ms and dc cur js arbitrary: t and t and t
    rule: dump_value_dump_members_dump_elements.induct)
  case (5 dc cur s)
  then show ?case
    by (auto intro!: clean_append dest: clean_string)
next
  case (6 dc cur js)
  then show ?case
    by (auto simp: json_open_def json_close_def intro!: clean_append split: if_splits)
next
  case (7 dc cur ms)
  then show ?case
    by (auto simp: json_open_def json_close_def intro!: clean_append split: if_splits)
next
  case (9 dc cur k v ms)
  then show ?case
    by (auto simp: json_lead_def json_colon_def json_separator_def intro!: clean_append
        split: option.splits dest!: clean_string)
next
  case (11 dc cur j js)
  then show ?case
    by (auto simp: json_lead_def json_separator_def intro!: clean_append split: option.splits)
qed (auto simp: clean_dec_int intro!: clean_ascii)


lemma alert_object:
  "alert_json ts a = J_object
     [(''comm'', J_string (a_comm a)), (''event'', J_string (a_event_summary a)), (''pid'', J_int (uint (a_pid a))),
      (''reason'', J_string (a_reason a)), (''severity'', J_string (severity_string (a_severity a))),
      (''source'', J_string (a_source a)), (''ts'', J_int ts), (''verdict'', J_string (verdict_string (a_verdict a)))]"
  by (simp add: alert_json_def json_object_def sort_key_def less_eq_char_def less_char_def)

lemma scrub_names [simp]:
  "scrub (severity_string s) = severity_string s" "scrub (verdict_string v) = verdict_string v"
  by (cases s; simp add: scrub_utf8 utf8_ascii) (cases v; simp add: scrub_utf8 utf8_ascii)

lemma scrub_key: "\<forall>c \<in> set s. of_char c < (0x80 :: nat) \<Longrightarrow> scrub s = s"
  by (simp add: scrub_utf8 utf8_ascii)

lemma dump_value_replace:
  assumes "dc_handler dc = Replace"
  shows "dump_value dc cur j \<noteq> None" and "dump_members dc cur ms \<noteq> None" and "dump_elements dc cur js \<noteq> None"
  using assms
  by (induction dc cur j and dc cur ms and dc cur js rule: dump_value_dump_members_dump_elements.induct)
    (auto simp: dump_escaped_replace split: option.split, blast)

lemma clean_cstr: "clean t \<Longrightarrow> cstr t = t"
  by (auto simp: clean_def cstr_def nul_def takeWhile_eq_all_conv)

text \<open>
  C24. The line for the log collector can be trusted.  Whatever an alert holds, \<open>emit_alert\<close> does not throw
  and writes to \<open>stdout\<close> a text of printable UTF-8 and one line break; the text reads back as the
  object with the alert's fields, with ill-formed parts of the strings replaced.  So an alert is one
  line, and nothing in its fields can end a string, add a member or start another line.
\<close>

theorem alert_line_reads_back:
  "\<exists>t. emit_alert fl ts a = Some (t @ [CHR 0x0A], alert_line a) \<and> clean t \<and>
     read_json t = Some (J_object
       [(''comm'', J_string (scrub (a_comm a))), (''event'', J_string (scrub (a_event_summary a))),
        (''pid'', J_int (uint (a_pid a))), (''reason'', J_string (scrub (a_reason a))),
        (''severity'', J_string (severity_string (a_severity a))), (''source'', J_string (scrub (a_source a))),
        (''ts'', J_int ts), (''verdict'', J_string (verdict_string (a_verdict a)))])"
proof -
  have c: "dc_handler (alert_config fl) = Replace" "dc_indent (alert_config fl) = None"
    by (simp_all add: alert_config_def)
  obtain t where t: "dump_json (alert_config fl) (alert_json ts a) = Some t"
    using dump_value_replace(1) [OF c(1)] unfolding dump_json_def by blast
  have f: "float_free (alert_json ts a)"
    by (simp add: alert_object)
  have "clean t"
    using clean_compact(1) [OF c(2,1) t [unfolded dump_json_def] f] .
  moreover have "emit_alert fl ts a = Some (t @ [CHR 0x0A], alert_line a)"
    using t clean_cstr [OF \<open>clean t\<close>] by (simp add: emit_alert_def)
  moreover note read_dump_json [OF t f]
  ultimately show ?thesis
    by (intro exI [of _ t]) (simp add: alert_object scrub_key)
qed

end
