(* ===== verification/Report_Messages.thy ===== *)
theory Report_Messages
  imports Main
begin

section \<open>Texts of the evaluation's report\<close>

text \<open>
  The string literals of the report that \<open>analyzer/src/eval.cpp\<close> prints, as UTF-8 bytes and cut at the
  conversion specifications of their \<open>printf\<close> formats.
\<close>

definition rt_title :: string where
  "rt_title =
     ''# '' @ [CHR 0xED, CHR 0x83, CHR 0x90, CHR 0xEC, CHR 0xA7, CHR 0x80, CHR 0x20, CHR 0xED,
     CHR 0x8F, CHR 0x89, CHR 0xEA, CHR 0xB0, CHR 0x80, CHR 0x20, CHR 0xEA, CHR 0xB2, CHR 0xB0,
     CHR 0xEA, CHR 0xB3, CHR 0xBC] @ '' (llm=''"

definition rt_close :: string where
  "rt_close =
     '')'' @ [CHR 0x0A, CHR 0x0A]"

definition rt_benign :: string where
  "rt_benign =
     ''## 1. '' @ [CHR 0xEC, CHR 0xA0, CHR 0x95, CHR 0xEC, CHR 0x83, CHR 0x81, CHR 0x20, CHR
     0xEC, CHR 0xBD, CHR 0x94, CHR 0xED, CHR 0x8D, CHR 0xBC, CHR 0xEC, CHR 0x8A, CHR 0xA4, CHR
     0x20, CHR 0xE2, CHR 0x80, CHR 0x94, CHR 0x20, CHR 0xEC, CHR 0x98, CHR 0xA4, CHR 0xED, CHR
     0x83, CHR 0x90, CHR 0xEB, CHR 0xA5, CHR 0xA0, CHR 0xC2, CHR 0xB7, CHR 0xEB, CHR 0xB9, CHR
     0x84, CHR 0xEC, CHR 0x9A, CHR 0xA9] @ '' (''"

definition rt_files :: string where
  "rt_files =
     '' '' @ [CHR 0xED, CHR 0x8C, CHR 0x8C, CHR 0xEC, CHR 0x9D, CHR 0xBC] @ '', ''"

definition rt_events :: string where
  "rt_events =
     '' '' @ [CHR 0xEC, CHR 0x9D, CHR 0xB4, CHR 0xEB, CHR 0xB2, CHR 0xA4, CHR 0xED, CHR 0x8A, CHR
     0xB8, CHR 0x29, CHR 0x0A, CHR 0x0A]"

definition rt_metric :: string where
  "rt_metric =
     ''| '' @ [CHR 0xEC, CHR 0xA7, CHR 0x80, CHR 0xED, CHR 0x91, CHR 0x9C] @ '' | '' @ [CHR 0xEA,
     CHR 0xB0, CHR 0x92, CHR 0x20, CHR 0x7C, CHR 0x0A] @ ''|---|---:|'' @ [CHR 0x0A]"

definition rt_alert :: string where
  "rt_alert =
     ''| alert (= '' @ [CHR 0xEC, CHR 0x98, CHR 0xA4, CHR 0xED, CHR 0x83, CHR 0x90] @ '') | ''"

definition rt_bold_end :: string where
  "rt_bold_end =
     ''%** |'' @ [CHR 0x0A]"

definition rt_source :: string where
  "rt_source =
     ''| &nbsp;&nbsp;'' @ [CHR 0xEC, CHR 0x98, CHR 0xA4, CHR 0xED, CHR 0x83, CHR 0x90] @
     '' by source '' @ [CHR 0x60]"

definition rt_source_n :: string where
  "rt_source_n =
     [CHR 0x60] @ '' | ''"

definition rt_pct_end :: string where
  "rt_pct_end =
     ''%) |'' @ [CHR 0x0A]"

definition rt_haiku :: string where
  "rt_haiku =
     ''| LLM '' @ [CHR 0xEB, CHR 0x8F, CHR 0x84, CHR 0xEB, CHR 0x8B, CHR 0xAC] @ '' (Haiku '' @
     [CHR 0xED, CHR 0x98, CHR 0xB8, CHR 0xEC, CHR 0xB6, CHR 0x9C, CHR 0x20, CHR 0xEC, CHR 0x9D,
     CHR 0xB4, CHR 0xEB, CHR 0xB2, CHR 0xA4, CHR 0xED, CHR 0x8A, CHR 0xB8] @ '') | ''"

definition rt_sonnet :: string where
  "rt_sonnet =
     ''| Sonnet '' @ [CHR 0xEB, CHR 0x8F, CHR 0x84, CHR 0xEB, CHR 0x8B, CHR 0xAC] @ '' | ''"

definition rt_calls :: string where
  "rt_calls =
     ''| '' @ [CHR 0xEC, CHR 0x8B, CHR 0xA4] @ '' API '' @ [CHR 0xED, CHR 0x98, CHR 0xB8, CHR
     0xEC, CHR 0xB6, CHR 0x9C, CHR 0x20, CHR 0x28, CHR 0xEB, CHR 0xA9, CHR 0x94, CHR 0xEB, CHR
     0xAA, CHR 0xA8, CHR 0x20, CHR 0xED, CHR 0x9B, CHR 0x84] @ '') | ''"

definition rt_hits :: string where
  "rt_hits =
     '' ('' @ [CHR 0xEB, CHR 0xA9, CHR 0x94, CHR 0xEB, CHR 0xAA, CHR 0xA8, CHR 0x20, CHR 0xED,
     CHR 0x9E, CHR 0x88, CHR 0xED, CHR 0x8A, CHR 0xB8] @ '' ''"

definition rt_row_end :: string where
  "rt_row_end =
     '') |'' @ [CHR 0x0A]"

definition rt_tokens :: string where
  "rt_tokens =
     ''| '' @ [CHR 0xED, CHR 0x86, CHR 0xA0, CHR 0xED, CHR 0x81, CHR 0xB0] @
     '' (Haiku in/out, Sonnet in/out) | ''"

definition rt_bar_end :: string where
  "rt_bar_end =
     '' |'' @ [CHR 0x0A]"

definition rt_cost :: string where
  "rt_cost =
     ''| '' @ [CHR 0xEB, CHR 0xB9, CHR 0x84, CHR 0xEC, CHR 0x9A, CHR 0xA9] @ '' | $''"

definition rt_cost_k :: string where
  "rt_cost_k =
     '' '' @ [CHR 0xEC, CHR 0xB4, CHR 0x9D] @ '', **$''"

definition rt_cost_x :: string where
  "rt_cost_x =
     '' / 1k '' @ [CHR 0xEC, CHR 0x9D, CHR 0xB4, CHR 0xEB, CHR 0xB2, CHR 0xA4, CHR 0xED, CHR
     0x8A, CHR 0xB8] @ ''** ('' @ [CHR 0xEB, CHR 0xA9, CHR 0x94, CHR 0xEB, CHR 0xAA, CHR 0xA8,
     CHR 0x20, CHR 0xEC, CHR 0x97, CHR 0x86, CHR 0xEC, CHR 0x9D, CHR 0xB4, CHR 0xEB, CHR 0xA9,
     CHR 0xB4, CHR 0x20, CHR 0xC3, CHR 0x97]"

definition rt_no_cost :: string where
  "rt_no_cost =
     ''| '' @ [CHR 0xEB, CHR 0xB9, CHR 0x84, CHR 0xEC, CHR 0x9A, CHR 0xA9] @ '' | n/a (mock) |''
     @ [CHR 0x0A]"

definition rt_rule_lat :: string where
  "rt_rule_lat =
     ''| '' @ [CHR 0xEC, CHR 0xA7, CHR 0x80, CHR 0xEC, CHR 0x97, CHR 0xB0, CHR 0x20, CHR 0xEB,
     CHR 0xA3, CHR 0xB0, CHR 0x20, CHR 0xEA, CHR 0xB2, CHR 0xBD, CHR 0xEB, CHR 0xA1, CHR 0x9C] @
     '' median / p90 | ''"

definition rt_llm_lat :: string where
  "rt_llm_lat =
     ''| '' @ [CHR 0xEC, CHR 0xA7, CHR 0x80, CHR 0xEC, CHR 0x97, CHR 0xB0] @ '' LLM '' @ [CHR
     0xEA, CHR 0xB2, CHR 0xBD, CHR 0xEB, CHR 0xA1, CHR 0x9C] @ '' median / p90 | ''"

definition rt_us :: string where
  "rt_us =
     '' '' @ [CHR 0xC2, CHR 0xB5] @ ''s |'' @ [CHR 0x0A]"

definition rt_layers :: string where
  "rt_layers =
     [CHR 0x0A, CHR 0xEC, CHR 0xB8, CHR 0xB5, CHR 0xEB, CHR 0xB3, CHR 0x84, CHR 0x20, CHR 0xEB,
     CHR 0xB6, CHR 0x84, CHR 0xED, CHR 0x8F, CHR 0xAC] @ '': ''"

definition rt_tick :: string where
  "rt_tick =
     [CHR 0x60]"

definition rt_tick_sp :: string where
  "rt_tick_sp =
     [CHR 0x60] @ '' ''"

definition rt_pct_sp :: string where
  "rt_pct_sp =
     ''%  ''"

definition rt_top :: string where
  "rt_top =
     [CHR 0x0A, CHR 0x0A, CHR 0xEC, CHR 0x83, CHR 0x81, CHR 0xEC, CHR 0x9C, CHR 0x84, CHR 0x20,
     CHR 0xEC, CHR 0x98, CHR 0xA4, CHR 0xED, CHR 0x83, CHR 0x90, CHR 0x20, CHR 0xEC, CHR 0x9A,
     CHR 0x94, CHR 0xEC, CHR 0x95, CHR 0xBD] @ '' (top 10):'' @ [CHR 0x0A, CHR 0x0A] @ ''| n | ''
     @ [CHR 0xEC, CHR 0x9D, CHR 0xB4, CHR 0xEB, CHR 0xB2, CHR 0xA4, CHR 0xED, CHR 0x8A, CHR 0xB8]
     @ '' | source |'' @ [CHR 0x0A] @ ''|---:|---|---|'' @ [CHR 0x0A]"

definition rt_top_n :: string where
  "rt_top_n =
     '' | '' @ [CHR 0x60]"

definition rt_top_end :: string where
  "rt_top_end =
     [CHR 0x60] @ '' | |'' @ [CHR 0x0A]"

definition rt_attack :: string where
  "rt_attack =
     ''## 2. '' @ [CHR 0xEA, CHR 0xB3, CHR 0xB5, CHR 0xEA, CHR 0xB2, CHR 0xA9, CHR 0x20, CHR
     0xEC, CHR 0x8B, CHR 0x9C, CHR 0xEB, CHR 0x82, CHR 0x98, CHR 0xEB, CHR 0xA6, CHR 0xAC, CHR
     0xEC, CHR 0x98, CHR 0xA4, CHR 0x20, CHR 0xE2, CHR 0x80, CHR 0x94, CHR 0x20, CHR 0xED, CHR
     0x83, CHR 0x90, CHR 0xEC, CHR 0xA7, CHR 0x80, CHR 0xEC, CHR 0x9C, CHR 0xA8] @ '' (''"

definition rt_scenarios :: string where
  "rt_scenarios =
     '' '' @ [CHR 0xEC, CHR 0x8B, CHR 0x9C, CHR 0xEB, CHR 0x82, CHR 0x98, CHR 0xEB, CHR 0xA6, CHR
     0xAC, CHR 0xEC, CHR 0x98, CHR 0xA4, CHR 0x29, CHR 0x0A, CHR 0x0A]"

definition rt_attack_head :: string where
  "rt_attack_head =
     ''| '' @ [CHR 0xEC, CHR 0x8B, CHR 0x9C, CHR 0xEB, CHR 0x82, CHR 0x98, CHR 0xEB, CHR 0xA6,
     CHR 0xAC, CHR 0xEC, CHR 0x98, CHR 0xA4] @ '' | '' @ [CHR 0xEC, CHR 0x9D, CHR 0xB4, CHR 0xEB,
     CHR 0xB2, CHR 0xA4, CHR 0xED, CHR 0x8A, CHR 0xB8] @ '' | expect:alert '' @ [CHR 0xED, CHR
     0x83, CHR 0x90, CHR 0xEC, CHR 0xA7, CHR 0x80] @ '' | expect:drop '' @ [CHR 0xEC, CHR 0x98,
     CHR 0xA4, CHR 0xED, CHR 0x83, CHR 0x90] @ '' | '' @ [CHR 0xEC, CHR 0x8B, CHR 0x9C, CHR 0xEB,
     CHR 0x82, CHR 0x98, CHR 0xEB, CHR 0xA6, CHR 0xAC, CHR 0xEC, CHR 0x98, CHR 0xA4, CHR 0x20,
     CHR 0xED, CHR 0x83, CHR 0x90, CHR 0xEC, CHR 0xA7, CHR 0x80, CHR 0x20, CHR 0x28, CHR 0xE2,
     CHR 0x89, CHR 0xA5] @ ''High) | '' @ [CHR 0xEC, CHR 0xB5, CHR 0x9C, CHR 0xEB, CHR 0x8C, CHR
     0x80, CHR 0x20, CHR 0xEC, CHR 0x8B, CHR 0xAC, CHR 0xEA, CHR 0xB0, CHR 0x81, CHR 0xEB, CHR
     0x8F, CHR 0x84] @ '' | '' @ [CHR 0xEA, CHR 0xB8, CHR 0xB0, CHR 0xEB, CHR 0x8C, CHR 0x80, CHR
     0x20, CHR 0xEC, CHR 0x8B, CHR 0xAC, CHR 0xEA, CHR 0xB0, CHR 0x81, CHR 0xEB, CHR 0x8F, CHR
     0x84] @ '' | '' @ [CHR 0xEA, CHR 0xB2, CHR 0xB0, CHR 0xEC, CHR 0xA0, CHR 0x95, CHR 0x20, CHR
     0xEC, CHR 0xB8, CHR 0xB5] @ '' | '' @ [CHR 0xEB, CHR 0xB9, CHR 0x84, CHR 0xEA, CHR 0xB3, CHR
     0xA0, CHR 0x20, CHR 0x7C, CHR 0x0A] @ ''|---|---:|---:|---:|:---:|---|---|---|---|'' @ [CHR
     0x0A]"

definition rt_times :: string where
  "rt_times =
     [CHR 0xC3, CHR 0x97]"

definition rt_yes :: string where
  "rt_yes =
     [CHR 0xE2, CHR 0x9C, CHR 0x85]"

definition rt_no :: string where
  "rt_no =
     [CHR 0xE2, CHR 0x9D, CHR 0x8C]"

definition rt_at_least :: string where
  "rt_at_least =
     [CHR 0xE2, CHR 0x89, CHR 0xA5]"

definition rt_met :: string where
  "rt_met =
     '' '' @ [CHR 0xE2, CHR 0x9C, CHR 0x85]"

definition rt_not_met :: string where
  "rt_not_met =
     '' '' @ [CHR 0xE2, CHR 0x9D, CHR 0x8C, CHR 0x20, CHR 0x28, CHR 0xEB, CHR 0xAF, CHR 0xB8, CHR
     0xEB, CHR 0x8B, CHR 0xAC] @ '')''"

definition rt_detected :: string where
  "rt_detected =
     [CHR 0x0A, CHR 0xEC, CHR 0x8B, CHR 0x9C, CHR 0xEB, CHR 0x82, CHR 0x98, CHR 0xEB, CHR 0xA6,
     CHR 0xAC, CHR 0xEC, CHR 0x98, CHR 0xA4, CHR 0x20, CHR 0xED, CHR 0x83, CHR 0x90, CHR 0xEC,
     CHR 0xA7, CHR 0x80] @ '' **''"

definition rt_gated :: string where
  "rt_gated =
     ''**, '' @ [CHR 0xEA, CHR 0xB2, CHR 0x8C, CHR 0xEC, CHR 0x9D, CHR 0xB4, CHR 0xED, CHR 0x8A,
     CHR 0xB8, CHR 0x20, CHR 0xEB, CHR 0x8C, CHR 0x80, CHR 0xEC, CHR 0x83, CHR 0x81] @
     ''(known-miss '' @ [CHR 0xEC, CHR 0xA0, CHR 0x9C, CHR 0xEC, CHR 0x99, CHR 0xB8] @ '') **''"

definition rt_attack_llm :: string where
  "rt_attack_llm =
     ''**. '' @ [CHR 0xEA, CHR 0xB3, CHR 0xB5, CHR 0xEA, CHR 0xB2, CHR 0xA9, CHR 0x20, CHR 0xEC,
     CHR 0xBD, CHR 0x94, CHR 0xED, CHR 0x8D, CHR 0xBC, CHR 0xEC, CHR 0x8A, CHR 0xA4] @ '' LLM ''
     @ [CHR 0xED, CHR 0x98, CHR 0xB8, CHR 0xEC, CHR 0xB6, CHR 0x9C] @ '': Haiku ''"

definition rt_attack_end :: string where
  "rt_attack_end =
     ''.'' @ [CHR 0x0A, CHR 0x0A]"

definition rt_total :: string where
  "rt_total =
     [CHR 0xEC, CHR 0x8B, CHR 0xA4] @ '' API '' @ [CHR 0xED, CHR 0x98, CHR 0xB8, CHR 0xEC, CHR
     0xB6, CHR 0x9C, CHR 0x20, CHR 0xED, CHR 0x95, CHR 0xA9, CHR 0xEA, CHR 0xB3, CHR 0x84] @
     '' ''"

definition rt_capped :: string where
  "rt_capped =
     '', '' @ [CHR 0xEC, CHR 0x83, CHR 0x81, CHR 0xED, CHR 0x95, CHR 0x9C, CHR 0x20, CHR 0xEB,
     CHR 0x8F, CHR 0x84, CHR 0xEB, CHR 0x8B, CHR 0xAC] @ '' ''"

definition rt_total_cost :: string where
  "rt_total_cost =
     ''), '' @ [CHR 0xEC, CHR 0xB4, CHR 0x9D, CHR 0x20, CHR 0xEB, CHR 0xB9, CHR 0x84, CHR 0xEC,
     CHR 0x9A, CHR 0xA9] @ '' $''"

end
