(* ===== verification/Double_Arith.thy ===== *)
theory Double_Arith
  imports Doubles Complex_Main
begin

section \<open>Arithmetic on doubles\<close>

text \<open>
  Multiplication, division and addition of the doubles of \<open>Doubles\<close>: the exact result of the
  operands, rounded once.  As there, the exponents are unbounded and zero has one sign in effect;
  division is used with divisors other than zero only.
\<close>

definition double_of_nat :: "nat \<Rightarrow> double" where
  "double_of_nat n = round_to_double n 1"

definition double_mul :: "double \<Rightarrow> double \<Rightarrow> double" where
  "double_mul x y = (round_to_double (dnum x * dnum y) (dden x * dden y))\<lparr>dneg := dneg x \<noteq> dneg y\<rparr>"

definition double_over :: "double \<Rightarrow> double \<Rightarrow> double" where
  "double_over x y = (round_to_double (dnum x * dden y) (dden x * dnum y))\<lparr>dneg := dneg x \<noteq> dneg y\<rparr>"

definition signed_num :: "double \<Rightarrow> int" where
  "signed_num x = (if dneg x then - int (dnum x) else int (dnum x))"

definition double_add :: "double \<Rightarrow> double \<Rightarrow> double" where
  "double_add x y =
     (let n = signed_num x * int (dden y) + signed_num y * int (dden x)
      in (round_to_double (nat \<bar>n\<bar>) (dden x * dden y))\<lparr>dneg := n < 0\<rparr>)"

definition double_val :: "double \<Rightarrow> rat" where
  "double_val x = Fract (signed_num x) (int (dden x))"

subsection \<open>Rounding is accurate\<close>

lemma bit_length_1: "bit_length (Suc 0) = 1" "bit_length 0 = 0"
proof -
  show z: "bit_length 0 = 0"
    by (subst bit_length.simps) simp
  show "bit_length (Suc 0) = 1"
    by (subst bit_length.simps) (simp add: z)
qed

lemma bit_length_double: "0 < n \<Longrightarrow> bit_length n = Suc (bit_length (n div 2))"
  by (subst bit_length.simps) simp

lemma bit_length_bounds: "0 < n \<Longrightarrow> 2 ^ (bit_length n - 1) \<le> n \<and> n < 2 ^ bit_length n \<and> 0 < bit_length n"
proof (induction n rule: less_induct)
  case (less n)
  show ?case
  proof (cases "n = 1")
    case True
    then show ?thesis
      by (simp add: bit_length_1)
  next
    case False
    then have half: "0 < n div 2" "n div 2 < n"
      using less.prems by auto
    let ?k = "bit_length (n div 2)"
    have ih: "2 ^ (?k - 1) \<le> n div 2" "n div 2 < 2 ^ ?k" "0 < ?k"
      using less.IH [OF half(2,1)] by blast+
    have "2 * 2 ^ (?k - 1) = (2 :: nat) ^ ?k"
      using ih(3) by (cases ?k) simp_all
    then have "2 ^ ?k \<le> n" "n < 2 * 2 ^ ?k"
      using ih(1,2) by linarith+
    then show ?thesis
      unfolding bit_length_double [OF less.prems] by simp
  qed
qed

lemma div_round_even_near:
  assumes "0 < b"
  shows "\<bar>real (div_round_even a b) - real a / real b\<bar> \<le> 1 / 2"
proof -
  have q: "real a = real (a div b) * real b + real (a mod b)"
    by (metis div_mult_mod_eq of_nat_add of_nat_mult)
  then have f: "real a / real b = real (a div b) + real (a mod b) / real b"
    using assms by (simp add: field_simps)
  have m: "a mod b < b"
    using assms by simp
  show ?thesis
  proof (cases "2 * (a mod b) < b \<or> (2 * (a mod b) = b \<and> even (a div b))")
    case True
    then have "2 * real (a mod b) \<le> real b"
      by (metis less_or_eq_imp_le of_nat_le_iff of_nat_mult of_nat_numeral)
    then have "real (a mod b) / real b \<le> 1 / 2"
      using assms by (simp add: field_simps)
    then show ?thesis
      using True f by (simp add: div_round_even_def Let_def)
  next
    case False
    then have "b \<le> 2 * (a mod b)"
      by auto
    then have "real b \<le> 2 * real (a mod b)"
      by (metis of_nat_le_iff of_nat_mult of_nat_numeral)
    then have "1 / 2 \<le> real (a mod b) / real b" "real (a mod b) / real b \<le> 1"
      using assms m by (simp_all add: field_simps)
    moreover have "div_round_even a b = a div b + 1"
      unfolding div_round_even_def Let_def using False by (simp only: if_False)
    ultimately show ?thesis
      using f by simp
  qed
qed

text \<open>The quotient scaled by a power of two, as the definition writes it.\<close>

lemma scaled_quotient:
  assumes "0 < b"
  shows "real (if 0 \<le> k then a * 2 ^ nat k else a) / real (if 0 \<le> k then b else b * 2 ^ nat (- k)) =
    real a / real b * 2 powi k"
  using assms by (simp add: power_int_def field_simps)

lemma bit_length_powi:
  assumes "0 < n"
  shows "2 powi (int (bit_length n) - 1) \<le> real n" "real n < 2 powi (int (bit_length n))"
proof -
  have b: "2 ^ (bit_length n - 1) \<le> n" "n < 2 ^ bit_length n" "0 < bit_length n"
    using bit_length_bounds [OF assms] by blast+
  have "real (2 ^ (bit_length n - 1)) \<le> real n" "real n < real (2 ^ bit_length n)"
    using b(1,2) by (simp_all only: of_nat_le_iff of_nat_less_iff)
  moreover have "int (bit_length n) - 1 = int (bit_length n - 1)"
    using b(3) by simp
  ultimately show "2 powi (int (bit_length n) - 1) \<le> real n" "real n < 2 powi (int (bit_length n))"
    by (simp_all only: power_int_of_nat of_nat_power of_nat_numeral)
qed

lemma scaled_range:
  assumes "0 < a" and "0 < b" and "k0 = 53 + int (bit_length b) - int (bit_length a)"
  shows "2 ^ 52 < real a / real b * 2 powi k0"
proof -
  have "(2 :: real) powi (int (bit_length a) - 1) / 2 powi (int (bit_length b)) < real a / real b"
    by (rule frac_less2 [OF _ bit_length_powi(1) [OF assms(1)] _ bit_length_powi(2) [OF assms(2)]])
      (use assms(2) in \<open>simp_all add: zero_less_power_int\<close>)
  then have "2 powi (int (bit_length a) - 1) / 2 powi (int (bit_length b)) * 2 powi k0 < real a / real b * 2 powi k0"
    by (rule mult_strict_right_mono) (simp add: zero_less_power_int)
  moreover have "2 powi (int (bit_length a) - 1) / 2 powi (int (bit_length b)) * 2 powi k0 = (2 :: real) ^ 52"
  proof -
    have "2 powi (int (bit_length a) - 1) * 2 powi k0 = (2 :: real) powi (52 + int (bit_length b))"
      unfolding assms(3) by (subst power_int_add [symmetric]) simp_all
    then show ?thesis
      by (simp add: power_int_add)
  qed
  ultimately show ?thesis
    by (simp only:)
qed

definition double_real :: "double \<Rightarrow> real" where
  "double_real x = real_of_int (signed_num x) / real (dden x)"

lemma round_to_double_sign [simp]: "\<not> dneg (round_to_double a b)"
  by (simp add: round_to_double_def double_zero_def Let_def)

lemma round_to_double_0 [simp]: "round_to_double 0 b = double_zero"
  by (simp add: round_to_double_def)

lemma double_real_zero [simp]: "double_real double_zero = 0"
  by (simp add: double_real_def double_zero_def signed_num_def)

lemma abs_scale: "0 < (c :: real) \<Longrightarrow> \<bar>m / c - x\<bar> = \<bar>m - x * c\<bar> / c"
proof -
  assume c: "0 < c"
  then have "m / c - x = (m - x * c) / c"
    by (simp add: field_simps)
  then show ?thesis
    using c by (simp add: abs_divide)
qed

lemma unscale:
  fixes m x p c :: real
  assumes "0 < p" and "\<bar>m - x * p\<bar> \<le> x * p / c"
  shows "\<bar>m / p - x\<bar> \<le> x / c"
proof -
  have "\<bar>m / p - x\<bar> = \<bar>m - x * p\<bar> / p"
    by (rule abs_scale [OF assms(1)])
  also have "\<dots> \<le> x * p / c / p"
    using assms by (intro divide_right_mono) simp_all
  finally show ?thesis
    using assms(1) by simp
qed

text \<open>Rounding is off by at most a factor of \<open>1 + 2 ^ -53\<close>.\<close>

lemma round_to_double_near:
  assumes "0 < b"
  shows "\<bar>double_real (round_to_double a b) - real a / real b\<bar> \<le> real a / real b / 2 ^ 53"
proof (cases "a = 0")
  case False
  then have a: "0 < a"
    by simp
  define k0 where "k0 = 53 + int (bit_length b) - int (bit_length a)"
  define num where "num k = (if 0 \<le> k then a * 2 ^ nat k else a)" for k :: int
  define den where "den k = (if 0 \<le> k then b else b * 2 ^ nat (- k))" for k :: int
  define k where "k = (if num k0 div den k0 < 2 ^ 53 then k0 else k0 - 1)"
  define m where "m = div_round_even (num k) (den k)"
  let ?x = "real a / real b"
  have q: "real (num j) / real (den j) = ?x * 2 powi j" for j
    unfolding num_def den_def by (rule scaled_quotient [OF assms])
  have den: "0 < den j" for j
    using assms by (simp add: den_def)
  have pos: "(0 :: real) < 2 powi j" for j :: int
    by (simp add: zero_less_power_int)
  have "2 ^ 52 \<le> ?x * 2 powi k"
  proof (cases "num k0 div den k0 < 2 ^ 53")
    case True
    then show ?thesis
      using scaled_range [OF a assms k0_def] by (simp add: k_def)
  next
    case False
    then have "2 ^ 53 * den k0 \<le> num k0"
      using den [of k0] by (simp add: less_eq_div_iff_mult_less_eq not_less)
    then have "real (2 ^ 53 * den k0) \<le> real (num k0)"
      by (simp only: of_nat_le_iff)
    then have "2 ^ 53 \<le> real (num k0) / real (den k0)"
      using den [of k0] by (simp add: pos_le_divide_eq)
    then have "2 ^ 53 \<le> ?x * 2 powi k0"
      by (simp only: q)
    moreover have "?x * 2 powi k0 = 2 * (?x * 2 powi k)"
      using False by (simp add: k_def power_int_diff)
    moreover have "(2 :: real) ^ 53 = 2 * 2 ^ 52"
      by simp
    ultimately show ?thesis
      by linarith
  qed
  moreover have "\<bar>real m - ?x * 2 powi k\<bar> \<le> 1 / 2"
    unfolding m_def q [symmetric] by (rule div_round_even_near [OF den])
  moreover have "d \<le> y / 2 ^ 53" if "2 ^ 52 \<le> y" "d \<le> 1 / 2" for d y :: real
    using that by simp
  ultimately have "\<bar>real m - ?x * 2 powi k\<bar> \<le> ?x * 2 powi k / 2 ^ 53"
    by blast
  then have "\<bar>real m / 2 powi k - ?x\<bar> \<le> ?x / 2 ^ 53"
    by (rule unscale [OF pos])
  moreover have "double_real (round_to_double a b) = real m / 2 powi k"
    unfolding round_to_double_def Let_def num_def [symmetric] den_def [symmetric] k0_def [symmetric]
      k_def [symmetric] m_def [symmetric]
    using False by (simp add: double_real_def signed_num_def power_int_def field_simps)
  ultimately show ?thesis
    by simp
qed simp


subsection \<open>Errors of a computation\<close>

text \<open>\<open>y\<close> is \<open>x\<close> up to the errors of \<open>k\<close> roundings.\<close>

definition ulp :: real where "ulp = 1 / 2 ^ 53"

definition near :: "nat \<Rightarrow> real \<Rightarrow> real \<Rightarrow> bool" where
  "near k y x \<longleftrightarrow> 0 \<le> x \<and> x * (1 - ulp) ^ k \<le> y \<and> y \<le> x * (1 + ulp) ^ k"

lemma ulp_bounds [simp]: "0 < ulp" "ulp < 1" "0 \<le> ulp" "ulp \<le> 1"
  by (simp_all add: ulp_def)

lemma near_nonneg: "near k y x \<Longrightarrow> 0 \<le> y"
proof -
  assume n: "near k y x"
  then have "0 \<le> x * (1 - ulp) ^ k"
    by (simp add: near_def)
  also have "\<dots> \<le> y"
    using n by (simp add: near_def)
  finally show ?thesis .
qed

lemma near_0: "0 \<le> x \<Longrightarrow> near 0 x x"
  by (simp add: near_def)

lemma near_trans: "near j z y \<Longrightarrow> near k y x \<Longrightarrow> near (j + k) z x"
proof -
  assume z: "near j z y" and y: "near k y x"
  have "x * (1 - ulp) ^ (j + k) \<le> y * (1 - ulp) ^ j"
    using y mult_right_mono [of "x * (1 - ulp) ^ k" y "(1 - ulp) ^ j"]
    by (simp add: near_def power_add ac_simps)
  moreover have "y * (1 + ulp) ^ j \<le> x * (1 + ulp) ^ (j + k)"
    using y mult_right_mono [of y "x * (1 + ulp) ^ k" "(1 + ulp) ^ j"]
    by (simp add: near_def power_add ac_simps)
  ultimately show ?thesis
    using z y unfolding near_def by linarith
qed

lemma near_mult: "near j y x \<Longrightarrow> near k z w \<Longrightarrow> near (j + k) (y * z) (x * w)"
proof -
  assume y: "near j y x" and z: "near k z w"
  have nn: "0 \<le> y" "0 \<le> z"
    using y z by (auto dest: near_nonneg)
  have "(x * (1 - ulp) ^ j) * (w * (1 - ulp) ^ k) \<le> y * z"
    using y z nn by (intro mult_mono) (simp_all add: near_def)
  moreover have "y * z \<le> (x * (1 + ulp) ^ j) * (w * (1 + ulp) ^ k)"
    using y z nn by (intro mult_mono) (simp_all add: near_def)
  ultimately show ?thesis
    using y z by (simp add: near_def power_add mult.assoc mult.left_commute)
qed

lemma near_inverse: "near k z w \<Longrightarrow> 0 < w \<Longrightarrow> near (2 * k) (1 / z) (1 / w)"
proof -
  assume z: "near k z w" and w: "0 < w"
  have lo: "0 < w * (1 - ulp) ^ k"
    using w by simp
  then have "0 < z"
    using z by (simp add: near_def)
  have "(1 - ulp) * (1 + ulp) \<le> 1"
    by (simp add: ulp_def)
  then have "((1 - ulp) * (1 + ulp)) ^ k \<le> 1"
    by (intro power_le_one) simp_all
  then have 1: "(1 - ulp) ^ k * (1 + ulp) ^ k \<le> 1"
    by (simp add: power_mult_distrib)
  have "1 \<le> (1 + ulp) ^ 2 * (1 - ulp)"
    by (simp add: ulp_def power2_eq_square)
  then have "1 \<le> ((1 + ulp) ^ 2 * (1 - ulp)) ^ k"
    by (rule one_le_power)
  then have 2: "1 \<le> (1 + ulp) ^ (2 * k) * (1 - ulp) ^ k"
    by (simp add: power_mult_distrib power_mult)
  have "(1 - ulp) ^ (2 * k) \<le> (1 - ulp) ^ k"
    by (rule power_decreasing) simp_all
  moreover have "z * (1 - ulp) ^ k \<le> w"
  proof -
    have "z * (1 - ulp) ^ k \<le> w * (1 + ulp) ^ k * (1 - ulp) ^ k"
      using z by (intro mult_right_mono) (simp_all add: near_def)
    also have "\<dots> \<le> w"
      using 1 w by (simp add: mult.assoc mult.commute)
    finally show ?thesis .
  qed
  ultimately have "z * (1 - ulp) ^ (2 * k) \<le> w"
    using \<open>0 < z\<close> by (meson mult_left_mono order_less_imp_le order_trans)
  moreover have "w \<le> z * (1 + ulp) ^ (2 * k)"
  proof -
    have "w \<le> w * (1 - ulp) ^ k * (1 + ulp) ^ (2 * k)"
      using 2 w by (simp add: mult.assoc mult.commute)
    also have "\<dots> \<le> z * (1 + ulp) ^ (2 * k)"
      using z by (intro mult_right_mono) (simp_all add: near_def)
    finally show ?thesis .
  qed
  ultimately show ?thesis
    using \<open>0 < z\<close> w by (simp add: near_def field_simps)
qed


lemma near_div: "near j y x \<Longrightarrow> near k z w \<Longrightarrow> 0 < w \<Longrightarrow> near (j + 2 * k) (y / z) (x / w)"
  using near_mult [of j y x "2 * k" "1 / z" "1 / w"] near_inverse by simp

lemma near_1: "0 \<le> x \<Longrightarrow> \<bar>y - x\<bar> \<le> x / 2 ^ 53 \<Longrightarrow> near 1 y x"
proof -
  assume "0 \<le> x" and "\<bar>y - x\<bar> \<le> x / 2 ^ 53"
  then have "0 \<le> x" "y - x \<le> x / 2 ^ 53" "x - y \<le> x / 2 ^ 53"
    by (simp_all only: abs_le_iff minus_diff_eq)
  then show ?thesis
    unfolding near_def ulp_def power_one_right by (simp add: field_simps)
qed

lemma near_round: "0 < b \<Longrightarrow> near 1 (double_real (round_to_double a b)) (real a / real b)"
  by (rule near_1) (use round_to_double_near [of b a] in simp_all)

text \<open>The operations on doubles without a sign.\<close>

definition unsigned_double :: "double \<Rightarrow> bool" where
  "unsigned_double x \<longleftrightarrow> \<not> dneg x \<and> 0 < dden x"

lemma unsigned_round [simp]: "0 < b \<Longrightarrow> unsigned_double (round_to_double a b)"
  by (simp add: unsigned_double_def round_to_double_def double_zero_def Let_def)

lemma double_real_unsigned: "unsigned_double x \<Longrightarrow> double_real x = real (dnum x) / real (dden x)"
  by (simp add: unsigned_double_def double_real_def signed_num_def)

lemma sign_round: "(round_to_double a b)\<lparr>dneg := False\<rparr> = round_to_double a b"
  by (cases "round_to_double a b") (use round_to_double_sign [of a b] in simp)

lemma near_mul:
  assumes "unsigned_double x" and "unsigned_double y"
  shows "near 1 (double_real (double_mul x y)) (double_real x * double_real y)" "unsigned_double (double_mul x y)"
proof -
  have m: "double_mul x y = round_to_double (dnum x * dnum y) (dden x * dden y)"
    using assms by (simp add: double_mul_def unsigned_double_def sign_round)
  have p: "0 < dden x * dden y"
    using assms by (simp add: unsigned_double_def)
  show "near 1 (double_real (double_mul x y)) (double_real x * double_real y)"
    unfolding m using near_round [OF p, of "dnum x * dnum y"] assms by (simp add: double_real_unsigned)
  show "unsigned_double (double_mul x y)"
    unfolding m using p by (rule unsigned_round)
qed

lemma near_over:
  assumes "unsigned_double x" and "unsigned_double y" and "0 < double_real y"
  shows "near 1 (double_real (double_over x y)) (double_real x / double_real y)" "unsigned_double (double_over x y)"
proof -
  have m: "double_over x y = round_to_double (dnum x * dden y) (dden x * dnum y)"
    using assms by (simp add: double_over_def unsigned_double_def sign_round)
  have p: "0 < dden x * dnum y"
    using assms by (simp add: unsigned_double_def double_real_unsigned zero_less_divide_iff)
  show "near 1 (double_real (double_over x y)) (double_real x / double_real y)"
    unfolding m using near_round [OF p, of "dnum x * dden y"] assms by (simp add: double_real_unsigned)
  show "unsigned_double (double_over x y)"
    unfolding m using p by (rule unsigned_round)
qed

lemma near_u64: "near 1 (double_real (double_of_u64 w)) (real (unat w))" "unsigned_double (double_of_u64 w)"
  using near_round [of 1 "unat w"] by (simp_all add: double_of_u64_def)

lemma near_nat: "near 1 (double_real (double_of_nat n)) (real n)" "unsigned_double (double_of_nat n)"
  using near_round [of 1 n] by (simp_all add: double_of_nat_def)

lemma near_positive: "near k y x \<Longrightarrow> 0 < x \<Longrightarrow> 0 < y"
proof -
  assume n: "near k y x" and x: "0 < x"
  have "0 < x * (1 - ulp) ^ k"
    using x by simp
  also have "\<dots> \<le> y"
    using n by (simp add: near_def)
  finally show ?thesis .
qed


lemma near_mono: "near j y x \<Longrightarrow> j \<le> k \<Longrightarrow> near k y x"
proof -
  assume n: "near j y x" and j: "j \<le> k"
  have "(1 - ulp) ^ k \<le> (1 - ulp) ^ j" "(1 + ulp) ^ j \<le> (1 + ulp) ^ k"
    using power_decreasing [OF j, of "1 - ulp"] power_increasing [OF j, of "1 + ulp"] by simp_all
  then have "x * (1 - ulp) ^ k \<le> x * (1 - ulp) ^ j" "x * (1 + ulp) ^ j \<le> x * (1 + ulp) ^ k"
    using n by (simp_all add: near_def mult_left_mono)
  with n show ?thesis
    unfolding near_def by linarith
qed

lemma near_plus: "near k y x \<Longrightarrow> near k z w \<Longrightarrow> near k (y + z) (x + w)"
  unfolding near_def distrib_right by linarith

lemma near_add:
  assumes "unsigned_double x" and "unsigned_double y"
  shows "near 1 (double_real (double_add x y)) (double_real x + double_real y)" "unsigned_double (double_add x y)"
proof -
  have n: "signed_num x * int (dden y) + signed_num y * int (dden x) = int (dnum x * dden y + dnum y * dden x)"
    using assms by (simp add: signed_num_def unsigned_double_def)
  have m: "double_add x y = round_to_double (dnum x * dden y + dnum y * dden x) (dden x * dden y)"
    unfolding double_add_def n Let_def by (simp add: sign_round del: of_nat_add of_nat_mult)
  have p: "0 < dden x * dden y"
    using assms by (simp add: unsigned_double_def)
  have "real (dnum x * dden y + dnum y * dden x) / real (dden x * dden y) = double_real x + double_real y"
    using assms by (simp add: double_real_unsigned unsigned_double_def add_frac_eq)
  then show "near 1 (double_real (double_add x y)) (double_real x + double_real y)"
    unfolding m using near_round [OF p, of "dnum x * dden y + dnum y * dden x"] by (simp only:)
  show "unsigned_double (double_add x y)"
    unfolding m using p by (rule unsigned_round)
qed

text \<open>The decimal digits that \<open>printf\<close> writes.\<close>

lemma fmt_fixed_near:
  assumes "unsigned_double d" and "0 < p"
  shows "\<exists>n. fmt_fixed p d = dec_nat (n div 10 ^ p) @ ''.'' @ pad_left p (CHR ''0'') (dec_nat (n mod 10 ^ p)) \<and>
    \<bar>real n / 10 ^ p - double_real d\<bar> \<le> 1 / 2 / 10 ^ p"
proof (intro exI conjI)
  let ?n = "div_round_even (dnum d * 10 ^ p) (dden d)"
  show "fmt_fixed p d = dec_nat (?n div 10 ^ p) @ ''.'' @ pad_left p (CHR ''0'') (dec_nat (?n mod 10 ^ p))"
    using assms by (simp add: fmt_fixed_def Let_def unsigned_double_def)
  have "\<bar>real ?n - real (dnum d * 10 ^ p) / real (dden d)\<bar> \<le> 1 / 2"
    using assms(1) by (intro div_round_even_near) (simp add: unsigned_double_def)
  moreover have "real (dnum d * 10 ^ p) / real (dden d) = double_real d * 10 ^ p"
    using assms(1) by (simp add: double_real_unsigned)
  ultimately have "\<bar>real ?n - double_real d * 10 ^ p\<bar> / 10 ^ p \<le> 1 / 2 / 10 ^ p"
    by (intro divide_right_mono) (simp_all only: zero_le_power zero_le_numeral)
  moreover have "\<bar>real ?n / 10 ^ p - double_real d\<bar> = \<bar>real ?n - double_real d * 10 ^ p\<bar> / 10 ^ p"
    by (rule abs_scale) simp
  ultimately show "\<bar>real ?n / 10 ^ p - double_real d\<bar> \<le> 1 / 2 / 10 ^ p"
    by (simp only:)
qed

lemma near_error:
  assumes "near k y x" and "(1 + ulp) ^ k \<le> 1 + e" and "1 - e \<le> (1 - ulp) ^ k"
  shows "\<bar>y - x\<bar> \<le> x * e"
proof -
  have x: "0 \<le> x" "x * (1 - ulp) ^ k \<le> y" "y \<le> x * (1 + ulp) ^ k"
    using assms(1) by (simp_all add: near_def)
  have "x * (1 - e) \<le> x * (1 - ulp) ^ k" "x * (1 + ulp) ^ k \<le> x * (1 + e)"
    using x(1) assms(2,3) by (simp_all add: mult_left_mono)
  with x show ?thesis
    unfolding right_diff_distrib distrib_left by (simp add: abs_le_iff)
qed

end
