(* ===== verification/Report.thy ===== *)
theory Report
  imports Eval Report_Messages Double_Arith Json_Text "HOL-Library.Product_Lexorder"
begin

section \<open>The evaluation's report\<close>

text \<open>
  The end of \<open>main\<close> in \<open>analyzer/src/eval.cpp\<close>: the prices, the Markdown report on \<open>stdout\<close>, the
  JSON file, and the exit status.  Latencies are measured, so the double that one is and the digits
  \<open>dump\<close> gives a double are parameters.
\<close>

definition kHaikuIn :: double where "kHaikuIn = double_of_nat 1"
definition kHaikuOut :: double where "kHaikuOut = double_of_nat 5"
definition kSonnetIn :: double where "kSonnetIn = double_of_nat 2"
definition kSonnetOut :: double where "kSonnetOut = double_of_nat 10"

definition pct :: "u64 \<Rightarrow> u64 \<Rightarrow> double" where
  "pct a b =
     (if b \<noteq> 0 then double_over (double_mul (double_of_nat 100) (double_of_u64 a)) (double_of_u64 b)
      else double_zero)"

definition usd :: "u64 \<Rightarrow> u64 \<Rightarrow> u64 \<Rightarrow> u64 \<Rightarrow> double" where
  "usd hin hout s_in s_out =
     double_over
       (double_add
         (double_add
           (double_add (double_mul (double_of_u64 hin) kHaikuIn) (double_mul (double_of_u64 hout) kHaikuOut))
           (double_mul (double_of_u64 s_in) kSonnetIn))
         (double_mul (double_of_u64 s_out) kSonnetOut))
       (double_of_nat 1000000)"

definition memo_usd :: "memo \<Rightarrow> double" where
  "memo_usd m = usd (haiku_in m) (haiku_out m) (sonnet_in m) (sonnet_out m)"

text \<open>\<open>%llu\<close> of a counter, and a map in the order its iterators have.\<close>

definition llu :: "u64 \<Rightarrow> string" where
  "llu w = dec_nat (unat w)"

definition in_key_order :: "counter \<Rightarrow> counter" where
  "in_key_order m = sort_key fst m"

subsection \<open>The benign corpus\<close>

definition source_rows :: "'u stats \<Rightarrow> string" where
  "source_rows bs =
     concat (map (\<lambda>(src, n). rt_source @ cstr src @ rt_source_n @ llu n @ '' ('' @
       fmt_fixed 2 (pct n (st_events bs)) @ rt_pct_end) (in_key_order (by_source bs)))"

definition layer_shares :: "'u stats \<Rightarrow> string" where
  "layer_shares bs =
     concat (map (\<lambda>(l, n). rt_tick @ cstr l @ rt_tick_sp @ fmt_fixed 1 (pct n (st_events bs)) @ rt_pct_sp)
       (in_key_order (by_layer bs)))"

text \<open>The alerts' summaries by their number, the largest first.\<close>

definition top_fp :: "'u stats \<Rightarrow> (u64 \<times> string) list" where
  "top_fp bs = rev (sort (map (\<lambda>(s, n). (n, s)) (fp_summary bs)))"

definition top_rows :: "'u stats \<Rightarrow> string" where
  "top_rows bs =
     concat (map (\<lambda>(n, s). ''| '' @ llu n @ rt_top_n @ cstr s @ rt_top_end) (take 10 (top_fp bs)))"

definition benign_hits :: "'u report \<Rightarrow> u64" where
  "benign_hits r =
     st_haiku_calls (r_benign r) + st_sonnet_calls (r_benign r) - m_calls (r_benign_memo r)"

definition cost_rows :: "string \<Rightarrow> 'u report \<Rightarrow> string" where
  "cost_rows mode r =
     (let bs = r_benign r; m = r_benign_memo r
      in if mode = ''real'' then
           rt_tokens @ llu (haiku_in m) @ ''/'' @ llu (haiku_out m) @ '', '' @ llu (sonnet_in m) @ ''/'' @
           llu (sonnet_out m) @ rt_bar_end @
           rt_cost @ fmt_fixed 4 (memo_usd m) @ rt_cost_k @
           fmt_fixed 4 (if st_events bs \<noteq> 0
             then double_over (double_mul (memo_usd m) (double_of_nat 1000)) (double_of_u64 (st_events bs))
             else double_zero) @ rt_cost_x @
           fmt_fixed 1 (if m_calls m \<noteq> 0
             then double_over (double_of_u64 (st_haiku_calls bs + st_sonnet_calls bs)) (double_of_u64 (m_calls m))
             else double_zero) @ rt_row_end
         else rt_no_cost)"

definition benign_report :: "('u::{linorder,zero} \<Rightarrow> double) \<Rightarrow> string \<Rightarrow> 'u report \<Rightarrow> string" where
  "benign_report dbl mode r =
     (let bs = r_benign r
      in rt_benign @ dec_nat (r_files r) @ rt_files @ llu (st_events bs) @ rt_events @ rt_metric @
         rt_alert @ llu (st_alerts bs) @ '' / '' @ llu (st_events bs) @ '' = **'' @
         fmt_fixed 2 (pct (st_alerts bs) (st_events bs)) @ rt_bold_end @
         source_rows bs @
         rt_haiku @ llu (st_haiku_calls bs) @ '' ('' @ fmt_fixed 1 (pct (st_haiku_calls bs) (st_events bs)) @ rt_pct_end @
         rt_sonnet @ llu (st_sonnet_calls bs) @ '' ('' @ fmt_fixed 2 (pct (st_sonnet_calls bs) (st_events bs)) @ rt_pct_end @
         rt_calls @ llu (m_calls (r_benign_memo r)) @ rt_hits @ llu (benign_hits r) @ rt_row_end @
         cost_rows mode r @
         rt_rule_lat @ fmt_fixed 1 (dbl (p50 (lat_rule_us bs))) @ '' / '' @ fmt_fixed 1 (dbl (p90 (lat_rule_us bs))) @ rt_us @
         rt_llm_lat @ fmt_fixed 1 (dbl (p50 (lat_llm_us bs))) @ '' / '' @ fmt_fixed 1 (dbl (p90 (lat_llm_us bs))) @ rt_us @
         rt_layers @ layer_shares bs @ rt_top @ top_rows bs @ [CHR 0x0A])"

definition json_u64 :: "u64 \<Rightarrow> json" where
  "json_u64 w = J_int (uint w)"

definition json_counter :: "counter \<Rightarrow> json" where
  "json_counter m = json_object (map (\<lambda>(k, n). (k, json_u64 n)) m)"

definition benign_json :: "('u::{linorder,zero} \<Rightarrow> double) \<Rightarrow> 'u report \<Rightarrow> json" where
  "benign_json dbl r =
     (let bs = r_benign r; m = r_benign_memo r
      in json_object
        [(''files'', J_int (int (r_files r))), (''events'', json_u64 (st_events bs)), (''alerts'', json_u64 (st_alerts bs)),
         (''fpr_pct'', J_float (pct (st_alerts bs) (st_events bs))),
         (''by_source'', json_counter (by_source bs)), (''by_layer'', json_counter (by_layer bs)),
         (''haiku_calls'', json_u64 (st_haiku_calls bs)), (''sonnet_calls'', json_u64 (st_sonnet_calls bs)),
         (''api_calls'', json_u64 (m_calls m)),
         (''tokens'', json_object
            [(''haiku_in'', json_u64 (haiku_in m)), (''haiku_out'', json_u64 (haiku_out m)),
             (''sonnet_in'', json_u64 (sonnet_in m)), (''sonnet_out'', json_u64 (sonnet_out m))]),
         (''usd'', J_float (memo_usd m)),
         (''lat_rule_us_p50'', J_float (dbl (p50 (lat_rule_us bs)))), (''lat_rule_us_p90'', J_float (dbl (p90 (lat_rule_us bs)))),
         (''lat_llm_us_p50'', J_float (dbl (p50 (lat_llm_us bs)))), (''lat_llm_us_p90'', J_float (dbl (p90 (lat_llm_us bs)))),
         (''top_fp'', J_array (map (\<lambda>(n, s). J_array [json_u64 n, J_string s]) (top_fp bs)))])"

subsection \<open>The attack scenarios\<close>

definition deciding_layers :: "scenario \<Rightarrow> string" where
  "deciding_layers sc =
     concat (map (\<lambda>(l, n). if l \<noteq> ''drop'' \<and> l \<noteq> ''haiku-normal'' then l @ rt_times @ llu n @ '' '' else [])
       (in_key_order (sc_layers sc)))"

definition scenario_row :: "scenario \<Rightarrow> string" where
  "scenario_row sc =
     ''| '' @ cstr (sc_name sc) @ '' | '' @ llu (sc_events sc) @ '' | '' @ llu (hit_alert sc) @ ''/'' @ llu (expect_alert sc) @
     '' | '' @ llu (sc_fp sc) @ ''/'' @ llu (expect_drop sc) @ '' | '' @ (if detected_sc sc then rt_yes else rt_no) @
     '' | '' @ severity_string (max_sev sc) @ '' | '' @
     (if expect_max_sev sc = [] then ''-''
      else cstr (rt_at_least @ expect_max_sev sc @ (if severity_met sc then rt_met else rt_not_met))) @
     '' | '' @ cstr (deciding_layers sc) @ '' | '' @
     (if known_miss sc = [] then [] else cstr (''known-miss: '' @ known_miss sc)) @ rt_bar_end"

definition attack_report :: "'u report \<Rightarrow> string" where
  "attack_report r =
     (let (detected, gated, gated_ok, fail) = gate_summary (r_scenarios r); n = length (r_scenarios r)
      in rt_attack @ dec_nat n @ rt_scenarios @ rt_attack_head @ concat (map scenario_row (r_scenarios r)) @
         rt_detected @ dec_nat detected @ ''/'' @ dec_nat n @ rt_gated @ dec_nat gated_ok @ ''/'' @ dec_nat gated @
         rt_attack_llm @ llu (st_haiku_calls (r_attack r)) @ '', Sonnet '' @ llu (st_sonnet_calls (r_attack r)) @ rt_attack_end)"

definition scenario_json :: "scenario \<Rightarrow> json" where
  "scenario_json sc = json_object
     [(''name'', J_string (sc_name sc)), (''events'', json_u64 (sc_events sc)),
      (''expect_alert'', json_u64 (expect_alert sc)), (''hit_alert'', json_u64 (hit_alert sc)),
      (''expect_drop'', json_u64 (expect_drop sc)), (''fp'', json_u64 (sc_fp sc)),
      (''detected'', J_bool (detected_sc sc)), (''max_severity'', J_string (severity_string (max_sev sc))),
      (''expect_max_severity'', J_string (expect_max_sev sc)), (''severity_met'', J_bool (severity_met sc)),
      (''layers'', json_counter (sc_layers sc)), (''known_miss'', J_string (known_miss sc))]"

definition attack_json :: "'u report \<Rightarrow> json" where
  "attack_json r =
     (let (detected, gated, gated_ok, fail) = gate_summary (r_scenarios r)
      in json_object
        [(''scenarios'', J_array (map scenario_json (r_scenarios r))), (''detected'', J_int (int detected)),
         (''gated'', J_int (int gated)), (''gated_ok'', J_int (int gated_ok))])"

subsection \<open>The end of the program\<close>

definition totals_line :: "'u report \<Rightarrow> string" where
  "totals_line r =
     (let m = r_memo r
      in rt_total @ llu (m_calls m) @ rt_hits @ llu (m_hits m) @ rt_capped @ llu (m_capped m) @ rt_total_cost @
         fmt_fixed 4 (memo_usd m) @ [CHR 0x0A])"

definition report_text :: "('u::{linorder,zero} \<Rightarrow> double) \<Rightarrow> string \<Rightarrow> 'u report \<Rightarrow> string" where
  "report_text dbl mode r =
     rt_title @ cstr mode @ rt_close @ (if r_files r \<noteq> 0 then benign_report dbl mode r else []) @
     (if r_scenarios r \<noteq> [] then attack_report r else []) @ (if mode = ''real'' then totals_line r else [])"

definition report_json :: "('u::{linorder,zero} \<Rightarrow> double) \<Rightarrow> string \<Rightarrow> 'u report \<Rightarrow> json" where
  "report_json dbl mode r =
     (let m = r_memo r
      in json_object
        ([(''llm'', J_string mode)] @ (if r_files r \<noteq> 0 then [(''benign'', benign_json dbl r)] else []) @
         (if r_scenarios r \<noteq> [] then [(''attack'', attack_json r)] else []) @
         [(''llm_calls'', json_u64 (m_calls m)), (''memo_hits'', json_u64 (m_hits m)), (''capped'', json_u64 (m_capped m)),
          (''usd_total'', J_float (memo_usd m))]))"

definition file_config :: "(double \<Rightarrow> string) \<Rightarrow> dump_config" where
  "file_config fl = \<lparr>dc_handler = Strict, dc_indent = Some 2, dc_float = fl\<rparr>"

text \<open>
  What the program leaves: the report, the JSON file if one was asked for, and the exit status.
  \<open>dump\<close> throws on a string that is not UTF-8 and nobody catches it.
\<close>

definition finish :: "('u::{linorder,zero} \<Rightarrow> double) \<Rightarrow> (double \<Rightarrow> string) \<Rightarrow> eval_options \<Rightarrow> 'u report \<Rightarrow>
    eval_exit + string \<times> string option \<times> nat" where
  "finish dbl fl o1 r =
     (let text = report_text dbl (eo_llm o1) r
      in if eo_json o1 \<noteq> []
         then (case dump_json (file_config fl) (report_json dbl (eo_llm o1) r) of
                 None \<Rightarrow> Inl (Uncaught ''type_error'')
               | Some t \<Rightarrow> Inr (text, Some (t @ [CHR 0x0A]), r_exit r))
         else Inr (text, None, r_exit r))"

definition eval_program ::
  "filesystem \<Rightarrow> (nat \<Rightarrow> 'u::{linorder,zero}) \<Rightarrow> ('u \<Rightarrow> double) \<Rightarrow> (double \<Rightarrow> string) \<Rightarrow> string option \<Rightarrow>
    (llm_choice \<Rightarrow> 's llm_client) \<Rightarrow> 's \<Rightarrow> string list \<Rightarrow> eval_exit + string \<times> string option \<times> nat" where
  "eval_program fs us dbl fl key mk s0 args =
     and_then (eval_args default_eval_options args) (\<lambda>o1.
     and_then (eval_main fs us key mk s0 args) (finish dbl fl o1))"


subsection \<open>The tables add up\<close>

lemma count_of_bump: "count_of (bump k m) l = (if l = k then count_of m l + 1 else count_of m l)"
  by (simp add: count_of_def bump_def update_conv)

lemma sum_update: "sum_list (map snd (AList.update k (count_of m k + 1) m)) = sum_list (map snd m) + 1"
  by (induction m) (auto simp: count_of_def)

lemma sum_bump: "sum_list (map snd (bump k m)) = sum_list (map snd m) + 1"
  by (simp add: bump_def sum_update)

lemma bump_keys:
  "distinct (map fst m) \<Longrightarrow> distinct (map fst (bump k m))" "fst ` set (bump k m) = insert k (fst ` set m)"
  by (simp_all add: bump_def distinct_update dom_update)

definition counts :: "(outcome \<Rightarrow> bool) \<Rightarrow> (outcome \<Rightarrow> string) \<Rightarrow> counter \<Rightarrow> outcome list \<Rightarrow> bool" where
  "counts P key m os \<longleftrightarrow>
     (\<forall>k. count_of m k = of_nat (length (filter (\<lambda>out. P out \<and> key out = k) os))) \<and>
     sum_list (map snd m) = of_nat (length (filter P os)) \<and>
     distinct (map fst m) \<and> fst ` set m = key ` set (filter P os)"

lemma counts_Nil: "counts P key [] []"
  by (simp add: counts_def count_of_def)

lemma counts_snoc:
  "counts P key m os \<Longrightarrow> counts P key (if P out then bump (key out) m else m) (os @ [out])"
  by (auto simp: counts_def count_of_bump sum_bump bump_keys)

definition stats_ok :: "bool \<Rightarrow> 'u stats \<Rightarrow> outcome list \<Rightarrow> bool" where
  "stats_ok benign st os \<longleftrightarrow>
     st_events st = of_nat (length os) \<and> st_alerts st = of_nat (length (filter o_alerted os)) \<and>
     st_haiku_calls st = of_nat (sum_list (map o_haiku_calls os)) \<and>
     st_sonnet_calls st = of_nat (sum_list (map o_sonnet_calls os)) \<and>
     counts (\<lambda>_. True) (\<lambda>out. layer_string (o_layer out)) (by_layer st) os \<and>
     counts o_alerted (\<lambda>out. a_source (o_alert out)) (by_source st) os \<and>
     counts (\<lambda>out. benign \<and> o_alerted out) (\<lambda>out. a_event_summary (o_alert out)) (fp_summary st) os \<and>
     length (lat_llm_us st) = length (filter (\<lambda>out. o_haiku_calls out + o_sonnet_calls out \<noteq> 0) os) \<and>
     length (lat_rule_us st) = length (filter (\<lambda>out. o_haiku_calls out + o_sonnet_calls out = 0) os)"

lemma stats_ok_step: "stats_ok benign st os \<Longrightarrow> stats_ok benign (tally st out us benign) (os @ [out])"
proof -
  assume ok: "stats_ok benign st os"
  then have "counts (\<lambda>_. True) (\<lambda>out. layer_string (o_layer out)) (by_layer st) os"
    and "counts o_alerted (\<lambda>out. a_source (o_alert out)) (by_source st) os"
    and "counts (\<lambda>out. benign \<and> o_alerted out) (\<lambda>out. a_event_summary (o_alert out)) (fp_summary st) os"
    by (simp_all add: stats_ok_def)
  note this [THEN counts_snoc, of out]
  then show ?thesis
    using ok by (cases benign) (simp_all add: stats_ok_def tally_def Let_def split: if_splits)
qed

lemma stats_ok_new: "stats_ok benign new_stats []"
  by (simp add: stats_ok_def new_stats_def counts_Nil)

lemma stats_ok_fold:
  "stats_ok benign st os \<Longrightarrow> length is = length os' \<Longrightarrow>
     stats_ok benign (foldl (\<lambda>st (out, i). tally st out (us i) benign) st (zip os' is)) (os @ os')"
proof (induction os' arbitrary: st os "is")
  case (Cons out os')
  then obtain i is' where "is = i # is'" "length is' = length os'"
    by (cases "is") auto
  then show ?case
    using Cons.IH [OF stats_ok_step [OF Cons.prems(1)], of is' out "us i"] by simp
qed simp

lemma tally_all_ok: "stats_ok benign (tally_all us benign xs) (outcomes xs)"
  using stats_ok_fold [OF stats_ok_new, of "[0..<length (outcomes xs)]" "outcomes xs" benign us]
  by (simp add: tally_all_def)


lemma counts_set:
  assumes "counts P key m os"
  shows "set m = (\<lambda>k. (k, of_nat (length (filter (\<lambda>out. P out \<and> key out = k) os)))) ` (key ` set (filter P os))"
proof -
  have d: "distinct (map fst m)" and k: "fst ` set m = key ` set (filter P os)"
    and c: "\<And>k. count_of m k = of_nat (length (filter (\<lambda>out. P out \<and> key out = k) os))"
    using assms by (simp_all add: counts_def)
  have "set m = (\<lambda>k. (k, count_of m k)) ` (fst ` set m)"
    using d by (force simp: count_of_def image_iff)
  then show ?thesis
    unfolding k c .
qed

lemma top_fp_sorted: "sorted_wrt (\<lambda>x y. fst y \<le> fst x) (top_fp bs)"
proof -
  have "sorted_wrt (\<lambda>x y. y \<le> x) (top_fp bs)"
    unfolding top_fp_def sorted_wrt_rev by simp
  then show ?thesis
    by (rule sorted_wrt_mono_rel [rotated]) (auto simp: less_eq_prod_def)
qed

lemma top_fp_set: "set (top_fp bs) = (\<lambda>(s, n). (n, s)) ` set (fp_summary bs)"
  by (simp add: top_fp_def)

text \<open>
  C37. The report's tables are right.  Over any classified corpus: the table of layers counts every
  event once, under its layer; the table of sources counts every alert once, under its source; the
  list of false positives holds every summary of an alert with the number of its alerts, and is
  ordered by that number, so its first ten are the ten most frequent; and every event's latency is in
  exactly one of the two samples.  (Counters are modulo \<open>2 ^ 64\<close>.)
\<close>

theorem tables_add_up:
  "(\<forall>l. count_of (by_layer (tally_all us True xs)) l =
      of_nat (length (filter (\<lambda>out. layer_string (o_layer out) = l) (outcomes xs)))) \<and>
   sum_list (map snd (by_layer (tally_all us True xs))) = st_events (tally_all us True xs) \<and>
   st_events (tally_all us True xs) = of_nat (length (outcomes xs)) \<and>
   (\<forall>src. count_of (by_source (tally_all us True xs)) src =
      of_nat (length (filter (\<lambda>out. o_alerted out \<and> a_source (o_alert out) = src) (outcomes xs)))) \<and>
   sum_list (map snd (by_source (tally_all us True xs))) = st_alerts (tally_all us True xs) \<and>
   set (top_fp (tally_all us True xs)) =
     (\<lambda>s. (of_nat (length (filter (\<lambda>out. o_alerted out \<and> a_event_summary (o_alert out) = s) (outcomes xs))), s)) `
       (\<lambda>out. a_event_summary (o_alert out)) ` set (filter o_alerted (outcomes xs)) \<and>
   sorted_wrt (\<lambda>x y. fst y \<le> fst x) (top_fp (tally_all us True xs)) \<and>
   length (lat_rule_us (tally_all us True xs)) + length (lat_llm_us (tally_all us True xs)) = length (outcomes xs)"
proof -
  have ok: "stats_ok True (tally_all us True xs) (outcomes xs)"
    by (rule tally_all_ok)
  have fp: "counts o_alerted (\<lambda>out. a_event_summary (o_alert out)) (fp_summary (tally_all us True xs)) (outcomes xs)"
    using ok by (simp add: stats_ok_def)
  have "length (filter (\<lambda>out. o_haiku_calls out + o_sonnet_calls out = 0) (outcomes xs)) +
      length (filter (\<lambda>out. o_haiku_calls out + o_sonnet_calls out \<noteq> 0) (outcomes xs)) = length (outcomes xs)"
    by (rule sum_length_filter_compl)
  then show ?thesis
    using ok by (simp add: stats_ok_def top_fp_set top_fp_sorted counts_set [OF fp] image_image)
      (simp add: counts_def)
qed


subsection \<open>When the JSON file cannot be written\<close>

fun json_utf8 :: "json \<Rightarrow> bool"
  and members_utf8 :: "(string \<times> json) list \<Rightarrow> bool"
  and elements_utf8 :: "json list \<Rightarrow> bool" where
  "json_utf8 (J_string s) \<longleftrightarrow> utf8 s"
| "json_utf8 (J_array js) \<longleftrightarrow> elements_utf8 js"
| "json_utf8 (J_object ms) \<longleftrightarrow> members_utf8 ms"
| "json_utf8 j \<longleftrightarrow> True"
| "members_utf8 [] \<longleftrightarrow> True"
| "members_utf8 ((k, v) # ms) \<longleftrightarrow> utf8 k \<and> json_utf8 v \<and> members_utf8 ms"
| "elements_utf8 [] \<longleftrightarrow> True"
| "elements_utf8 (j # js) \<longleftrightarrow> json_utf8 j \<and> elements_utf8 js"

lemma dump_strict:
  assumes "dc_handler dc = Strict"
  shows "dump_value dc cur j = None \<longleftrightarrow> \<not> json_utf8 j"
    and "dump_members dc cur ms = None \<longleftrightarrow> \<not> members_utf8 ms"
    and "dump_elements dc cur js = None \<longleftrightarrow> \<not> elements_utf8 js"
  using assms
  by (induction dc cur j and dc cur ms and dc cur js rule: dump_value_dump_members_dump_elements.induct)
    (auto simp: dump_escaped_strict split: option.splits, blast)

lemma members_utf8_iff: "members_utf8 ms \<longleftrightarrow> (\<forall>(k, v) \<in> set ms. utf8 k \<and> json_utf8 v)"
  by (induction ms) auto

lemma elements_utf8_iff: "elements_utf8 js \<longleftrightarrow> (\<forall>j \<in> set js. json_utf8 j)"
  by (induction js) auto

lemma json_object_utf8: "json_utf8 (json_object ms) \<longleftrightarrow> (\<forall>(k, v) \<in> set ms. utf8 k \<and> json_utf8 v)"
  by (simp add: json_object_def members_utf8_iff)

lemma json_counter_utf8: "json_utf8 (json_counter m) \<longleftrightarrow> (\<forall>k \<in> fst ` set m. utf8 k)"
  by (auto simp: json_counter_def json_object_utf8 json_u64_def)

lemma key_utf8: "list_all (\<lambda>c. of_char c < (0x80 :: nat)) s \<Longrightarrow> utf8 s"
  by (rule utf8_ascii) (simp add: list_all_iff)

text \<open>The strings that do not stand in the program.\<close>

definition scenario_strings :: "scenario \<Rightarrow> string set" where
  "scenario_strings sc = {sc_name sc, expect_max_sev sc, known_miss sc} \<union> fst ` set (sc_layers sc)"

definition benign_strings :: "'u stats \<Rightarrow> string set" where
  "benign_strings bs = fst ` set (by_source bs) \<union> fst ` set (by_layer bs) \<union> fst ` set (fp_summary bs)"

lemma benign_json_utf8: "json_utf8 (benign_json dbl r) \<longleftrightarrow> (\<forall>s \<in> benign_strings (r_benign r). utf8 s)"
proof -
  let ?bs = "r_benign r"
  have "snd ` set (top_fp ?bs) = fst ` set (fp_summary ?bs)"
    by (force simp: top_fp_set image_iff)
  then have t: "(\<forall>s \<in> fst ` set (fp_summary ?bs). utf8 s) \<longleftrightarrow> (\<forall>x \<in> set (top_fp ?bs). utf8 (snd x))"
    by (metis (no_types, lifting) image_iff)
  show ?thesis
    unfolding benign_strings_def ball_Un t
    by (auto simp: benign_json_def Let_def json_object_utf8 json_counter_utf8 elements_utf8_iff json_u64_def
        key_utf8 case_prod_unfold)
qed

lemma scenario_json_utf8: "json_utf8 (scenario_json sc) \<longleftrightarrow> (\<forall>s \<in> scenario_strings sc. utf8 s)"
proof -
  have "utf8 (severity_string v)" for v
    by (cases v) (simp_all add: key_utf8)
  then show ?thesis
    by (auto simp: scenario_json_def json_object_utf8 json_counter_utf8 json_u64_def scenario_strings_def key_utf8)
qed

lemma attack_json_utf8:
  "json_utf8 (attack_json r) \<longleftrightarrow> (\<forall>sc \<in> set (r_scenarios r). \<forall>s \<in> scenario_strings sc. utf8 s)"
  by (auto simp: attack_json_def json_object_utf8 elements_utf8_iff scenario_json_utf8 key_utf8 split: prod.split)


lemma report_json_utf8:
  "json_utf8 (report_json dbl mode r) \<longleftrightarrow> utf8 mode \<and>
     (r_files r \<noteq> 0 \<longrightarrow> (\<forall>s \<in> benign_strings (r_benign r). utf8 s)) \<and>
     (\<forall>sc \<in> set (r_scenarios r). \<forall>s \<in> scenario_strings sc. utf8 s)"
  by (cases "r_files r = 0"; cases "r_scenarios r = []")
    (auto simp: report_json_def Let_def json_object_utf8 benign_json_utf8 attack_json_utf8 json_u64_def key_utf8)

text \<open>
  C36. A report that cannot be written.  The program prints its report, writes the JSON file where
  one is asked for and exits with the gate's status, except in one case: a file is asked for and one
  of the strings from outside (an alert's source or summary in the benign corpus, a layer, a
  scenario's name or annotation) is not UTF-8.  Then \<open>dump\<close> throws, the process is aborted, and
  whether the gate failed is lost.
\<close>

theorem report_outcome:
  "finish dbl fl o1 r =
     (if eo_json o1 \<noteq> [] \<and>
         (\<exists>s. \<not> utf8 s \<and>
           (s = eo_llm o1 \<or> (r_files r \<noteq> 0 \<and> s \<in> benign_strings (r_benign r)) \<or>
            (\<exists>sc \<in> set (r_scenarios r). s \<in> scenario_strings sc)))
      then Inl (Uncaught ''type_error'')
      else Inr (report_text dbl (eo_llm o1) r,
        if eo_json o1 = [] then None
        else Some (the (dump_json (file_config fl) (report_json dbl (eo_llm o1) r)) @ [CHR 0x0A]),
        r_exit r))"
proof -
  have "dump_json (file_config fl) (report_json dbl (eo_llm o1) r) = None \<longleftrightarrow>
      \<not> json_utf8 (report_json dbl (eo_llm o1) r)"
    unfolding dump_json_def by (rule dump_strict(1)) (simp add: file_config_def)
  then show ?thesis
    unfolding finish_def Let_def report_json_utf8 by (auto split: option.split)
qed


subsection \<open>The printed amounts\<close>

lemma pct_near:
  assumes "b \<noteq> 0"
  shows "near 6 (double_real (pct a b)) (100 * real (unat a) / real (unat b))" and "unsigned_double (pct a b)"
proof -
  let ?A = "double_of_u64 a" and ?B = "double_of_u64 b" and ?H = "double_of_nat 100"
  let ?p = "double_mul ?H ?A"
  have b: "0 < real (unat b)"
    using assms unat_gt_0 [of b] by (simp only: of_nat_0_less_iff simp_thms)
  have B: "0 < double_real ?B"
    using near_positive [OF near_u64(1) b] .
  have "near (1 + 1) (double_real ?H * double_real ?A) (real 100 * real (unat a))"
    by (rule near_mult [OF near_nat(1) near_u64(1)])
  with near_mul(1) [OF near_nat(2) near_u64(2)]
  have "near (1 + (1 + 1)) (double_real ?p) (real 100 * real (unat a))"
    by (rule near_trans)
  from near_div [OF this near_u64(1) b] near_over(1) [OF near_mul(2) [OF near_nat(2) near_u64(2)] near_u64(2) B]
  have "near (1 + (1 + (1 + 1) + 2 * 1)) (double_real (double_over ?p ?B)) (real 100 * real (unat a) / real (unat b))"
    by (rule near_trans [rotated])
  moreover have p: "pct a b = double_over ?p ?B"
    using assms by (simp add: pct_def)
  ultimately show "near 6 (double_real (pct a b)) (100 * real (unat a) / real (unat b))"
    by (simp add: eval_nat_numeral)
  show "unsigned_double (pct a b)"
    unfolding p by (rule near_over(2) [OF near_mul(2) [OF near_nat(2) near_u64(2)] near_u64(2) B])
qed

lemma pct_error:
  "\<bar>double_real (pct a b) - 100 * real (unat a) / real (unat b)\<bar> \<le> 100 * real (unat a) / real (unat b) * (7 / 2 ^ 53)"
  "unsigned_double (pct a b)"
proof -
  have "(1 + ulp) ^ 6 \<le> 1 + 7 / 2 ^ 53" "1 - 7 / 2 ^ 53 \<le> (1 - ulp) ^ 6"
    by (simp_all add: ulp_def power_divide)
  from near_error [OF pct_near(1) this] pct_near(2)
  show "\<bar>double_real (pct a b) - 100 * real (unat a) / real (unat b)\<bar> \<le> 100 * real (unat a) / real (unat b) * (7 / 2 ^ 53)"
    "unsigned_double (pct a b)"
    by (cases "b = 0"; simp add: pct_def unsigned_double_def double_zero_def double_real_def signed_num_def)+
qed

text \<open>A counter of tokens times its price.\<close>

lemma price_near:
  "near 3 (double_real (double_mul (double_of_u64 w) (double_of_nat n))) (real (unat w) * real n)"
  "unsigned_double (double_mul (double_of_u64 w) (double_of_nat n))"
  using near_trans [OF near_mul(1) [OF near_u64(2) near_nat(2)] near_mult [OF near_u64(1) near_nat(1)]]
    near_mul(2) [OF near_u64(2) near_nat(2)]
  by (simp_all add: eval_nat_numeral)

lemma sum_near:
  assumes "near k (double_real x) a" "unsigned_double x" and "near 3 (double_real y) b" "unsigned_double y" and "3 \<le> k"
  shows "near (Suc k) (double_real (double_add x y)) (a + b)" and "unsigned_double (double_add x y)"
  using near_trans [OF near_add(1) [OF assms(2,4)] near_plus [OF assms(1) near_mono [OF assms(3,5)]]]
    near_add(2) [OF assms(2,4)] by simp_all

lemma usd_near:
  "near 9 (double_real (usd hin hout s_in s_out))
     ((real (unat hin) * 1 + real (unat hout) * 5 + real (unat s_in) * 2 + real (unat s_out) * 10) / 1000000)"
  "unsigned_double (usd hin hout s_in s_out)"
proof -
  note s1 = sum_near [OF price_near [of hin 1] price_near [of hout 5] order_refl]
  note s2 = sum_near [OF s1 price_near [of s_in 2], simplified]
  note s3 = sum_near [OF s2 price_near [of s_out 10], simplified]
  let ?M = "double_of_nat 1000000"
  have M: "0 < real 1000000" "0 < double_real ?M"
    using near_positive [OF near_nat(1) [of 1000000]] by simp_all
  show "near 9 (double_real (usd hin hout s_in s_out))
     ((real (unat hin) * 1 + real (unat hout) * 5 + real (unat s_in) * 2 + real (unat s_out) * 10) / 1000000)"
    using near_trans [OF near_over(1) [OF s3(2) near_nat(2) M(2)] near_div [OF s3(1) near_nat(1) M(1)]]
    by (simp add: usd_def kHaikuIn_def kHaikuOut_def kSonnetIn_def kSonnetOut_def)
  show "unsigned_double (usd hin hout s_in s_out)"
    using near_over(2) [OF s3(2) near_nat(2) M(2)]
    by (simp add: usd_def kHaikuIn_def kHaikuOut_def kSonnetIn_def kSonnetOut_def)
qed


lemma usd_error:
  "\<bar>double_real (usd hin hout s_in s_out) -
     (real (unat hin) + 5 * real (unat hout) + 2 * real (unat s_in) + 10 * real (unat s_out)) / 10 ^ 6\<bar>
   \<le> (real (unat hin) + 5 * real (unat hout) + 2 * real (unat s_in) + 10 * real (unat s_out)) / 10 ^ 6 * (10 / 2 ^ 53)"
proof -
  have "(1 + ulp) ^ 9 \<le> 1 + 10 / 2 ^ 53" "1 - 10 / 2 ^ 53 \<le> (1 - ulp) ^ 9"
    by (simp_all add: ulp_def power_divide)
  from near_error [OF usd_near(1) this] show ?thesis
    by (simp add: mult.commute)
qed

text \<open>
  C38. The printed amounts are right.  Whatever the counters (also beyond the \<open>2 ^ 53\<close> that a double
  holds exactly), the decimal number printed for a share differs from the true percentage by at most
  half a unit of its second decimal and a relative error of \<open>7 / 2 ^ 53\<close>, and the number printed for
  the cost differs from the tokens times their prices (1, 5, 2 and 10 dollars per million) by at most
  half a unit of its fourth decimal and a relative error of \<open>10 / 2 ^ 53\<close>.  A share of no events is 0.
\<close>

theorem printed_amounts_accurate:
  "(\<exists>n. fmt_fixed 2 (pct a b) = dec_nat (n div 10 ^ 2) @ ''.'' @ pad_left 2 (CHR ''0'') (dec_nat (n mod 10 ^ 2)) \<and>
      \<bar>real n / 10 ^ 2 - 100 * real (unat a) / real (unat b)\<bar>
        \<le> 1 / 2 / 10 ^ 2 + 100 * real (unat a) / real (unat b) * (7 / 2 ^ 53)) \<and>
   (\<exists>n. fmt_fixed 4 (usd hin hout s_in s_out) =
        dec_nat (n div 10 ^ 4) @ ''.'' @ pad_left 4 (CHR ''0'') (dec_nat (n mod 10 ^ 4)) \<and>
      \<bar>real n / 10 ^ 4 -
        (real (unat hin) + 5 * real (unat hout) + 2 * real (unat s_in) + 10 * real (unat s_out)) / 10 ^ 6\<bar>
        \<le> 1 / 2 / 10 ^ 4 +
          (real (unat hin) + 5 * real (unat hout) + 2 * real (unat s_in) + 10 * real (unat s_out)) / 10 ^ 6 * (10 / 2 ^ 53))"
proof -
  have tri: "\<bar>x - z\<bar> \<le> e + f" if "\<bar>x - y\<bar> \<le> e" "\<bar>y - z\<bar> \<le> f" for x y z e f :: real
    using that by linarith
  have p: "(0 :: nat) < 2" "(0 :: nat) < 4"
    by simp_all
  show ?thesis
    using fmt_fixed_near [OF pct_error(2) [of a b] p(1)] tri [OF _ pct_error(1) [of a b]]
      fmt_fixed_near [OF usd_near(2) [of hin hout s_in s_out] p(2)] tri [OF _ usd_error [of hin hout s_in s_out]]
    by blast
qed

end
