(* ===== verification/Handshake_Threads.thy ===== *)
theory Handshake_Threads
  imports Handshake
begin

section \<open>The handshake between two threads\<close>

text \<open>
  \<open>Pipe\<close> and \<open>run_handshake\<close> of \<open>crypto/examples/bench_handshake.cpp\<close>: client and server run
  concurrently over two in-memory queues.  A thread is its program and the frames it has taken from
  its queue so far.  Running the program on exactly these frames tells what it sends and whether it
  then blocks in \<open>pop\<close>, as the programs are deterministic.  The critical sections of \<open>push\<close> and
  \<open>pop\<close> are the steps; every interleaving of them is a run.
\<close>

subsection \<open>One thread\<close>

definition attempt :: "'a hs \<Rightarrow> bytes list \<Rightarrow> (hs_error + 'a) \<times> transport" where
  "attempt p frames = p (fresh_transport frames)"

definition outgoing :: "'a hs \<Rightarrow> bytes list \<Rightarrow> bytes list" where
  "outgoing p frames = t_out (snd (attempt p frames))"

text \<open>The program asks for a frame more than it has got: \<open>cv.wait\<close> in \<open>pop\<close>.\<close>

definition waits :: "'a hs \<Rightarrow> bytes list \<Rightarrow> bool" where
  "waits p frames \<longleftrightarrow> (case fst (attempt p frames) of Inl e \<Rightarrow> e = Hs_transport Closed_in_handshake | Inr x \<Rightarrow> False)"

subsection \<open>Two threads and two pipes\<close>

record hs_net =
  c_got :: "bytes list"
  c_pushed :: nat
  s_got :: "bytes list"
  s_pushed :: nat
  pipe_c2s :: "bytes list"
  pipe_s2c :: "bytes list"
  c2s_bytes :: nat
  s2c_bytes :: nat

definition start_net :: hs_net where
  "start_net = \<lparr>c_got = [], c_pushed = 0, s_got = [], s_pushed = 0, pipe_c2s = [], pipe_s2c = [],
     c2s_bytes = 0, s2c_bytes = 0\<rparr>"

inductive net_step :: "'a hs \<Rightarrow> 'b hs \<Rightarrow> hs_net \<Rightarrow> hs_net \<Rightarrow> bool"
  for client :: "'a hs" and server :: "'b hs" where
  client_push:
    "c_pushed z < length (outgoing client (c_got z)) \<Longrightarrow> f = outgoing client (c_got z) ! c_pushed z \<Longrightarrow>
     net_step client server z (z\<lparr>c_pushed := Suc (c_pushed z), pipe_c2s := pipe_c2s z @ [f],
       c2s_bytes := c2s_bytes z + length f\<rparr>)"
| client_pop:
    "c_pushed z = length (outgoing client (c_got z)) \<Longrightarrow> waits client (c_got z) \<Longrightarrow> pipe_s2c z = f # q \<Longrightarrow>
     net_step client server z (z\<lparr>c_got := c_got z @ [f], pipe_s2c := q\<rparr>)"
| server_push:
    "s_pushed z < length (outgoing server (s_got z)) \<Longrightarrow> f = outgoing server (s_got z) ! s_pushed z \<Longrightarrow>
     net_step client server z (z\<lparr>s_pushed := Suc (s_pushed z), pipe_s2c := pipe_s2c z @ [f],
       s2c_bytes := s2c_bytes z + length f\<rparr>)"
| server_pop:
    "s_pushed z = length (outgoing server (s_got z)) \<Longrightarrow> waits server (s_got z) \<Longrightarrow> pipe_c2s z = f # q \<Longrightarrow>
     net_step client server z (z\<lparr>s_got := s_got z @ [f], pipe_c2s := q\<rparr>)"

text \<open>When some thread can go on.\<close>

lemma net_step_enabled:
  "(\<exists>z'. net_step client server z z') \<longleftrightarrow>
     c_pushed z < length (outgoing client (c_got z)) \<or>
     (c_pushed z = length (outgoing client (c_got z)) \<and> waits client (c_got z) \<and> pipe_s2c z \<noteq> []) \<or>
     s_pushed z < length (outgoing server (s_got z)) \<or>
     (s_pushed z = length (outgoing server (s_got z)) \<and> waits server (s_got z) \<and> pipe_c2s z \<noteq> [])"
  by (auto simp: neq_Nil_conv elim: net_step.cases intro: net_step.intros)

text \<open>Both functions have returned: nothing is left to send and nothing is waited for.\<close>

definition net_done :: "'a hs \<Rightarrow> 'b hs \<Rightarrow> hs_net \<Rightarrow> bool" where
  "net_done client server z \<longleftrightarrow>
     c_pushed z = length (outgoing client (c_got z)) \<and> \<not> waits client (c_got z) \<and>
     s_pushed z = length (outgoing server (s_got z)) \<and> \<not> waits server (s_got z)"

subsection \<open>What the two programs do on the frames they get\<close>

text \<open>
  Programs in lockstep: the client sends \<open>a\<close>, takes \<open>b1\<close> and \<open>b2\<close>, sends \<open>c\<close>; the server takes
  \<open>a\<close>, sends \<open>b1\<close> and \<open>b2\<close>, takes \<open>c\<close>.
\<close>

definition lockstep :: "'a hs \<Rightarrow> 'b hs \<Rightarrow> bytes \<Rightarrow> bytes \<Rightarrow> bytes \<Rightarrow> bytes \<Rightarrow> bool" where
  "lockstep client server a b1 b2 c \<longleftrightarrow>
     waits client [] \<and> waits client [b1] \<and> \<not> waits client [b1, b2] \<and>
     outgoing client [] = [a] \<and> outgoing client [b1] = [a] \<and> outgoing client [b1, b2] = [a, c] \<and>
     waits server [] \<and> waits server [a] \<and> \<not> waits server [a, c] \<and>
     outgoing server [] = [] \<and> outgoing server [a] = [b1, b2] \<and> outgoing server [a, c] = [b1, b2]"

text \<open>The reachable states, by the numbers of frames pushed and popped on each side.\<close>

definition net_at :: "bytes list \<Rightarrow> bytes list \<Rightarrow> nat \<Rightarrow> nat \<Rightarrow> nat \<Rightarrow> nat \<Rightarrow> hs_net" where
  "net_at up down cp cg sp sg = \<lparr>c_got = take cg down, c_pushed = cp, s_got = take sg up, s_pushed = sp,
     pipe_c2s = drop sg (take cp up), pipe_s2c = drop cg (take sp down),
     c2s_bytes = length (concat (take cp up)), s2c_bytes = length (concat (take sp down))\<rparr>"

definition reach :: "nat \<Rightarrow> (nat \<times> nat \<times> nat \<times> nat) set" where
  "reach n = [{(0,0,0,0)}, {(1,0,0,0)}, {(1,0,0,1)}, {(1,0,1,1)}, {(1,0,2,1), (1,1,1,1)}, {(1,1,2,1)}, {(1,2,2,1)},
     {(2,2,2,1)}, {(2,2,2,2)}] ! n"

lemmas reach_simps = reach_def net_at_def numeral_eq_Suc

lemma step_reach:
  assumes "lockstep client server a b1 b2 c" and "n \<le> 8" and "(cp, cg, sp, sg) \<in> reach n"
    and "net_step client server (net_at [a, c] [b1, b2] cp cg sp sg) z"
  shows "n < 8 \<and> (\<exists>(cp, cg, sp, sg) \<in> reach (Suc n). z = net_at [a, c] [b1, b2] cp cg sp sg)"
proof -
  have "n \<in> {0, 1, 2, 3, 4, 5, 6, 7, 8}"
    using assms(2) by auto
  with assms(4,3) show ?thesis
    using assms(1) unfolding lockstep_def by cases (auto simp: reach_simps)
qed

lemma reach_step:
  assumes "lockstep client server a b1 b2 c" and "n < 8" and "(cp, cg, sp, sg) \<in> reach n"
  shows "\<exists>z. net_step client server (net_at [a, c] [b1, b2] cp cg sp sg) z"
proof -
  have "n \<in> {0, 1, 2, 3, 4, 5, 6, 7}"
    using assms(2) by auto
  then show ?thesis
    using assms(1,3) unfolding lockstep_def by (auto simp: net_step_enabled reach_simps)
qed

lemma runs_reach:
  assumes "lockstep client server a b1 b2 c"
  shows "(net_step client server ^^ n) start_net z \<Longrightarrow>
    n \<le> 8 \<and> (\<exists>(cp, cg, sp, sg) \<in> reach n. z = net_at [a, c] [b1, b2] cp cg sp sg)"
proof (induction n arbitrary: z)
  case 0
  then show ?case
    by (simp add: reach_simps start_net_def)
next
  case (Suc n)
  obtain y where y: "(net_step client server ^^ n) start_net y" "net_step client server y z"
    using Suc.prems by (auto elim: relpowp_Suc_E)
  obtain cp cg sp sg where "(cp, cg, sp, sg) \<in> reach n" "y = net_at [a, c] [b1, b2] cp cg sp sg" "n \<le> 8"
    using Suc.IH [OF y(1)] by auto
  then show ?case
    using step_reach [OF assms, of n cp cg sp sg z] y(2) by auto
qed

text \<open>Every run has eight steps: no shorter one is stuck, and after eight all frames have arrived.\<close>

lemma all_runs:
  assumes "lockstep client server a b1 b2 c" and "(net_step client server ^^ n) start_net z"
  shows "n \<le> 8" and "n < 8 \<Longrightarrow> \<exists>z'. net_step client server z z'"
    and "n = 8 \<Longrightarrow> net_done client server z \<and> c_got z = [b1, b2] \<and> s_got z = [a, c] \<and> pipe_c2s z = [] \<and>
      pipe_s2c z = [] \<and> c2s_bytes z = length a + length c \<and> s2c_bytes z = length b1 + length b2"
proof -
  obtain cp cg sp sg where z: "(cp, cg, sp, sg) \<in> reach n" "z = net_at [a, c] [b1, b2] cp cg sp sg" "n \<le> 8"
    using runs_reach [OF assms] by auto
  then show "n \<le> 8" and "n < 8 \<Longrightarrow> \<exists>z'. net_step client server z z'"
    using reach_step [OF assms(1)] by blast+
  assume "n = 8"
  then show "net_done client server z \<and> c_got z = [b1, b2] \<and> s_got z = [a, c] \<and> pipe_c2s z = [] \<and>
      pipe_s2c z = [] \<and> c2s_bytes z = length a + length c \<and> s2c_bytes z = length b1 + length b2"
    using z assms(1) by (auto simp: reach_simps net_done_def lockstep_def)
qed

subsection \<open>The handshake\<close>

lemma objects_fresh:
  assumes "libs_available L"
  shows "\<exists>x. hs_objects L sd t = (Inr x, t)"
  using avail(1,2,6) [OF assms] by (simp add: hs_objects_Inr)

text \<open>What the client does when only part of the server's frames has arrived.\<close>

lemma client_attempts:
  assumes c: "client_sent L sdc c" and acc: "client_accepts L i sdc c shf saf caf ks"
  defines "p \<equiv> client_handshake L i sdc"
  shows "waits p []" "waits p [shf]" "attempt p [shf, saf] = (Inr (client_channel ks), finished_transport [cl_frame c, caf])"
    "outgoing p [] = [cl_frame c]" "outgoing p [shf] = [cl_frame c]"
proof -
  have start: "client_start L sdc (fresh_transport fs) =
      (Inr c, \<lparr>t_in = map Inr fs, t_out = [cl_frame c], t_send_fails = \<lambda>_. None\<rparr>)" for fs
    using c by (simp add: client_start_Inr fresh_transport_def)
  have none: "attempt p [] =
      (Inl (Hs_transport Closed_in_handshake), \<lparr>t_in = [], t_out = [cl_frame c], t_send_fails = \<lambda>_. None\<rparr>)"
    by (simp add: attempt_def p_def client_handshake_def hs_bind_def start client_finish_def hs_recv_def)
  obtain th m ssc ssq where "parse_server_hello shf = Inr m" "evp_x25519_derive L (cl_x c) (sh_x25519 m) = Some ssc"
    "oqs_kem_decaps L (sh_mlkem_ct m) (secret_key (cl_kem c)) = Some ssq" "length (sh_mlkem_ct m) = kem_ct_len L"
    "length (secret_key (cl_kem c)) = kem_secret_len L" "evp_sha256 L (cl_frame c @ shf) = Some th"
    "derive_session_keys L ssc ssq (cl_random c) (sh_random m) th = Inr ks"
    using acc unfolding client_accepts_def client_derives_def by blast
  then have one: "attempt p [shf] =
      (Inl (Hs_transport Closed_in_handshake), \<lparr>t_in = [], t_out = [cl_frame c], t_send_fails = \<lambda>_. None\<rparr>)"
    by (simp add: attempt_def p_def client_handshake_def hs_bind_def start client_finish_def hs_recv_def hs_lift_def
        x25519_compute_shared_def mlkem_decaps_def transcript_def sha256_def or_throw_def parse_hello_lengths
        X25519_kKeyLen_def)
  show "waits p []" "waits p [shf]" "outgoing p [] = [cl_frame c]" "outgoing p [shf] = [cl_frame c]"
    by (simp_all add: waits_def outgoing_def none one)
  show "attempt p [shf, saf] = (Inr (client_channel ks), finished_transport [cl_frame c, caf])"
    unfolding attempt_def p_def client_handshake_Inr fresh_transport_def finished_transport_def using c acc by auto
qed

lemma server_attempts:
  assumes "libs_available L" and s: "server_answers L i sds s th"
  defines "p \<equiv> server_handshake L i sds"
  shows "waits p []" "waits p [sv_ch_frame s]" "outgoing p [] = []" "outgoing p [sv_ch_frame s] = [sv_sh_frame s, sv_sa_frame s]"
proof -
  obtain x where x: "hs_objects L sds t = (Inr x, t)" for t
    using objects_fresh [OF assms(1)] by (metis (no_types) hs_objects_Inr)
  have none: "attempt p [] = (Inl (Hs_transport Closed_in_handshake), fresh_transport [])"
    by (simp add: attempt_def p_def server_handshake_def hs_bind_def server_start_def x hs_recv_def fresh_transport_def)
  have "server_start L i sds (fresh_transport [sv_ch_frame s]) =
      (Inr s, \<lparr>t_in = [], t_out = [sv_sh_frame s, sv_sa_frame s], t_send_fails = \<lambda>_. None\<rparr>)"
    unfolding server_start_Inr fresh_transport_def using s by auto
  then have one: "attempt p [sv_ch_frame s] = (Inl (Hs_transport Closed_in_handshake),
      \<lparr>t_in = [], t_out = [sv_sh_frame s, sv_sa_frame s], t_send_fails = \<lambda>_. None\<rparr>)"
    by (simp add: attempt_def p_def server_handshake_def hs_bind_def server_finish_def hs_recv_def)
  show "waits p []" "waits p [sv_ch_frame s]" "outgoing p [] = []"
    "outgoing p [sv_ch_frame s] = [sv_sh_frame s, sv_sa_frame s]"
    by (simp_all add: waits_def outgoing_def none one fresh_transport_def)
qed

text \<open>The lengths of the four frames.\<close>

lemma frame_length: "frame ty p = Inr f \<Longrightarrow> length f = 4 + length p"
  by (auto simp: frame_def be16_def split: if_splits)

lemma hello_length:
  "serialize_client_hello m = Inr f \<Longrightarrow> length f = 68 + length (ch_mlkem m)"
  "serialize_server_hello n = Inr g \<Longrightarrow> length g = 68 + length (sh_mlkem_ct n)"
  by (auto simp: serialize_client_hello_def serialize_server_hello_def wire_consts dest!: frame_length split: if_splits)

lemma client_frame_length: "libs_sized L \<Longrightarrow> client_sent L sd c \<Longrightarrow> length (cl_frame c) = 68 + kem_public_len L"
  using sized(1) by (auto simp: client_sent_def dest: hello_length(1))

lemma server_frame_lengths:
  assumes "libs_sized L" and "server_answers L i sd s th"
  shows "length (sv_sh_frame s) = 68 + kem_ct_len L" "4 < length (sv_sa_frame s)"
    "length (sv_sa_frame s) \<le> 4 + sig_max_len L"
proof -
  obtain pk ct ss rnd px sig where "oqs_kem_encaps L (sd_kem sd) pk = Some (ct, ss)"
    and "serialize_server_hello \<lparr>sh_random = rnd, sh_x25519 = px, sh_mlkem_ct = ct\<rparr> = Inr (sv_sh_frame s)"
    and "oqs_sig_sign L (sd_sign sd) th (sig_secret i) = Some sig"
    and "serialize_server_auth (Server_Auth sig) = Inr (sv_sa_frame s)"
    using assms(2) unfolding server_answers_def by (elim exE conjE) (rule that)
  then show "length (sv_sh_frame s) = 68 + kem_ct_len L" "4 < length (sv_sa_frame s)"
    "length (sv_sa_frame s) \<le> 4 + sig_max_len L"
    using hello_length(2) sized(2) [OF assms(1)] assms(1)
    by (auto simp: serialize_server_auth_def libs_sized_def dest!: frame_length)
qed

lemma client_auth_length:
  assumes "libs_sized L" and "client_accepts L i sd c shf saf caf ks"
  shows "4 < length caf" "length caf \<le> 4 + sig_max_len L"
proof -
  obtain th2 csig where "oqs_sig_sign L (sd_sign sd) th2 (sig_secret i) = Some csig"
    and "serialize_client_auth (Client_Auth csig) = Inr caf"
    using assms(2) unfolding client_accepts_def by blast
  then show "4 < length caf" "length caf \<le> 4 + sig_max_len L"
    using assms(1) by (auto simp: serialize_client_auth_def libs_sized_def dest!: frame_length)
qed

lemma threads_finish:
  assumes libs: "libs_available L" "libs_sized L" "kem_correct L" "dh_correct L" "sig_correct L" "gcm_correct L"
    and honest: "honest_identities L idc ids"
  shows "\<exists>cc cs nc ns. records_in_step L (chan_sender cc) (chan_receiver cs) \<and>
    records_in_step L (chan_sender cs) (chan_receiver cc) \<and>
    0 < nc \<and> nc \<le> sig_max_len L \<and> 0 < ns \<and> ns \<le> sig_max_len L \<and>
    (\<forall>n z. (net_step (client_handshake L idc sdc) (server_handshake L ids sds) ^^ n) start_net z \<longrightarrow>
      n \<le> 8 \<and> (n < 8 \<longrightarrow> (\<exists>z'. net_step (client_handshake L idc sdc) (server_handshake L ids sds) z z')) \<and>
      (n = 8 \<longrightarrow> net_done (client_handshake L idc sdc) (server_handshake L ids sds) z \<and>
         fst (attempt (client_handshake L idc sdc) (c_got z)) = Inr cc \<and>
         fst (attempt (server_handshake L ids sds) (s_got z)) = Inr cs \<and> pipe_c2s z = [] \<and> pipe_s2c z = [] \<and>
         c2s_bytes z = 72 + kem_public_len L + nc \<and> s2c_bytes z = 72 + kem_ct_len L + ns))"
proof -
  let ?c = "client_handshake L idc sdc" and ?s = "server_handshake L ids sds"
  obtain c s caf mid where c: "client_sent L sdc c" and frame: "sv_ch_frame s = cl_frame c"
    and acc: "client_accepts L idc sdc c (sv_sh_frame s) (sv_sa_frame s) caf (sv_keys s)"
    and start: "server_start L ids sds (fresh_transport [cl_frame c, caf]) = (Inr s, mid)"
    and finish: "server_finish L ids s mid =
      (Inr (server_channel (sv_keys s)), finished_transport [sv_sh_frame s, sv_sa_frame s])"
    by (rule honest_run [OF libs(1-5) honest])
  obtain th where ans: "server_answers L ids sds s th"
    using start unfolding server_start_Inr by blast
  have server: "attempt ?s [cl_frame c, caf] =
      (Inr (server_channel (sv_keys s)), finished_transport [sv_sh_frame s, sv_sa_frame s])"
    unfolding attempt_def server_handshake_Inr using start finish by blast
  note client = client_attempts [OF c acc]
  have "lockstep ?c ?s (cl_frame c) (sv_sh_frame s) (sv_sa_frame s) caf"
    using client server_attempts [OF libs(1) ans] server unfolding frame
    by (simp add: lockstep_def waits_def outgoing_def finished_transport_def)
  note runs = all_runs [OF this]
  have keys: "records_in_step L (chan_sender (client_channel (sv_keys s))) (chan_receiver (server_channel (sv_keys s)))"
    "records_in_step L (chan_sender (server_channel (sv_keys s))) (chan_receiver (client_channel (sv_keys s)))"
    using libs(2,6) by (auto simp: records_in_step_def client_channel_def server_channel_def)
  note len = client_frame_length [OF libs(2) c] server_frame_lengths [OF libs(2) ans] client_auth_length [OF libs(2) acc]
  show ?thesis
    by (rule exI [of _ "client_channel (sv_keys s)"], rule exI [of _ "server_channel (sv_keys s)"],
        rule exI [of _ "length caf - 4"], rule exI [of _ "length (sv_sa_frame s) - 4"])
      (use runs keys len client(3) server in auto)
qed

text \<open>
  C15. Two threads always get through the handshake.  With working libraries and honest identities, every
  schedule of client and server over the two pipes ends after exactly eight pushes and pops: until
  then some thread can move, and afterwards both functions have returned channels that are in step
  with each other, the pipes are empty, and the byte counters are the same in every run: 72 bytes,
  the KEM's public key or ciphertext, and one signature in each direction.
\<close>

theorem threads_complete:
  assumes libs: "libs_available L" "libs_sized L" "kem_correct L" "dh_correct L" "sig_correct L" "gcm_correct L"
    and honest: "honest_identities L idc ids"
  shows "\<exists>cc cs nc ns. records_in_step L (chan_sender cc) (chan_receiver cs) \<and>
    records_in_step L (chan_sender cs) (chan_receiver cc) \<and>
    0 < nc \<and> nc \<le> sig_max_len L \<and> 0 < ns \<and> ns \<le> sig_max_len L \<and>
    (\<forall>n z. (net_step (client_handshake L idc sdc) (server_handshake L ids sds) ^^ n) start_net z \<longrightarrow>
      n \<le> 8 \<and> (n < 8 \<longrightarrow> (\<exists>z'. net_step (client_handshake L idc sdc) (server_handshake L ids sds) z z')) \<and>
      (n = 8 \<longrightarrow> net_done (client_handshake L idc sdc) (server_handshake L ids sds) z \<and>
         fst (attempt (client_handshake L idc sdc) (c_got z)) = Inr cc \<and>
         fst (attempt (server_handshake L ids sds) (s_got z)) = Inr cs \<and> pipe_c2s z = [] \<and> pipe_s2c z = [] \<and>
         c2s_bytes z = 72 + kem_public_len L + nc \<and> s2c_bytes z = 72 + kem_ct_len L + ns))"
  by (rule threads_finish [OF assms])

lemma threads_complete_witness:
  "\<exists>z. (net_step (client_handshake toy_libs toy_client (toy_seeds 3)) (server_handshake toy_libs toy_server (toy_seeds 4)) ^^ 1)
      start_net z \<and>
     (\<exists>z'. net_step (client_handshake toy_libs toy_client (toy_seeds 3)) (server_handshake toy_libs toy_server (toy_seeds 4)) z z')"
proof -
  let ?step = "net_step (client_handshake toy_libs toy_client (toy_seeds 3)) (server_handshake toy_libs toy_server (toy_seeds 4))"
  obtain cc cs nc ns where runs: "\<forall>n z. (?step ^^ n) start_net z \<longrightarrow> n \<le> 8 \<and> (n < 8 \<longrightarrow> (\<exists>z'. ?step z z')) \<and>
      (n = 8 \<longrightarrow> net_done (client_handshake toy_libs toy_client (toy_seeds 3))
           (server_handshake toy_libs toy_server (toy_seeds 4)) z \<and>
         fst (attempt (client_handshake toy_libs toy_client (toy_seeds 3)) (c_got z)) = Inr cc \<and>
         fst (attempt (server_handshake toy_libs toy_server (toy_seeds 4)) (s_got z)) = Inr cs \<and>
         pipe_c2s z = [] \<and> pipe_s2c z = [] \<and>
         c2s_bytes z = 72 + kem_public_len toy_libs + nc \<and> s2c_bytes z = 72 + kem_ct_len toy_libs + ns)"
    using threads_complete [OF toy_libs_ok toy_identities, of "toy_seeds 3" "toy_seeds 4"]
    by (elim exE conjE) (rule that)
  have "(?step ^^ 0) start_net start_net"
    by simp
  with runs obtain z where z: "?step start_net z"
    by (metis zero_less_numeral)
  then have "(?step ^^ 1) start_net z"
    by auto
  with runs show ?thesis
    by (metis one_less_numeral_iff semiring_norm(76))
qed

end
