(* ===== verification/Bench_Messages.thy ===== *)
theory Bench_Messages
  imports Main
begin

section \<open>Texts of the benchmark's report\<close>

text \<open>
  The string literals of the report that \<open>crypto/examples/bench_handshake.cpp\<close> prints, as UTF-8 bytes
  and cut at the conversion specifications of their \<open>printf\<close> formats.
\<close>

definition bt_title :: string where
  "bt_title =
     ''# PQC '' @ [CHR 0xED, CHR 0x95, CHR 0x98, CHR 0xEC, CHR 0x9D, CHR 0xB4, CHR 0xEB, CHR
     0xB8, CHR 0x8C, CHR 0xEB, CHR 0xA6, CHR 0xAC, CHR 0xEB, CHR 0x93, CHR 0x9C, CHR 0x20, CHR
     0xEC, CHR 0xB1, CHR 0x84, CHR 0xEB, CHR 0x84, CHR 0x90, CHR 0x20, CHR 0xEB, CHR 0xB2, CHR
     0xA4, CHR 0xEC, CHR 0xB9, CHR 0x98, CHR 0xEB, CHR 0xA7, CHR 0x88, CHR 0xED, CHR 0x81, CHR
     0xAC, CHR 0x0A, CHR 0x0A]"

definition bt_cpu :: string where
  "bt_cpu =
     ''- CPU: ''"

definition bt_build :: string where
  "bt_build =
     [CHR 0x0A, CHR 0x2D, CHR 0x20, CHR 0xEB, CHR 0xB9, CHR 0x8C, CHR 0xEB, CHR 0x93, CHR 0x9C] @
     '': ''"

definition bt_release :: string where
  "bt_release =
     ''Release''"

definition bt_debug :: string where
  "bt_debug =
     ''Debug ('' @ [CHR 0xEC, CHR 0xB5, CHR 0x9C, CHR 0xEC, CHR 0xA0, CHR 0x81, CHR 0xED, CHR
     0x99, CHR 0x94, CHR 0x20, CHR 0xEC, CHR 0x97, CHR 0x86, CHR 0xEC, CHR 0x9D, CHR 0x8C, CHR
     0x20, CHR 0xE2, CHR 0x80, CHR 0x94] @ '' Release '' @ [CHR 0xEB, CHR 0xA1, CHR 0x9C, CHR
     0x20, CHR 0xEB, CHR 0x8B, CHR 0xA4, CHR 0xEC, CHR 0x8B, CHR 0x9C, CHR 0x20, CHR 0xEC, CHR
     0x9E, CHR 0xAC, CHR 0xEB, CHR 0xA9, CHR 0xB4, CHR 0x20, CHR 0xEB, CHR 0x8D, CHR 0x94, CHR
     0x20, CHR 0xEB, CHR 0xB9, CHR 0xA0, CHR 0xEB, CHR 0xA6, CHR 0x84] @ '')''"

definition bt_suite :: string where
  "bt_suite =
     [CHR 0x0A, CHR 0x2D, CHR 0x20, CHR 0xEC, CHR 0x8A, CHR 0xA4, CHR 0xEC, CHR 0x9C, CHR 0x84,
     CHR 0xED, CHR 0x8A, CHR 0xB8] @ '': ''"

definition bt_suite_x :: string where
  "bt_suite_x =
     '' + X25519 + ''"

definition bt_suite_end :: string where
  "bt_suite_end =
     '' + HKDF-SHA256 + AES-256-GCM'' @ [CHR 0x0A, CHR 0x0A]"

definition bt_prims :: string where
  "bt_prims =
     ''## 1. '' @ [CHR 0xED, CHR 0x94, CHR 0x84, CHR 0xEB, CHR 0xA6, CHR 0xAC, CHR 0xEB, CHR
     0xAF, CHR 0xB8, CHR 0xED, CHR 0x8B, CHR 0xB0, CHR 0xEB, CHR 0xB8, CHR 0x8C, CHR 0x20, CHR
     0xEC, CHR 0xA7, CHR 0x80, CHR 0xEC, CHR 0x97, CHR 0xB0, CHR 0x20, CHR 0x28, CHR 0xC2, CHR
     0xB5] @ ''s, N=''"

definition bt_close :: string where
  "bt_close =
     '')'' @ [CHR 0x0A, CHR 0x0A]"

definition bt_prim_head :: string where
  "bt_prim_head =
     ''| '' @ [CHR 0xEC, CHR 0x97, CHR 0xB0, CHR 0xEC, CHR 0x82, CHR 0xB0] @
     '' | median | p90 | '' @ [CHR 0xED, CHR 0x81, CHR 0xAC, CHR 0xEA, CHR 0xB8, CHR 0xB0, CHR
     0x20, CHR 0x7C, CHR 0x0A] @ ''|---|---:|---:|---|'' @ [CHR 0x0A]"

definition bt_bar_end :: string where
  "bt_bar_end =
     '' |'' @ [CHR 0x0A]"

definition bt_seal :: string where
  "bt_seal =
     ''AES-256-GCM seal (168B '' @ [CHR 0xEC, CHR 0x9D, CHR 0xB4, CHR 0xEB, CHR 0xB2, CHR 0xA4,
     CHR 0xED, CHR 0x8A, CHR 0xB8] @ '')''"

definition bt_seal_size :: string where
  "bt_seal_size =
     ''+2B '' @ [CHR 0xED, CHR 0x97, CHR 0xA4, CHR 0xEB, CHR 0x8D, CHR 0x94] @ '' +16B '' @ [CHR
     0xED, CHR 0x83, CHR 0x9C, CHR 0xEA, CHR 0xB7, CHR 0xB8]"

definition bt_open :: string where
  "bt_open =
     ''AES-256-GCM seal+open '' @ [CHR 0xEC, CHR 0x99, CHR 0x95, CHR 0xEB, CHR 0xB3, CHR 0xB5]"

definition bt_hs :: string where
  "bt_hs =
     [CHR 0x0A] @ ''## 2. '' @ [CHR 0xEC, CHR 0xA0, CHR 0x84, CHR 0xEC, CHR 0xB2, CHR 0xB4, CHR
     0x20, CHR 0xED, CHR 0x95, CHR 0xB8, CHR 0xEB, CHR 0x93, CHR 0x9C, CHR 0xEC, CHR 0x85, CHR
     0xB0, CHR 0xEC, CHR 0x9D, CHR 0xB4, CHR 0xED, CHR 0x81, CHR 0xAC, CHR 0x20, CHR 0xEC, CHR
     0x8B, CHR 0xA4, CHR 0xEC, CHR 0xB8, CHR 0xA1, CHR 0x20, CHR 0x28, CHR 0xEC, CHR 0x9D, CHR
     0xB8, CHR 0xEB, CHR 0xA9, CHR 0x94, CHR 0xEB, CHR 0xAA, CHR 0xA8, CHR 0xEB, CHR 0xA6, CHR
     0xAC] @ '' transport, N=''"

definition bt_hs_head :: string where
  "bt_hs_head =
     ''| '' @ [CHR 0xED, CHR 0x95, CHR 0xAD, CHR 0xEB, CHR 0xAA, CHR 0xA9] @ '' | '' @ [CHR 0xEA,
     CHR 0xB0, CHR 0x92, CHR 0x20, CHR 0x7C, CHR 0x0A] @ ''|---|---:|'' @ [CHR 0x0A]"

definition bt_hs_median :: string where
  "bt_hs_median =
     ''| '' @ [CHR 0xED, CHR 0x81, CHR 0xB4, CHR 0xEB, CHR 0x9D, CHR 0xBC, CHR 0xEC, CHR 0x9D,
     CHR 0xB4, CHR 0xEC, CHR 0x96, CHR 0xB8, CHR 0xED, CHR 0x8A, CHR 0xB8, CHR 0x20, CHR 0xEA,
     CHR 0xB4, CHR 0x80, CHR 0xEC, CHR 0xA0, CHR 0x90, CHR 0x20, CHR 0xEC, CHR 0xA7, CHR 0x80,
     CHR 0xEC, CHR 0x97, CHR 0xB0] @ '' median | ''"

definition bt_hs_p90 :: string where
  "bt_hs_p90 =
     ''| '' @ [CHR 0xED, CHR 0x81, CHR 0xB4, CHR 0xEB, CHR 0x9D, CHR 0xBC, CHR 0xEC, CHR 0x9D,
     CHR 0xB4, CHR 0xEC, CHR 0x96, CHR 0xB8, CHR 0xED, CHR 0x8A, CHR 0xB8, CHR 0x20, CHR 0xEA,
     CHR 0xB4, CHR 0x80, CHR 0xEC, CHR 0xA0, CHR 0x90, CHR 0x20, CHR 0xEC, CHR 0xA7, CHR 0x80,
     CHR 0xEC, CHR 0x97, CHR 0xB0] @ '' p90 | ''"

definition bt_ms :: string where
  "bt_ms =
     '' ms |'' @ [CHR 0x0A]"

definition bt_up :: string where
  "bt_up =
     ''| '' @ [CHR 0xEC, CHR 0x99, CHR 0x80, CHR 0xEC, CHR 0x9D, CHR 0xB4, CHR 0xEC, CHR 0x96,
     CHR 0xB4, CHR 0x20, CHR 0xEB, CHR 0xB0, CHR 0x94, CHR 0xEC, CHR 0x9D, CHR 0xB4, CHR 0xED,
     CHR 0x8A, CHR 0xB8] @ '' (agent'' @ [CHR 0xE2, CHR 0x86, CHR 0x92] @ ''analyzer) | ''"

definition bt_down :: string where
  "bt_down =
     ''| '' @ [CHR 0xEC, CHR 0x99, CHR 0x80, CHR 0xEC, CHR 0x9D, CHR 0xB4, CHR 0xEC, CHR 0x96,
     CHR 0xB4, CHR 0x20, CHR 0xEB, CHR 0xB0, CHR 0x94, CHR 0xEC, CHR 0x9D, CHR 0xB4, CHR 0xED,
     CHR 0x8A, CHR 0xB8] @ '' (analyzer'' @ [CHR 0xE2, CHR 0x86, CHR 0x92] @ ''agent) | ''"

definition bt_both :: string where
  "bt_both =
     ''| '' @ [CHR 0xEC, CHR 0x99, CHR 0x80, CHR 0xEC, CHR 0x9D, CHR 0xB4, CHR 0xEC, CHR 0x96,
     CHR 0xB4, CHR 0x20, CHR 0xEB, CHR 0xB0, CHR 0x94, CHR 0xEC, CHR 0x9D, CHR 0xB4, CHR 0xED,
     CHR 0x8A, CHR 0xB8, CHR 0x20, CHR 0xED, CHR 0x95, CHR 0xA9, CHR 0xEA, CHR 0xB3, CHR 0x84] @
     '' | ''"

definition bt_bytes :: string where
  "bt_bytes =
     '' B |'' @ [CHR 0x0A]"

definition bt_hs_note :: string where
  "bt_hs_note =
     [CHR 0x0A, CHR 0x28, CHR 0xEC, CHR 0x8A, CHR 0xA4, CHR 0xEB, CHR 0xA0, CHR 0x88, CHR 0xEB,
     CHR 0x93, CHR 0x9C, CHR 0x20, CHR 0xEC, CHR 0xA0, CHR 0x84, CHR 0xED, CHR 0x99, CHR 0x98,
     CHR 0xC2, CHR 0xB7, CHR 0xED, CHR 0x94, CHR 0x84, CHR 0xEB, CHR 0xA0, CHR 0x88, CHR 0xEC,
     CHR 0x9D, CHR 0xB4, CHR 0xEB, CHR 0xB0, CHR 0x8D, CHR 0x20, CHR 0xED, CHR 0x8F, CHR 0xAC,
     CHR 0xED, CHR 0x95, CHR 0xA8, CHR 0x2E, CHR 0x20, CHR 0xEB, CHR 0x84, CHR 0xA4, CHR 0xED,
     CHR 0x8A, CHR 0xB8, CHR 0xEC, CHR 0x9B, CHR 0x8C, CHR 0xED, CHR 0x81, CHR 0xAC] @ '' RTT ''
     @ [CHR 0xEC, CHR 0xA0, CHR 0x9C, CHR 0xEC, CHR 0x99, CHR 0xB8, CHR 0x20, CHR 0xE2, CHR 0x80,
     CHR 0x94, CHR 0x20, CHR 0xEC, CHR 0x8B, CHR 0xA4, CHR 0xEC, CHR 0xA0, CHR 0x9C, CHR 0x20,
     CHR 0xEB, CHR 0xA7, CHR 0x81, CHR 0xED, CHR 0x81, CHR 0xAC, CHR 0xEC, CHR 0x97, CHR 0x90,
     CHR 0xEC, CHR 0x84, CHR 0xA0] @ '' 2-RTT '' @ [CHR 0xEA, CHR 0xB0, CHR 0x80, CHR 0x20, CHR
     0xEB, CHR 0x8D, CHR 0x94, CHR 0xED, CHR 0x95, CHR 0xB4, CHR 0xEC, CHR 0xA7, CHR 0x84, CHR
     0xEB, CHR 0x8B, CHR 0xA4, CHR 0x2E, CHR 0x29, CHR 0x0A]"

definition bt_cmp :: string where
  "bt_cmp =
     [CHR 0x0A] @ ''## 3. '' @ [CHR 0xEA, CHR 0xB3, CHR 0xA0, CHR 0xEC, CHR 0xA0, CHR 0x84, CHR
     0x20, CHR 0xEC, CHR 0xA0, CHR 0x84, CHR 0xEC, CHR 0x9A, CHR 0xA9] @ '' vs '' @ [CHR 0xED,
     CHR 0x95, CHR 0x98, CHR 0xEC, CHR 0x9D, CHR 0xB4, CHR 0xEB, CHR 0xB8, CHR 0x8C, CHR 0xEB,
     CHR 0xA6, CHR 0xAC, CHR 0xEB, CHR 0x93, CHR 0x9C, CHR 0x20, CHR 0x28, CHR 0xEC, CHR 0x96,
     CHR 0x91, CHR 0xEC, CHR 0xB8, CHR 0xA1] @ '' CPU '' @ [CHR 0xED, CHR 0x95, CHR 0xA9, CHR
     0xEC, CHR 0x82, CHR 0xB0] @ '', median '' @ [CHR 0xEA, CHR 0xB8, CHR 0xB0, CHR 0xEC, CHR
     0xA4, CHR 0x80, CHR 0x29, CHR 0x0A, CHR 0x0A] @ ''| | '' @ [CHR 0xEA, CHR 0xB3, CHR 0xA0,
     CHR 0xEC, CHR 0xA0, CHR 0x84, CHR 0x20, CHR 0xEC, CHR 0xA0, CHR 0x84, CHR 0xEC, CHR 0x9A,
     CHR 0xA9] @ '' (X25519 + Ed25519) *'' @ [CHR 0xEC, CHR 0xB6, CHR 0x94, CHR 0xEC, CHR 0xA0,
     CHR 0x95] @ ''* | '' @ [CHR 0xED, CHR 0x95, CHR 0x98, CHR 0xEC, CHR 0x9D, CHR 0xB4, CHR
     0xEB, CHR 0xB8, CHR 0x8C, CHR 0xEB, CHR 0xA6, CHR 0xAC, CHR 0xEB, CHR 0x93, CHR 0x9C] @
     '' (X25519'' @ [CHR 0xE2, CHR 0x80, CHR 0x96] @ ''ML-KEM-768 + ML-DSA-65) *'' @ [CHR 0xEC,
     CHR 0x8B, CHR 0xA4, CHR 0xEC, CHR 0xB8, CHR 0xA1, CHR 0x20, CHR 0xED, CHR 0x94, CHR 0x84,
     CHR 0xEB, CHR 0xA6, CHR 0xAC, CHR 0xEB, CHR 0xAF, CHR 0xB8, CHR 0xED, CHR 0x8B, CHR 0xB0,
     CHR 0xEB, CHR 0xB8, CHR 0x8C, CHR 0x20, CHR 0xED, CHR 0x95, CHR 0xA9, CHR 0xEC, CHR 0x82,
     CHR 0xB0] @ ''* | '' @ [CHR 0xEB, CHR 0xB0, CHR 0xB0, CHR 0xEC, CHR 0x88, CHR 0x98, CHR
     0x20, CHR 0x7C, CHR 0x0A] @ ''|---|---:|---:|---:|'' @ [CHR 0x0A]"

definition bt_kex :: string where
  "bt_kex =
     ''| '' @ [CHR 0xED, CHR 0x82, CHR 0xA4, CHR 0xEA, CHR 0xB5, CHR 0x90, CHR 0xED, CHR 0x99,
     CHR 0x98] @ '' CPU | ''"

definition bt_us_sep :: string where
  "bt_us_sep =
     '' '' @ [CHR 0xC2, CHR 0xB5] @ ''s | ''"

definition bt_us_x :: string where
  "bt_us_x =
     '' '' @ [CHR 0xC2, CHR 0xB5] @ ''s | '' @ [CHR 0xC3, CHR 0x97]"

definition bt_auth :: string where
  "bt_auth =
     ''| '' @ [CHR 0xEC, CHR 0x9D, CHR 0xB8, CHR 0xEC, CHR 0xA6, CHR 0x9D] @ '' CPU ('' @ [CHR
     0xEC, CHR 0x84, CHR 0x9C, CHR 0xEB, CHR 0xAA, CHR 0x85, CHR 0x32, CHR 0x2B, CHR 0xEA, CHR
     0xB2, CHR 0x80, CHR 0xEC, CHR 0xA6, CHR 0x9D] @ ''2) | ''"

definition bt_cpu_sum :: string where
  "bt_cpu_sum =
     ''| '' @ [CHR 0xED, CHR 0x95, CHR 0xB8, CHR 0xEB, CHR 0x93, CHR 0x9C, CHR 0xEC, CHR 0x85,
     CHR 0xB0, CHR 0xEC, CHR 0x9D, CHR 0xB4, CHR 0xED, CHR 0x81, CHR 0xAC] @ '' CPU '' @ [CHR
     0xED, CHR 0x95, CHR 0xA9, CHR 0xEA, CHR 0xB3, CHR 0x84] @ '' | ''"

definition bt_kex_b :: string where
  "bt_kex_b =
     ''| '' @ [CHR 0xED, CHR 0x82, CHR 0xA4, CHR 0xEA, CHR 0xB5, CHR 0x90, CHR 0xED, CHR 0x99,
     CHR 0x98, CHR 0x20, CHR 0xEB, CHR 0xB0, CHR 0x94, CHR 0xEC, CHR 0x9D, CHR 0xB4, CHR 0xED,
     CHR 0x8A, CHR 0xB8] @ '' | ''"

definition bt_b_sep :: string where
  "bt_b_sep =
     '' B | ''"

definition bt_b_x :: string where
  "bt_b_x =
     '' B | '' @ [CHR 0xC3, CHR 0x97]"

definition bt_auth_b :: string where
  "bt_auth_b =
     ''| '' @ [CHR 0xEC, CHR 0x9D, CHR 0xB8, CHR 0xEC, CHR 0xA6, CHR 0x9D, CHR 0x20, CHR 0xEB,
     CHR 0xB0, CHR 0x94, CHR 0xEC, CHR 0x9D, CHR 0xB4, CHR 0xED, CHR 0x8A, CHR 0xB8, CHR 0x20,
     CHR 0x28, CHR 0xEC, CHR 0x84, CHR 0x9C, CHR 0xEB, CHR 0xAA, CHR 0x85, CHR 0x20, CHR 0x32,
     CHR 0xEA, CHR 0xB0, CHR 0x9C] @ '') | ''"

definition bt_sum_b :: string where
  "bt_sum_b =
     ''| '' @ [CHR 0xED, CHR 0x95, CHR 0xB8, CHR 0xEB, CHR 0x93, CHR 0x9C, CHR 0xEC, CHR 0x85,
     CHR 0xB0, CHR 0xEC, CHR 0x9D, CHR 0xB4, CHR 0xED, CHR 0x81, CHR 0xAC, CHR 0x20, CHR 0xEB,
     CHR 0xB0, CHR 0x94, CHR 0xEC, CHR 0x9D, CHR 0xB4, CHR 0xED, CHR 0x8A, CHR 0xB8, CHR 0x20,
     CHR 0xED, CHR 0x95, CHR 0xA9, CHR 0xEA, CHR 0xB3, CHR 0x84, CHR 0x20, CHR 0x28, CHR 0xED,
     CHR 0x8E, CHR 0x98, CHR 0xEC, CHR 0x9D, CHR 0xB4, CHR 0xEB, CHR 0xA1, CHR 0x9C, CHR 0xEB,
     CHR 0x93, CHR 0x9C] @ '') | ''"

definition bt_notes :: string where
  "bt_notes =
     [CHR 0x0A, CHR 0x2A, CHR 0xEA, CHR 0xB3, CHR 0xA0, CHR 0xEC, CHR 0xA0, CHR 0x84, CHR 0x20,
     CHR 0xEC, CHR 0xA0, CHR 0x84, CHR 0xEC, CHR 0x9A, CHR 0xA9, CHR 0x20, CHR 0xEC, CHR 0x97,
     CHR 0xB4, CHR 0xEC, CHR 0x9D, CHR 0x80, CHR 0x20, CHR 0xEB, CHR 0xAF, CHR 0xB8, CHR 0xEA,
     CHR 0xB5, CHR 0xAC, CHR 0xED, CHR 0x98, CHR 0x84, CHR 0x20, CHR 0xE2, CHR 0x80, CHR 0x94,
     CHR 0x20, CHR 0xEA, CHR 0xB0, CHR 0x99, CHR 0xEC, CHR 0x9D, CHR 0x80] @ '' 4-'' @ [CHR 0xEB,
     CHR 0xA9, CHR 0x94, CHR 0xEC, CHR 0x8B, CHR 0x9C, CHR 0xEC, CHR 0xA7, CHR 0x80, CHR 0x20,
     CHR 0xED, CHR 0x9D, CHR 0x90, CHR 0xEB, CHR 0xA6, CHR 0x84, CHR 0xEC, CHR 0x9D, CHR 0x84,
     CHR 0x20, CHR 0xEA, CHR 0xB0, CHR 0x80, CHR 0xEC, CHR 0xA0, CHR 0x95, CHR 0xED, CHR 0x95,
     CHR 0x9C, CHR 0x20, CHR 0xED, CHR 0x94, CHR 0x84, CHR 0xEB, CHR 0xA6, CHR 0xAC, CHR 0xEB,
     CHR 0xAF, CHR 0xB8, CHR 0xED, CHR 0x8B, CHR 0xB0, CHR 0xEB, CHR 0xB8, CHR 0x8C, CHR 0x20,
     CHR 0xED, CHR 0x95, CHR 0xA9, CHR 0xEC, CHR 0x82, CHR 0xB0, CHR 0x20, CHR 0xEC, CHR 0xB6,
     CHR 0x94, CHR 0xEC, CHR 0xA0, CHR 0x95, CHR 0x2E, CHR 0x20, CHR 0xED, CHR 0x95, CHR 0x98,
     CHR 0xEC, CHR 0x9D, CHR 0xB4, CHR 0xEB, CHR 0xB8, CHR 0x8C, CHR 0xEB, CHR 0xA6, CHR 0xAC,
     CHR 0xEB, CHR 0x93, CHR 0x9C, CHR 0x20, CHR 0xEC, CHR 0x97, CHR 0xB4, CHR 0xEB, CHR 0x8F,
     CHR 0x84, CHR 0x20, CHR 0xED, CHR 0x94, CHR 0x84, CHR 0xEB, CHR 0xA6, CHR 0xAC, CHR 0xEB,
     CHR 0xAF, CHR 0xB8, CHR 0xED, CHR 0x8B, CHR 0xB0, CHR 0xEB, CHR 0xB8, CHR 0x8C, CHR 0x20,
     CHR 0xED, CHR 0x95, CHR 0xA9, CHR 0xEC, CHR 0x82, CHR 0xB0, CHR 0xEC, CHR 0x9D, CHR 0xB4,
     CHR 0xEB, CHR 0xA9, CHR 0xB0, CHR 0x2C, CHR 0x20, CHR 0xEC, CHR 0x8B, CHR 0xA4, CHR 0xEC,
     CHR 0xB8, CHR 0xA1, CHR 0x20, CHR 0xEC, CHR 0xA0, CHR 0x84, CHR 0xEC, CHR 0xB2, CHR 0xB4,
     CHR 0x20, CHR 0xED, CHR 0x95, CHR 0xB8, CHR 0xEB, CHR 0x93, CHR 0x9C, CHR 0xEC, CHR 0x85,
     CHR 0xB0, CHR 0xEC, CHR 0x9D, CHR 0xB4, CHR 0xED, CHR 0x81, CHR 0xAC, CHR 0x28, CHR 0xC2,
     CHR 0xA7, CHR 0x32, CHR 0x29, CHR 0xEC, CHR 0x99, CHR 0x80, CHR 0x20, CHR 0xEB, CHR 0xB9,
     CHR 0x84, CHR 0xEA, CHR 0xB5, CHR 0x90, CHR 0xED, CHR 0x95, CHR 0x98, CHR 0xEB, CHR 0xA9,
     CHR 0xB4, CHR 0x20, CHR 0xEC, CHR 0xA7, CHR 0x81, CHR 0xEB, CHR 0xA0, CHR 0xAC, CHR 0xED,
     CHR 0x99, CHR 0x94, CHR 0xC2, CHR 0xB7] @ ''HKDF'' @ [CHR 0xC2, CHR 0xB7, CHR 0xEC, CHR
     0x8A, CHR 0xA4, CHR 0xEB, CHR 0xA0, CHR 0x88, CHR 0xEB, CHR 0x93, CHR 0x9C, CHR 0x20, CHR
     0xEC, CHR 0xA0, CHR 0x84, CHR 0xED, CHR 0x99, CHR 0x98, CHR 0x20, CHR 0xEC, CHR 0x98, CHR
     0xA4, CHR 0xEB, CHR 0xB2, CHR 0x84, CHR 0xED, CHR 0x97, CHR 0xA4, CHR 0xEB, CHR 0x93, CHR
     0x9C, CHR 0xEB, CHR 0xA5, CHR 0xBC, CHR 0x20, CHR 0xEB, CHR 0xB3, CHR 0xBC, CHR 0x20, CHR
     0xEC, CHR 0x88, CHR 0x98, CHR 0x20, CHR 0xEC, CHR 0x9E, CHR 0x88, CHR 0xEB, CHR 0x8B, CHR
     0xA4, CHR 0x2E, CHR 0x2A, CHR 0x0A, CHR 0x0A, CHR 0xEC, CHR 0x9A, CHR 0x94, CHR 0xEC, CHR
     0x95, CHR 0xBD, CHR 0x3A, CHR 0x20, CHR 0xED, CHR 0x95, CHR 0xB8, CHR 0xEB, CHR 0x93, CHR
     0x9C, CHR 0xEC, CHR 0x85, CHR 0xB0, CHR 0xEC, CHR 0x9D, CHR 0xB4, CHR 0xED, CHR 0x81, CHR
     0xAC, CHR 0x20, CHR 0x31, CHR 0xED, CHR 0x9A, CHR 0x8C, CHR 0xEB, CHR 0x8B, CHR 0xB9, CHR
     0x20, CHR 0xEC, CHR 0xB6, CHR 0x94, CHR 0xEA, CHR 0xB0, CHR 0x80, CHR 0x20, CHR 0xEB, CHR
     0xB9, CHR 0x84, CHR 0xEC, CHR 0x9A, CHR 0xA9, CHR 0xEC, CHR 0x9D, CHR 0x80] @ '' CPU '' @
     [CHR 0xEC, CHR 0x88, CHR 0x98, CHR 0xEB, CHR 0xB0, CHR 0xB1, CHR 0x20, CHR 0xC2, CHR 0xB5,
     CHR 0x73, CHR 0xC2, CHR 0xB7, CHR 0xEC, CHR 0x99, CHR 0x80, CHR 0xEC, CHR 0x9D, CHR 0xB4,
     CHR 0xEC, CHR 0x96, CHR 0xB4, CHR 0x20, CHR 0xEC, CHR 0x88, CHR 0x98] @ '' KB '' @ [CHR
     0xEC, CHR 0x88, CHR 0x98, CHR 0xEC, CHR 0xA4, CHR 0x80, CHR 0xEC, CHR 0x9C, CHR 0xBC, CHR
     0xEB, CHR 0xA1, CHR 0x9C, CHR 0x2C, CHR 0x20, CHR 0xEC, CHR 0x84, CHR 0xB8, CHR 0xEC, CHR
     0x85, CHR 0x98, CHR 0xEB, CHR 0x8B, CHR 0xB9, CHR 0x20, CHR 0x31, CHR 0xED, CHR 0x9A, CHR
     0x8C, CHR 0x20, CHR 0xEC, CHR 0xA7, CHR 0x80, CHR 0xEB, CHR 0xB6, CHR 0x88, CHR 0xED, CHR
     0x95, CHR 0x98, CHR 0xEA, CHR 0xB3, CHR 0xA0, CHR 0x20, CHR 0xEC, CHR 0x9D, CHR 0xB4, CHR
     0xED, CHR 0x9B, CHR 0x84, CHR 0x20, CHR 0xEB, CHR 0xA0, CHR 0x88, CHR 0xEC, CHR 0xBD, CHR
     0x94, CHR 0xEB, CHR 0x93, CHR 0x9C] @ ''(AES-GCM)'' @ [CHR 0xEB, CHR 0x8A, CHR 0x94, CHR
     0x20, CHR 0xEB, CHR 0x8F, CHR 0x99, CHR 0xEC, CHR 0x9D, CHR 0xBC, CHR 0x20, CHR 0xEB, CHR
     0xB9, CHR 0x84, CHR 0xEC, CHR 0x9A, CHR 0xA9, CHR 0xEC, CHR 0x9D, CHR 0xB4, CHR 0xEB, CHR
     0x8B, CHR 0xA4, CHR 0x2E, CHR 0x0A]"

end
