(* ===== verification/Bench.thy ===== *)
theory Bench
  imports Handshake_Threads Double_Arith Bench_Messages "HOL-Library.Multiset"
begin

section \<open>The benchmark\<close>

text \<open>
  \<open>crypto/examples/bench_handshake.cpp\<close>: the statistics of a sample, the measuring loop, the Ed25519
  wrapper, and \<open>main\<close>, which runs every primitive, seals and opens records, runs handshakes between
  two threads (\<open>Handshake_Threads\<close>) and prints a report.  Parameters are the libraries, the random
  choices (\<open>draw m i\<close> is that of the \<open>i\<close>-th run of measurement \<open>m\<close>), the measured durations
  (\<open>lat m i\<close> likewise), and the text of \<open>/proc/cpuinfo\<close>.  The comparison's quotients are those of
  doubles only if the classic column is not 0.
\<close>

subsection \<open>Statistics\<close>

record sample_stats =
  ss_median :: double
  ss_p90 :: double
  ss_mean :: double

definition stats_of :: "double list \<Rightarrow> sample_stats" where
  "stats_of v0 =
     (let v = sort_key double_val v0; n = length v
      in \<lparr>ss_median = v ! (n div 2), ss_p90 = v ! (n * 9 div 10),
          ss_mean = double_over (foldl double_add double_zero v) (double_of_nat n)\<rparr>)"

fun repeat_op :: "(nat \<Rightarrow> 's \<Rightarrow> 'e + 's) \<Rightarrow> nat \<Rightarrow> nat \<Rightarrow> 's \<Rightarrow> 'e + 's" where
  "repeat_op f i 0 s = Inr s"
| "repeat_op f i (Suc n) s = and_then (f i s) (repeat_op f (Suc i) n)"

text \<open>The loop of \<open>bench\<close>: the durations' statistics, unless the measured function throws.\<close>

definition bench :: "(nat \<Rightarrow> double) \<Rightarrow> nat \<Rightarrow> (nat \<Rightarrow> 's \<Rightarrow> 'e + 's) \<Rightarrow> 's \<Rightarrow> 'e + sample_stats" where
  "bench lat iters f s = and_then (repeat_op f 0 iters s) (\<lambda>_. Inr (stats_of (map lat [0..<iters])))"

subsection \<open>Ed25519\<close>

datatype bench_error =
    Bench_crypto crypto_error | Bench_record record_error | Ed_keygen_failed | Ed_sign_failed
  | Substr_out_of_range | Handshake_terminates

text \<open>
  What the benchmark calls besides \<open>libs\<close>; \<open>EVP_DigestSign\<close> is called for the size and then for the
  signature.
\<close>

record bench_libs =
  oqs_random :: "seed \<Rightarrow> nat \<Rightarrow> bytes"
  evp_ed_keygen :: "seed \<Rightarrow> bytes option"
  evp_ed_sign_init :: "bytes \<Rightarrow> bool"
  evp_ed_sign_size :: "bytes \<Rightarrow> bytes \<Rightarrow> nat option"
  evp_ed_sign_into :: "bytes \<Rightarrow> bytes \<Rightarrow> nat \<Rightarrow> bytes option"
  evp_ed_verify_init :: "bytes \<Rightarrow> bool"
  evp_ed_verify :: "bytes \<Rightarrow> bytes \<Rightarrow> bytes \<Rightarrow> bool"
  oqs_kem_name :: string
  oqs_sig_name :: string

definition bench_random :: "bench_libs \<Rightarrow> seed \<Rightarrow> nat \<Rightarrow> bytes" where
  "bench_random B r n = oqs_random B r n"

definition ed25519_new :: "bench_libs \<Rightarrow> seed \<Rightarrow> bench_error + bytes" where
  "ed25519_new B r = or_throw (evp_ed_keygen B r) Ed_keygen_failed"

definition ed25519_sign :: "bench_libs \<Rightarrow> bytes \<Rightarrow> bytes \<Rightarrow> bench_error + bytes" where
  "ed25519_sign B pkey msg =
     (if \<not> evp_ed_sign_init B pkey then Inl Ed_sign_failed
      else case evp_ed_sign_size B pkey msg of
             None \<Rightarrow> Inl Ed_sign_failed
           | Some len \<Rightarrow> or_throw (evp_ed_sign_into B pkey msg len) Ed_sign_failed)"

definition ed25519_verify :: "bench_libs \<Rightarrow> bytes \<Rightarrow> bytes \<Rightarrow> bytes \<Rightarrow> bool" where
  "ed25519_verify B pkey msg sig \<longleftrightarrow> evp_ed_verify_init B pkey \<and> evp_ed_verify B pkey msg sig"

subsection \<open>The primitives\<close>

definition crypto :: "crypto_error + 'a \<Rightarrow> bench_error + 'a" where
  "crypto r = (case r of Inl e \<Rightarrow> Inl (Bench_crypto e) | Inr x \<Rightarrow> Inr x)"

definition records :: "record_error + 'a \<Rightarrow> bench_error + 'a" where
  "records r = (case r of Inl e \<Rightarrow> Inl (Bench_record e) | Inr x \<Rightarrow> Inr x)"

text \<open>A call whose result is dropped.\<close>

definition dropped :: "bench_error + 'a \<Rightarrow> bench_error + unit" where
  "dropped r = and_then r (\<lambda>_. Inr ())"

definition bench_key_exchange ::
  "libs \<Rightarrow> (nat \<Rightarrow> nat \<Rightarrow> seed) \<Rightarrow> (nat \<Rightarrow> nat \<Rightarrow> double) \<Rightarrow> bench_error + sample_stats list" where
  "bench_key_exchange L draw lat =
     and_then (crypto (x25519_new L (draw 20 0))) (\<lambda>x_peer.
     and_then (crypto (x25519_public_key L x_peer)) (\<lambda>x_peer_pub.
     and_then (bench (lat 0) 300 (\<lambda>i _. dropped (crypto (x25519_new L (draw 0 i)))) ()) (\<lambda>x_keygen.
     and_then (crypto (x25519_new L (draw 21 0))) (\<lambda>x_me.
     and_then (bench (lat 1) 300 (\<lambda>i _. dropped (crypto (x25519_compute_shared L x_me x_peer_pub))) ()) (\<lambda>x_shared.
     and_then (crypto (mlkem_keypair L (draw 22 0))) (\<lambda>kem_kp.
     and_then (bench (lat 2) 300 (\<lambda>i _. dropped (crypto (mlkem_keypair L (draw 2 i)))) ()) (\<lambda>kem_keygen.
     and_then (bench (lat 3) 300 (\<lambda>i _. dropped (crypto (mlkem_encaps L (draw 3 i) (public_key kem_kp)))) ()) (\<lambda>kem_encaps.
     and_then (crypto (mlkem_encaps L (draw 23 0) (public_key kem_kp))) (\<lambda>enc.
     and_then (bench (lat 4) 300
       (\<lambda>i _. dropped (crypto (mlkem_decaps L (ciphertext enc) (secret_key kem_kp)))) ()) (\<lambda>kem_decaps.
       Inr [x_keygen, x_shared, kem_keygen, kem_encaps, kem_decaps]))))))))))"

text \<open>Signatures: the statistics and the sizes of an ML-DSA and an Ed25519 signature.\<close>

definition bench_signatures ::
  "libs \<Rightarrow> bench_libs \<Rightarrow> (nat \<Rightarrow> nat \<Rightarrow> seed) \<Rightarrow> (nat \<Rightarrow> nat \<Rightarrow> double) \<Rightarrow> bytes \<Rightarrow>
    bench_error + sample_stats list \<times> nat \<times> nat" where
  "bench_signatures L B draw lat msg32 =
     and_then (crypto (mldsa_keypair L (draw 24 0))) (\<lambda>dsa_kp.
     and_then (bench (lat 5) 50 (\<lambda>i _. dropped (crypto (mldsa_keypair L (draw 5 i)))) ()) (\<lambda>dsa_keygen.
     and_then (bench (lat 6) 300 (\<lambda>i _. dropped (crypto (mldsa_sign L (draw 6 i) msg32 (secret_key dsa_kp)))) ()) (\<lambda>dsa_sign.
     and_then (crypto (mldsa_sign L (draw 25 0) msg32 (secret_key dsa_kp))) (\<lambda>dsa_sig.
     and_then (bench (lat 7) 300
       (\<lambda>i _. dropped (Inr (mldsa_verify L msg32 dsa_sig (public_key dsa_kp)))) ()) (\<lambda>dsa_verify.
     and_then (ed25519_new B (draw 26 0)) (\<lambda>ed.
     and_then (bench (lat 8) 300 (\<lambda>i _. dropped (ed25519_new B (draw 8 i))) ()) (\<lambda>ed_keygen.
     and_then (bench (lat 9) 300 (\<lambda>i _. dropped (ed25519_sign B ed msg32)) ()) (\<lambda>ed_sign.
     and_then (ed25519_sign B ed msg32) (\<lambda>ed_sig.
     and_then (bench (lat 10) 300 (\<lambda>i _. dropped (Inr (ed25519_verify B ed msg32 ed_sig))) ()) (\<lambda>ed_verify.
       Inr ([dsa_keygen, dsa_sign, dsa_verify, ed_keygen, ed_sign, ed_verify], length dsa_sig, length ed_sig)))))))))))"

definition seal_event :: "libs \<Rightarrow> bytes \<Rightarrow> nat \<Rightarrow> record_sender \<Rightarrow> bench_error + record_sender" where
  "seal_event L event i s =
     (case seal L s event of (Inl e, _) \<Rightarrow> Inl (Bench_record e) | (Inr rec, s') \<Rightarrow> Inr s')"

definition seal_and_open ::
  "libs \<Rightarrow> bytes \<Rightarrow> nat \<Rightarrow> record_sender \<times> record_receiver \<Rightarrow> bench_error + record_sender \<times> record_receiver" where
  "seal_and_open L event i = (\<lambda>(s, r).
     case seal L s event of
       (Inl e, _) \<Rightarrow> Inl (Bench_record e)
     | (Inr rec, s') \<Rightarrow>
         (case open_record L r rec of (Inl e, _) \<Rightarrow> Inl (Bench_record e) | (Inr pt, r') \<Rightarrow> Inr (s', r')))"

definition bench_event :: bytes where "bench_event = replicate 168 0xAB"

definition bench_records ::
  "libs \<Rightarrow> bench_libs \<Rightarrow> (nat \<Rightarrow> nat \<Rightarrow> seed) \<Rightarrow> (nat \<Rightarrow> nat \<Rightarrow> double) \<Rightarrow> bench_error + sample_stats list" where
  "bench_records L B draw lat =
     (let key = bench_random B (draw 27 0) kAesKeyLen; iv = bench_random B (draw 28 0) kIvLen
      in and_then (records (new_sender key iv)) (\<lambda>snd1.
         and_then (records (new_receiver key iv)) (\<lambda>rcv.
         and_then (bench (lat 11) 2000 (seal_event L bench_event) snd1) (\<lambda>rec_seal.
         and_then (records (new_sender key iv)) (\<lambda>snd2.
         and_then (bench (lat 12) 2000 (seal_and_open L bench_event) (snd2, rcv)) (\<lambda>rec_open.
           Inr [rec_seal, rec_open]))))))"

subsection \<open>The handshakes\<close>

text \<open>
  \<open>run_handshake\<close>, given the state in which its two threads stopped.  An exception of the server's
  thread, or of the client while that thread is joinable, terminates the process.
\<close>

definition run_handshake ::
  "libs \<Rightarrow> identity \<Rightarrow> identity \<Rightarrow> hs_seeds \<Rightarrow> hs_seeds \<Rightarrow> hs_net \<Rightarrow> bench_error + nat \<times> nat" where
  "run_handshake L cid sid sdc sds z =
     (case (fst (attempt (client_handshake L cid sdc) (c_got z)), fst (attempt (server_handshake L sid sds) (s_got z))) of
        (Inr cc, Inr cs) \<Rightarrow> Inr (c2s_bytes z, s2c_bytes z)
      | _ \<Rightarrow> Inl Handshake_terminates)"

definition bench_handshakes ::
  "libs \<Rightarrow> (nat \<Rightarrow> nat \<Rightarrow> seed) \<Rightarrow> (nat \<Rightarrow> nat \<Rightarrow> double) \<Rightarrow> (nat \<Rightarrow> hs_seeds) \<Rightarrow> (nat \<Rightarrow> hs_seeds) \<Rightarrow>
    (identity \<Rightarrow> identity \<Rightarrow> nat \<Rightarrow> hs_net) \<Rightarrow> bench_error + sample_stats \<times> nat \<times> nat" where
  "bench_handshakes L draw lat sdc sds stopped =
     and_then (crypto (mldsa_keypair L (draw 29 0))) (\<lambda>cid_kp.
     and_then (crypto (mldsa_keypair L (draw 30 0))) (\<lambda>sid_kp.
       let cid = \<lparr>sig_public = public_key cid_kp, sig_secret = secret_key cid_kp, peer_sig_public = public_key sid_kp\<rparr>;
           sid = \<lparr>sig_public = public_key sid_kp, sig_secret = secret_key sid_kp, peer_sig_public = public_key cid_kp\<rparr>;
           run = (\<lambda>i. run_handshake L cid sid (sdc i) (sds i) (stopped cid sid i))
       in and_then (run 100) (\<lambda>_.
          and_then (repeat_op (\<lambda>i _. run i) 0 100 (0, 0)) (\<lambda>bytes.
            Inr (stats_of (map (lat 13) [0..<100]), bytes)))))"


subsection \<open>The report\<close>

text \<open>\<open>line.substr(line.find(':') + 2)\<close> of the first line that starts with \<open>model name\<close>.\<close>

definition model_of_line :: "string \<Rightarrow> bench_error + string" where
  "model_of_line line =
     (let pos = (case find_char (CHR '':'') line of None \<Rightarrow> 1 | Some i \<Rightarrow> i + 2)
      in if length line < pos then Inl Substr_out_of_range else Inr (drop pos line))"

definition cpu_model :: "string option \<Rightarrow> bench_error + string" where
  "cpu_model cpuinfo =
     (case List.find (starts_with ''model name'') (getlines (case cpuinfo of None \<Rightarrow> [] | Some t \<Rightarrow> t)) of
        None \<Rightarrow> Inr ''unknown''
      | Some line \<Rightarrow> model_of_line line)"

definition bench_head :: "bench_libs \<Rightarrow> string \<Rightarrow> bool \<Rightarrow> string" where
  "bench_head B model release =
     bt_title @ bt_cpu @ cstr model @ bt_build @ (if release then bt_release else bt_debug) @
     bt_suite @ oqs_kem_name B @ bt_suite_x @ oqs_sig_name B @ bt_suite_end"

definition bench_row :: "string \<Rightarrow> sample_stats \<Rightarrow> string \<Rightarrow> string" where
  "bench_row name st what =
     ''| '' @ name @ '' | '' @ fmt_fixed 1 (ss_median st) @ '' | '' @ fmt_fixed 1 (ss_p90 st) @ '' | '' @ what @ bt_bar_end"

definition sized_in_bytes :: "string \<Rightarrow> nat \<Rightarrow> string" where
  "sized_in_bytes what n = what @ dec_nat n @ ''B''"

definition primitive_rows ::
  "libs \<Rightarrow> sample_stats list \<Rightarrow> sample_stats list \<Rightarrow> sample_stats list \<Rightarrow> nat \<Rightarrow> nat \<Rightarrow> string" where
  "primitive_rows L kex sig rec dsa_size ed_size =
     bt_prims @ dec_nat 300 @ bt_close @ bt_prim_head @
     bench_row ''X25519 keygen'' (kex ! 0) ''pub 32B'' @
     bench_row ''X25519 shared'' (kex ! 1) ''ss 32B'' @
     bench_row ''ML-KEM-768 keygen'' (kex ! 2) (sized_in_bytes ''pub '' (kem_public_len L)) @
     bench_row ''ML-KEM-768 encaps'' (kex ! 3) (sized_in_bytes ''ct '' (kem_ct_len L)) @
     bench_row ''ML-KEM-768 decaps'' (kex ! 4) ''ss 32B'' @
     bench_row ''Ed25519 keygen'' (sig ! 3) ''pub 32B'' @
     bench_row ''Ed25519 sign'' (sig ! 4) (sized_in_bytes ''sig '' ed_size) @
     bench_row ''Ed25519 verify'' (sig ! 5) [] @
     bench_row ''ML-DSA-65 keygen'' (sig ! 0) (sized_in_bytes ''pub '' (sig_public_len L)) @
     bench_row ''ML-DSA-65 sign'' (sig ! 1) (sized_in_bytes ''sig '' dsa_size) @
     bench_row ''ML-DSA-65 verify'' (sig ! 2) [] @
     bench_row bt_seal (rec ! 0) bt_seal_size @
     bench_row bt_open (rec ! 1) []"

definition handshake_rows :: "sample_stats \<Rightarrow> nat \<Rightarrow> nat \<Rightarrow> string" where
  "handshake_rows hs c2s s2c =
     bt_hs @ dec_nat 100 @ bt_close @ bt_hs_head @
     bt_hs_median @ fmt_fixed 2 (double_over (ss_median hs) (double_of_nat 1000)) @ bt_ms @
     bt_hs_p90 @ fmt_fixed 2 (double_over (ss_p90 hs) (double_of_nat 1000)) @ bt_ms @
     bt_up @ dec_nat c2s @ bt_bytes @ bt_down @ dec_nat s2c @ bt_bytes @ bt_both @ dec_nat (c2s + s2c) @ bt_bytes @
     bt_hs_note"

text \<open>A row of the comparison: microseconds, or bytes.\<close>

definition cpu_row :: "string \<Rightarrow> double \<Rightarrow> double \<Rightarrow> string" where
  "cpu_row name classic hybrid =
     name @ fmt_fixed 1 classic @ bt_us_sep @ fmt_fixed 1 hybrid @ bt_us_x @
     fmt_fixed 1 (double_over hybrid classic) @ bt_bar_end"

definition bytes_row :: "string \<Rightarrow> nat \<Rightarrow> nat \<Rightarrow> string" where
  "bytes_row name classic hybrid =
     name @ dec_nat classic @ bt_b_sep @ dec_nat hybrid @ bt_b_x @
     fmt_fixed 1 (double_over (double_of_nat hybrid) (double_of_nat classic)) @ bt_bar_end"

definition twice_each :: "sample_stats \<Rightarrow> sample_stats \<Rightarrow> double" where
  "twice_each a b =
     double_add (double_mul (double_of_nat 2) (ss_median a)) (double_mul (double_of_nat 2) (ss_median b))"

definition comparison_rows ::
  "libs \<Rightarrow> sample_stats list \<Rightarrow> sample_stats list \<Rightarrow> nat \<Rightarrow> nat \<Rightarrow> string" where
  "comparison_rows L kex sig dsa_size ed_size =
     (let kex_classic = twice_each (kex ! 0) (kex ! 1);
          kex_hybrid = double_add (double_add (double_add kex_classic (ss_median (kex ! 2))) (ss_median (kex ! 3)))
            (ss_median (kex ! 4));
          auth_classic = twice_each (sig ! 4) (sig ! 5);
          auth_pq = twice_each (sig ! 1) (sig ! 2);
          kex_bytes_classic = 32 + 32;
          kex_bytes_hybrid = 32 + kem_public_len L + 32 + kem_ct_len L;
          auth_bytes_classic = 2 * ed_size;
          auth_bytes_pq = 2 * dsa_size
      in bt_cmp @ cpu_row bt_kex kex_classic kex_hybrid @ cpu_row bt_auth auth_classic auth_pq @
         cpu_row bt_cpu_sum (double_add kex_classic auth_classic) (double_add kex_hybrid auth_pq) @
         bytes_row bt_kex_b kex_bytes_classic kex_bytes_hybrid @
         bytes_row bt_auth_b auth_bytes_classic auth_bytes_pq @
         bytes_row bt_sum_b (kex_bytes_classic + auth_bytes_classic) (kex_bytes_hybrid + auth_bytes_pq) @ bt_notes)"

text \<open>\<open>main\<close>: the report, unless an exception ends the program.\<close>

definition bench_main ::
  "libs \<Rightarrow> bench_libs \<Rightarrow> string option \<Rightarrow> bool \<Rightarrow> (nat \<Rightarrow> nat \<Rightarrow> seed) \<Rightarrow> (nat \<Rightarrow> nat \<Rightarrow> double) \<Rightarrow>
    (nat \<Rightarrow> hs_seeds) \<Rightarrow> (nat \<Rightarrow> hs_seeds) \<Rightarrow> (identity \<Rightarrow> identity \<Rightarrow> nat \<Rightarrow> hs_net) \<Rightarrow> bench_error + string" where
  "bench_main L B cpuinfo release draw lat sdc sds stopped =
     and_then (crypto (mlkem_new L)) (\<lambda>_. and_then (crypto (mldsa_new L)) (\<lambda>_.
     and_then (cpu_model cpuinfo) (\<lambda>model.
     and_then (bench_key_exchange L draw lat) (\<lambda>kex.
     and_then (bench_signatures L B draw lat (bench_random B (draw 31 0) 32)) (\<lambda>(sig, dsa_size, ed_size).
     and_then (bench_records L B draw lat) (\<lambda>rec.
     and_then (bench_handshakes L draw lat sdc sds stopped) (\<lambda>(hs, c2s, s2c).
       Inr (bench_head B model release @ primitive_rows L kex sig rec dsa_size ed_size @
         handshake_rows hs c2s s2c @ comparison_rows L kex sig dsa_size ed_size))))))))"


subsection \<open>What the statistics are\<close>

lemma sorted_rank:
  assumes "sorted (map f v)" and "i < length v"
  shows "i < length (filter (\<lambda>x. f x \<le> f (v ! i)) v)" "length v - i \<le> length (filter (\<lambda>x. f (v ! i) \<le> f x) v)"
proof -
  have le: "f (v ! j) \<le> f (v ! k)" if "j \<le> k" "k < length v" for j k
    using sorted_nth_mono [OF assms(1), of j k] that by simp
  have "\<forall>x \<in> set (take (Suc i) v). f x \<le> f (v ! i)"
    using assms(2) le by (auto simp: in_set_conv_nth)
  then have "filter (\<lambda>x. f x \<le> f (v ! i)) (take (Suc i) v) = take (Suc i) v"
    by simp
  moreover have "length (filter (\<lambda>x. f x \<le> f (v ! i)) v) =
      length (filter (\<lambda>x. f x \<le> f (v ! i)) (take (Suc i) v)) + length (filter (\<lambda>x. f x \<le> f (v ! i)) (drop (Suc i) v))"
    by (metis append_take_drop_id filter_append length_append)
  ultimately show "i < length (filter (\<lambda>x. f x \<le> f (v ! i)) v)"
    using assms(2) by simp
  have "\<forall>x \<in> set (drop i v). f (v ! i) \<le> f x"
    using assms(2) le by (auto simp: in_set_conv_nth)
  then have "filter (\<lambda>x. f (v ! i) \<le> f x) (drop i v) = drop i v"
    by simp
  moreover have "length (filter (\<lambda>x. f (v ! i) \<le> f x) v) =
      length (filter (\<lambda>x. f (v ! i) \<le> f x) (take i v)) + length (filter (\<lambda>x. f (v ! i) \<le> f x) (drop i v))"
    by (metis append_take_drop_id filter_append length_append)
  ultimately show "length v - i \<le> length (filter (\<lambda>x. f (v ! i) \<le> f x) v)"
    by simp
qed

lemma length_filter_sort: "length (filter P (sort_key f v)) = length (filter P v)"
  by (metis mset_filter mset_sort size_mset)

lemma running_sum_near:
  "\<forall>x \<in> set v. unsigned_double x \<Longrightarrow> unsigned_double acc \<Longrightarrow> near k (double_real acc) a \<Longrightarrow>
     near (k + length v) (double_real (foldl double_add acc v)) (a + sum_list (map double_real v)) \<and>
     unsigned_double (foldl double_add acc v)"
proof (induction v arbitrary: acc k a)
  case (Cons x v)
  have x: "unsigned_double x" "0 \<le> double_real x"
    using Cons.prems(1) by (simp_all add: double_real_unsigned)
  have "near k (double_real acc + double_real x) (a + double_real x)"
    by (rule near_plus [OF Cons.prems(3) near_mono [OF near_0 [OF x(2)]]]) simp
  then have n: "near (1 + k) (double_real (double_add acc x)) (a + double_real x)"
    by (rule near_trans [OF near_add(1) [OF Cons.prems(2) x(1)]])
  have v: "\<forall>y \<in> set v. unsigned_double y"
    using Cons.prems(1) by simp
  show ?case
    using Cons.IH [OF v near_add(2) [OF Cons.prems(2) x(1)] n] by (simp add: add.assoc)
qed simp

text \<open>
  The statistics are what their names say.  Of a sample that is not empty, the reported median
  and 90th percentile are measured values; at least half of the sample is not above the median and at
  least half is not below it; at least nine tenths are not above the 90th percentile and at least one
  tenth is not below it; and the reported mean is the mean up to one rounding for every addition and
  three more.
\<close>

theorem statistics_right:
  assumes "v \<noteq> []" and "\<forall>x \<in> set v. unsigned_double x"
  shows "ss_median (stats_of v) \<in> set v \<and> ss_p90 (stats_of v) \<in> set v \<and>
    length v \<le> 2 * length (filter (\<lambda>x. double_val x \<le> double_val (ss_median (stats_of v))) v) \<and>
    length v \<le> 2 * length (filter (\<lambda>x. double_val (ss_median (stats_of v)) \<le> double_val x) v) \<and>
    9 * length v \<le> 10 * length (filter (\<lambda>x. double_val x \<le> double_val (ss_p90 (stats_of v))) v) \<and>
    length v \<le> 10 * length (filter (\<lambda>x. double_val (ss_p90 (stats_of v)) \<le> double_val x) v) \<and>
    near (length v + 3) (double_real (ss_mean (stats_of v))) (sum_list (map double_real v) / real (length v))"
proof -
  let ?s = "sort_key double_val v" and ?n = "length v"
  have n: "?n div 2 < ?n" "?n * 9 div 10 < ?n" "0 < real ?n"
    using assms(1) by (cases v; auto)+
  have st: "ss_median (stats_of v) = ?s ! (?n div 2)" "ss_p90 (stats_of v) = ?s ! (?n * 9 div 10)"
    "ss_mean (stats_of v) = double_over (foldl double_add double_zero ?s) (double_of_nat ?n)"
    by (simp_all add: stats_of_def Let_def)
  have sorted: "sorted (map double_val ?s)"
    by simp
  note rank = sorted_rank [OF sorted, unfolded length_sort length_filter_sort]
  have "?s ! (?n div 2) \<in> set v" "?s ! (?n * 9 div 10) \<in> set v"
    using n nth_mem [of _ ?s] by simp_all
  moreover have "near (?n + 3) (double_real (ss_mean (stats_of v))) (sum_list (map double_real v) / real ?n)"
  proof -
    have zero: "unsigned_double double_zero" "near 0 (double_real double_zero) 0"
      by (simp_all add: unsigned_double_def double_zero_def double_real_def signed_num_def near_def)
    have s: "\<forall>x \<in> set ?s. unsigned_double x"
      using assms(2) by simp
    have total: "sum_list (map double_real ?s) = sum_list (map double_real v)"
      by (metis mset_map mset_sort sum_mset_sum_list)
    have sum: "near (0 + length ?s) (double_real (foldl double_add double_zero ?s)) (0 + sum_list (map double_real ?s))"
      "unsigned_double (foldl double_add double_zero ?s)"
      using running_sum_near [OF s zero] by blast+
    have pos: "0 < double_real (double_of_nat ?n)"
      using near_positive [OF near_nat(1) n(3)] .
    have "near (0 + length ?s + 2 * 1) (double_real (foldl double_add double_zero ?s) / double_real (double_of_nat ?n))
        ((0 + sum_list (map double_real ?s)) / real ?n)"
      by (rule near_div [OF sum(1) near_nat(1) n(3)])
    from near_trans [OF near_over(1) [OF sum(2) near_nat(2) pos] this] show ?thesis
      by (simp add: st total eval_nat_numeral)
  qed
  moreover have "k div 2 < a \<Longrightarrow> k \<le> 2 * a" "k - k div 2 \<le> a \<Longrightarrow> k \<le> 2 * a"
      "k * 9 div 10 < a \<Longrightarrow> 9 * k \<le> 10 * a" "k - k * 9 div 10 \<le> a \<Longrightarrow> k \<le> 10 * a" for k a :: nat
    by linarith+
  note this(1) [OF rank(1) [OF n(1)]] this(2) [OF rank(2) [OF n(1)]]
    this(3) [OF rank(1) [OF n(2)]] this(4) [OF rank(2) [OF n(2)]]
  ultimately show ?thesis
    unfolding st(1,2) by (intro conjI)
qed

lemma statistics_right_witness:
  "ss_median (stats_of [double_of_nat 5, double_of_nat 1, double_of_nat 3]) \<in>
    {double_of_nat 5, double_of_nat 1, double_of_nat 3}"
  using statistics_right [of "[double_of_nat 5, double_of_nat 1, double_of_nat 3]"] near_nat(2) by simp

subsection \<open>The benchmark runs to its end\<close>

lemma repeat_op_invariant:
  assumes step: "\<And>j s. j < i + n \<Longrightarrow> P j s \<Longrightarrow> \<exists>s'. f j s = Inr s' \<and> P (Suc j) s'"
  shows "P i s \<Longrightarrow> \<exists>s'. repeat_op f i n s = Inr s' \<and> P (i + n) s'"
  using step
proof (induction n arbitrary: i s)
  case (Suc n)
  obtain s' where s': "f i s = Inr s'" "P (Suc i) s'"
    using Suc.prems(2) [of i s] Suc.prems(1) by auto
  show ?case
    using Suc.IH [OF s'(2)] Suc.prems(2) by (simp add: s'(1))
qed simp

lemma bench_unit: "(\<And>i. f i () = Inr ()) \<Longrightarrow> bench lat n f () = Inr (stats_of (map lat [0..<n]))"
  using repeat_op_invariant [of 0 n "\<lambda>_ _. True" f "()"] by (auto simp: bench_def)

lemma bench_invariant:
  assumes "\<And>j s. j < n \<Longrightarrow> P j s \<Longrightarrow> \<exists>s'. f j s = Inr s' \<and> P (Suc j) s'" and "P 0 s"
  shows "bench lat n f s = Inr (stats_of (map lat [0..<n]))"
  using repeat_op_invariant [of 0 n P f s] assms by (auto simp: bench_def)

lemma bench_nothing: "bench lat n (\<lambda>_. Inr) s = Inr (stats_of (map lat [0..<n]))"
  by (rule bench_invariant [where P = "\<lambda>_ _. True"]) simp_all

lemma crypto_simps [simp]: "crypto (Inr x) = Inr x" "records (Inr y) = Inr y" "dropped (Inr z) = Inr ()"
  by (simp_all add: crypto_def records_def dropped_def)

definition sample :: "(nat \<Rightarrow> nat \<Rightarrow> double) \<Rightarrow> nat \<Rightarrow> nat \<Rightarrow> sample_stats" where
  "sample lat m n = stats_of (map (lat m) [0..<n])"

definition bench_libs_ok :: "bench_libs \<Rightarrow> bool" where
  "bench_libs_ok B \<longleftrightarrow> (\<forall>r n. length (oqs_random B r n) = n) \<and> (\<forall>r. evp_ed_keygen B r \<noteq> None) \<and>
     (\<forall>k. evp_ed_sign_init B k) \<and> (\<forall>k m. evp_ed_sign_size B k m \<noteq> None) \<and>
     (\<forall>k m n. evp_ed_sign_into B k m n \<noteq> None)"

lemma dropped_ok: "\<exists>x. r = Inr x \<Longrightarrow> dropped (crypto r) = Inr ()"
  by auto

lemma key_exchange_runs:
  assumes "libs_available L" and "libs_sized L" and "kem_correct L"
  shows "bench_key_exchange L draw lat = Inr
    [sample lat 0 300, sample lat 1 300, sample lat 2 300, sample lat 3 300, sample lat 4 300]"
proof -
  have new: "\<exists>x. x25519_new L r = Inr x" for r
    using avail(6) [OF assms(1), of r] by (auto simp: x25519_new_def or_throw_def)
  then obtain xp xm where xs: "x25519_new L (draw 20 0) = Inr xp" "x25519_new L (draw 21 0) = Inr xm"
    by blast
  obtain pub where pub: "evp_x25519_public L xp = Some pub" "length pub = 32"
    using avail(7) [OF assms(1), of xp] by blast
  then have xpub: "x25519_public_key L xp = Inr pub"
    by (simp add: x25519_public_key_def X25519_kKeyLen_def)
  have shared: "\<exists>x. x25519_compute_shared L xm pub = Inr x"
    using avail(8) [OF assms(1) pub(2), of xm] pub(2)
    by (auto simp: x25519_compute_shared_def X25519_kKeyLen_def or_throw_def)
  have keypair: "\<exists>kp. mlkem_keypair L r = Inr kp" for r
    using avail(3) [OF assms(1), of r] by (auto simp: mlkem_keypair_def)
  obtain pk sk where kp: "oqs_kem_keypair L (draw 22 0) = Some (pk, sk)"
    using avail(3) [OF assms(1)] by blast
  then have kp': "mlkem_keypair L (draw 22 0) = Inr \<lparr>public_key = pk, secret_key = sk\<rparr>"
    by (simp add: mlkem_keypair_def)
  have len: "length pk = kem_public_len L" "length sk = kem_secret_len L"
    using sized(1) [OF assms(2) kp] by simp_all
  have encaps: "\<exists>e. mlkem_encaps L r pk = Inr e" for r
    using avail(4) [OF assms(1), of r pk] len by (auto simp: mlkem_encaps_def)
  obtain ct ss where enc: "oqs_kem_encaps L (draw 23 0) pk = Some (ct, ss)"
    using avail(4) [OF assms(1)] by blast
  then have enc': "mlkem_encaps L (draw 23 0) pk = Inr \<lparr>ciphertext = ct, shared_secret = ss\<rparr>"
    using len by (simp add: mlkem_encaps_def)
  have "oqs_kem_decaps L ct sk = Some ss"
    using assms(3) kp enc unfolding kem_correct_def by blast
  then have decaps: "\<exists>x. mlkem_decaps L ct sk = Inr x"
    using len sized(2) [OF assms(2) enc] by (simp add: mlkem_decaps_def or_throw_def)
  note runs = bench_unit [OF dropped_ok [OF new]] bench_unit [OF dropped_ok [OF shared]]
    bench_unit [OF dropped_ok [OF keypair]] bench_unit [OF dropped_ok [OF encaps]] bench_unit [OF dropped_ok [OF decaps]]
  show ?thesis
    by (simp add: bench_key_exchange_def xs xpub kp' enc' runs sample_def del: upt_rec_numeral)
qed

lemma signatures_run:
  assumes "libs_available L" and "libs_sized L" and "\<forall>r. oqs_sig_keypair L r \<noteq> None" and "bench_libs_ok B"
  shows "\<exists>dsa_size ed_size. bench_signatures L B draw lat m = Inr
    ([sample lat 5 50, sample lat 6 300, sample lat 7 300, sample lat 8 300, sample lat 9 300, sample lat 10 300],
      dsa_size, ed_size)"
proof -
  obtain pk sk where kp: "oqs_sig_keypair L (draw 24 0) = Some (pk, sk)"
    using assms(3) by fastforce
  then have kp': "mldsa_keypair L (draw 24 0) = Inr \<lparr>public_key = pk, secret_key = sk\<rparr>"
    by (simp add: mldsa_keypair_def)
  have keypair: "\<exists>k. mldsa_keypair L r = Inr k" for r
    using assms(3) by (auto simp: mldsa_keypair_def not_None_eq split: option.split)
  have sign: "\<exists>x. mldsa_sign L r m sk = Inr x" for r
    using avail(5) [OF assms(1), of r m sk] sized(3) [OF assms(2) kp] by (auto simp: mldsa_sign_def or_throw_def)
  then obtain sig where sig: "mldsa_sign L (draw 25 0) m sk = Inr sig"
    by blast
  have ed: "\<exists>k. ed25519_new B r = Inr k" for r
    using assms(4) by (auto simp: bench_libs_ok_def ed25519_new_def or_throw_def split: option.split)
  then obtain k where k: "ed25519_new B (draw 26 0) = Inr k"
    by blast
  obtain len es where "evp_ed_sign_size B k m = Some len" "evp_ed_sign_into B k m len = Some es"
    using assms(4) unfolding bench_libs_ok_def by blast
  then have esig: "ed25519_sign B k m = Inr es"
    using assms(4) by (simp add: bench_libs_ok_def ed25519_sign_def or_throw_def)
  have new: "dropped (ed25519_new B r) = Inr ()" for r
    using ed [of r] by auto
  note runs = bench_unit [OF dropped_ok [OF keypair]] bench_unit [OF dropped_ok [OF sign]]
    bench_unit [OF new] bench_nothing
  show ?thesis
    by (simp add: bench_signatures_def kp' sig k esig runs sample_def del: upt_rec_numeral)
qed


text \<open>Two thousand records are far from the end of the sequence numbers.\<close>

lemma event_sealed:
  assumes "libs_available L" and "snd_seq s = of_nat j" and "j < 2000"
  shows "\<exists>rec. seal L s bench_event = (Inr rec, s\<lparr>snd_seq := of_nat (Suc j)\<rparr>)"
proof -
  have "unat seq_max = 2 ^ 64 - 1"
    by (simp add: seq_max_def unsigned_minus_1_eq_mask mask_eq_exp_minus_1)
  then have "snd_seq s \<noteq> seq_max"
    using assms(2,3) by (simp add: word_unat_eq_iff unat_of_nat)
  moreover obtain ct tag where "evp_gcm_encrypt L (snd_key s) (make_nonce (snd_iv s) (snd_seq s))
      (record_header (168 + kGcmTagLen)) bench_event = Some (ct, tag)"
    using assms(1) unfolding libs_available_def by fastforce
  ultimately show ?thesis
    using assms(2) by (simp add: seal_def bench_event_def kGcmTagLen_def aes_gcm_seal_def)
qed

lemma records_run:
  assumes "libs_available L" and "libs_sized L" and "gcm_correct L" and "bench_libs_ok B"
  shows "bench_records L B draw lat = Inr [sample lat 11 2000, sample lat 12 2000]"
proof -
  let ?key = "bench_random B (draw 27 0) kAesKeyLen" and ?iv = "bench_random B (draw 28 0) kIvLen"
  let ?s = "\<lparr>snd_key = ?key, snd_iv = ?iv, snd_seq = 0\<rparr>" and ?r = "\<lparr>rcv_key = ?key, rcv_iv = ?iv, rcv_seq = 0\<rparr>"
  have ends: "new_sender ?key ?iv = Inr ?s" "new_receiver ?key ?iv = Inr ?r"
    using assms(4) by (simp_all add: new_sender_def new_receiver_def bench_random_def bench_libs_ok_def)
  have "bench (lat 11) 2000 (seal_event L bench_event) ?s = Inr (stats_of (map (lat 11) [0..<2000]))"
  proof (rule bench_invariant [where P = "\<lambda>j s. snd_seq s = of_nat j"])
    fix j and s :: record_sender
    assume "j < 2000" "snd_seq s = of_nat j"
    then show "\<exists>s'. seal_event L bench_event j s = Inr s' \<and> snd_seq s' = of_nat (Suc j)"
      using event_sealed [OF assms(1), of s j] by (auto simp: seal_event_def)
  qed simp
  moreover have "bench (lat 12) 2000 (seal_and_open L bench_event) (?s, ?r) = Inr (stats_of (map (lat 12) [0..<2000]))"
  proof (rule bench_invariant [where P = "\<lambda>j x. snd_seq (fst x) = of_nat j \<and> records_in_step L (fst x) (snd x)"])
    fix j and x :: "record_sender \<times> record_receiver"
    assume j: "j < 2000" and x: "snd_seq (fst x) = of_nat j \<and> records_in_step L (fst x) (snd x)"
    obtain rec where rec: "seal L (fst x) bench_event = (Inr rec, (fst x)\<lparr>snd_seq := of_nat (Suc j)\<rparr>)"
      using event_sealed [OF assms(1) _ j] x by blast
    moreover obtain r' where "open_record L (snd x) rec = (Inr bench_event, r')"
        "records_in_step L ((fst x)\<lparr>snd_seq := of_nat (Suc j)\<rparr>) r'"
      using rl.step_law [OF _ rec, of "snd x"] x by blast
    ultimately show "\<exists>x'. seal_and_open L bench_event j x = Inr x' \<and>
        snd_seq (fst x') = of_nat (Suc j) \<and> records_in_step L (fst x') (snd x')"
      by (auto simp: seal_and_open_def case_prod_unfold)
  qed (use assms(2,3) in \<open>simp add: records_in_step_def\<close>)
  ultimately show ?thesis
    by (simp add: bench_records_def Let_def ends sample_def del: upt_rec_numeral)
qed


text \<open>The threads of a handshake have stopped in \<open>z\<close>, after some schedule.\<close>

definition stopped_in :: "libs \<Rightarrow> identity \<Rightarrow> identity \<Rightarrow> hs_seeds \<Rightarrow> hs_seeds \<Rightarrow> hs_net \<Rightarrow> bool" where
  "stopped_in L cid sid sdc sds z \<longleftrightarrow>
     (\<exists>n. (net_step (client_handshake L cid sdc) (server_handshake L sid sds) ^^ n) start_net z) \<and>
     \<not> (\<exists>z'. net_step (client_handshake L cid sdc) (server_handshake L sid sds) z z')"

lemma handshake_bytes:
  assumes "honest_identities L cid sid" and "stopped_in L cid sid sdc sds z"
    and libs: "libs_available L" "libs_sized L" "kem_correct L" "dh_correct L" "sig_correct L" "gcm_correct L"
  shows "\<exists>nc ns. 0 < nc \<and> nc \<le> sig_max_len L \<and> 0 < ns \<and> ns \<le> sig_max_len L \<and>
    run_handshake L cid sid sdc sds z = Inr (72 + kem_public_len L + nc, 72 + kem_ct_len L + ns)"
proof -
  let ?step = "net_step (client_handshake L cid sdc) (server_handshake L sid sds)"
  obtain n where n: "(?step ^^ n) start_net z" "\<not> (\<exists>z'. ?step z z')"
    using assms(2) unfolding stopped_in_def by blast
  obtain cc cs nc ns where len: "0 < nc" "nc \<le> sig_max_len L" "0 < ns" "ns \<le> sig_max_len L"
    and runs: "\<forall>n z. (?step ^^ n) start_net z \<longrightarrow> n \<le> 8 \<and> (n < 8 \<longrightarrow> (\<exists>z'. ?step z z')) \<and>
      (n = 8 \<longrightarrow> net_done (client_handshake L cid sdc) (server_handshake L sid sds) z \<and>
         fst (attempt (client_handshake L cid sdc) (c_got z)) = Inr cc \<and>
         fst (attempt (server_handshake L sid sds) (s_got z)) = Inr cs \<and> pipe_c2s z = [] \<and> pipe_s2c z = [] \<and>
         c2s_bytes z = 72 + kem_public_len L + nc \<and> s2c_bytes z = 72 + kem_ct_len L + ns)"
    using threads_finish [OF libs assms(1), of sdc sds] by (elim exE conjE) (rule that)
  have "n = 8"
    using runs n by (metis le_neq_implies_less)
  then show ?thesis
    using runs n(1) len by (intro exI [of _ nc] exI [of _ ns]) (simp add: run_handshake_def)
qed

lemma handshakes_stop:
  assumes "honest_identities L cid sid"
    and libs: "libs_available L" "libs_sized L" "kem_correct L" "dh_correct L" "sig_correct L" "gcm_correct L"
  shows "\<exists>z. stopped_in L cid sid sdc sds z"
proof -
  let ?step = "net_step (client_handshake L cid sdc) (server_handshake L sid sds)"
  obtain cc cs nc ns where runs: "\<forall>n z. (?step ^^ n) start_net z \<longrightarrow> n \<le> 8 \<and> (n < 8 \<longrightarrow> (\<exists>z'. ?step z z')) \<and>
      (n = 8 \<longrightarrow> net_done (client_handshake L cid sdc) (server_handshake L sid sds) z \<and>
         fst (attempt (client_handshake L cid sdc) (c_got z)) = Inr cc \<and>
         fst (attempt (server_handshake L sid sds) (s_got z)) = Inr cs \<and> pipe_c2s z = [] \<and> pipe_s2c z = [] \<and>
         c2s_bytes z = 72 + kem_public_len L + nc \<and> s2c_bytes z = 72 + kem_ct_len L + ns)"
    using threads_finish [OF libs assms(1), of sdc sds] by (elim exE conjE) (rule that)
  have "k \<le> 8 \<Longrightarrow> \<exists>z. (?step ^^ k) start_net z" for k
  proof (induction k)
    case (Suc k)
    then obtain z where z: "(?step ^^ k) start_net z"
      by auto
    with runs Suc.prems obtain z' where "?step z z'"
      by (metis Suc_le_lessD)
    with z show ?case
      by auto
  qed simp
  then obtain z where z: "(?step ^^ 8) start_net z"
    by blast
  have "\<not> ?step z z'" for z'
  proof
    assume "?step z z'"
    with z have "(?step ^^ Suc 8) start_net z'"
      by (rule relpowp_Suc_I)
    with runs have "Suc 8 \<le> 8"
      by blast
    then show False
      by simp
  qed
  with z show ?thesis
    unfolding stopped_in_def by blast
qed

lemma handshakes_run:
  assumes "\<forall>r. oqs_sig_keypair L r \<noteq> None"
    and libs: "libs_available L" "libs_sized L" "kem_correct L" "dh_correct L" "sig_correct L" "gcm_correct L"
    and stop: "\<And>cid sid i. honest_identities L cid sid \<Longrightarrow> stopped_in L cid sid (sdc i) (sds i) (stopped cid sid i)"
  shows "\<exists>nc ns. 0 < nc \<and> nc \<le> sig_max_len L \<and> 0 < ns \<and> ns \<le> sig_max_len L \<and>
    bench_handshakes L draw lat sdc sds stopped =
      Inr (sample lat 13 100, 72 + kem_public_len L + nc, 72 + kem_ct_len L + ns)"
proof -
  obtain cpk csk spk ssk where kp: "oqs_sig_keypair L (draw 29 0) = Some (cpk, csk)"
      "oqs_sig_keypair L (draw 30 0) = Some (spk, ssk)"
    using assms(1) by fastforce
  let ?cid = "\<lparr>sig_public = cpk, sig_secret = csk, peer_sig_public = spk\<rparr>"
    and ?sid = "\<lparr>sig_public = spk, sig_secret = ssk, peer_sig_public = cpk\<rparr>"
  let ?run = "\<lambda>i. run_handshake L ?cid ?sid (sdc i) (sds i) (stopped ?cid ?sid i)"
  have honest: "honest_identities L ?cid ?sid"
    using kp by (auto simp: honest_identities_def)
  note runs = handshake_bytes [OF honest stop [OF honest] libs]
  have "\<exists>x. repeat_op (\<lambda>i _. ?run i) 0 100 (0, 0) = Inr x \<and> (0 + 100 = (0 :: nat) \<or> ?run (0 + 100 - 1) = Inr x)"
  proof (rule repeat_op_invariant [where P = "\<lambda>j x. j = 0 \<or> ?run (j - 1) = Inr x"])
    fix j and x :: "nat \<times> nat"
    show "\<exists>x'. ?run j = Inr x' \<and> (Suc j = 0 \<or> ?run (Suc j - 1) = Inr x')"
      using runs [of j] by auto
  qed simp
  then obtain x where x: "repeat_op (\<lambda>i _. ?run i) 0 100 (0, 0) = Inr x" "?run 99 = Inr x"
    by auto
  obtain nc ns where "0 < nc" "nc \<le> sig_max_len L" "0 < ns" "ns \<le> sig_max_len L"
      "?run 99 = Inr (72 + kem_public_len L + nc, 72 + kem_ct_len L + ns)"
    using runs [of 99] by blast
  moreover obtain y where "?run 100 = Inr y"
    using runs [of 100] by blast
  ultimately show ?thesis
    using x kp by - (rule exI [of _ nc], rule exI [of _ ns],
      simp add: bench_handshakes_def mldsa_keypair_def Let_def sample_def del: upt_rec_numeral)
qed



definition toy_bench :: bench_libs where
  "toy_bench = \<lparr>oqs_random = \<lambda>r n. replicate n (of_nat r), evp_ed_keygen = \<lambda>r. Some [of_nat r],
     evp_ed_sign_init = \<lambda>k. True, evp_ed_sign_size = \<lambda>k m. Some 64, evp_ed_sign_into = \<lambda>k m n. Some (take n (k @ m)),
     evp_ed_verify_init = \<lambda>k. True, evp_ed_verify = \<lambda>k m s. s = k @ m,
     oqs_kem_name = ''ML-KEM-768'', oqs_sig_name = ''ML-DSA-65''\<rparr>"


end
