(* ===== verification/Lib_Objects.thy ===== *)
theory Lib_Objects
  imports Kdf Record_Layer
begin

section \<open>Library objects and the calls on them\<close>

text \<open>
  OpenSSL and liboqs hand out pointers to objects that the code of \<open>crypto/src/\<close> has to free.  This
  theory holds the objects of a process, the calls the code makes on them, and the relation that the
  sequences of calls are held against.  The functions of OpenSSL that work on an object are the fields of
  the record \<open>evp\<close>; what is relied on of them is stated in \<open>Lib_Calls\<close>.  Beyond that every call may
  report a failure, which \<open>ev_ok\<close> decides by the number of the call.  An action is a function of the heap;
  its result \<open>None\<close> is undefined behaviour: a call on an object that does not exist (any more), a second
  free, a write past the end of a buffer or a read past the end of one.  Vectors are allocated without fail.
\<close>

type_synonym obj_ref = nat

definition nullptr :: obj_ref where "nullptr = 0"

text \<open>What a cipher context was told: direction, length of the nonce, key and nonce, data and tag.\<close>

record gcm_state =
  gs_mode :: "bool option"
  gs_ivlen :: nat
  gs_key :: "(bytes \<times> bytes) option"
  gs_aad :: bytes
  gs_in :: bytes
  gs_tag :: "bytes option"

definition gcm_fresh :: gcm_state where
  "gcm_fresh = \<lparr>gs_mode = None, gs_ivlen = 12, gs_key = None, gs_aad = [], gs_in = [], gs_tag = None\<rparr>"

text \<open>
  What an object holds by its documentation.  A context counts as a reference to the keys it was given, so
  freeing those does not affect it.
\<close>

datatype lib_object =
    Keygen_ctx bool
  | Private_key bytes
  | Public_key bytes
  | Derive_ctx bytes bool "bytes option"
  | Cipher_ctx gcm_state
  | Kdf_method
  | Kdf_ctx
  | Kem
  | Sig

record objects =
  live :: "obj_ref \<Rightarrow> lib_object option"
  next_handle :: obj_ref
  calls :: nat

type_synonym 'a act = "objects \<Rightarrow> ('a \<times> objects) option"

text \<open>
  Which calls succeed apart from what they compute, and the functions of OpenSSL, each from an object to a
  result and the object after the call, \<open>None\<close> where it reports a failure.  \<open>EVP_PKEY_derive_size\<close> is
  \<open>EVP_PKEY_derive\<close> without a buffer, \<open>EVP_Update_aad\<close> an update without an output.  The flag of the calls
  on a cipher context is True for those named \<open>Encrypt\<close>.  \<open>EVP_Init_reads\<close> is how much of the key and of
  the nonce is read.
\<close>

record evp =
  ev_ok :: "nat \<Rightarrow> bool"
  EVP_PKEY_keygen_init :: "lib_object \<Rightarrow> (unit \<times> lib_object) option"
  EVP_PKEY_keygen :: "seed \<Rightarrow> lib_object \<Rightarrow> (lib_object \<times> lib_object) option"
  EVP_PKEY_get_raw_public_key :: "nat \<Rightarrow> lib_object \<Rightarrow> (bytes \<times> lib_object) option"
  EVP_PKEY_CTX_new :: "lib_object \<Rightarrow> lib_object"
  EVP_PKEY_derive_init :: "lib_object \<Rightarrow> (unit \<times> lib_object) option"
  EVP_PKEY_derive_set_peer :: "lib_object \<Rightarrow> lib_object \<Rightarrow> (unit \<times> lib_object) option"
  EVP_PKEY_derive_size :: "lib_object \<Rightarrow> (nat \<times> lib_object) option"
  EVP_PKEY_derive :: "nat \<Rightarrow> lib_object \<Rightarrow> (bytes \<times> lib_object) option"
  EVP_Init_cipher :: "bool \<Rightarrow> lib_object \<Rightarrow> (unit \<times> lib_object) option"
  EVP_CTRL_SET_IVLEN :: "nat \<Rightarrow> lib_object \<Rightarrow> (unit \<times> lib_object) option"
  EVP_Init_reads :: "lib_object \<Rightarrow> nat \<times> nat"
  EVP_Init_key :: "bool \<Rightarrow> bytes \<Rightarrow> bytes \<Rightarrow> lib_object \<Rightarrow> (unit \<times> lib_object) option"
  EVP_Update_aad :: "bool \<Rightarrow> bytes \<Rightarrow> lib_object \<Rightarrow> (unit \<times> lib_object) option"
  EVP_Update :: "bool \<Rightarrow> bytes \<Rightarrow> lib_object \<Rightarrow> (bytes \<times> lib_object) option"
  EVP_Final :: "bool \<Rightarrow> lib_object \<Rightarrow> (bytes \<times> lib_object) option"
  EVP_CTRL_GET_TAG :: "nat \<Rightarrow> lib_object \<Rightarrow> (bytes \<times> lib_object) option"
  EVP_CTRL_SET_TAG :: "bytes \<Rightarrow> lib_object \<Rightarrow> (unit \<times> lib_object) option"
  EVP_KDF_derive :: "ossl_param list \<Rightarrow> nat \<Rightarrow> bytes option"

subsection \<open>Actions\<close>

definition act_return :: "'a \<Rightarrow> 'a act" where
  "act_return x h = Some (x, h)"

definition act_bind :: "'a act \<Rightarrow> ('a \<Rightarrow> 'b act) \<Rightarrow> 'b act" where
  "act_bind f k h = (case f h of None \<Rightarrow> None | Some (x, h') \<Rightarrow> k x h')"

definition tick :: "objects \<Rightarrow> objects" where
  "tick h = h\<lparr>calls := Suc (calls h)\<rparr>"

definition place :: "lib_object \<Rightarrow> obj_ref act" where
  "place ob h = Some (next_handle h,
     h\<lparr>live := (live h)(next_handle h \<mapsto> ob), next_handle := Suc (next_handle h)\<rparr>)"

text \<open>A call that makes an object, or returns a null pointer.\<close>

definition lib_new :: "evp \<Rightarrow> lib_object \<Rightarrow> obj_ref act" where
  "lib_new E ob h = (if ev_ok E (calls h) then place ob (tick h) else Some (nullptr, tick h))"

text \<open>All the free functions accept a null pointer.\<close>

definition lib_free :: "obj_ref \<Rightarrow> unit act" where
  "lib_free p h =
     (if p = nullptr then Some ((), h)
      else case live h p of None \<Rightarrow> None | Some ob \<Rightarrow> Some ((), h\<lparr>live := (live h)(p := None)\<rparr>))"

text \<open>A call on an object: its result, \<open>None\<close> if it reports a failure, and the object after it.\<close>

definition lib_call :: "evp \<Rightarrow> obj_ref \<Rightarrow> (lib_object \<Rightarrow> ('a \<times> lib_object) option) \<Rightarrow> 'a option act" where
  "lib_call E p f h =
     (case live h p of
        None \<Rightarrow> None
      | Some ob \<Rightarrow>
          (case (if ev_ok E (calls h) then f ob else None) of
             None \<Rightarrow> Some (None, tick h)
           | Some (x, ob') \<Rightarrow> Some (Some x, (tick h)\<lparr>live := (live h)(p \<mapsto> ob')\<rparr>)))"

text \<open>A call without an object.\<close>

definition lib_plain :: "evp \<Rightarrow> 'a option \<Rightarrow> 'a option act" where
  "lib_plain E r h = Some (if ev_ok E (calls h) then r else None, tick h)"

text \<open>Reading a field through a pointer.\<close>

definition deref :: "obj_ref \<Rightarrow> lib_object act" where
  "deref p h = (case live h p of None \<Rightarrow> None | Some ob \<Rightarrow> Some (ob, h))"

text \<open>Calls joined by \<open>&&\<close> (or, on errors, \<open>||\<close>): the first that reports a failure is the last.\<close>

definition act_try :: "'a option act \<Rightarrow> ('a \<Rightarrow> 'b option act) \<Rightarrow> 'b option act" where
  "act_try f k = act_bind f (\<lambda>r. case r of None \<Rightarrow> act_return None | Some x \<Rightarrow> k x)"

definition act_then :: "unit option act \<Rightarrow> 'b option act \<Rightarrow> 'b option act" where
  "act_then f g = act_try f (\<lambda>_. g)"

lemma act_return_eq [simp]: "act_return x = act_return y \<longleftrightarrow> x = y"
  by (auto simp: act_return_def fun_eq_iff)

subsection \<open>Buffers\<close>

definition resize :: "nat \<Rightarrow> bytes \<Rightarrow> bytes" where
  "resize n b = take n b @ replicate (n - length b) 0"

definition write_at :: "bytes \<Rightarrow> nat \<Rightarrow> bytes \<Rightarrow> bytes act" where
  "write_at b off d h =
     (if off + length d \<le> length b then Some (take off b @ d @ drop (off + length d) b, h) else None)"

definition read_n :: "nat \<Rightarrow> bytes \<Rightarrow> bytes act" where
  "read_n n b h = (if n \<le> length b then Some (take n b, h) else None)"

lemma length_resize [simp]: "length (resize n b) = n"
  by (simp add: resize_def)

lemma resize_id [simp]: "length b = n \<Longrightarrow> resize n b = b"
  by (simp add: resize_def)

lemma resize_prefix [simp]: "n \<le> length b \<Longrightarrow> resize n b = take n b"
  by (simp add: resize_def)

lemma resize_Nil [simp]: "resize n [] = replicate n 0"
  by (simp add: resize_def)

lemma write_at_ok: "off + length d \<le> length b \<Longrightarrow> write_at b off d h = Some (take off b @ d @ drop (off + length d) b, h)"
  by (simp add: write_at_def)

lemma read_n_ok [simp]: "length b = n \<Longrightarrow> read_n n b h = Some (b, h)"
  by (simp add: read_n_def)

subsection \<open>What a sequence of calls has to do\<close>

definition objects_ok :: "objects \<Rightarrow> bool" where
  "objects_ok h \<longleftrightarrow> 0 < next_handle h \<and> live h 0 = None \<and> (\<forall>p \<ge> next_handle h. live h p = None)"

text \<open>One of the calls between two moments reported a failure of its own.\<close>

definition call_failed :: "evp \<Rightarrow> objects \<Rightarrow> objects \<Rightarrow> bool" where
  "call_failed E h h' \<longleftrightarrow> (\<exists>i. calls h \<le> i \<and> i < calls h' \<and> \<not> ev_ok E i)"

text \<open>
  From every heap in which \<open>P\<close> holds the action is defined, leaves exactly the objects that were there,
  in their state, and has the result \<open>r\<close> -- or one that is an exception, after a call that failed.
\<close>

definition performs :: "evp \<Rightarrow> ((obj_ref \<Rightarrow> lib_object option) \<Rightarrow> bool) \<Rightarrow> ('r \<Rightarrow> bool) \<Rightarrow> 'r act \<Rightarrow> 'r \<Rightarrow> bool" where
  "performs E P throws A r \<longleftrightarrow>
     (\<forall>h. objects_ok h \<and> P (live h) \<longrightarrow>
       (\<exists>res h'. A h = Some (res, h') \<and> live h' = live h \<and> objects_ok h' \<and> calls h \<le> calls h' \<and>
          (res = r \<or> throws res \<and> call_failed E h h')))"

definition holds_at :: "obj_ref \<Rightarrow> lib_object \<Rightarrow> (obj_ref \<Rightarrow> lib_object option) \<Rightarrow> bool" where
  "holds_at p ob l \<longleftrightarrow> l p = Some ob"

definition any_heap :: "(obj_ref \<Rightarrow> lib_object option) \<Rightarrow> bool" where
  "any_heap l \<longleftrightarrow> True"

subsection \<open>Weakest preconditions\<close>

text \<open>
  \<open>runs A h Q\<close>: the action is defined on \<open>h\<close> and ends with \<open>Q\<close>.  Its equations take a sequence of calls
  apart, so that \<open>simp\<close> runs the code symbolically, every failure a case.
\<close>

definition runs :: "'a act \<Rightarrow> objects \<Rightarrow> ('a \<Rightarrow> objects \<Rightarrow> bool) \<Rightarrow> bool" where
  "runs A h Q \<longleftrightarrow> (\<exists>x h'. A h = Some (x, h') \<and> Q x h')"

named_theorems runs_simps "weakest preconditions of actions"

lemma runs_return [runs_simps]: "runs (act_return x) h Q \<longleftrightarrow> Q x h"
  by (simp add: runs_def act_return_def)

lemma runs_bind [runs_simps]: "runs (act_bind f k) h Q \<longleftrightarrow> runs f h (\<lambda>x h'. runs (k x) h' Q)"
  by (auto simp: runs_def act_bind_def split: option.splits)

lemma runs_cong: "(\<And>x h'. Q x h' = R x h') \<Longrightarrow> runs A h Q = runs A h R"
  by (simp add: runs_def)

lemma runs_try [runs_simps]:
  "runs (act_try f k) h Q \<longleftrightarrow> runs f h (\<lambda>r h'. case r of None \<Rightarrow> Q None h' | Some x \<Rightarrow> runs (k x) h' Q)"
  unfolding act_try_def runs_bind by (rule runs_cong) (simp add: runs_return split: option.split)

lemma runs_then [runs_simps]:
  "runs (act_then f g) h Q \<longleftrightarrow> runs f h (\<lambda>r h'. if r = None then Q None h' else runs g h' Q)"
  unfolding act_then_def runs_try by (rule runs_cong) (simp split: option.split)

lemma runs_place [runs_simps]:
  "runs (place ob) h Q \<longleftrightarrow>
    Q (next_handle h) (h\<lparr>live := (live h)(next_handle h \<mapsto> ob), next_handle := Suc (next_handle h)\<rparr>)"
  by (simp add: runs_def place_def)

lemma runs_new [runs_simps]:
  "runs (lib_new E ob) h Q \<longleftrightarrow>
    (if ev_ok E (calls h) then runs (place ob) (tick h) Q else Q nullptr (tick h))"
  by (simp add: runs_def lib_new_def)

lemma runs_free [runs_simps]:
  "runs (lib_free p) h Q \<longleftrightarrow>
    (if p = nullptr then Q () h else live h p \<noteq> None \<and> Q () (h\<lparr>live := (live h)(p := None)\<rparr>))"
  by (auto simp: runs_def lib_free_def split: option.splits)

lemma runs_call [runs_simps]:
  "runs (lib_call E p f) h Q \<longleftrightarrow>
    (case live h p of
       None \<Rightarrow> False
     | Some ob \<Rightarrow> if ev_ok E (calls h)
         then (case f ob of None \<Rightarrow> Q None (tick h)
               | Some (x, ob') \<Rightarrow> Q (Some x) ((tick h)\<lparr>live := (live h)(p \<mapsto> ob')\<rparr>))
         else Q None (tick h))"
  by (auto simp: runs_def lib_call_def split: option.splits)

lemma runs_plain [runs_simps]:
  "runs (lib_plain E r) h Q \<longleftrightarrow> Q (if ev_ok E (calls h) then r else None) (tick h)"
  by (simp add: runs_def lib_plain_def)

lemma runs_deref [runs_simps]:
  "runs (deref p) h Q \<longleftrightarrow> (case live h p of None \<Rightarrow> False | Some ob \<Rightarrow> Q ob h)"
  by (auto simp: runs_def deref_def split: option.splits)

lemma runs_write [runs_simps]:
  "runs (write_at b off d) h Q \<longleftrightarrow>
    off + length d \<le> length b \<and> Q (take off b @ d @ drop (off + length d) b) h"
  by (simp add: runs_def write_at_def)

lemma runs_read [runs_simps]: "runs (read_n n b) h Q \<longleftrightarrow> n \<le> length b \<and> Q (take n b) h"
  by (simp add: runs_def read_n_def)

lemma runs_if [runs_simps]: "runs (if c then A else B) h Q \<longleftrightarrow> (if c then runs A h Q else runs B h Q)"
  by simp

lemma tick_simps [simp]:
  "live (tick h) = live h" "next_handle (tick h) = next_handle h" "calls (tick h) = Suc (calls h)"
  by (simp_all add: tick_def)

lemma call_failedI: "\<not> ev_ok E i \<Longrightarrow> calls h \<le> i \<Longrightarrow> i < calls h' \<Longrightarrow> call_failed E h h'"
  by (auto simp: call_failed_def)

lemma call_failed_live [simp]:
  "call_failed E h (h'\<lparr>live := l\<rparr>) \<longleftrightarrow> call_failed E h h'" "call_failed E (h\<lparr>live := l\<rparr>) h' \<longleftrightarrow> call_failed E h h'"
  by (simp_all add: call_failed_def)

lemma performsI:
  assumes "\<And>h. objects_ok h \<Longrightarrow> P (live h) \<Longrightarrow> 0 < next_handle h \<Longrightarrow> live h (next_handle h) = None \<Longrightarrow>
    live h (Suc (next_handle h)) = None \<Longrightarrow>
    runs A h (\<lambda>res h'. live h' = live h \<and> next_handle h \<le> next_handle h' \<and> calls h \<le> calls h' \<and>
      (res = r \<or> throws res \<and> call_failed E h h'))"
  shows "performs E P throws A r"
  unfolding performs_def
proof (intro allI impI)
  fix h
  assume h: "objects_ok h \<and> P (live h)"
  then have "0 < next_handle h" "live h (next_handle h) = None" "live h (Suc (next_handle h)) = None"
    by (auto simp: objects_ok_def)
  with h obtain res h' where "A h = Some (res, h')" and k: "live h' = live h" "next_handle h \<le> next_handle h'"
    "calls h \<le> calls h'" "res = r \<or> throws res \<and> call_failed E h h'"
    using assms [of h] by (auto simp: runs_def)
  moreover have "objects_ok h'"
    using h k by (auto simp: objects_ok_def)
  ultimately show "\<exists>res h'. A h = Some (res, h') \<and> live h' = live h \<and> objects_ok h' \<and> calls h \<le> calls h' \<and>
      (res = r \<or> throws res \<and> call_failed E h h')"
    by blast
qed

subsection \<open>Calls on one object\<close>

text \<open>
  An action that works on one object, with the object before it and its result and the object after it:
  it can only fall short of that after a failed call, and then it reports a failure as well.
\<close>

definition object_post ::
  "evp \<Rightarrow> obj_ref \<Rightarrow> ('a \<times> lib_object) option \<Rightarrow> objects \<Rightarrow> 'a option \<Rightarrow> objects \<Rightarrow> bool" where
  "object_post E p res h r h' \<longleftrightarrow>
     next_handle h' = next_handle h \<and> calls h \<le> calls h' \<and>
     ((\<exists>x ob. res = Some (x, ob) \<and> r = Some x \<and> live h' = (live h)(p \<mapsto> ob)) \<or>
      r = None \<and> (res = None \<or> call_failed E h h') \<and> (\<exists>ob. live h' = (live h)(p \<mapsto> ob)))"

definition on_object :: "evp \<Rightarrow> obj_ref \<Rightarrow> lib_object \<Rightarrow> 'a option act \<Rightarrow> ('a \<times> lib_object) option \<Rightarrow> bool" where
  "on_object E p ob A res \<longleftrightarrow> (\<forall>h. live h p = Some ob \<longrightarrow> runs A h (object_post E p res h))"

lemma on_object_runs: "on_object E p ob A res \<Longrightarrow> live h p = Some ob \<Longrightarrow> runs A h (object_post E p res h)"
  by (simp add: on_object_def)

lemma live_same: "live h p = Some ob \<Longrightarrow> \<exists>ob'. live h = (live h)(p \<mapsto> ob')"
  by (metis fun_upd_triv)

lemma on_object_call: "on_object E p ob (lib_call E p f) (f ob)"
  by (auto simp: on_object_def object_post_def runs_simps split: option.split intro: call_failedI live_same)

lemma on_object_call_eq: "f ob = res \<Longrightarrow> on_object E p ob (lib_call E p f) res"
  using on_object_call by blast

lemma on_object_return: "on_object E p ob (act_return (Some x)) (Some (x, ob))"
  by (simp add: on_object_def object_post_def runs_simps fun_upd_idem)

lemma on_object_write:
  "off + length d \<le> length b \<Longrightarrow> on_object E p ob (K (take off b @ d @ drop (off + length d) b)) res \<Longrightarrow>
    on_object E p ob (act_bind (write_at b off d) K) res"
  by (simp add: on_object_def runs_simps)

lemma on_object_read: "length b = n \<Longrightarrow> on_object E p ob (K b) res \<Longrightarrow> on_object E p ob (act_bind (read_n n b) K) res"
  by (simp add: on_object_def runs_simps)

lemma on_object_deref: "on_object E p ob (K ob) res \<Longrightarrow> on_object E p ob (act_bind (deref p) K) res"
  by (simp add: on_object_def runs_simps)

lemma call_failed_trans:
  "call_failed E h h' \<Longrightarrow> calls h' \<le> calls h'' \<Longrightarrow> call_failed E h h''"
  "call_failed E h' h'' \<Longrightarrow> calls h \<le> calls h' \<Longrightarrow> call_failed E h h''"
  by (auto simp: call_failed_def intro: less_le_trans le_trans)

lemma runs_mono: "runs A h Q \<Longrightarrow> (\<And>x h'. Q x h' \<Longrightarrow> R x h') \<Longrightarrow> runs A h R"
  by (auto simp: runs_def)

lemma object_post_trans:
  assumes "live h1 = (live h)(p \<mapsto> ob)" and "next_handle h1 = next_handle h" and "calls h \<le> calls h1"
    and "object_post E p res h1 r h'"
  shows "object_post E p res h r h'"
  using assms by (auto simp: object_post_def intro: call_failed_trans(2))

lemma on_object_try:
  assumes "on_object E p ob A (Some (x, ob1))" and "on_object E p ob1 (K x) res"
  shows "on_object E p ob (act_try A K) res"
proof -
  have "runs (act_try A K) h (object_post E p res h)" if h: "live h p = Some ob" for h
    unfolding runs_try
  proof (rule runs_mono [OF on_object_runs [OF assms(1) h]])
    fix r h1
    assume a: "object_post E p (Some (x, ob1)) h r h1"
    show "case r of None \<Rightarrow> object_post E p res h None h1 | Some y \<Rightarrow> runs (K y) h1 (object_post E p res h)"
    proof (cases r)
      case None
      then show ?thesis
        using a by (auto simp: object_post_def)
    next
      case (Some y)
      then have y: "y = x" and l: "live h1 = (live h)(p \<mapsto> ob1)" "next_handle h1 = next_handle h" "calls h \<le> calls h1"
        using a by (auto simp: object_post_def)
      then have "runs (K x) h1 (object_post E p res h1)"
        by (intro on_object_runs [OF assms(2)]) simp
      then show ?thesis
        using Some y by (auto intro: runs_mono object_post_trans [OF l])
    qed
  qed
  then show ?thesis
    by (simp add: on_object_def)
qed

lemma on_object_then:
  "on_object E p ob A (Some ((), ob1)) \<Longrightarrow> on_object E p ob1 B res \<Longrightarrow> on_object E p ob (act_then A B) res"
  unfolding act_then_def by (rule on_object_try)

lemma on_object_stop:
  assumes "on_object E p ob A None"
  shows "on_object E p ob (act_try A K) None"
proof -
  have "runs (act_try A K) h (object_post E p None h)" if h: "live h p = Some ob" for h
    unfolding runs_try
    by (rule runs_mono [OF on_object_runs [OF assms h]]) (auto simp: object_post_def)
  then show ?thesis
    by (simp add: on_object_def)
qed

text \<open>A context that is made, worked on and freed again.\<close>

lemma context_performs:
  assumes "\<And>p. on_object E p ob (A p) (map_option (\<lambda>x. (x, f x)) r)"
    and "\<And>e. throws (Inl e)"
  shows "performs E any_heap throws
    (act_bind (lib_new E ob) (\<lambda>p.
     if p = nullptr then act_return (Inl e1)
     else act_bind (A p) (\<lambda>r. act_bind (lib_free p) (\<lambda>_. act_return (or_throw r e2))))) (or_throw r e2)"
proof (rule performsI)
  fix h :: objects
  assume h: "0 < next_handle h" "live h (next_handle h) = None"
  let ?p = "next_handle h" and ?A = "\<lambda>p. act_bind (A p) (\<lambda>r. act_bind (lib_free p) (\<lambda>_. act_return (or_throw r e2)))"
  let ?Q = "\<lambda>res h'. live h' = live h \<and> next_handle h \<le> next_handle h' \<and> calls h \<le> calls h' \<and>
      (res = or_throw r e2 \<or> throws res \<and> call_failed E h h')"
  have "runs (?A ?p) h1 ?Q" if h1: "live h1 = (live h)(?p \<mapsto> ob)" "next_handle h \<le> next_handle h1" "calls h \<le> calls h1" for h1
  proof -
    have l: "live h1 ?p = Some ob"
      by (simp add: h1)
    show ?thesis
      unfolding runs_bind
    proof (rule runs_mono [OF on_object_runs [OF assms(1) l]])
      fix r' h2
      assume "object_post E ?p (map_option (\<lambda>x. (x, f x)) r) h1 r' h2"
      then show "runs (lib_free ?p) h2 (\<lambda>x h'. runs (act_return (or_throw r' e2)) h' ?Q)"
        using h h1 assms(2)
        by (auto simp: object_post_def runs_simps nullptr_def or_throw_def fun_upd_idem intro: call_failed_trans(2))
    qed
  qed
  then show "runs (act_bind (lib_new E ob) (\<lambda>p. if p = nullptr then act_return (Inl e1) else ?A p)) h ?Q"
    using h assms(2) by (auto simp: runs_new runs_place runs_bind [of "lib_new E ob"] runs_return nullptr_def intro: call_failedI)
qed

subsection \<open>Sequences and scopes\<close>

lemma performs_bind:
  assumes "performs E P t1 A r" and "performs E P t2 (K r) r2"
    and "\<And>x. t1 x \<Longrightarrow> \<exists>y. K x = act_return y \<and> t2 y"
  shows "performs E P t2 (act_bind A K) r2"
  unfolding performs_def
proof (intro allI impI)
  fix h
  assume h: "objects_ok h \<and> P (live h)"
  then obtain x h1 where a: "A h = Some (x, h1)" and l: "live h1 = live h" "objects_ok h1" "calls h \<le> calls h1"
    and x: "x = r \<or> t1 x \<and> call_failed E h h1"
    using assms(1) unfolding performs_def by blast
  show "\<exists>res h'. act_bind A K h = Some (res, h') \<and> live h' = live h \<and> objects_ok h' \<and> calls h \<le> calls h' \<and>
      (res = r2 \<or> t2 res \<and> call_failed E h h')"
  proof (cases "x = r")
    case True
    obtain y h2 where "K r h1 = Some (y, h2)" "live h2 = live h1" "objects_ok h2" "calls h1 \<le> calls h2"
      "y = r2 \<or> t2 y \<and> call_failed E h1 h2"
      using assms(2) h l unfolding performs_def by (metis (no_types, lifting))
    then show ?thesis
      using True a l by (auto simp: act_bind_def intro: call_failed_trans(2))
  next
    case False
    then obtain y where "K x = act_return y" "t2 y"
      using x assms(3) by blast
    then show ?thesis
      using False x a l by (auto simp: act_bind_def act_return_def)
  qed
qed

lemma performs_return: "performs E P throws (act_return x) x"
  by (auto simp: performs_def act_return_def)

lemma performs_weaken: "performs E Q throws A r \<Longrightarrow> (\<And>l. P l \<Longrightarrow> Q l) \<Longrightarrow> performs E P throws A r"
  by (auto simp: performs_def)

text \<open>\<open>and_then\<close> on actions: an exception skips the rest.\<close>

definition act_and_then :: "('e + 'a) act \<Rightarrow> ('a \<Rightarrow> ('e + 'b) act) \<Rightarrow> ('e + 'b) act" where
  "act_and_then A K = act_bind A (\<lambda>r. case r of Inl e \<Rightarrow> act_return (Inl e) | Inr x \<Rightarrow> K x)"

lemma performs_and_then:
  assumes "performs E P isl A r" and "\<And>x. performs E P isl (K x) (k x)"
  shows "performs E P isl (act_and_then A K) (and_then r k)"
  unfolding act_and_then_def
  by (rule performs_bind [OF assms(1)]) (auto simp: assms(2) performs_return isl_def split: sum.split)

text \<open>
  A local variable of a class with a constructor that may throw and a destructor: the destructor runs when
  the scope is left, by an exception or not.
\<close>

definition in_scope ::
  "('e + obj_ref) act \<Rightarrow> (obj_ref \<Rightarrow> unit act) \<Rightarrow> ('e \<Rightarrow> 'r) \<Rightarrow> (obj_ref \<Rightarrow> 'r act) \<Rightarrow> 'r act" where
  "in_scope create destroy raise body =
     act_bind create (\<lambda>r. case r of
        Inl e \<Rightarrow> act_return (raise e)
      | Inr p \<Rightarrow> act_bind (body p) (\<lambda>res. act_bind (destroy p) (\<lambda>_. act_return res)))"

text \<open>
  What a class promises: its constructor makes one object, which holds what the abstract constructor
  returns, or throws and leaves nothing behind.
\<close>

locale library_class =
  fixes E :: evp
    and create :: "('e + obj_ref) act"
    and promised :: "'e + 'a"
    and holds :: "'a \<Rightarrow> lib_object"
  assumes create_spec: "objects_ok h \<Longrightarrow>
    runs create h (\<lambda>res h'. objects_ok h' \<and> calls h \<le> calls h' \<and>
      (case res of
         Inl e \<Rightarrow> live h' = live h \<and> (promised = Inl e \<or> call_failed E h h')
       | Inr p \<Rightarrow> p \<noteq> nullptr \<and> live h p = None \<and>
           (\<exists>x. promised = Inr x \<and> live h' = (live h)(p \<mapsto> holds x))))"
begin

lemma scope_performs:
  assumes body: "\<And>x p. promised = Inr x \<Longrightarrow> performs E (\<lambda>l. P l \<and> holds_at p (holds x) l) throws (body p) (k x)"
    and frame: "\<And>l p ob. P l \<Longrightarrow> l p = None \<Longrightarrow> P (l(p \<mapsto> ob))"
    and raise: "\<And>e. throws (raise e)"
  shows "performs E P throws (in_scope create lib_free raise body) (case promised of Inl e \<Rightarrow> raise e | Inr x \<Rightarrow> k x)"
  unfolding performs_def
proof (intro allI impI)
  fix h
  assume h: "objects_ok h \<and> P (live h)"
  then obtain res h1 where c: "create h = Some (res, h1)" and ok: "objects_ok h1" "calls h \<le> calls h1"
    and cases: "case res of
         Inl e \<Rightarrow> live h1 = live h \<and> (promised = Inl e \<or> call_failed E h h1)
       | Inr p \<Rightarrow> p \<noteq> nullptr \<and> live h p = None \<and> (\<exists>x. promised = Inr x \<and> live h1 = (live h)(p \<mapsto> holds x))"
    using create_spec [of h] by (auto simp: runs_def)
  let ?r = "case promised of Inl e \<Rightarrow> raise e | Inr x \<Rightarrow> k x"
  show "\<exists>res h'. in_scope create lib_free raise body h = Some (res, h') \<and> live h' = live h \<and> objects_ok h' \<and>
      calls h \<le> calls h' \<and> (res = ?r \<or> throws res \<and> call_failed E h h')"
  proof (cases res)
    case (Inl e)
    then show ?thesis
      using c ok cases raise by (auto simp: in_scope_def act_bind_def act_return_def)
  next
    case (Inr p)
    then obtain x where x: "promised = Inr x" and l: "live h1 = (live h)(p \<mapsto> holds x)" and p: "p \<noteq> nullptr" "live h p = None"
      using cases by auto
    have "P (live h1) \<and> holds_at p (holds x) (live h1)"
      using h p frame by (simp add: l holds_at_def)
    then obtain y h2 where b: "body p h1 = Some (y, h2)" "live h2 = live h1" "objects_ok h2" "calls h1 \<le> calls h2"
      "y = k x \<or> throws y \<and> call_failed E h1 h2"
      using body [OF x, of p] ok unfolding performs_def by blast
    have "lib_free p h2 = Some ((), h2\<lparr>live := live h\<rparr>)"
      using p b(2) by (simp add: lib_free_def l fun_upd_idem)
    moreover have "objects_ok (h2\<lparr>live := live h\<rparr>)"
      using b(2,3) h unfolding objects_ok_def l by (auto split: if_splits)
    ultimately show ?thesis
      using Inr c b ok x by (auto simp: in_scope_def act_bind_def act_return_def intro: call_failed_trans(2))
  qed
qed

end

end
