(* ===== verification/Lib_Calls.thy ===== *)
theory Lib_Calls
  imports Lib_Objects
begin

section \<open>The wrappers as sequences of library calls\<close>

text \<open>
  \<open>x25519.cpp\<close>, \<open>kdf.cpp\<close>, \<open>pqc_kem.cpp\<close>, \<open>pqc_sig.cpp\<close> and the two functions of \<open>record.cpp\<close> that use
  AES-GCM, call by call: every object is made, used and freed where the code does it, and every buffer
  has the size the code gives it.  The wrappers of \<open>Crypto_Prims\<close>, \<open>Kdf\<close> and \<open>Record_Layer\<close> are what
  these sequences compute when no call fails.
\<close>

subsection \<open>X25519\<close>

text \<open>\<open>EVP_PKEY_keygen\<close> makes the key.\<close>

definition keygen :: "evp \<Rightarrow> seed \<Rightarrow> obj_ref \<Rightarrow> obj_ref option act" where
  "keygen E r p = act_try (lib_call E p (EVP_PKEY_keygen E r)) (\<lambda>k. act_bind (place k) (\<lambda>pk. act_return (Some pk)))"

definition X25519_create :: "evp \<Rightarrow> seed \<Rightarrow> (crypto_error + obj_ref) act" where
  "X25519_create E r =
     act_bind (lib_new E (Keygen_ctx False)) (\<lambda>pctx.
     if pctx = nullptr then act_return (Inl X25519_ctx_failed)
     else act_bind (act_then (lib_call E pctx (EVP_PKEY_keygen_init E)) (keygen E r pctx)) (\<lambda>pkey.
       case pkey of
         None \<Rightarrow> act_bind (lib_free pctx) (\<lambda>_. act_return (Inl X25519_keygen_failed))
       | Some k \<Rightarrow> act_bind (lib_free pctx) (\<lambda>_. act_return (Inr k))))"

definition X25519_destroy :: "obj_ref \<Rightarrow> unit act" where
  "X25519_destroy pkey = lib_free pkey"

definition X25519_public_key :: "evp \<Rightarrow> obj_ref \<Rightarrow> (crypto_error + bytes) act" where
  "X25519_public_key E pkey =
     (let pub = resize X25519_kKeyLen []
      in act_bind (lib_call E pkey (EVP_PKEY_get_raw_public_key E X25519_kKeyLen)) (\<lambda>r.
         case r of
           None \<Rightarrow> act_return (Inl X25519_public_failed)
         | Some pk \<Rightarrow> act_bind (write_at pub 0 pk) (\<lambda>pub'.
             act_return (if length pk \<noteq> X25519_kKeyLen then Inl X25519_public_failed else Inr pub'))))"

text \<open>The two calls that take a second object.\<close>

definition derive_ctx_new :: "evp \<Rightarrow> obj_ref \<Rightarrow> obj_ref act" where
  "derive_ctx_new E p = act_bind (deref p) (\<lambda>key. lib_new E (EVP_PKEY_CTX_new E key))"

definition derive_set_peer :: "evp \<Rightarrow> obj_ref \<Rightarrow> obj_ref \<Rightarrow> unit option act" where
  "derive_set_peer E p peer = act_bind (deref peer) (\<lambda>key. lib_call E p (EVP_PKEY_derive_set_peer E key))"

definition X25519_compute_shared :: "evp \<Rightarrow> obj_ref \<Rightarrow> bytes \<Rightarrow> (crypto_error + bytes) act" where
  "X25519_compute_shared E pkey peer_public =
     (if length peer_public \<noteq> X25519_kKeyLen then act_return (Inl X25519_peer_length)
      else act_bind (lib_new E (Public_key peer_public)) (\<lambda>peer.
      if peer = nullptr then act_return (Inl X25519_peer_failed)
      else act_bind (derive_ctx_new E pkey) (\<lambda>dctx.
      if dctx = nullptr then act_bind (lib_free peer) (\<lambda>_. act_return (Inl X25519_derive_ctx_failed))
      else act_bind (act_then (lib_call E dctx (EVP_PKEY_derive_init E))
        (act_then (derive_set_peer E dctx peer) (lib_call E dctx (EVP_PKEY_derive_size E)))) (\<lambda>slen.
      case slen of
        None \<Rightarrow> act_bind (lib_free dctx) (\<lambda>_. act_bind (lib_free peer) (\<lambda>_. act_return (Inl X25519_length_failed)))
      | Some n \<Rightarrow>
          let secret = resize n []
          in act_bind (lib_call E dctx (EVP_PKEY_derive E n)) (\<lambda>res.
             case res of
               None \<Rightarrow> act_bind (lib_free dctx) (\<lambda>_. act_bind (lib_free peer) (\<lambda>_. act_return (Inl X25519_derive_failed)))
             | Some s \<Rightarrow> act_bind (write_at secret 0 s) (\<lambda>secret'.
                 act_bind (lib_free dctx) (\<lambda>_. act_bind (lib_free peer) (\<lambda>_.
                 act_return (Inr (resize (length s) secret'))))))))))"

text \<open>
  What the documentation of these functions says, for the states in which the code calls them: a key is
  generated after initialization; a derivation needs initialization and a peer, announces a length that
  is enough, and fails if the buffer is too short.
\<close>

definition x25519_documented :: "evp \<Rightarrow> libs \<Rightarrow> bool" where
  "x25519_documented E L \<longleftrightarrow>
     EVP_PKEY_keygen_init E (Keygen_ctx False) = Some ((), Keygen_ctx True) \<and>
     (\<forall>r. EVP_PKEY_keygen E r (Keygen_ctx True) =
        map_option (\<lambda>x. (Private_key x, Keygen_ctx True)) (evp_x25519_keygen L r)) \<and>
     (\<forall>n x. EVP_PKEY_get_raw_public_key E n (Private_key x) =
        (case evp_x25519_public L x of
           None \<Rightarrow> None
         | Some pk \<Rightarrow> if length pk \<le> n then Some (pk, Private_key x) else None)) \<and>
     (\<forall>x. EVP_PKEY_CTX_new E (Private_key x) = Derive_ctx x False None) \<and>
     (\<forall>x. EVP_PKEY_derive_init E (Derive_ctx x False None) = Some ((), Derive_ctx x True None)) \<and>
     (\<forall>x y. EVP_PKEY_derive_set_peer E (Public_key y) (Derive_ctx x True None) = Some ((), Derive_ctx x True (Some y))) \<and>
     (\<exists>m. (\<forall>x y. EVP_PKEY_derive_size E (Derive_ctx x True (Some y)) = Some (m, Derive_ctx x True (Some y))) \<and>
        (\<forall>x y s. evp_x25519_derive L x y = Some s \<longrightarrow> length s \<le> m)) \<and>
     (\<forall>n x y. EVP_PKEY_derive E n (Derive_ctx x True (Some y)) =
        (case evp_x25519_derive L x y of
           None \<Rightarrow> None
         | Some s \<Rightarrow> if length s \<le> n then Some (s, Derive_ctx x True (Some y)) else None))"

lemma X25519_public_key_performs:
  assumes "x25519_documented E L"
  shows "performs E (holds_at p (Private_key x)) isl (X25519_public_key E p) (x25519_public_key L x)"
proof -
  have "EVP_PKEY_get_raw_public_key E n (Private_key x) =
        (case evp_x25519_public L x of
           None \<Rightarrow> None
         | Some pk \<Rightarrow> if length pk \<le> n then Some (pk, Private_key x) else None)" for n
    using assms by (simp add: x25519_documented_def)
  then show ?thesis
    by (intro performsI)
      (auto simp: X25519_public_key_def x25519_public_key_def runs_simps holds_at_def
        X25519_kKeyLen_def split: option.split intro: call_failedI)
qed

lemma X25519_compute_shared_performs:
  assumes "x25519_documented E L"
  shows "performs E (holds_at p (Private_key x)) isl (X25519_compute_shared E p peer) (x25519_compute_shared L x peer)"
proof -
  obtain m where size: "\<And>y. EVP_PKEY_derive_size E (Derive_ctx x True (Some y)) = Some (m, Derive_ctx x True (Some y))"
    and fits: "\<And>y s. evp_x25519_derive L x y = Some s \<Longrightarrow> length s \<le> m"
    using assms unfolding x25519_documented_def by (elim conjE exE) blast
  have laws: "EVP_PKEY_CTX_new E (Private_key x) = Derive_ctx x False None"
    "EVP_PKEY_derive_init E (Derive_ctx x False None) = Some ((), Derive_ctx x True None)"
    "EVP_PKEY_derive_set_peer E (Public_key peer) (Derive_ctx x True None) = Some ((), Derive_ctx x True (Some peer))"
    using assms by (simp_all add: x25519_documented_def)
  have derive: "EVP_PKEY_derive E m (Derive_ctx x True (Some peer)) =
      map_option (\<lambda>s. (s, Derive_ctx x True (Some peer))) (evp_x25519_derive L x peer)"
    using assms fits by (auto simp: x25519_documented_def split: option.split)
  note calls = X25519_compute_shared_def derive_ctx_new_def derive_set_peer_def laws size derive
    x25519_compute_shared_def runs_simps holds_at_def nullptr_def
  show ?thesis
  proof (cases "length peer = X25519_kKeyLen")
    case False
    then show ?thesis
      by (simp add: X25519_compute_shared_def x25519_compute_shared_def performs_return)
  next
    case len: True
    show ?thesis
    proof (cases "evp_x25519_derive L x peer")
      case None
      then show ?thesis
        using len by (intro performsI) (auto simp: calls fun_upd_twist intro: call_failedI)
    next
      case (Some s)
      then show ?thesis
        using len fits [OF Some] by (intro performsI) (auto simp: calls fun_upd_twist intro: call_failedI)
    qed
  qed
qed

subsection \<open>AES-256-GCM\<close>

text \<open>
  The calls on a cipher context.  The one that sets key and nonce reads 32 bytes of the key and as many of
  the nonce as were announced.
\<close>

definition gcm_init_key :: "evp \<Rightarrow> bool \<Rightarrow> obj_ref \<Rightarrow> bytes \<Rightarrow> bytes \<Rightarrow> unit option act" where
  "gcm_init_key E enc p key nonce =
     act_bind (deref p) (\<lambda>ob.
     act_bind (read_n (fst (EVP_Init_reads E ob)) key) (\<lambda>k.
     act_bind (read_n (snd (EVP_Init_reads E ob)) nonce) (\<lambda>n.
     lib_call E p (EVP_Init_key E enc k n))))"

text \<open>The calls before the data, the same in both directions.\<close>

definition gcm_prepare :: "evp \<Rightarrow> bool \<Rightarrow> obj_ref \<Rightarrow> bytes \<Rightarrow> bytes \<Rightarrow> bytes \<Rightarrow> unit option act" where
  "gcm_prepare E enc ctx key nonce aad =
     act_then (lib_call E ctx (EVP_Init_cipher E enc)) (act_then (lib_call E ctx (EVP_CTRL_SET_IVLEN E kIvLen))
     (act_then (gcm_init_key E enc ctx key nonce)
       (if aad = [] then act_return (Some ()) else lib_call E ctx (EVP_Update_aad E enc aad))))"

definition seal_steps :: "evp \<Rightarrow> obj_ref \<Rightarrow> bytes \<Rightarrow> bytes \<Rightarrow> bytes \<Rightarrow> bytes \<Rightarrow> bytes option act" where
  "seal_steps E ctx key nonce aad pt =
     (let out0 = resize (length pt + kGcmTagLen) []
      in act_then (gcm_prepare E True ctx key nonce aad)
         (act_try (lib_call E ctx (EVP_Update E True pt)) (\<lambda>c. act_bind (write_at out0 0 c) (\<lambda>out1.
          act_try (lib_call E ctx (EVP_Final E True)) (\<lambda>c'. act_bind (write_at out1 (length c) c') (\<lambda>out2.
          let ct_len = length c + length c'
          in act_try (lib_call E ctx (EVP_CTRL_GET_TAG E kGcmTagLen)) (\<lambda>t. act_bind (write_at out2 ct_len t) (\<lambda>out3.
             act_return (Some (resize (ct_len + kGcmTagLen) out3))))))))))"

definition aes_gcm_seal_calls :: "evp \<Rightarrow> bytes \<Rightarrow> bytes \<Rightarrow> bytes \<Rightarrow> bytes \<Rightarrow> (record_error + bytes) act" where
  "aes_gcm_seal_calls E key nonce aad pt =
     act_bind (lib_new E (Cipher_ctx gcm_fresh)) (\<lambda>ctx.
     if ctx = nullptr then act_return (Inl Cipher_ctx_failed)
     else act_bind (seal_steps E ctx key nonce aad pt) (\<lambda>r. act_bind (lib_free ctx) (\<lambda>_.
       act_return (or_throw r Encrypt_failed))))"

definition open_steps :: "evp \<Rightarrow> obj_ref \<Rightarrow> bytes \<Rightarrow> bytes \<Rightarrow> bytes \<Rightarrow> bytes \<Rightarrow> bytes \<Rightarrow> bytes option act" where
  "open_steps E ctx key nonce aad ct tag =
     (let pt0 = resize (length ct) []
      in act_then (gcm_prepare E False ctx key nonce aad)
         (act_try (lib_call E ctx (EVP_Update E False ct)) (\<lambda>p. act_bind (write_at pt0 0 p) (\<lambda>pt1.
          act_bind (read_n kGcmTagLen tag) (\<lambda>t. act_then (lib_call E ctx (EVP_CTRL_SET_TAG E t))
          (act_try (lib_call E ctx (EVP_Final E False)) (\<lambda>p'. act_bind (write_at pt1 (length p) p') (\<lambda>pt2.
           act_return (Some (resize (length p + length p') pt2))))))))))"

definition aes_gcm_open_calls ::
  "evp \<Rightarrow> bytes \<Rightarrow> bytes \<Rightarrow> bytes \<Rightarrow> bytes \<Rightarrow> bytes \<Rightarrow> (record_error + bytes) act" where
  "aes_gcm_open_calls E key nonce aad ct tag =
     act_bind (lib_new E (Cipher_ctx gcm_fresh)) (\<lambda>ctx.
     if ctx = nullptr then act_return (Inl Cipher_ctx_failed)
     else act_bind (open_steps E ctx key nonce aad ct tag) (\<lambda>r. act_bind (lib_free ctx) (\<lambda>_.
       act_return (or_throw r Tag_mismatch))))"

text \<open>
  What the documentation says of these functions.  GCM is a stream cipher: an update gives out as many
  bytes as it gets, before a tag is known, and the final call none; when encrypting it makes the tag,
  when decrypting it checks the tag that was set.
\<close>

definition gcm_ready :: "bool \<Rightarrow> bytes \<Rightarrow> bytes \<Rightarrow> bytes \<Rightarrow> gcm_state" where
  "gcm_ready enc key nonce aad =
     gcm_fresh\<lparr>gs_mode := Some enc, gs_key := Some (key, nonce), gs_aad := aad\<rparr>"

definition gcm_setup_documented :: "evp \<Rightarrow> bool" where
  "gcm_setup_documented E \<longleftrightarrow>
     (\<forall>enc. EVP_Init_cipher E enc (Cipher_ctx gcm_fresh) = Some ((), Cipher_ctx (gcm_fresh\<lparr>gs_mode := Some enc\<rparr>))) \<and>
     (\<forall>n g. EVP_CTRL_SET_IVLEN E n (Cipher_ctx g) = Some ((), Cipher_ctx (g\<lparr>gs_ivlen := n\<rparr>))) \<and>
     (\<forall>g. EVP_Init_reads E (Cipher_ctx g) = (32, gs_ivlen g)) \<and>
     (\<forall>enc k n g. gs_mode g = Some enc \<longrightarrow>
        EVP_Init_key E enc k n (Cipher_ctx g) = Some ((), Cipher_ctx (g\<lparr>gs_key := Some (k, n)\<rparr>))) \<and>
     (\<forall>enc a k n. EVP_Update_aad E enc a (Cipher_ctx (gcm_ready enc k n [])) =
        Some ((), Cipher_ctx (gcm_ready enc k n a)))"

definition gcm_encrypt_documented :: "evp \<Rightarrow> libs \<Rightarrow> bool" where
  "gcm_encrypt_documented E L \<longleftrightarrow>
     (\<forall>k n a d. EVP_Update E True d (Cipher_ctx (gcm_ready True k n a)) =
        map_option (\<lambda>(c, t). (c, Cipher_ctx ((gcm_ready True k n a)\<lparr>gs_in := d\<rparr>))) (evp_gcm_encrypt L k n a d)) \<and>
     (\<forall>k n a d c t. evp_gcm_encrypt L k n a d = Some (c, t) \<longrightarrow>
        EVP_Final E True (Cipher_ctx ((gcm_ready True k n a)\<lparr>gs_in := d\<rparr>)) =
          Some ([], Cipher_ctx ((gcm_ready True k n a)\<lparr>gs_in := d, gs_tag := Some t\<rparr>))) \<and>
     (\<forall>m g t. gs_tag g = Some t \<longrightarrow> EVP_CTRL_GET_TAG E m (Cipher_ctx g) = Some (take m t, Cipher_ctx g))"

definition gcm_decrypt_documented :: "evp \<Rightarrow> libs \<Rightarrow> bool" where
  "gcm_decrypt_documented E L \<longleftrightarrow>
     (\<forall>k n a c. \<exists>p. length p = length c \<and>
        EVP_Update E False c (Cipher_ctx (gcm_ready False k n a)) =
          Some (p, Cipher_ctx ((gcm_ready False k n a)\<lparr>gs_in := c\<rparr>)) \<and>
        (\<forall>t q. evp_gcm_decrypt L k n a c t = Some q \<longrightarrow> q = p)) \<and>
     (\<forall>t g. EVP_CTRL_SET_TAG E t (Cipher_ctx g) = Some ((), Cipher_ctx (g\<lparr>gs_tag := Some t\<rparr>))) \<and>
     (\<forall>k n a c t. EVP_Final E False (Cipher_ctx ((gcm_ready False k n a)\<lparr>gs_in := c, gs_tag := Some t\<rparr>)) =
        map_option (\<lambda>_. ([], Cipher_ctx ((gcm_ready False k n a)\<lparr>gs_in := c, gs_tag := Some t\<rparr>)))
          (evp_gcm_decrypt L k n a c t))"

lemma gcm_prepare_step:
  assumes "gcm_setup_documented E" and "length key = 32" and "length nonce = 12"
  shows "on_object E p (Cipher_ctx gcm_fresh) (gcm_prepare E enc p key nonce aad)
    (Some ((), Cipher_ctx (gcm_ready enc key nonce aad)))"
proof -
  let ?g1 = "gcm_fresh\<lparr>gs_mode := Some enc\<rparr>"
  let ?g2 = "?g1\<lparr>gs_ivlen := kIvLen\<rparr>"
  note laws = assms(1) [unfolded gcm_setup_documented_def]
  have r: "?g2\<lparr>gs_key := Some (key, nonce)\<rparr> = gcm_ready enc key nonce []"
    by (simp add: gcm_ready_def gcm_fresh_def record_consts)
  have 1: "on_object E p (Cipher_ctx gcm_fresh) (lib_call E p (EVP_Init_cipher E enc)) (Some ((), Cipher_ctx ?g1))"
    by (rule on_object_call_eq) (simp add: laws)
  have 2: "on_object E p (Cipher_ctx ?g1) (lib_call E p (EVP_CTRL_SET_IVLEN E kIvLen)) (Some ((), Cipher_ctx ?g2))"
    by (rule on_object_call_eq) (simp add: laws)
  have "EVP_Init_key E enc key nonce (Cipher_ctx ?g2) = Some ((), Cipher_ctx (gcm_ready enc key nonce []))"
    using laws by (simp flip: r)
  then have 3: "on_object E p (Cipher_ctx ?g2) (gcm_init_key E enc p key nonce)
      (Some ((), Cipher_ctx (gcm_ready enc key nonce [])))"
    unfolding gcm_init_key_def
    by (intro on_object_deref on_object_read on_object_call_eq) (simp_all add: laws assms(2,3) record_consts)
  have 4: "on_object E p (Cipher_ctx (gcm_ready enc key nonce []))
      (if aad = [] then act_return (Some ()) else lib_call E p (EVP_Update_aad E enc aad))
      (Some ((), Cipher_ctx (gcm_ready enc key nonce aad)))"
  proof (cases "aad = []")
    case True
    then show ?thesis
      by (simp add: on_object_return)
  next
    case False
    have "on_object E p (Cipher_ctx (gcm_ready enc key nonce [])) (lib_call E p (EVP_Update_aad E enc aad))
        (Some ((), Cipher_ctx (gcm_ready enc key nonce aad)))"
      by (rule on_object_call_eq) (simp add: laws)
    then show ?thesis
      using False by simp
  qed
  show ?thesis
    unfolding gcm_prepare_def by (rule on_object_then [OF 1 on_object_then [OF 2 on_object_then [OF 3 4]]])
qed

lemma seal_steps_step:
  assumes "gcm_setup_documented E" and "gcm_encrypt_documented E L" and "length key = 32" and "length nonce = 12"
    and "\<And>c t. evp_gcm_encrypt L key nonce aad pt = Some (c, t) \<Longrightarrow> length c = length pt \<and> length t = 16"
  shows "on_object E p (Cipher_ctx gcm_fresh) (seal_steps E p key nonce aad pt)
    (map_option (\<lambda>(c, t). (c @ t, Cipher_ctx ((gcm_ready True key nonce aad)\<lparr>gs_in := pt, gs_tag := Some t\<rparr>)))
      (evp_gcm_encrypt L key nonce aad pt))"
proof -
  let ?g = "gcm_ready True key nonce aad"
  note prep = gcm_prepare_step [OF assms(1,3,4), of p True aad]
  note laws = assms(2) [unfolded gcm_encrypt_documented_def]
  show ?thesis
  proof (cases "evp_gcm_encrypt L key nonce aad pt")
    case None
    have "on_object E p (Cipher_ctx ?g) (lib_call E p (EVP_Update E True pt)) None"
      by (rule on_object_call_eq) (simp add: laws None)
    then show ?thesis
      unfolding seal_steps_def Let_def by (simp add: None on_object_then [OF prep] on_object_stop)
  next
    case (Some ct)
    then obtain c t where e: "evp_gcm_encrypt L key nonce aad pt = Some (c, t)"
      by (cases ct) auto
    have l: "length c = length pt" "length t = 16"
      using assms(5) [OF e] by simp_all
    have 1: "on_object E p (Cipher_ctx ?g) (lib_call E p (EVP_Update E True pt)) (Some (c, Cipher_ctx (?g\<lparr>gs_in := pt\<rparr>)))"
      by (rule on_object_call_eq) (simp add: laws e)
    have 2: "on_object E p (Cipher_ctx (?g\<lparr>gs_in := pt\<rparr>)) (lib_call E p (EVP_Final E True))
        (Some ([], Cipher_ctx (?g\<lparr>gs_in := pt, gs_tag := Some t\<rparr>)))"
      using laws e by (intro on_object_call_eq) blast
    have 3: "on_object E p (Cipher_ctx (?g\<lparr>gs_in := pt, gs_tag := Some t\<rparr>)) (lib_call E p (EVP_CTRL_GET_TAG E kGcmTagLen))
        (Some (t, Cipher_ctx (?g\<lparr>gs_in := pt, gs_tag := Some t\<rparr>)))"
      by (rule on_object_call_eq) (simp add: laws l record_consts)
    show ?thesis
      unfolding seal_steps_def Let_def e
      by (rule on_object_then [OF prep], rule on_object_try [OF 1], rule on_object_write, simp add: l record_consts,
          rule on_object_try [OF 2], rule on_object_write, simp add: l record_consts,
          rule on_object_try [OF 3], rule on_object_write, simp add: l record_consts)
        (use on_object_return [of E p "Cipher_ctx (?g\<lparr>gs_in := pt, gs_tag := Some t\<rparr>)" "c @ t"] in
          \<open>simp add: l record_consts\<close>)
  qed
qed

lemma open_steps_step:
  assumes "gcm_setup_documented E" and "gcm_decrypt_documented E L"
    and "length key = 32" and "length nonce = 12" and "length tag = 16"
  shows "on_object E p (Cipher_ctx gcm_fresh) (open_steps E p key nonce aad ct tag)
    (map_option (\<lambda>pt. (pt, Cipher_ctx ((gcm_ready False key nonce aad)\<lparr>gs_in := ct, gs_tag := Some tag\<rparr>)))
      (evp_gcm_decrypt L key nonce aad ct tag))"
proof -
  let ?g = "gcm_ready False key nonce aad"
  let ?g2 = "?g\<lparr>gs_in := ct, gs_tag := Some tag\<rparr>"
  note prep = gcm_prepare_step [OF assms(1,3,4), of p False aad]
  note laws = conjunct2 [OF assms(2) [unfolded gcm_decrypt_documented_def]]
  obtain s where s: "length s = length ct"
    and u: "EVP_Update E False ct (Cipher_ctx ?g) = Some (s, Cipher_ctx (?g\<lparr>gs_in := ct\<rparr>))"
    and q: "\<And>q. evp_gcm_decrypt L key nonce aad ct tag = Some q \<Longrightarrow> q = s"
    using assms(2) [unfolded gcm_decrypt_documented_def, THEN conjunct1, THEN spec, THEN spec, THEN spec, THEN spec,
      of ct key nonce aad] by auto
  have 1: "on_object E p (Cipher_ctx ?g) (lib_call E p (EVP_Update E False ct)) (Some (s, Cipher_ctx (?g\<lparr>gs_in := ct\<rparr>)))"
    by (rule on_object_call_eq) (rule u)
  have 2: "on_object E p (Cipher_ctx (?g\<lparr>gs_in := ct\<rparr>)) (lib_call E p (EVP_CTRL_SET_TAG E tag)) (Some ((), Cipher_ctx ?g2))"
    by (rule on_object_call_eq) (simp add: laws)
  let ?rest = "act_try (lib_call E p (EVP_Final E False)) (\<lambda>p'. act_bind (write_at s (length s) p') (\<lambda>pt2.
      act_return (Some (resize (length s + length p') pt2))))"
  have f: "EVP_Final E False (Cipher_ctx ?g2) = map_option (\<lambda>_. ([], Cipher_ctx ?g2)) (evp_gcm_decrypt L key nonce aad ct tag)"
    using laws by blast
  have 3: "on_object E p (Cipher_ctx ?g2) ?rest
      (map_option (\<lambda>pt. (pt, Cipher_ctx ?g2)) (evp_gcm_decrypt L key nonce aad ct tag))"
  proof (cases "evp_gcm_decrypt L key nonce aad ct tag")
    case None
    have "on_object E p (Cipher_ctx ?g2) (lib_call E p (EVP_Final E False)) None"
      by (rule on_object_call_eq) (simp add: f None)
    then show ?thesis
      by (simp add: None on_object_stop)
  next
    case (Some pt)
    have "on_object E p (Cipher_ctx ?g2) (lib_call E p (EVP_Final E False)) (Some ([], Cipher_ctx ?g2))"
      by (rule on_object_call_eq) (simp add: f Some)
    then show ?thesis
      using q [OF Some] on_object_return [of E p "Cipher_ctx ?g2" s]
      by (auto intro!: on_object_try on_object_write simp: Some)
  qed
  show ?thesis
    unfolding open_steps_def Let_def
    by (rule on_object_then [OF prep], rule on_object_try [OF 1], rule on_object_write, simp add: s,
        rule on_object_read, simp add: assms(5) record_consts, rule on_object_then [OF 2])
      (use 3 in \<open>simp add: s\<close>)
qed

lemma aes_gcm_seal_performs:
  assumes "gcm_setup_documented E" and "gcm_encrypt_documented E L" and "libs_sized L"
    and "length key = 32" and "length nonce = 12"
  shows "performs E any_heap isl (aes_gcm_seal_calls E key nonce aad pt) (aes_gcm_seal L key nonce aad pt)"
proof -
  have l: "length c = length pt \<and> length t = 16" if "evp_gcm_encrypt L key nonce aad pt = Some (c, t)" for c t
    using assms(3) that unfolding libs_sized_def by blast
  let ?g = "\<lambda>t. Cipher_ctx ((gcm_ready True key nonce aad)\<lparr>gs_in := pt, gs_tag := t\<rparr>)"
  let ?e = "evp_gcm_encrypt L key nonce aad pt"
  let ?r = "map_option (\<lambda>(c, t). c @ t) ?e"
  have "on_object E p (Cipher_ctx gcm_fresh) (seal_steps E p key nonce aad pt)
      (map_option (\<lambda>x. (x, ?g (map_option snd ?e))) ?r)" for p
  proof -
    have "map_option (\<lambda>(c, t). (c @ t, ?g (Some t))) ?e = map_option (\<lambda>x. (x, ?g (map_option snd ?e))) ?r"
      by (cases ?e) (auto simp: case_prod_unfold)
    moreover have "on_object E p (Cipher_ctx gcm_fresh) (seal_steps E p key nonce aad pt)
        (map_option (\<lambda>(c, t). (c @ t, ?g (Some t))) ?e)"
      by (rule seal_steps_step [OF assms(1,2,4,5) l])
    ultimately show ?thesis
      by simp
  qed
  from context_performs [OF this, of isl Cipher_ctx_failed Encrypt_failed] show ?thesis
    unfolding aes_gcm_seal_calls_def aes_gcm_seal_def
    by (cases ?e) (auto simp: or_throw_def)
qed

lemma aes_gcm_open_performs:
  assumes "gcm_setup_documented E" and "gcm_decrypt_documented E L"
    and "length key = 32" and "length nonce = 12" and "length tag = 16"
  shows "performs E any_heap isl (aes_gcm_open_calls E key nonce aad ct tag) (aes_gcm_open L key nonce aad ct tag)"
  unfolding aes_gcm_open_calls_def aes_gcm_open_def
  by (intro context_performs [OF open_steps_step [OF assms]]) simp_all

subsection \<open>SHA-256, HKDF and random bytes\<close>

definition EVP_MAX_MD_SIZE :: nat where "EVP_MAX_MD_SIZE = 64"

definition sha256_calls :: "evp \<Rightarrow> libs \<Rightarrow> bytes \<Rightarrow> (crypto_error + bytes) act" where
  "sha256_calls E L data =
     (let out = resize EVP_MAX_MD_SIZE []
      in act_bind (lib_plain E (evp_sha256 L data)) (\<lambda>r. case r of
           None \<Rightarrow> act_return (Inl Digest_failed)
         | Some d \<Rightarrow> act_bind (write_at out 0 d) (\<lambda>out'. act_return (Inr (resize (length d) out')))))"

text \<open>What \<open>EVP_KDF_derive\<close> makes of the parameters that \<open>hkdf_run\<close> builds for its two callers.\<close>

definition kdf_documented :: "evp \<Rightarrow> libs \<Rightarrow> bool" where
  "kdf_documented E L \<longleftrightarrow>
     (\<forall>s k n. EVP_KDF_derive E (kdf_params EXTRACT_ONLY s k []) n = evp_hkdf_extract L s k n) \<and>
     (\<forall>k i n. EVP_KDF_derive E (kdf_params EXPAND_ONLY [] k i) n = evp_hkdf_expand L k i n)"

definition kdf_ctx_new_calls :: "evp \<Rightarrow> obj_ref \<Rightarrow> obj_ref act" where
  "kdf_ctx_new_calls E kdf = act_bind (deref kdf) (\<lambda>ob. lib_new E Kdf_ctx)"

definition hkdf_run_calls :: "evp \<Rightarrow> hkdf_mode \<Rightarrow> bytes \<Rightarrow> bytes \<Rightarrow> bytes \<Rightarrow> nat \<Rightarrow> (kdf_error + bytes) act" where
  "hkdf_run_calls E mode salt_or_unused key info out_len =
     act_bind (lib_new E Kdf_method) (\<lambda>kdf.
     if kdf = nullptr then act_return (Inl Kdf_fetch_failed)
     else act_bind (kdf_ctx_new_calls E kdf) (\<lambda>ctx. act_bind (lib_free kdf) (\<lambda>_.
     if ctx = nullptr then act_return (Inl Kdf_ctx_failed)
     else let out = resize out_len []
       in act_bind (lib_call E ctx (\<lambda>ob. map_option (\<lambda>k. (k, ob))
            (EVP_KDF_derive E (kdf_params mode salt_or_unused key info) (length out)))) (\<lambda>r.
          case r of
            None \<Rightarrow> act_bind (lib_free ctx) (\<lambda>_. act_return (Inl Kdf_derive_failed))
          | Some k \<Rightarrow> act_bind (write_at out 0 k) (\<lambda>out'. act_bind (lib_free ctx) (\<lambda>_. act_return (Inr out')))))))"

definition kdf_throw :: "kdf_error + bytes \<Rightarrow> crypto_error + bytes" where
  "kdf_throw r = (case r of Inl e \<Rightarrow> Inl Kdf_failed | Inr k \<Rightarrow> Inr k)"

definition hkdf_extract_calls :: "evp \<Rightarrow> bytes \<Rightarrow> bytes \<Rightarrow> (crypto_error + bytes) act" where
  "hkdf_extract_calls E salt ikm =
     act_bind (hkdf_run_calls E EXTRACT_ONLY salt ikm [] 32) (\<lambda>r. act_return (kdf_throw r))"

definition hkdf_expand_calls :: "evp \<Rightarrow> bytes \<Rightarrow> bytes \<Rightarrow> nat \<Rightarrow> (crypto_error + bytes) act" where
  "hkdf_expand_calls E prk info out_len =
     act_bind (hkdf_run_calls E EXPAND_ONLY [] prk info out_len) (\<lambda>r. act_return (kdf_throw r))"

text \<open>\<open>RAND_bytes\<close> in \<open>random_bytes\<close> of \<open>handshake.cpp\<close>.\<close>

definition random_bytes_calls :: "evp \<Rightarrow> libs \<Rightarrow> seed \<Rightarrow> nat \<Rightarrow> (unit + bytes) act" where
  "random_bytes_calls E L r n =
     (let b = resize n []
      in act_bind (lib_plain E (rand_bytes L r n)) (\<lambda>res. case res of
           None \<Rightarrow> act_return (Inl ())
         | Some d \<Rightarrow> act_bind (write_at b 0 d) (\<lambda>b'. act_return (Inr b'))))"

text \<open>The documented sizes of a digest and of derived keys.\<close>

definition digests_fit :: "libs \<Rightarrow> bool" where
  "digests_fit L \<longleftrightarrow> (\<forall>d h. evp_sha256 L d = Some h \<longrightarrow> length h \<le> EVP_MAX_MD_SIZE) \<and>
     (\<forall>s i n k. evp_hkdf_extract L s i n = Some k \<longrightarrow> length k = n)"

lemma sha256_performs:
  assumes "digests_fit L"
  shows "performs E any_heap isl (sha256_calls E L d) (sha256 L d)"
proof (rule performsI)
  fix h :: objects
  have "length r \<le> EVP_MAX_MD_SIZE" if "evp_sha256 L d = Some r" for r
    using assms that by (simp add: digests_fit_def)
  then show "runs (sha256_calls E L d) h (\<lambda>res h'. live h' = live h \<and> next_handle h \<le> next_handle h' \<and>
      calls h \<le> calls h' \<and> (res = sha256 L d \<or> isl res \<and> call_failed E h h'))"
    by (auto simp: sha256_calls_def sha256_def or_throw_def runs_simps split: option.split intro: call_failedI)
qed

lemma random_bytes_performs:
  assumes "libs_sized L"
  shows "performs E any_heap isl (random_bytes_calls E L r n) (or_throw (rand_bytes L r n) ())"
proof (rule performsI)
  fix h :: objects
  have "length b = n" if "rand_bytes L r n = Some b" for b
    using assms that unfolding libs_sized_def by blast
  then show "runs (random_bytes_calls E L r n) h (\<lambda>res h'. live h' = live h \<and> next_handle h \<le> next_handle h' \<and>
      calls h \<le> calls h' \<and> (res = or_throw (rand_bytes L r n) () \<or> isl res \<and> call_failed E h h'))"
    by (auto simp: random_bytes_calls_def or_throw_def runs_simps split: option.split intro: call_failedI)
qed

lemma hkdf_run_performs:
  assumes "\<And>k. EVP_KDF_derive E (kdf_params mode s key info) n = Some k \<Longrightarrow> length k = n"
  shows "performs E any_heap isl (hkdf_run_calls E mode s key info n)
    (or_throw (EVP_KDF_derive E (kdf_params mode s key info) n) Kdf_derive_failed)"
  using assms
  by (intro performsI, cases "EVP_KDF_derive E (kdf_params mode s key info) n")
    (auto simp: hkdf_run_calls_def kdf_ctx_new_calls_def or_throw_def runs_simps nullptr_def fun_upd_idem_iff
      intro: call_failedI)

lemma kdf_throw_performs:
  assumes "performs E any_heap isl A (or_throw r Kdf_derive_failed)"
  shows "performs E any_heap isl (act_bind A (\<lambda>r. act_return (kdf_throw r))) (or_throw r Kdf_failed)"
  by (rule performs_bind [OF assms])
    (auto simp: kdf_throw_def or_throw_def performs_return isl_def split: option.split sum.split)

lemma hkdf_extract_performs:
  assumes "kdf_documented E L" and "digests_fit L"
  shows "performs E any_heap isl (hkdf_extract_calls E salt ikm) (hkdf_extract L salt ikm)"
proof -
  have p: "EVP_KDF_derive E (kdf_params EXTRACT_ONLY salt ikm []) 32 = evp_hkdf_extract L salt ikm 32"
    using assms(1) by (simp add: kdf_documented_def)
  have "performs E any_heap isl (hkdf_run_calls E EXTRACT_ONLY salt ikm [] 32)
      (or_throw (evp_hkdf_extract L salt ikm 32) Kdf_derive_failed)"
    using hkdf_run_performs [of E EXTRACT_ONLY salt ikm "[]" 32] assms(2)
    unfolding p by (simp add: digests_fit_def)
  then show ?thesis
    unfolding hkdf_extract_calls_def hkdf_extract_def by (rule kdf_throw_performs)
qed

lemma hkdf_expand_performs:
  assumes "kdf_documented E L" and "libs_sized L"
  shows "performs E any_heap isl (hkdf_expand_calls E prk info n) (hkdf_expand L prk info n)"
proof -
  have p: "EVP_KDF_derive E (kdf_params EXPAND_ONLY [] prk info) n = evp_hkdf_expand L prk info n"
    using assms(1) by (simp add: kdf_documented_def)
  have "length k = n" if "evp_hkdf_expand L prk info n = Some k" for k
    using assms(2) that unfolding libs_sized_def by blast
  then have "performs E any_heap isl (hkdf_run_calls E EXPAND_ONLY [] prk info n)
      (or_throw (evp_hkdf_expand L prk info n) Kdf_derive_failed)"
    using hkdf_run_performs [of E EXPAND_ONLY "[]" prk info n]
    unfolding p by simp
  then show ?thesis
    unfolding hkdf_expand_calls_def hkdf_expand_def by (rule kdf_throw_performs)
qed

definition session_keys_calls ::
  "evp \<Rightarrow> bytes \<Rightarrow> bytes \<Rightarrow> bytes \<Rightarrow> bytes \<Rightarrow> bytes \<Rightarrow> (crypto_error + session_keys) act" where
  "session_keys_calls E ss_classical ss_pq client_random server_random th =
     act_and_then (hkdf_extract_calls E (client_random @ server_random) (ss_classical @ ss_pq)) (\<lambda>prk.
     act_and_then (hkdf_expand_calls E prk (label_info ''pqsec c2s key'' th) 32) (\<lambda>k1.
     act_and_then (hkdf_expand_calls E prk (label_info ''pqsec s2c key'' th) 32) (\<lambda>k2.
     act_and_then (hkdf_expand_calls E prk (label_info ''pqsec c2s iv'' th) 12) (\<lambda>v1.
     act_and_then (hkdf_expand_calls E prk (label_info ''pqsec s2c iv'' th) 12) (\<lambda>v2.
       act_return (Inr \<lparr>c2s_key = k1, s2c_key = k2, c2s_iv = v1, s2c_iv = v2\<rparr>))))))"

lemma session_keys_performs:
  assumes "kdf_documented E L" and "libs_sized L" and "digests_fit L"
  shows "performs E any_heap isl (session_keys_calls E a b c d th) (derive_session_keys L a b c d th)"
  unfolding session_keys_calls_def derive_session_keys_def
  by (intro performs_and_then hkdf_extract_performs hkdf_expand_performs performs_return assms)

subsection \<open>ML-KEM-768 and ML-DSA-65\<close>

text \<open>
  The functions of liboqs read and write as many bytes as the algorithm's lengths say; the wrappers give
  them buffers of these lengths and check the lengths of what they are given.
\<close>

definition MlKem_create :: "evp \<Rightarrow> libs \<Rightarrow> (crypto_error + obj_ref) act" where
  "MlKem_create E L =
     act_bind (if kem_available L then lib_new E Kem else act_return nullptr) (\<lambda>kem.
     act_return (if kem = nullptr then Inl Kem_unsupported else Inr kem))"

definition MlKem_destroy :: "obj_ref \<Rightarrow> unit act" where
  "MlKem_destroy kem = lib_free kem"

definition kem_call :: "evp \<Rightarrow> obj_ref \<Rightarrow> 'a option \<Rightarrow> 'a option act" where
  "kem_call E p r = lib_call E p (\<lambda>ob. map_option (\<lambda>x. (x, ob)) r)"

definition MlKem_public_key_len :: "libs \<Rightarrow> obj_ref \<Rightarrow> nat act" where
  "MlKem_public_key_len L kem = act_bind (deref kem) (\<lambda>_. act_return (kem_public_len L))"

definition MlKem_secret_key_len :: "libs \<Rightarrow> obj_ref \<Rightarrow> nat act" where
  "MlKem_secret_key_len L kem = act_bind (deref kem) (\<lambda>_. act_return (kem_secret_len L))"

definition MlKem_ciphertext_len :: "libs \<Rightarrow> obj_ref \<Rightarrow> nat act" where
  "MlKem_ciphertext_len L kem = act_bind (deref kem) (\<lambda>_. act_return (kem_ct_len L))"

definition MlKem_shared_secret_len :: "libs \<Rightarrow> obj_ref \<Rightarrow> nat act" where
  "MlKem_shared_secret_len L kem = act_bind (deref kem) (\<lambda>_. act_return (kem_ss_len L))"

definition MlKem_keypair :: "evp \<Rightarrow> libs \<Rightarrow> seed \<Rightarrow> obj_ref \<Rightarrow> (crypto_error + key_pair) act" where
  "MlKem_keypair E L r kem =
     act_bind (MlKem_public_key_len L kem) (\<lambda>np. act_bind (MlKem_secret_key_len L kem) (\<lambda>ns.
     act_bind (kem_call E kem (oqs_kem_keypair L r)) (\<lambda>res. case res of
        None \<Rightarrow> act_return (Inl Kem_keypair_failed)
      | Some (pk, sk) \<Rightarrow>
          act_bind (write_at (resize np []) 0 pk) (\<lambda>pk'. act_bind (write_at (resize ns []) 0 sk) (\<lambda>sk'.
          act_return (Inr \<lparr>public_key = pk', secret_key = sk'\<rparr>))))))"

definition MlKem_encaps :: "evp \<Rightarrow> libs \<Rightarrow> seed \<Rightarrow> obj_ref \<Rightarrow> bytes \<Rightarrow> (crypto_error + encaps_result) act" where
  "MlKem_encaps E L r kem peer_public_key =
     act_bind (MlKem_public_key_len L kem) (\<lambda>np.
     if length peer_public_key \<noteq> np then act_return (Inl Kem_public_key_length)
     else act_bind (MlKem_ciphertext_len L kem) (\<lambda>nc. act_bind (MlKem_shared_secret_len L kem) (\<lambda>ns.
     act_bind (read_n (kem_public_len L) peer_public_key) (\<lambda>pk.
     act_bind (kem_call E kem (oqs_kem_encaps L r pk)) (\<lambda>res. case res of
        None \<Rightarrow> act_return (Inl Kem_encaps_failed)
      | Some (ct, ss) \<Rightarrow>
          act_bind (write_at (resize nc []) 0 ct) (\<lambda>ct'. act_bind (write_at (resize ns []) 0 ss) (\<lambda>ss'.
          act_return (Inr \<lparr>ciphertext = ct', shared_secret = ss'\<rparr>))))))))"

definition MlKem_decaps :: "evp \<Rightarrow> libs \<Rightarrow> obj_ref \<Rightarrow> bytes \<Rightarrow> bytes \<Rightarrow> (crypto_error + bytes) act" where
  "MlKem_decaps E L kem ct sk =
     act_bind (MlKem_ciphertext_len L kem) (\<lambda>nc.
     if length ct \<noteq> nc then act_return (Inl Kem_ciphertext_length)
     else act_bind (MlKem_secret_key_len L kem) (\<lambda>nk.
     if length sk \<noteq> nk then act_return (Inl Kem_secret_key_length)
     else act_bind (MlKem_shared_secret_len L kem) (\<lambda>ns.
     act_bind (read_n (kem_ct_len L) ct) (\<lambda>c. act_bind (read_n (kem_secret_len L) sk) (\<lambda>k.
     act_bind (kem_call E kem (oqs_kem_decaps L c k)) (\<lambda>res. case res of
        None \<Rightarrow> act_return (Inl Kem_decaps_failed)
      | Some ss \<Rightarrow> act_bind (write_at (resize ns []) 0 ss) (\<lambda>ss'. act_return (Inr ss'))))))))"

definition MlDsa_create :: "evp \<Rightarrow> libs \<Rightarrow> (crypto_error + obj_ref) act" where
  "MlDsa_create E L =
     act_bind (if sig_available L then lib_new E Sig else act_return nullptr) (\<lambda>sig.
     act_return (if sig = nullptr then Inl Sig_unsupported else Inr sig))"

definition MlDsa_destroy :: "obj_ref \<Rightarrow> unit act" where
  "MlDsa_destroy sig = lib_free sig"

definition sig_call :: "evp \<Rightarrow> obj_ref \<Rightarrow> 'a option \<Rightarrow> 'a option act" where
  "sig_call E p r = lib_call E p (\<lambda>ob. map_option (\<lambda>x. (x, ob)) r)"

definition MlDsa_public_key_len :: "libs \<Rightarrow> obj_ref \<Rightarrow> nat act" where
  "MlDsa_public_key_len L sig = act_bind (deref sig) (\<lambda>_. act_return (sig_public_len L))"

definition MlDsa_secret_key_len :: "libs \<Rightarrow> obj_ref \<Rightarrow> nat act" where
  "MlDsa_secret_key_len L sig = act_bind (deref sig) (\<lambda>_. act_return (sig_secret_len L))"

definition MlDsa_max_signature_len :: "libs \<Rightarrow> obj_ref \<Rightarrow> nat act" where
  "MlDsa_max_signature_len L sig = act_bind (deref sig) (\<lambda>_. act_return (sig_max_len L))"

definition MlDsa_keypair :: "evp \<Rightarrow> libs \<Rightarrow> seed \<Rightarrow> obj_ref \<Rightarrow> (crypto_error + key_pair) act" where
  "MlDsa_keypair E L r sig =
     act_bind (MlDsa_public_key_len L sig) (\<lambda>np. act_bind (MlDsa_secret_key_len L sig) (\<lambda>ns.
     act_bind (sig_call E sig (oqs_sig_keypair L r)) (\<lambda>res. case res of
        None \<Rightarrow> act_return (Inl Sig_keypair_failed)
      | Some (pk, sk) \<Rightarrow>
          act_bind (write_at (resize np []) 0 pk) (\<lambda>pk'. act_bind (write_at (resize ns []) 0 sk) (\<lambda>sk'.
          act_return (Inr \<lparr>public_key = pk', secret_key = sk'\<rparr>))))))"

definition MlDsa_sign :: "evp \<Rightarrow> libs \<Rightarrow> seed \<Rightarrow> obj_ref \<Rightarrow> bytes \<Rightarrow> bytes \<Rightarrow> (crypto_error + bytes) act" where
  "MlDsa_sign E L r sig message secret =
     act_bind (MlDsa_secret_key_len L sig) (\<lambda>ns.
     if length secret \<noteq> ns then act_return (Inl Sig_secret_key_length)
     else act_bind (MlDsa_max_signature_len L sig) (\<lambda>nm.
     act_bind (read_n (sig_secret_len L) secret) (\<lambda>sk.
     act_bind (sig_call E sig (oqs_sig_sign L r message sk)) (\<lambda>res. case res of
        None \<Rightarrow> act_return (Inl Sig_sign_failed)
      | Some s \<Rightarrow> act_bind (write_at (resize nm []) 0 s) (\<lambda>signature.
          act_return (Inr (resize (length s) signature)))))))"

text \<open>Verification: a failed call is a failed verification.\<close>

definition MlDsa_verify :: "evp \<Rightarrow> libs \<Rightarrow> obj_ref \<Rightarrow> bytes \<Rightarrow> bytes \<Rightarrow> bytes \<Rightarrow> bool act" where
  "MlDsa_verify E L sig message signature pub =
     act_bind (MlDsa_public_key_len L sig) (\<lambda>np.
     if length pub \<noteq> np then act_return False
     else act_bind (read_n (sig_public_len L) pub) (\<lambda>pk.
     act_bind (sig_call E sig (if oqs_sig_verify L message signature pk then Some () else None)) (\<lambda>res.
     act_return (res = Some ()))))"

text \<open>The documented length of a decapsulated secret.\<close>

definition secrets_fit :: "libs \<Rightarrow> bool" where
  "secrets_fit L \<longleftrightarrow> (\<forall>ct sk ss. oqs_kem_decaps L ct sk = Some ss \<longrightarrow> length ss = kem_ss_len L)"

lemmas kem_len_defs = MlKem_public_key_len_def MlKem_secret_key_len_def MlKem_ciphertext_len_def
  MlKem_shared_secret_len_def MlDsa_public_key_len_def MlDsa_secret_key_len_def MlDsa_max_signature_len_def

lemma sized_facts:
  assumes "libs_sized L"
  shows "oqs_kem_keypair L r = Some (pk, sk) \<Longrightarrow> length pk = kem_public_len L \<and> length sk = kem_secret_len L"
    and "oqs_kem_encaps L r pk = Some (ct, ss) \<Longrightarrow> length ct = kem_ct_len L \<and> length ss = kem_ss_len L"
    and "oqs_sig_keypair L r = Some (pk, sk) \<Longrightarrow> length pk = sig_public_len L \<and> length sk = sig_secret_len L"
    and "oqs_sig_sign L r m sk = Some s \<Longrightarrow> length s \<le> sig_max_len L"
proof -
  note a = assms [unfolded libs_sized_def]
  note a1 = conjunct1 [OF a] and a2 = conjunct1 [OF conjunct2 [OF a]] and a3 = conjunct1 [OF conjunct2 [OF conjunct2 [OF a]]]
    and a5 = conjunct1 [OF conjunct2 [OF conjunct2 [OF conjunct2 [OF conjunct2 [OF a]]]]]
  show "oqs_kem_keypair L r = Some (pk, sk) \<Longrightarrow> length pk = kem_public_len L \<and> length sk = kem_secret_len L"
    using a1 by simp
  show "oqs_kem_encaps L r pk = Some (ct, ss) \<Longrightarrow> length ct = kem_ct_len L \<and> length ss = kem_ss_len L"
    using a2 by (elim allE [of _ r] allE [of _ pk] allE [of _ ct] allE [of _ ss]) simp
  show "oqs_sig_keypair L r = Some (pk, sk) \<Longrightarrow> length pk = sig_public_len L \<and> length sk = sig_secret_len L"
    using a3 by simp
  show "oqs_sig_sign L r m sk = Some s \<Longrightarrow> length s \<le> sig_max_len L"
    using a5 by (elim allE [of _ r] allE [of _ m] allE [of _ sk] allE [of _ s]) simp
qed

lemma MlKem_keypair_performs:
  assumes "libs_sized L"
  shows "performs E (holds_at p Kem) isl (MlKem_keypair E L r p) (mlkem_keypair L r)"
proof -
  have "length pk = kem_public_len L \<and> length sk = kem_secret_len L" if "oqs_kem_keypair L r = Some (pk, sk)" for pk sk
    using that by (rule sized_facts [OF assms])
  then show ?thesis
    by (intro performsI, cases "oqs_kem_keypair L r")
      (auto simp: MlKem_keypair_def kem_len_defs kem_call_def mlkem_keypair_def runs_simps holds_at_def
        fun_upd_idem_iff intro: call_failedI)
qed

lemma MlKem_encaps_performs:
  assumes "libs_sized L"
  shows "performs E (holds_at p Kem) isl (MlKem_encaps E L r p pk) (mlkem_encaps L r pk)"
proof -
  have "length ct = kem_ct_len L \<and> length ss = kem_ss_len L" if "oqs_kem_encaps L r pk = Some (ct, ss)" for ct ss
    using that by (rule sized_facts [OF assms])
  then show ?thesis
    by (intro performsI, cases "oqs_kem_encaps L r pk")
      (auto simp: MlKem_encaps_def kem_len_defs kem_call_def mlkem_encaps_def runs_simps holds_at_def
        fun_upd_idem_iff intro: call_failedI)
qed

lemma MlKem_decaps_performs:
  assumes "secrets_fit L"
  shows "performs E (holds_at p Kem) isl (MlKem_decaps E L p ct sk) (mlkem_decaps L ct sk)"
proof -
  have "length ss = kem_ss_len L" if "oqs_kem_decaps L ct sk = Some ss" for ss
    using assms that unfolding secrets_fit_def by blast
  then show ?thesis
    by (intro performsI, cases "oqs_kem_decaps L ct sk")
      (auto simp: MlKem_decaps_def kem_len_defs kem_call_def mlkem_decaps_def runs_simps holds_at_def
        fun_upd_idem_iff intro: call_failedI)
qed

lemma MlDsa_keypair_performs:
  assumes "libs_sized L"
  shows "performs E (holds_at p Sig) isl (MlDsa_keypair E L r p) (mldsa_keypair L r)"
proof -
  have "length pk = sig_public_len L \<and> length sk = sig_secret_len L" if "oqs_sig_keypair L r = Some (pk, sk)" for pk sk
    using that by (rule sized_facts [OF assms])
  then show ?thesis
    by (intro performsI, cases "oqs_sig_keypair L r")
      (auto simp: MlDsa_keypair_def kem_len_defs sig_call_def mldsa_keypair_def runs_simps holds_at_def
        fun_upd_idem_iff intro: call_failedI)
qed

lemma MlDsa_sign_performs:
  assumes "libs_sized L"
  shows "performs E (holds_at p Sig) isl (MlDsa_sign E L r p m sk) (mldsa_sign L r m sk)"
proof -
  have "length s \<le> sig_max_len L" if "oqs_sig_sign L r m sk = Some s" for s
    using that by (rule sized_facts [OF assms])
  then show ?thesis
    by (intro performsI, cases "oqs_sig_sign L r m sk")
      (auto simp: MlDsa_sign_def kem_len_defs sig_call_def mldsa_sign_def runs_simps holds_at_def
        fun_upd_idem_iff intro: call_failedI)
qed

lemma MlDsa_verify_performs:
  "performs E (holds_at p Sig) (\<lambda>ok. \<not> ok) (MlDsa_verify E L p m s pk) (mldsa_verify L m s pk)"
  by (rule performsI)
    (auto simp: MlDsa_verify_def kem_len_defs sig_call_def mldsa_verify_def runs_simps holds_at_def
      fun_upd_idem_iff intro: call_failedI)

subsection \<open>The three classes\<close>

interpretation kem_class: library_class E "MlKem_create E L" "mlkem_new L" "\<lambda>_. Kem" for E L
  by unfold_locales
    (auto simp: MlKem_create_def mlkem_new_def runs_simps nullptr_def objects_ok_def intro: call_failedI)

interpretation sig_class: library_class E "MlDsa_create E L" "mldsa_new L" "\<lambda>_. Sig" for E L
  by unfold_locales
    (auto simp: MlDsa_create_def mldsa_new_def runs_simps nullptr_def objects_ok_def intro: call_failedI)

text \<open>The constructor of \<open>X25519\<close> keeps the promise where OpenSSL keeps its documentation.\<close>

lemma X25519_create_spec:
  assumes "x25519_documented E L" and "objects_ok h"
  shows "runs (X25519_create E r) h (\<lambda>res h'. objects_ok h' \<and> calls h \<le> calls h' \<and>
      (case res of
         Inl e \<Rightarrow> live h' = live h \<and> (x25519_new L r = Inl e \<or> call_failed E h h')
       | Inr p \<Rightarrow> p \<noteq> nullptr \<and> live h p = None \<and>
           (\<exists>x. x25519_new L r = Inr x \<and> live h' = (live h)(p \<mapsto> Private_key x))))"
proof -
  have laws: "EVP_PKEY_keygen_init E (Keygen_ctx False) = Some ((), Keygen_ctx True)"
    "EVP_PKEY_keygen E r (Keygen_ctx True) = map_option (\<lambda>x. (Private_key x, Keygen_ctx True)) (evp_x25519_keygen L r)"
    using assms(1) by (simp_all add: x25519_documented_def)
  have "0 < next_handle h" "live h (next_handle h) = None" "live h (Suc (next_handle h)) = None"
    using assms(2) by (auto simp: objects_ok_def)
  then show ?thesis
    using assms(2)
    by (cases "evp_x25519_keygen L r")
      (auto simp: X25519_create_def keygen_def laws x25519_new_def or_throw_def runs_simps
        nullptr_def objects_ok_def fun_upd_idem_iff fun_upd_twist intro: call_failedI)
qed

subsection \<open>The laws together\<close>

definition libs_documented :: "evp \<Rightarrow> libs \<Rightarrow> bool" where
  "libs_documented E L \<longleftrightarrow> x25519_documented E L \<and> gcm_setup_documented E \<and> gcm_encrypt_documented E L \<and>
     gcm_decrypt_documented E L \<and> kdf_documented E L \<and> libs_sized L \<and> digests_fit L \<and> secrets_fit L"

text \<open>Small libraries that keep them, with one call that fails.\<close>

definition fit_libs :: libs where
  "fit_libs = toy_libs\<lparr>evp_sha256 := \<lambda>d. Some (pad32 d),
     evp_hkdf_extract := \<lambda>s i n. Some (take n (s @ i @ replicate n 0))\<rparr>"

definition toy_cipher :: "lib_object \<Rightarrow> gcm_state" where
  "toy_cipher ob = (case ob of Cipher_ctx g \<Rightarrow> g | _ \<Rightarrow> gcm_fresh)"

definition toy_evp :: "nat \<Rightarrow> evp" where
  "toy_evp n = \<lparr>ev_ok = \<lambda>i. i \<noteq> n,
     EVP_PKEY_keygen_init = \<lambda>ob. Some ((), Keygen_ctx True),
     EVP_PKEY_keygen = \<lambda>r ob. map_option (\<lambda>x. (Private_key x, ob)) (evp_x25519_keygen fit_libs r),
     EVP_PKEY_get_raw_public_key = \<lambda>m ob. (case ob of
        Private_key x \<Rightarrow> (case evp_x25519_public fit_libs x of
            None \<Rightarrow> None
          | Some pk \<Rightarrow> if length pk \<le> m then Some (pk, ob) else None)
      | _ \<Rightarrow> None),
     EVP_PKEY_CTX_new = \<lambda>ob. (case ob of Private_key x \<Rightarrow> Derive_ctx x False None | _ \<Rightarrow> ob),
     EVP_PKEY_derive_init = \<lambda>ob. (case ob of Derive_ctx x b q \<Rightarrow> Some ((), Derive_ctx x True q) | _ \<Rightarrow> None),
     EVP_PKEY_derive_set_peer = \<lambda>peer ob. (case (ob, peer) of
        (Derive_ctx x b q, Public_key y) \<Rightarrow> Some ((), Derive_ctx x b (Some y))
      | _ \<Rightarrow> None),
     EVP_PKEY_derive_size = \<lambda>ob. Some (32, ob),
     EVP_PKEY_derive = \<lambda>m ob. (case ob of
        Derive_ctx x True (Some y) \<Rightarrow> (case evp_x25519_derive fit_libs x y of
            None \<Rightarrow> None
          | Some s \<Rightarrow> if length s \<le> m then Some (s, ob) else None)
      | _ \<Rightarrow> None),
     EVP_Init_cipher = \<lambda>enc ob. Some ((), Cipher_ctx ((toy_cipher ob)\<lparr>gs_mode := Some enc\<rparr>)),
     EVP_CTRL_SET_IVLEN = \<lambda>m ob. Some ((), Cipher_ctx ((toy_cipher ob)\<lparr>gs_ivlen := m\<rparr>)),
     EVP_Init_reads = \<lambda>ob. (32, gs_ivlen (toy_cipher ob)),
     EVP_Init_key = \<lambda>enc k m ob. Some ((), Cipher_ctx ((toy_cipher ob)\<lparr>gs_key := Some (k, m)\<rparr>)),
     EVP_Update_aad = \<lambda>enc a ob. Some ((), Cipher_ctx ((toy_cipher ob)\<lparr>gs_aad := a\<rparr>)),
     EVP_Update = \<lambda>enc d ob. (case gs_key (toy_cipher ob) of
        None \<Rightarrow> None
      | Some (k, m) \<Rightarrow> Some (map (\<lambda>b. if enc then b + first_byte k else b - first_byte k) d,
          Cipher_ctx ((toy_cipher ob)\<lparr>gs_in := d\<rparr>))),
     EVP_Final = \<lambda>enc ob. (case (gs_key (toy_cipher ob), gs_tag (toy_cipher ob)) of
        (Some (k, m), t) \<Rightarrow>
          if enc then Some ([], Cipher_ctx ((toy_cipher ob)\<lparr>gs_tag := Some (toy_tag m (gs_aad (toy_cipher ob)) (gs_in (toy_cipher ob)))\<rparr>))
          else map_option (\<lambda>_. ([], ob)) (evp_gcm_decrypt toy_libs k m (gs_aad (toy_cipher ob)) (gs_in (toy_cipher ob)) (the t))
      | _ \<Rightarrow> None),
     EVP_CTRL_GET_TAG = \<lambda>m ob. map_option (\<lambda>t. (take m t, ob)) (gs_tag (toy_cipher ob)),
     EVP_CTRL_SET_TAG = \<lambda>t ob. Some ((), Cipher_ctx ((toy_cipher ob)\<lparr>gs_tag := Some t\<rparr>)),
     EVP_KDF_derive = \<lambda>ps m. (case ps of
        [_, _, Param_key k, Param_salt s] \<Rightarrow> evp_hkdf_extract fit_libs s k m
      | [_, _, Param_key k, Param_info i] \<Rightarrow> evp_hkdf_expand fit_libs k i m
      | _ \<Rightarrow> None)\<rparr>"

definition no_objects :: objects where
  "no_objects = \<lparr>live = Map.empty, next_handle = 1, calls = 0\<rparr>"

lemma no_objects_ok: "objects_ok no_objects"
  by (simp add: objects_ok_def no_objects_def)

lemma length_pad32: "length (pad32 x) = 32"
  by (simp add: pad32_def)

lemma toy_documented: "libs_documented (toy_evp n) fit_libs"
  unfolding libs_documented_def
proof (intro conjI)
  show "libs_sized fit_libs"
    using toy_libs_ok(2) by (simp add: libs_sized_def fit_libs_def)
  show "digests_fit fit_libs"
    by (auto simp: digests_fit_def fit_libs_def length_pad32 EVP_MAX_MD_SIZE_def min_def)
  show "secrets_fit fit_libs"
    by (simp add: secrets_fit_def fit_libs_def toy_libs_def)
  show "x25519_documented (toy_evp n) fit_libs"
    unfolding x25519_documented_def
    by (auto simp: toy_evp_def fit_libs_def toy_libs_def length_pad32 split: option.split)
  show "gcm_setup_documented (toy_evp n)"
    by (simp add: gcm_setup_documented_def toy_evp_def toy_cipher_def gcm_ready_def)
  show "gcm_encrypt_documented (toy_evp n) fit_libs"
    by (simp add: gcm_encrypt_documented_def toy_evp_def toy_cipher_def gcm_ready_def fit_libs_def toy_libs_def)
  show "gcm_decrypt_documented (toy_evp n) fit_libs"
    unfolding gcm_decrypt_documented_def
    by (auto simp: toy_evp_def toy_cipher_def gcm_ready_def fit_libs_def toy_libs_def Let_def split: if_splits)
  show "kdf_documented (toy_evp n) fit_libs"
    by (simp add: kdf_documented_def toy_evp_def kdf_params_def)
qed

end
