(* ===== verification/Handshake_Calls.thy ===== *)
theory Handshake_Calls
  imports Lib_Calls Handshake
begin

section \<open>The handshake down to the library calls\<close>

text \<open>
  \<open>handshake.cpp\<close> again, over the call sequences of \<open>Lib_Calls\<close>: the objects \<open>kem\<close>, \<open>dsa\<close> and \<open>x\<close> are local variables of the handshake functions, made in this order and
  destroyed when the function is left in whatever way.
\<close>

type_synonym 'a hs_act = "transport \<Rightarrow> ((hs_error + 'a) \<times> transport) act"

definition hsa_bind :: "'a hs_act \<Rightarrow> ('a \<Rightarrow> 'b hs_act) \<Rightarrow> 'b hs_act" where
  "hsa_bind A K t = act_bind (A t) (\<lambda>r. case fst r of Inl e \<Rightarrow> act_return (Inl e, snd r) | Inr x \<Rightarrow> K x (snd r))"

text \<open>A wrapper that may throw; a verification; and a step without library calls.\<close>

definition hsa_lift :: "('e \<Rightarrow> hs_error) \<Rightarrow> ('e + 'a) act \<Rightarrow> 'a hs_act" where
  "hsa_lift err A t = act_bind A (\<lambda>r. act_return (hs_lift err r t))"

definition hsa_check :: "bool act \<Rightarrow> hs_error \<Rightarrow> unit hs_act" where
  "hsa_check A e t = act_bind A (\<lambda>b. act_return (hs_check b e t))"

definition hsa_step :: "'a hs \<Rightarrow> 'a hs_act" where
  "hsa_step f t = act_return (f t)"

definition hsa_local :: "(crypto_error + obj_ref) act \<Rightarrow> (obj_ref \<Rightarrow> unit act) \<Rightarrow> (obj_ref \<Rightarrow> 'a hs_act) \<Rightarrow> 'a hs_act" where
  "hsa_local create destroy body t = in_scope create destroy (\<lambda>e. (Inl (Hs_crypto e), t)) (\<lambda>p. body p t)"

definition transcript_calls :: "evp \<Rightarrow> libs \<Rightarrow> bytes \<Rightarrow> bytes hs_act" where
  "transcript_calls E L acc = hsa_lift Hs_crypto (sha256_calls E L acc)"

definition client_handshake_calls :: "evp \<Rightarrow> libs \<Rightarrow> identity \<Rightarrow> hs_seeds \<Rightarrow> channel hs_act" where
  "client_handshake_calls E L i sd =
     hsa_local (MlKem_create E L) MlKem_destroy (\<lambda>kem.
     hsa_local (MlDsa_create E L) MlDsa_destroy (\<lambda>dsa.
     hsa_local (X25519_create E (sd_x25519 sd)) X25519_destroy (\<lambda>x_client.
     hsa_bind (hsa_lift Hs_crypto (MlKem_keypair E L (sd_kem sd) kem)) (\<lambda>kem_kp.
     hsa_bind (hsa_lift (\<lambda>_. Hs_random_failed) (random_bytes_calls E L (sd_random sd) kRandomLen)) (\<lambda>client_random.
     hsa_bind (hsa_lift Hs_crypto (X25519_public_key E x_client)) (\<lambda>px.
     hsa_bind (hsa_step (hs_lift Hs_wire (serialize_client_hello
        \<lparr>ch_random = client_random, ch_x25519 = px, ch_mlkem = public_key kem_kp\<rparr>))) (\<lambda>ch_frame.
     hsa_bind (hsa_step (hs_send ch_frame)) (\<lambda>_.
     hsa_bind (hsa_step hs_recv) (\<lambda>sh_frame.
     hsa_bind (hsa_step (hs_lift Hs_wire (parse_server_hello sh_frame))) (\<lambda>sh.
     hsa_bind (hsa_lift Hs_crypto (X25519_compute_shared E x_client (sh_x25519 sh))) (\<lambda>ss_classical.
     hsa_bind (hsa_lift Hs_crypto (MlKem_decaps E L kem (sh_mlkem_ct sh) (secret_key kem_kp))) (\<lambda>ss_pq.
     hsa_bind (transcript_calls E L (ch_frame @ sh_frame)) (\<lambda>th.
     hsa_bind (hsa_lift Hs_crypto
        (session_keys_calls E ss_classical ss_pq client_random (sh_random sh) th)) (\<lambda>keys.
     hsa_bind (hsa_step hs_recv) (\<lambda>sa_frame.
     hsa_bind (hsa_step (hs_lift Hs_wire (parse_server_auth sa_frame))) (\<lambda>sa.
     hsa_bind (hsa_check (MlDsa_verify E L dsa th (sa_signature sa) (peer_sig_public i))
        Server_signature_invalid) (\<lambda>_.
     hsa_bind (transcript_calls E L ((ch_frame @ sh_frame) @ sa_frame)) (\<lambda>th2.
     hsa_bind (hsa_lift Hs_crypto (MlDsa_sign E L (sd_sign sd) dsa th2 (sig_secret i))) (\<lambda>client_sig.
     hsa_bind (hsa_step (hs_lift Hs_wire (serialize_client_auth (Client_Auth client_sig)))) (\<lambda>ca_frame.
     hsa_bind (hsa_step (hs_send ca_frame)) (\<lambda>_.
     hsa_step (make_channel (c2s_key keys) (c2s_iv keys) (s2c_key keys) (s2c_iv keys)))))))))))))))))))))))"

definition server_handshake_calls :: "evp \<Rightarrow> libs \<Rightarrow> identity \<Rightarrow> hs_seeds \<Rightarrow> channel hs_act" where
  "server_handshake_calls E L i sd =
     hsa_local (MlKem_create E L) MlKem_destroy (\<lambda>kem.
     hsa_local (MlDsa_create E L) MlDsa_destroy (\<lambda>dsa.
     hsa_local (X25519_create E (sd_x25519 sd)) X25519_destroy (\<lambda>x_server.
     hsa_bind (hsa_step hs_recv) (\<lambda>ch_frame.
     hsa_bind (hsa_step (hs_lift Hs_wire (parse_client_hello ch_frame))) (\<lambda>ch.
     hsa_bind (hsa_lift Hs_crypto (MlKem_encaps E L (sd_kem sd) kem (ch_mlkem ch))) (\<lambda>enc.
     hsa_bind (hsa_lift (\<lambda>_. Hs_random_failed) (random_bytes_calls E L (sd_random sd) kRandomLen)) (\<lambda>server_random.
     hsa_bind (hsa_lift Hs_crypto (X25519_public_key E x_server)) (\<lambda>px.
     hsa_bind (hsa_step (hs_lift Hs_wire (serialize_server_hello
        \<lparr>sh_random = server_random, sh_x25519 = px, sh_mlkem_ct = ciphertext enc\<rparr>))) (\<lambda>sh_frame.
     hsa_bind (hsa_step (hs_send sh_frame)) (\<lambda>_.
     hsa_bind (hsa_lift Hs_crypto (X25519_compute_shared E x_server (ch_x25519 ch))) (\<lambda>ss_classical.
     hsa_bind (transcript_calls E L (ch_frame @ sh_frame)) (\<lambda>th.
     hsa_bind (hsa_lift Hs_crypto
        (session_keys_calls E ss_classical (shared_secret enc) (ch_random ch) server_random th)) (\<lambda>keys.
     hsa_bind (hsa_lift Hs_crypto (MlDsa_sign E L (sd_sign sd) dsa th (sig_secret i))) (\<lambda>server_sig.
     hsa_bind (hsa_step (hs_lift Hs_wire (serialize_server_auth (Server_Auth server_sig)))) (\<lambda>sa_frame.
     hsa_bind (hsa_step (hs_send sa_frame)) (\<lambda>_.
     hsa_bind (hsa_step hs_recv) (\<lambda>ca_frame.
     hsa_bind (hsa_step (hs_lift Hs_wire (parse_client_auth ca_frame))) (\<lambda>ca.
     hsa_bind (transcript_calls E L ((ch_frame @ sh_frame) @ sa_frame)) (\<lambda>th2.
     hsa_bind (hsa_check (MlDsa_verify E L dsa th2 (ca_signature ca) (peer_sig_public i))
        Client_signature_invalid) (\<lambda>_.
     hsa_step (make_channel (s2c_key keys) (s2c_iv keys) (c2s_key keys) (c2s_iv keys))))))))))))))))))))))"

subsection \<open>Refinement of steps\<close>

definition hs_throws :: "(hs_error + 'a) \<times> transport \<Rightarrow> bool" where
  "hs_throws r \<longleftrightarrow> isl (fst r)"

definition refines :: "evp \<Rightarrow> ((obj_ref \<Rightarrow> lib_object option) \<Rightarrow> bool) \<Rightarrow> 'a hs_act \<Rightarrow> 'a hs \<Rightarrow> bool" where
  "refines E P A B \<longleftrightarrow> (\<forall>t. performs E P hs_throws (A t) (B t))"

lemma refines_step: "refines E P (hsa_step f) f"
  by (simp add: refines_def hsa_step_def performs_return)

lemma refines_bind:
  assumes "refines E P A B" and "\<And>x. refines E P (K x) (k x)"
  shows "refines E P (hsa_bind A K) (hs_bind B k)"
  unfolding refines_def
proof
  fix t
  have "performs E P hs_throws (case fst (B t) of Inl e \<Rightarrow> act_return (Inl e, snd (B t)) | Inr x \<Rightarrow> K x (snd (B t)))
      (hs_bind B k t)"
    using assms(2) by (auto simp: hs_bind_def refines_def case_prod_unfold performs_return split: sum.split)
  then show "performs E P hs_throws (hsa_bind A K t) (hs_bind B k t)"
    unfolding hsa_bind_def
    by (rule performs_bind [OF assms(1) [unfolded refines_def, rule_format]])
      (auto simp: hs_throws_def isl_def)
qed

lemma refines_lift:
  assumes "performs E Q isl A r" and "\<And>l. P l \<Longrightarrow> Q l"
  shows "refines E P (hsa_lift err A) (hs_lift err r)"
  unfolding refines_def hsa_lift_def
  by (intro allI performs_bind [OF performs_weaken [OF assms]])
    (auto simp: performs_return hs_throws_def hs_lift_def isl_def)

lemma refines_check:
  assumes "performs E Q (\<lambda>ok. \<not> ok) A b" and "\<And>l. P l \<Longrightarrow> Q l"
  shows "refines E P (hsa_check A e) (hs_check b e)"
  unfolding refines_def hsa_check_def
  by (intro allI performs_bind [OF performs_weaken [OF assms]])
    (auto simp: performs_return hs_throws_def hs_check_def)

lemma refines_transcript: "digests_fit L \<Longrightarrow> refines E P (transcript_calls E L acc) (transcript L acc)"
  unfolding transcript_calls_def transcript_def
  by (rule refines_lift [OF sha256_performs]) (simp_all add: any_heap_def)

lemma refines_random:
  "libs_sized L \<Longrightarrow> refines E P (hsa_lift (\<lambda>_. Hs_random_failed) (random_bytes_calls E L r n)) (random_bytes L r n)"
  unfolding random_bytes_def
  by (rule refines_lift [OF random_bytes_performs]) (simp_all add: any_heap_def)

text \<open>A local object of the handshake.\<close>

locale handshake_class = library_class E create promised holds
  for E :: evp and create :: "(crypto_error + obj_ref) act" and promised :: "crypto_error + 'a"
    and holds :: "'a \<Rightarrow> lib_object"
begin

lemma refines_local:
  assumes "\<And>x p. refines E (\<lambda>l. P l \<and> holds_at p (holds x) l) (body p) (k x)"
    and "\<And>l p ob. P l \<Longrightarrow> l p = None \<Longrightarrow> P (l(p \<mapsto> ob))"
  shows "refines E P (hsa_local create lib_free body) (hs_bind (hs_lift Hs_crypto promised) k)"
  unfolding refines_def
proof
  fix t
  have "performs E P hs_throws (hsa_local create lib_free body t)
      (case promised of Inl e \<Rightarrow> (Inl (Hs_crypto e), t) | Inr x \<Rightarrow> k x t)"
    unfolding hsa_local_def
    by (rule scope_performs) (use assms in \<open>auto simp: refines_def hs_throws_def\<close>)
  then show "performs E P hs_throws (hsa_local create lib_free body t) (hs_bind (hs_lift Hs_crypto promised) k t)"
    by (simp add: hs_bind_def hs_lift_def split: sum.splits)
qed

end

interpretation kem_local: handshake_class E "MlKem_create E L" "mlkem_new L" "\<lambda>_. Kem" for E L
  by unfold_locales

interpretation sig_local: handshake_class E "MlDsa_create E L" "mldsa_new L" "\<lambda>_. Sig" for E L
  by unfold_locales

text \<open>The functions of \<open>Handshake\<close> as one sequence of steps.\<close>

lemma hs_bind_assoc: "hs_bind (hs_bind f g) k = hs_bind f (\<lambda>x. hs_bind (g x) k)"
  by (rule ext) (auto simp: hs_bind_def split: prod.split sum.split)

lemma hs_bind_return: "hs_bind (hs_return x) k = k x"
  by (rule ext) (simp add: hs_bind_def hs_return_def)

lemma destroy_eqs: "MlKem_destroy = lib_free" "MlDsa_destroy = lib_free" "X25519_destroy = lib_free"
  by (rule ext, simp add: MlKem_destroy_def MlDsa_destroy_def X25519_destroy_def)+

lemma any_heap_frame: "any_heap l \<Longrightarrow> l p = None \<Longrightarrow> any_heap (l(p \<mapsto> ob))"
  by (simp add: any_heap_def)

lemma holds_at_frame: "holds_at q ob' l \<Longrightarrow> l p = None \<Longrightarrow> holds_at q ob' (l(p \<mapsto> ob))"
  by (auto simp: holds_at_def)

lemma X25519_local:
  assumes "x25519_documented E L"
    and "\<And>x p. refines E (\<lambda>l. P l \<and> holds_at p (Private_key x) l) (body p) (k x)"
    and "\<And>l p ob. P l \<Longrightarrow> l p = None \<Longrightarrow> P (l(p \<mapsto> ob))"
  shows "refines E P (hsa_local (X25519_create E r) lib_free body) (hs_bind (hs_lift Hs_crypto (x25519_new L r)) k)"
proof -
  have "handshake_class E (X25519_create E r) (x25519_new L r) Private_key"
    unfolding handshake_class_def library_class_def using X25519_create_spec [OF assms(1)] by blast
  then show ?thesis
    by (rule handshake_class.refines_local) (use assms(2,3) in auto)
qed

lemma client_refines:
  assumes "libs_documented E L"
  shows "refines E any_heap (client_handshake_calls E L i sd) (client_handshake L i sd)"
proof -
  have laws: "libs_sized L" "digests_fit L" "secrets_fit L" "x25519_documented E L" "kdf_documented E L"
    using assms by (simp_all add: libs_documented_def)
  show ?thesis
    unfolding client_handshake_calls_def client_handshake_def client_start_def client_finish_def hs_objects_def
      hs_bind_assoc hs_bind_return client_state.simps destroy_eqs
    by (intro kem_local.refines_local sig_local.refines_local X25519_local
        refines_bind refines_step refines_transcript refines_random
        refines_lift [OF MlKem_keypair_performs] refines_lift [OF X25519_public_key_performs]
        refines_lift [OF X25519_compute_shared_performs] refines_lift [OF MlKem_decaps_performs]
        refines_lift [OF session_keys_performs] refines_check [OF MlDsa_verify_performs]
        refines_lift [OF MlDsa_sign_performs] laws)
      (auto simp: any_heap_def intro: holds_at_frame)
qed

lemma server_refines:
  assumes "libs_documented E L"
  shows "refines E any_heap (server_handshake_calls E L i sd) (server_handshake L i sd)"
proof -
  have laws: "libs_sized L" "digests_fit L" "secrets_fit L" "x25519_documented E L" "kdf_documented E L"
    using assms by (simp_all add: libs_documented_def)
  show ?thesis
    unfolding server_handshake_calls_def server_handshake_def server_start_def server_finish_def hs_objects_def
      hs_bind_assoc hs_bind_return server_state.simps destroy_eqs
    by (intro kem_local.refines_local sig_local.refines_local X25519_local
        refines_bind refines_step refines_transcript refines_random
        refines_lift [OF MlKem_encaps_performs] refines_lift [OF X25519_public_key_performs]
        refines_lift [OF X25519_compute_shared_performs]
        refines_lift [OF session_keys_performs] refines_check [OF MlDsa_verify_performs]
        refines_lift [OF MlDsa_sign_performs] laws)
      (auto simp: any_heap_def intro: holds_at_frame)
qed

text \<open>
  C20. A handshake loses nothing.  Whatever calls of OpenSSL and liboqs fail, whatever the peer sends and
  wherever the connection breaks, both handshake functions use only objects that exist, write and read
  inside their buffers, and leave exactly the objects that were there before; and they return what
  the handshake over the abstract wrappers returns, with the same frames sent, or throw after a
  failed call.
\<close>

theorem handshake_frees_objects:
  assumes "libs_documented E L" and "objects_ok h"
  shows "(\<exists>r h'. client_handshake_calls E L i sd t h = Some (r, h') \<and> live h' = live h \<and>
      (r = client_handshake L i sd t \<or> isl (fst r) \<and> call_failed E h h')) \<and>
    (\<exists>r h'. server_handshake_calls E L i sd t h = Some (r, h') \<and> live h' = live h \<and>
      (r = server_handshake L i sd t \<or> isl (fst r) \<and> call_failed E h h'))"
  using client_refines [OF assms(1), of i sd] server_refines [OF assms(1), of i sd] assms(2)
  unfolding refines_def performs_def hs_throws_def any_heap_def by meson

lemma handshake_frees_objects_witness:
  "\<exists>r h'. client_handshake_calls (toy_evp 7) fit_libs \<lparr>sig_public = [1], sig_secret = [1], peer_sig_public = [2]\<rparr>
      \<lparr>sd_x25519 = 1, sd_kem = 2, sd_random = 3, sd_sign = 4\<rparr>
      \<lparr>t_in = [], t_out = [], t_send_fails = \<lambda>_. None\<rparr> no_objects = Some (r, h') \<and> live h' = Map.empty"
  using handshake_frees_objects [OF toy_documented no_objects_ok, of 7
      "\<lparr>sig_public = [1], sig_secret = [1], peer_sig_public = [2]\<rparr>"
      "\<lparr>sd_x25519 = 1, sd_kem = 2, sd_random = 3, sd_sign = 4\<rparr>"
      "\<lparr>t_in = [], t_out = [], t_send_fails = \<lambda>_. None\<rparr>"]
  by (auto simp: no_objects_def)

end
