(* ===== verification/Record_Calls.thy ===== *)
theory Record_Calls
  imports Lib_Calls
begin

section \<open>Records down to the library calls\<close>

text \<open>
  \<open>RecordSender::seal\<close> and \<open>RecordReceiver::open\<close> of \<open>crypto/src/record.cpp\<close> over the calls on a cipher
  context of \<open>Lib_Calls\<close>.
\<close>

definition RecordSender_seal ::
  "evp \<Rightarrow> record_sender \<Rightarrow> bytes \<Rightarrow> ((record_error + bytes) \<times> record_sender) act" where
  "RecordSender_seal E s plaintext =
     (if snd_seq s = seq_max then act_return (Inl Sequence_exhausted, s)
      else if 0xffff - kGcmTagLen < length plaintext then act_return (Inl Plaintext_too_long, s)
      else let header = record_header (length plaintext + kGcmTagLen)
        in act_bind (aes_gcm_seal_calls E (snd_key s) (make_nonce (snd_iv s) (snd_seq s)) header plaintext) (\<lambda>r.
           act_return (case r of
             Inl e \<Rightarrow> (Inl e, s)
           | Inr ct_tag \<Rightarrow> (Inr (header @ ct_tag), s\<lparr>snd_seq := snd_seq s + 1\<rparr>))))"

definition RecordReceiver_open ::
  "evp \<Rightarrow> record_receiver \<Rightarrow> bytes \<Rightarrow> ((record_error + bytes) \<times> record_receiver) act" where
  "RecordReceiver_open E r rec =
     (if rcv_seq r = seq_max then act_return (Inl Sequence_exhausted, r)
      else if length rec < 2 + kGcmTagLen then act_return (Inl Record_too_short, r)
      else let payload_len = unat (from_be16 (rec ! 0) (rec ! 1))
        in if length rec \<noteq> 2 + payload_len then act_return (Inl Record_length_mismatch, r)
           else if payload_len < kGcmTagLen then act_return (Inl Payload_shorter_than_tag, r)
           else let header = [rec ! 0, rec ! 1];
                    ct_len = payload_len - kGcmTagLen;
                    ct = take ct_len (drop 2 rec);
                    tag = take kGcmTagLen (drop (2 + ct_len) rec)
             in act_bind (aes_gcm_open_calls E (rcv_key r) (make_nonce (rcv_iv r) (rcv_seq r)) header ct tag) (\<lambda>res.
                act_return (case res of
                  Inl e \<Rightarrow> (Inl e, r)
                | Inr pt \<Rightarrow> (Inr pt, r\<lparr>rcv_seq := rcv_seq r + 1\<rparr>))))"

lemma seal_performs:
  assumes "libs_documented E L" and "length (snd_key s) = kAesKeyLen" and "length (snd_iv s) = kIvLen"
  shows "performs E any_heap (\<lambda>res. isl (fst res) \<and> snd res = s) (RecordSender_seal E s pt) (seal L s pt)"
proof -
  have "performs E any_heap isl
      (aes_gcm_seal_calls E (snd_key s) (make_nonce (snd_iv s) (snd_seq s)) (record_header (length pt + kGcmTagLen)) pt)
      (aes_gcm_seal L (snd_key s) (make_nonce (snd_iv s) (snd_seq s)) (record_header (length pt + kGcmTagLen)) pt)"
    using assms by (intro aes_gcm_seal_performs) (simp_all add: libs_documented_def record_consts length_make_nonce)
  note step = performs_bind [OF this]
  show ?thesis
    unfolding RecordSender_seal_def seal_def Let_def
    by (auto intro!: performs_return step simp: isl_def split: sum.split)
qed

lemma open_performs:
  assumes "libs_documented E L" and "length (rcv_key r) = kAesKeyLen" and "length (rcv_iv r) = kIvLen"
  shows "performs E any_heap (\<lambda>res. isl (fst res) \<and> snd res = r) (RecordReceiver_open E r rec) (open_record L r rec)"
proof -
  define n where "n = unat (from_be16 (rec ! 0) (rec ! 1))"
  define ct where "ct = take (n - kGcmTagLen) (drop 2 rec)"
  define tag where "tag = take kGcmTagLen (drop (2 + (n - kGcmTagLen)) rec)"
  show ?thesis
  proof (cases "length rec = 2 + n \<and> kGcmTagLen \<le> n")
    case True
    then have "length tag = 16"
      by (simp add: tag_def record_consts)
    then have "performs E any_heap isl
        (aes_gcm_open_calls E (rcv_key r) (make_nonce (rcv_iv r) (rcv_seq r)) [rec ! 0, rec ! 1] ct tag)
        (aes_gcm_open L (rcv_key r) (make_nonce (rcv_iv r) (rcv_seq r)) [rec ! 0, rec ! 1] ct tag)"
      using assms by (intro aes_gcm_open_performs) (simp_all add: libs_documented_def record_consts length_make_nonce)
    note step = performs_bind [OF this]
    show ?thesis
      unfolding RecordReceiver_open_def open_record_def Let_def n_def [symmetric] ct_def [symmetric] tag_def [symmetric]
      by (auto intro!: performs_return step simp: isl_def simp del: One_nat_def split: sum.split)
  next
    case False
    then show ?thesis
      unfolding RecordReceiver_open_def open_record_def Let_def n_def [symmetric]
      by (auto intro!: performs_return)
  qed
qed

text \<open>
  C19. Sealing and opening are memory-safe.  With the keys and initialization vectors that the
  constructors accept, whatever calls of OpenSSL fail and whatever bytes arrive as a record, both methods
  stay inside their buffers, free the cipher context on every path and use no other object; they return
  what the abstract record layer returns, or throw after a failed call, with the counter unchanged.
\<close>

theorem record_calls_safe:
  assumes "libs_documented E L" and "objects_ok h"
    and "new_sender sk siv = Inr s0" and "new_receiver rk riv = Inr r0"
  shows "(\<exists>r h'. RecordSender_seal E (s0\<lparr>snd_seq := n\<rparr>) pt h = Some (r, h') \<and> live h' = live h \<and>
      (r = seal L (s0\<lparr>snd_seq := n\<rparr>) pt \<or> isl (fst r) \<and> snd r = s0\<lparr>snd_seq := n\<rparr> \<and> call_failed E h h')) \<and>
    (\<exists>r h'. RecordReceiver_open E (r0\<lparr>rcv_seq := m\<rparr>) rec h = Some (r, h') \<and> live h' = live h \<and>
      (r = open_record L (r0\<lparr>rcv_seq := m\<rparr>) rec \<or> isl (fst r) \<and> snd r = r0\<lparr>rcv_seq := m\<rparr> \<and> call_failed E h h'))"
proof -
  have "length (snd_key (s0\<lparr>snd_seq := n\<rparr>)) = kAesKeyLen" "length (snd_iv (s0\<lparr>snd_seq := n\<rparr>)) = kIvLen"
    "length (rcv_key (r0\<lparr>rcv_seq := m\<rparr>)) = kAesKeyLen" "length (rcv_iv (r0\<lparr>rcv_seq := m\<rparr>)) = kIvLen"
    using assms(3,4) by (auto simp: new_sender_def new_receiver_def split: if_splits)
  note lengths = this
  have "performs E any_heap (\<lambda>res. isl (fst res) \<and> snd res = s0\<lparr>snd_seq := n\<rparr>)
      (RecordSender_seal E (s0\<lparr>snd_seq := n\<rparr>) pt) (seal L (s0\<lparr>snd_seq := n\<rparr>) pt)"
    by (rule seal_performs [OF assms(1) lengths(1,2)])
  moreover have "performs E any_heap (\<lambda>res. isl (fst res) \<and> snd res = r0\<lparr>rcv_seq := m\<rparr>)
      (RecordReceiver_open E (r0\<lparr>rcv_seq := m\<rparr>) rec) (open_record L (r0\<lparr>rcv_seq := m\<rparr>) rec)"
    by (rule open_performs [OF assms(1) lengths(3,4)])
  ultimately show ?thesis
    using assms(2) unfolding performs_def any_heap_def by meson
qed

lemma record_calls_safe_witness:
  "\<exists>s0 r h'. new_sender (replicate 32 1) (replicate 12 2) = Inr s0 \<and>
    RecordSender_seal (toy_evp 3) s0 [5] no_objects = Some (r, h') \<and> live h' = Map.empty"
proof -
  have s: "new_sender (replicate 32 1) (replicate 12 2) = Inr \<lparr>snd_key = replicate 32 1, snd_iv = replicate 12 2, snd_seq = 0\<rparr>"
    and r: "new_receiver (replicate 32 1) (replicate 12 2) = Inr \<lparr>rcv_key = replicate 32 1, rcv_iv = replicate 12 2, rcv_seq = 0\<rparr>"
    by (simp_all add: new_sender_def new_receiver_def record_consts)
  show ?thesis
    using record_calls_safe [OF toy_documented no_objects_ok s r, of 3 0 "[5]" 0 "[]"] s
    by (auto simp: no_objects_def)
qed

subsection \<open>The length check of the constructor is needed\<close>

text \<open>A key that is too short is read past its end.\<close>

lemma short_key_undefined:
  assumes "gcm_setup_documented E" and "length key < 32" and "\<forall>i. ev_ok E i" and "objects_ok h"
  shows "aes_gcm_seal_calls E key nonce aad pt h = None"
proof -
  have "0 < next_handle h"
    using assms(4) by (simp add: objects_ok_def)
  then show ?thesis
    using assms(1-3)
    by (simp add: gcm_setup_documented_def aes_gcm_seal_calls_def act_bind_def lib_new_def place_def nullptr_def
        seal_steps_def act_then_def act_try_def gcm_prepare_def gcm_init_key_def lib_call_def deref_def read_n_def)
qed

end
