(* ===== verification/Spec2Isabelle.thy ===== *)
theory Spec2Isabelle
  imports Correlator_Spec Events_File Wire Record_Layer Socket Handshake Pipeline Summary Channel_Sink
    Collector Detection Memo Eval Identity Daemon Recorder Agent Deployment Descriptors Kdf
    Crypto_Selftest Channel_Demo Analyzer_Selftest Alert_Output Prompt Report Bench
    Handshake_Calls Record_Calls
begin

text \<open>
  The program is an endpoint detection system.  An agent collects security events in the kernel (or
  replays them from a file), sends them through an authenticated and encrypted channel, and an
  analyzer classifies every event by rules, by sequences over time and by a language model in two
  tiers.  All paths below are under \<open>src/\<close>.

  \<^bold>\<open>Data.\<close>
  \<^item> \<open>Event\<close>: \<open>common/event.h\<close>, the event struct as a record whose union is a datatype, and its
    272-byte image in memory (\<open>event_image\<close>, \<open>event_of_image\<close>), which is what the channel carries.
  \<^item> \<open>Events_File\<close>: \<open>common/events_file.h\<close>, parser and printer of recorded events.
  \<^item> \<open>Cstdlib\<close>, \<open>Doubles\<close>, \<open>Messages\<close>: what the source uses of the C and C++ libraries (stream
    extraction, \<open>stoi\<close>, \<open>snprintf\<close> into a buffer, IPv4 text, decimal printing), and its message texts.
    \<open>Prelude\<close>: C strings in arrays, results as sums, generic lemmas and the named collections.

  \<^bold>\<open>Agent.\<close>
  \<^item> \<open>Collector\<close>: \<open>agent/bpf/collector.bpf.c\<close>, the three hooks; a call gets the kernel it sees.
  \<^item> \<open>Channel_Sink\<close>: the queue and thread of \<open>--forward\<close> in \<open>agent/src/main.cpp\<close>, a step relation in
    which every critical section under the mutex and every send is one step.
  \<^item> \<open>Recorder\<close>, \<open>Agent\<close>: the other sinks, watched files, synthetic set, replay, options, \<open>main\<close>.

  \<^bold>\<open>Channel\<close> (\<open>crypto/\<close>).
  \<^item> \<open>Crypto_Prims\<close>: the wrappers (\<open>pqc_kem.cpp\<close>, \<open>pqc_sig.cpp\<close>, \<open>x25519.cpp\<close>, \<open>kdf.cpp\<close>) and the key
    schedule (\<open>session.cpp\<close>); OpenSSL and liboqs are the record \<open>libs\<close> of functions, and what is
    relied on of them is a named predicate (\<open>kem_correct\<close>, \<open>gcm_correct\<close>, \<dots>).
  \<^item> \<open>Wire\<close> (\<open>wire.cpp\<close>), \<open>Record_Layer\<close> (\<open>record.cpp\<close>), \<open>Socket\<close> (\<open>socket.cpp\<close>), \<open>Handshake\<close>
    (\<open>handshake.cpp\<close>), \<open>Identity\<close> (\<open>identity.cpp\<close>, \<open>tools/keygen.cpp\<close>).  \<open>Descriptors\<close>: the system calls
    of \<open>socket.cpp\<close> and the descriptors they leave open; \<open>Kdf\<close>: the OpenSSL calls of \<open>kdf.cpp\<close>.
  \<^item> \<open>Lib_Objects\<close>, \<open>Lib_Calls\<close>, \<open>Record_Calls\<close>, \<open>Handshake_Calls\<close>: the same files call by call, with
    the objects that OpenSSL and liboqs hand out, the buffers, and a failure of any call; \<open>library_class\<close>
    is what a C++ class that owns such an object promises.  A vector's allocation does not fail.
  \<^item> \<open>Crypto_Selftest\<close>, \<open>Channel_Demo\<close>: the programs of \<open>crypto/examples/\<close> that test the library.
    \<open>Handshake_Threads\<close>, \<open>Bench\<close>: \<open>bench_handshake.cpp\<close>, its two threads over in-memory pipes as a step
    relation, and its measurements, statistics and report.

  \<^bold>\<open>Analyzer\<close> (\<open>analyzer/src/\<close>).
  \<^item> \<open>Prefilter\<close>, \<open>Summary\<close> (\<open>prefilter.cpp\<close>), \<open>Correlator\<close> (\<open>correlator.cpp\<close>), \<open>Alert\<close> (\<open>alert.cpp\<close>),
    \<open>Llm\<close> (\<open>llm_client.cpp\<close>, \<open>llm_client_claude.cpp\<close>; libcurl and the reading of replies are parameters),
    \<open>Pipeline\<close> (\<open>pipeline.cpp\<close>), \<open>Daemon\<close> (\<open>main.cpp\<close>), \<open>Memo\<close> and \<open>Eval\<close> (\<open>eval.cpp\<close>).
  \<^item> \<open>Correlator_Spec\<close> with \<open>Window_Deque\<close>: the stateless reading of the sequence rules over the whole
    past, and the refinement.  \<open>Detection\<close>: the kernel's hooks composed with the pipeline.
    \<open>Deployment\<close>: key generator, agent and daemon composed in their default configuration.
    \<open>Analyzer_Selftest\<close>: \<open>analyzer_selftest.cpp\<close> and \<open>llm_probe.cpp\<close>.
  \<^item> Output: \<open>Alert_Output\<close>, what \<open>emit_alert\<close> writes; \<open>Prompt\<close>, what the HTTPS client sends; \<open>Report\<close>
    with \<open>Double_Arith\<close> (rounded arithmetic) and \<open>Report_Messages\<close>, the evaluation's report, prices,
    JSON file and exit.  All go through \<open>Json\<close>, the serialiser of \<open>third_party/json/nlohmann/json.hpp\<close>;
    \<open>Json_Text\<close> reads its UTF-8 automaton and its escapes against the tables of the standards, and
    \<open>Json_Reader\<close> holds a reader for its output.

  \<^bold>\<open>What is shown.\<close>
  \<^item> The correlator's bounded, lazily swept state computes the stateless rules, and detected
    sequences become alerts whatever the model answers; silence needs a benign rule or a reply.
  \<^item> From the kernel to the alert: what the hooks submit is well formed, staged files that are run
    and watched files that are opened are alerted.
  \<^item> The handshake authenticates both sides and honest parties complete it; records open to the
    sealed plaintexts in order, and to nothing else; frames survive any segmentation.  Down to the library calls, nothing leaks, no
    object is used after it was freed and no buffer is overrun, whichever calls fail.
  \<^item> The queue loses only what it reports, in every interleaving; agent, channel and analyzer
    together process exactly the accepted events and the notices; the daemon is one pipeline over
    all its connections.
  \<^item> Text formats read back; buffers are never cut where they must not be; the evaluation's gate
    decides by the highest severity of each scenario; memoising does not change a decision.
  \<^item> The alert's JSON line and the request to the model are single lines of valid UTF-8 that read back,
    whatever bytes an event holds; a closing event tag in a file name stays one (\<open>tag_event_prompt\<close>).
    The report's tables add up and its amounts are accurate to the last printed decimal; a JSON report can fail on strings that are
    not UTF-8.  Two threads get through the handshake in every schedule.
  \<^item> The repository's own tests and demos pass: the ones of the channel for all libraries that satisfy
    the stated laws, the one of the pipeline with the outcome of each of its events.

  \<^bold>\<open>Interfaces.\<close>  Locales state the contracts between parts (message codecs, framing, the record
  channel, clients of the language model, bounded windows); each is interpreted on the model's own
  operations in the theory that provides them.

  \<^bold>\<open>Termination.\<close>  No fuel is used: the loops that read a socket end because each read takes something
  off the finite list of deliveries (\<open>rx_weight\<close>), text loops because the text shrinks.

  \<^bold>\<open>Not modelled.\<close>  Log lines of the daemons, and the lines the self-tests print; loading of the kernel
  programs beyond whether it succeeds; of the vendored JSON library all but the serialiser, and of
  that the digits of fractional numbers.
\<close>

end
